(* ===== verification/Prelude.thy ===== *)
theory Prelude
  imports Main "HOL-Library.List_Lexorder" "HOL-Library.Char_ord" "HOL-Library.Product_Lexorder"
    "HOL-Library.AList" "HOL-Library.Sublist"
begin

text \<open>
  What every component shares: the exceptions of the program and a state-and-exception
  reading of its Python code, the string operations the code uses, decimal printing, and the
  two ways of saying what a piece of code leaves alone (\<open>keeps\<close>) and what it preserves
  (\<open>pres\<close>), each closed under the control structure in a collection of its own.
\<close>

section \<open>Collections\<close>

named_theorems pres_rules \<open>rules for preservation of a predicate by a program\<close>
named_theorems keeps_rules \<open>rules for programs that leave a component alone\<close>
named_theorems prog_simps \<open>equations that run a program on a state\<close>
named_theorems fake_simps \<open>equations that run one command on the simulator\<close>

section \<open>Exceptions and programs\<close>

text \<open>
  The exceptions the code raises or catches. State changes made before a raise stay, as they
  do in Python, so a program returns its final state on both exits.
\<close>

datatype exn =
    HTTPException int string
  | PrivopsError string
  | RuntimeError string
  | ValueError string
  | TypeError string
  | IndexError
  | KeyError string
  | OSError string
  | RqliteError string
  | StopIteration
  | AttributeError string
  | SubprocessError string
  | SystemExit string

type_synonym ('s, 'a) prog = "'s \<Rightarrow> (exn + 'a) \<times> 's"

definition ret :: "'a \<Rightarrow> ('s, 'a) prog" where
  "ret x = (\<lambda>s. (Inr x, s))"

definition raise :: "exn \<Rightarrow> ('s, 'a) prog" where
  "raise e = (\<lambda>s. (Inl e, s))"

definition bnd :: "('s, 'a) prog \<Rightarrow> ('a \<Rightarrow> ('s, 'b) prog) \<Rightarrow> ('s, 'b) prog" where
  "bnd m f = (\<lambda>s. case m s of (Inl e, t) \<Rightarrow> (Inl e, t) | (Inr x, t) \<Rightarrow> f x t)"

definition andThen :: "('s, 'a) prog \<Rightarrow> ('s, 'b) prog \<Rightarrow> ('s, 'b) prog" where
  "andThen m n = bnd m (\<lambda>_. n)"

definition except :: "('s, 'a) prog \<Rightarrow> (exn \<Rightarrow> ('s, 'a) prog) \<Rightarrow> ('s, 'a) prog" where
  "except m h = (\<lambda>s. case m s of (Inl e, t) \<Rightarrow> h e t | (Inr x, t) \<Rightarrow> (Inr x, t))"

definition gets :: "('s \<Rightarrow> 'a) \<Rightarrow> ('s, 'a) prog" where
  "gets f = (\<lambda>s. (Inr (f s), s))"

definition modify :: "('s \<Rightarrow> 's) \<Rightarrow> ('s, unit) prog" where
  "modify f = (\<lambda>s. (Inr (), f s))"

definition of_sum :: "exn + 'a \<Rightarrow> ('s, 'a) prog" where
  "of_sum r = (\<lambda>s. (r, s))"

primrec for_each :: "'x list \<Rightarrow> ('x \<Rightarrow> ('s, unit) prog) \<Rightarrow> ('s, unit) prog" where
  "for_each [] f = ret ()"
| "for_each (x # xs) f = andThen (f x) (for_each xs f)"

primrec map_prog :: "('x \<Rightarrow> ('s, 'y) prog) \<Rightarrow> 'x list \<Rightarrow> ('s, 'y list) prog" where
  "map_prog f [] = ret []"
| "map_prog f (x # xs) = bnd (f x) (\<lambda>y. bnd (map_prog f xs) (\<lambda>ys. ret (y # ys)))"

text \<open>Run a program on one component of a larger state.\<close>

definition zoom :: "('s \<Rightarrow> 't) \<Rightarrow> (('t \<Rightarrow> 't) \<Rightarrow> 's \<Rightarrow> 's) \<Rightarrow> ('t, 'a) prog \<Rightarrow> ('s, 'a) prog" where
  "zoom sel upd m = (\<lambda>s. case m (sel s) of (r, t) \<Rightarrow> (r, upd (\<lambda>_. t) s))"

lemma ret_run [simp, prog_simps]: "ret x s = (Inr x, s)"
  by (simp add: ret_def)

lemma raise_run [simp, prog_simps]: "raise e s = (Inl e, s)"
  by (simp add: raise_def)

lemma gets_run [simp, prog_simps]: "gets f s = (Inr (f s), s)"
  by (simp add: gets_def)

lemma modify_run [simp, prog_simps]: "modify f s = (Inr (), f s)"
  by (simp add: modify_def)

lemma of_sum_run [simp, prog_simps]: "of_sum r s = (r, s)"
  by (simp add: of_sum_def)

lemma bnd_ok: "m s = (Inr x, t) \<Longrightarrow> bnd m f s = f x t"
  by (simp add: bnd_def)

lemma bnd_err: "m s = (Inl e, t) \<Longrightarrow> bnd m f s = (Inl e, t)"
  by (simp add: bnd_def)

lemma andThen_ok: "m s = (Inr x, t) \<Longrightarrow> andThen m n s = n t"
  by (simp add: andThen_def bnd_def)

lemma except_ok: "m s = (Inr x, t) \<Longrightarrow> except m h s = (Inr x, t)"
  by (simp add: except_def)

lemma except_err: "m s = (Inl e, t) \<Longrightarrow> except m h s = h e t"
  by (simp add: except_def)

lemma bnd_run [prog_simps]:
  "bnd m f s = (case m s of (Inl e, t) \<Rightarrow> (Inl e, t) | (Inr x, t) \<Rightarrow> f x t)"
  by (simp add: bnd_def)

lemma andThen_run [prog_simps]:
  "andThen m n s = (case m s of (Inl e, t) \<Rightarrow> (Inl e, t) | (Inr x, t) \<Rightarrow> n t)"
  by (simp add: andThen_def bnd_def)

lemma andThen_assoc: "andThen a (andThen b c) = andThen (andThen a b) c"
  by (rule ext) (auto simp: andThen_run split: prod.splits sum.splits)

lemma bnd_assoc: "bnd (bnd m f) g = bnd m (\<lambda>x. bnd (f x) g)"
  by (rule ext) (simp add: bnd_run split: prod.splits sum.splits)

lemma except_run [prog_simps]:
  "except m h s = (case m s of (Inl e, t) \<Rightarrow> h e t | (Inr x, t) \<Rightarrow> (Inr x, t))"
  by (simp add: except_def)

lemma zoom_run [prog_simps]: "zoom sel upd m s = (case m (sel s) of (r, t) \<Rightarrow> (r, upd (\<lambda>_. t) s))"
  by (simp add: zoom_def)

lemma for_each_append:
  "for_each (xs @ ys) f s = andThen (for_each xs f) (for_each ys f) s"
proof (induction xs arbitrary: s)
  case Nil
  then show ?case by (simp add: andThen_run)
next
  case (Cons x xs)
  then show ?case by (auto simp: andThen_run split: prod.splits sum.splits)
qed

text \<open>A loop whose body always returns applies the body's effect for each element in turn.\<close>

lemma for_each_total:
  assumes "\<And>x s. P s \<Longrightarrow> f x s = (Inr (), g x s)" and "\<And>x s. P s \<Longrightarrow> P (g x s)" and "P s"
  shows "for_each xs f s = (Inr (), fold g xs s)"
  using assms(3)
proof (induction xs arbitrary: s)
  case Nil
  then show ?case by simp
next
  case (Cons x xs)
  then show ?case by (simp add: andThen_run assms(1,2))
qed

section \<open>Preservation and frames\<close>

definition pres :: "('s \<Rightarrow> bool) \<Rightarrow> ('s, 'a) prog \<Rightarrow> bool" where
  "pres P m \<longleftrightarrow> (\<forall>s. P s \<longrightarrow> P (snd (m s)))"

definition keeps :: "('s \<Rightarrow> 'c) \<Rightarrow> ('s, 'a) prog \<Rightarrow> bool" where
  "keeps f m \<longleftrightarrow> (\<forall>s. f (snd (m s)) = f s)"

lemma presD: "pres P m \<Longrightarrow> m s = (r, t) \<Longrightarrow> P s \<Longrightarrow> P t"
  by (metis pres_def snd_conv)

lemma keepsD: "keeps f m \<Longrightarrow> m s = (r, t) \<Longrightarrow> f t = f s"
  by (metis keeps_def snd_conv)

lemma keeps_snd: "keeps f m \<Longrightarrow> f (snd (m s)) = f s"
  by (simp add: keeps_def)

lemma pres_ret [pres_rules]: "pres P (ret x)"
  by (simp add: pres_def)

lemma pres_raise [pres_rules]: "pres P (raise e)"
  by (simp add: pres_def)

lemma pres_gets [pres_rules]: "pres P (gets f)"
  by (simp add: pres_def)

lemma pres_of_sum [pres_rules]: "pres P (of_sum r)"
  by (simp add: pres_def)

lemma pres_bnd [pres_rules]: "pres P m \<Longrightarrow> (\<And>x. pres P (f x)) \<Longrightarrow> pres P (bnd m f)"
  by (auto simp: pres_def bnd_run split: prod.splits sum.splits)

lemma pres_andThen [pres_rules]: "pres P m \<Longrightarrow> pres P n \<Longrightarrow> pres P (andThen m n)"
  by (simp add: andThen_def pres_bnd)

lemma pres_except [pres_rules]: "pres P m \<Longrightarrow> (\<And>e. pres P (h e)) \<Longrightarrow> pres P (except m h)"
  by (auto simp: pres_def except_run split: prod.splits sum.splits)

lemma pres_if [pres_rules]: "(b \<Longrightarrow> pres P m) \<Longrightarrow> (\<not> b \<Longrightarrow> pres P n) \<Longrightarrow> pres P (if b then m else n)"
  by simp

lemma pres_option [pres_rules]:
  "(x = None \<Longrightarrow> pres P m) \<Longrightarrow> (\<And>y. x = Some y \<Longrightarrow> pres P (f y)) \<Longrightarrow>
   pres P (case x of None \<Rightarrow> m | Some y \<Rightarrow> f y)"
  by (cases x) auto

lemma pres_for_each [pres_rules]: "(\<And>x. x \<in> set xs \<Longrightarrow> pres P (f x)) \<Longrightarrow> pres P (for_each xs f)"
  by (induction xs) (auto intro: pres_ret pres_andThen)

lemma pres_map_prog [pres_rules]: "(\<And>x. pres P (f x)) \<Longrightarrow> pres P (map_prog f xs)"
  by (induction xs) (auto intro: pres_ret pres_bnd)

lemma keeps_iff_pres: "keeps f m \<longleftrightarrow> (\<forall>c. pres (\<lambda>s. f s = c) m)"
  by (auto simp: keeps_def pres_def)

lemma keeps_ret [keeps_rules]: "keeps f (ret x)"
  by (simp add: keeps_def)

lemma keeps_raise [keeps_rules]: "keeps f (raise e)"
  by (simp add: keeps_def)

lemma keeps_gets [keeps_rules]: "keeps f (gets g)"
  by (simp add: keeps_def)

lemma keeps_of_sum [keeps_rules]: "keeps f (of_sum r)"
  by (simp add: keeps_def)

lemma keeps_bnd [keeps_rules]: "keeps g m \<Longrightarrow> (\<And>x. keeps g (f x)) \<Longrightarrow> keeps g (bnd m f)"
  by (simp add: keeps_iff_pres pres_bnd)

lemma keeps_andThen [keeps_rules]: "keeps g m \<Longrightarrow> keeps g n \<Longrightarrow> keeps g (andThen m n)"
  by (simp add: keeps_iff_pres pres_andThen)

lemma keeps_except [keeps_rules]: "keeps g m \<Longrightarrow> (\<And>e. keeps g (h e)) \<Longrightarrow> keeps g (except m h)"
  by (simp add: keeps_iff_pres pres_except)

lemma keeps_if [keeps_rules]:
  "(b \<Longrightarrow> keeps g m) \<Longrightarrow> (\<not> b \<Longrightarrow> keeps g n) \<Longrightarrow> keeps g (if b then m else n)"
  by simp

lemma keeps_option [keeps_rules]:
  "(x = None \<Longrightarrow> keeps g m) \<Longrightarrow> (\<And>y. x = Some y \<Longrightarrow> keeps g (f y)) \<Longrightarrow>
   keeps g (case x of None \<Rightarrow> m | Some y \<Rightarrow> f y)"
  by (cases x) auto

lemma keeps_prod [keeps_rules]:
  "(\<And>a b. p = (a, b) \<Longrightarrow> keeps g (f a b)) \<Longrightarrow> keeps g (case p of (a, b) \<Rightarrow> f a b)"
  by (cases p) auto

lemma keeps_for_each [keeps_rules]: "(\<And>x. keeps g (f x)) \<Longrightarrow> keeps g (for_each xs f)"
  by (simp add: keeps_iff_pres pres_for_each)

lemma keeps_map_prog [keeps_rules]: "(\<And>x. keeps g (f x)) \<Longrightarrow> keeps g (map_prog f xs)"
  by (simp add: keeps_iff_pres pres_map_prog)

lemma keeps_modify: "(\<And>s. g (f s) = g s) \<Longrightarrow> keeps g (modify f)"
  by (simp add: keeps_def)

lemma keeps_zoom: "(\<And>t s. g (upd (\<lambda>_. t) s) = g s) \<Longrightarrow> keeps g (zoom sel upd m)"
  by (auto simp: keeps_def zoom_run split: prod.splits)

section \<open>Refinement\<close>

text \<open>An abstract machine whose steps are partial, run over a list of operations; programs that
  simulate it one operation at a time simulate it over the list, and none of them fails.\<close>

primrec abs_run :: "('o \<Rightarrow> 'a \<Rightarrow> 'a option) \<Rightarrow> 'o list \<Rightarrow> 'a \<Rightarrow> 'a option" where
  "abs_run f [] a = Some a"
| "abs_run f (x # xs) a = (case f x a of None \<Rightarrow> None | Some b \<Rightarrow> abs_run f xs b)"

locale simulation =
  fixes conc :: "'o \<Rightarrow> ('s, unit) prog" and absr :: "'o \<Rightarrow> 'a \<Rightarrow> 'a option" and rel :: "'a \<Rightarrow> 's \<Rightarrow> bool"
  assumes step: "rel a s \<Longrightarrow> absr x a = Some b \<Longrightarrow> \<exists>t. conc x s = (Inr (), t) \<and> rel b t"
begin

lemma runs: "rel a s \<Longrightarrow> abs_run absr xs a = Some b \<Longrightarrow> \<exists>t. for_each xs conc s = (Inr (), t) \<and> rel b t"
proof (induction xs arbitrary: a s)
  case Nil
  then show ?case by simp
next
  case (Cons x xs)
  then obtain c where c: "absr x a = Some c" "abs_run absr xs c = Some b" by (auto split: option.splits)
  from step [OF Cons.prems(1) c(1)] obtain t where "conc x s = (Inr (), t)" "rel c t" by blast
  with Cons.IH [OF this(2) c(2)] show ?case by (simp add: andThen_run)
qed

end

end
