(* ===== verification/PrivopsFake.thy ===== *)
theory PrivopsFake
  imports PyStr
begin

text \<open>
  \<open>nyc/client/privops_fake.py\<close>: the in-memory simulator behind \<open>NYC_BACKEND=fake\<close>. Its
  \<open>STATE\<close> dictionary is the record \<open>fstate\<close>; each handler is a program on it, with Python's
  index and key errors as exceptions. No handler reads its \<open>_input\<close>, so it is not a
  parameter here. A dictionary that is iterated is an association list in insertion order;
  one that is only looked up is a map. What a handler prints is text, or, for \<open>lvs\<close>,
  \<open>vgs\<close> and \<open>pvs\<close>, the value given to \<open>json.dumps\<close>: \<open>Json kind rows\<close> stands for the text
  of \<open>{"report": [{kind: rows}]}\<close>, which \<open>json.loads\<close> reads back.
\<close>

section \<open>State\<close>

datatype stdout = Text string | Json string "(string \<times> string) list list"

record link =
  l_netns :: "string option"
  l_kind :: string
  l_peer :: "string option"
  l_master :: "string option"
  l_address :: "string option"

record lvrec =
  lv_size :: int
  lv_pool :: "string option"
  lv_origin :: "string option"
  lv_attr :: string

record ipt =
  chains :: "string set"
  builtin :: "string set"
  rules :: "string \<Rightarrow> string list list option"

record fstate =
  f_netns :: "string option set"
  f_links :: "string \<Rightarrow> link option"
  f_addrs :: "string \<Rightarrow> string list option"
  f_routes :: "string list list"
  f_bridges :: "string set"
  f_files :: "string \<Rightarrow> int option"
  f_mounts :: "string \<Rightarrow> string option"
  f_socks :: "string \<Rightarrow> (string \<times> bool) option"
  f_sysctl :: "string \<Rightarrow> string option"
  f_fdb :: "string \<Rightarrow> (string \<times> string) set option"
  f_debugfs :: "string list list"
  f_loops :: "(string \<times> string) list"
  f_pvs :: "string set"
  f_vgs :: "string set"
  f_lvs :: "((string \<times> string) \<times> lvrec) list"
  f_ipt :: "string \<Rightarrow> ipt option"

type_synonym cmd = "string list \<Rightarrow> (fstate, stdout) prog"

definition new_link :: "string option \<Rightarrow> string \<Rightarrow> string option \<Rightarrow> link" where
  "new_link ns kind peer = \<lparr>l_netns = ns, l_kind = kind, l_peer = peer, l_master = None, l_address = None\<rparr>"

definition ipt_builtin :: "string \<Rightarrow> string set option" where
  "ipt_builtin = [''filter'' \<mapsto> {''INPUT'', ''FORWARD'', ''OUTPUT''},
                  ''nat'' \<mapsto> {''PREROUTING'', ''INPUT'', ''OUTPUT'', ''POSTROUTING''}]"

definition reset_state :: fstate where
  "reset_state =
     \<lparr>f_netns = {}, f_links = Map.empty, f_addrs = Map.empty, f_routes = [], f_bridges = {},
      f_files = Map.empty, f_mounts = Map.empty, f_socks = Map.empty, f_sysctl = Map.empty,
      f_fdb = Map.empty, f_debugfs = [], f_loops = [], f_pvs = {}, f_vgs = {}, f_lvs = [],
      f_ipt = (\<lambda>t. map_option (\<lambda>c. \<lparr>chains = c, builtin = c, rules = Map.empty\<rparr>) (ipt_builtin t))\<rparr>"

section \<open>Reading the argument vector\<close>

definition arg :: "'a list \<Rightarrow> nat \<Rightarrow> exn + 'a" where
  "arg xs i = (if i < length xs then Inr (xs ! i) else Inl IndexError)"

text \<open>\<open>argv[argv.index(k) + n]\<close>\<close>

fun kw :: "nat \<Rightarrow> string \<Rightarrow> string list \<Rightarrow> exn + string" where
  "kw n k [] = Inl (ValueError (k @ '' is not in list''))"
| "kw n k (x # xs) = (if x = k then arg (x # xs) n else kw n k xs)"

definition ok :: "(fstate \<Rightarrow> fstate) \<Rightarrow> (fstate, stdout) prog" where
  "ok f = andThen (modify f) (ret (Text []))"

definition nothing :: "(fstate, stdout) prog" where
  "nothing = ret (Text [])"

definition split2 :: "string \<Rightarrow> exn + (string \<times> string)" where
  "split2 s = (case split_on (CHR ''/'') s of
                 [a, b] \<Rightarrow> Inr (a, b)
               | _ \<Rightarrow> Inl (ValueError ''wrong number of values to unpack''))"

definition parse_int :: "string \<Rightarrow> exn + int" where
  "parse_int s =
     (case s of
        [] \<Rightarrow> Inl (ValueError s)
      | c # ds \<Rightarrow>
          if c = CHR ''-'' \<and> all_digits ds then Inr (- int (int_of_digits ds))
          else if c = CHR ''+'' \<and> all_digits ds then Inr (int (int_of_digits ds))
          else if all_digits s then Inr (int (int_of_digits s))
          else Inl (ValueError s))"

definition rstrip_chars :: "string \<Rightarrow> string \<Rightarrow> string" where
  "rstrip_chars cs s = rev (dropWhile (\<lambda>c. c \<in> set cs) (rev s))"

text \<open>\<open>int(float(s.lstrip("+").rstrip("mMgGkK")))\<close>: the digits before a decimal point.\<close>

definition parse_m :: "string \<Rightarrow> exn + int" where
  "parse_m s =
     parse_int (hd (split_on (CHR ''.'') (rstrip_chars ''mMgGkK'' (dropWhile (\<lambda>c. c = CHR ''+'') s))))"

section \<open>ip\<close>

definition netns_cmd :: cmd where
  "netns_cmd argv =
     (let op = (if length argv > 2 then argv ! 2 else ''list'');
          name = (if length argv > 3 then Some (argv ! 3) else None)
      in if op = ''add'' then ok (\<lambda>s. s\<lparr>f_netns := insert name (f_netns s)\<rparr>)
         else if op = ''del'' \<or> op = ''delete'' then
           ok (\<lambda>s. let dead = (\<lambda>l. \<exists>m. f_links s l = Some m \<and> l_netns m = name) in
                  s\<lparr>f_netns := f_netns s - {name},
                    f_links := (\<lambda>l. if dead l then None else f_links s l),
                    f_addrs := (\<lambda>l. if dead l then None else f_addrs s l)\<rparr>)
         else if op = ''list'' then
           bnd (gets f_netns) (\<lambda>ns.
             if None \<in> ns then raise (TypeError ''netns name'')
             else ret (Text (join [newline] (sorted_list_of_set (the ` ns))
                             @ (if ns = {} then [] else [newline]))))
         else nothing)"

definition link_add :: "string \<Rightarrow> string \<Rightarrow> string option \<Rightarrow> fstate \<Rightarrow> fstate" where
  "link_add name kind peer s =
     s\<lparr>f_links := (let ls = (f_links s)(name \<mapsto> new_link None kind peer) in
         case peer of None \<Rightarrow> ls
         | Some p \<Rightarrow> if p = [] then ls else ls(p \<mapsto> new_link None ''veth'' (Some name)))\<rparr>"

definition link_upd :: "string \<Rightarrow> (link \<Rightarrow> link) \<Rightarrow> fstate \<Rightarrow> fstate" where
  "link_upd name f s = s\<lparr>f_links := (f_links s)(name := map_option f (f_links s name))\<rparr>"

definition link_default :: "string \<Rightarrow> fstate \<Rightarrow> fstate" where
  "link_default name s =
     (case f_links s name of
        None \<Rightarrow> s\<lparr>f_links := (f_links s)(name \<mapsto> new_link None ''tap'' None)\<rparr>
      | Some _ \<Rightarrow> s)"

definition link_del :: "string \<Rightarrow> fstate \<Rightarrow> fstate" where
  "link_del name s = s\<lparr>f_links := (f_links s)(name := None), f_addrs := (f_addrs s)(name := None)\<rparr>"

definition link_set_kw ::
  "string \<Rightarrow> string list \<Rightarrow> string \<Rightarrow> (string \<Rightarrow> link \<Rightarrow> link) \<Rightarrow> (fstate, unit) prog" where
  "link_set_kw name argv k f =
     (if k \<in> set argv then bnd (of_sum (kw 1 k argv)) (\<lambda>v. modify (link_upd name (f v))) else ret ())"

definition link_cmd :: cmd where
  "link_cmd argv =
     bnd (of_sum (arg argv 2)) (\<lambda>op.
       if op = ''add'' then
         bnd (of_sum (arg argv 3)) (\<lambda>name.
         bnd (if ''type'' \<in> set argv then of_sum (kw 1 ''type'' argv) else ret ''veth'') (\<lambda>kind.
         bnd (if ''peer'' \<in> set argv then bnd (of_sum (kw 2 ''peer'' argv)) (\<lambda>p. ret (Some p))
              else ret None) (\<lambda>peer.
         ok (link_add name kind peer))))
       else if op = ''set'' then
         bnd (of_sum (arg argv 3)) (\<lambda>name.
         andThen (modify (link_default name))
        (andThen (link_set_kw name argv ''netns'' (\<lambda>v m. m\<lparr>l_netns := Some v\<rparr>))
        (andThen (link_set_kw name argv ''master'' (\<lambda>v m. m\<lparr>l_master := Some v\<rparr>))
        (andThen (link_set_kw name argv ''address'' (\<lambda>v m. m\<lparr>l_address := Some v\<rparr>))
                 nothing))))
       else if op = ''del'' \<or> op = ''delete'' then
         bnd (of_sum (arg argv 3)) (\<lambda>name. ok (link_del name))
       else nothing)"

definition addr_cmd :: cmd where
  "addr_cmd argv =
     bnd (of_sum (arg argv 2)) (\<lambda>op.
       if op = ''add'' then
         bnd (of_sum (arg argv 3)) (\<lambda>ip.
         bnd (of_sum (kw 1 ''dev'' argv)) (\<lambda>dev.
         ok (\<lambda>s. s\<lparr>f_addrs := (f_addrs s)(dev \<mapsto>
                    (case f_addrs s dev of None \<Rightarrow> [] | Some l \<Rightarrow> l) @ [ip])\<rparr>)))
       else if op = ''del'' then
         bnd (of_sum (arg argv 3)) (\<lambda>ip.
         bnd (of_sum (kw 1 ''dev'' argv)) (\<lambda>dev.
         ok (\<lambda>s. s\<lparr>f_addrs := (f_addrs s)(dev := map_option (remove1 ip) (f_addrs s dev))\<rparr>)))
       else if op = ''show'' then
         bnd (if ''dev'' \<in> set argv then of_sum (kw 1 ''dev'' argv) else ret []) (\<lambda>dev.
         if dev = [] then nothing
         else gets (\<lambda>s. Text (join [newline] (map (\<lambda>a. ''    inet '' @ a)
                                (case f_addrs s dev of None \<Rightarrow> [] | Some l \<Rightarrow> l)))))
       else nothing)"

definition route_cmd :: cmd where
  "route_cmd argv =
     bnd (of_sum (arg argv 2)) (\<lambda>op.
       if op = ''add'' then ok (\<lambda>s. s\<lparr>f_routes := f_routes s @ [drop 3 argv]\<rparr>)
       else if op = ''del'' then ok (\<lambda>s. s\<lparr>f_routes := filter (\<lambda>r. r \<noteq> drop 3 argv) (f_routes s)\<rparr>)
       else nothing)"

definition tuntap_cmd :: cmd where
  "tuntap_cmd argv =
     bnd (of_sum (arg argv 2)) (\<lambda>op.
       if op = ''add'' then
         bnd (of_sum (kw 1 ''dev'' argv)) (\<lambda>name.
         ok (\<lambda>s. s\<lparr>f_links := (f_links s)(name \<mapsto> new_link None ''tap'' None)\<rparr>))
       else if op = ''del'' then
         bnd (of_sum (kw 1 ''dev'' argv)) (\<lambda>name. ok (\<lambda>s. s\<lparr>f_links := (f_links s)(name := None)\<rparr>))
       else nothing)"

definition ip_sub :: "string \<Rightarrow> cmd option" where
  "ip_sub = [''netns'' \<mapsto> netns_cmd, ''link'' \<mapsto> link_cmd, ''addr'' \<mapsto> addr_cmd, ''route'' \<mapsto> route_cmd,
             ''tuntap'' \<mapsto> tuntap_cmd]"

text \<open>\<open>_ip\<close>, but for \<open>netns exec\<close>, which \<open>fake_run\<close> below sends round again.\<close>

definition ip_cmd :: cmd where
  "ip_cmd argv =
     (if length argv < 2 then nothing
      else (case ip_sub (argv ! 1) of None \<Rightarrow> nothing | Some f \<Rightarrow> f argv))"

section \<open>Files, processes, kernel settings\<close>

definition brctl_cmd :: cmd where
  "brctl_cmd argv =
     bnd (of_sum (arg argv 1)) (\<lambda>op.
       if op = ''addbr'' then
         bnd (of_sum (arg argv 2)) (\<lambda>b. ok (\<lambda>s. s\<lparr>f_bridges := insert b (f_bridges s)\<rparr>))
       else if op = ''delbr'' then
         bnd (of_sum (arg argv 2)) (\<lambda>b. ok (\<lambda>s. s\<lparr>f_bridges := f_bridges s - {b}\<rparr>))
       else nothing)"

definition mkfs_cmd :: cmd where
  "mkfs_cmd argv =
     ok (\<lambda>s. s\<lparr>f_files := (f_files s)(last argv \<mapsto> (case f_files s (last argv) of None \<Rightarrow> 0 | Some n \<Rightarrow> n))\<rparr>)"

definition truncate_cmd :: cmd where
  "truncate_cmd argv =
     bnd (of_sum (kw 1 ''-s'' argv)) (\<lambda>size_str.
     bnd (of_sum (parse_int (rstrip_chars ''MGK'' size_str))) (\<lambda>n.
     ok (\<lambda>s. s\<lparr>f_files := (f_files s)(last argv \<mapsto> n * (if endswith size_str ''M'' then 1048576 else 1))\<rparr>)))"

definition mount_cmd :: cmd where
  "mount_cmd argv =
     (if length argv < 2 then raise IndexError
      else ok (\<lambda>s. s\<lparr>f_mounts := (f_mounts s)(last argv \<mapsto> last (butlast argv))\<rparr>))"

definition umount_cmd :: cmd where
  "umount_cmd argv = ok (\<lambda>s. s\<lparr>f_mounts := (f_mounts s)(last argv := None)\<rparr>)"

text \<open>\<open>str(Path(p).parent)\<close>\<close>

definition dir_of :: "string \<Rightarrow> string" where
  "dir_of p =
     (let d = butlast (split_on (CHR ''/'') p)
      in if d = [] then ''.'' else if d = [[]] then ''/'' else join ''/'' d)"

definition firecracker_cmd :: cmd where
  "firecracker_cmd argv =
     bnd (of_sum (kw 1 ''--api-sock'' argv)) (\<lambda>sock.
     ok (\<lambda>s. s\<lparr>f_socks := (f_socks s)(sock \<mapsto> (dir_of sock, True))\<rparr>))"

definition kill_cmd :: cmd where
  "kill_cmd argv = nothing"

definition debugfs_cmd :: cmd where
  "debugfs_cmd argv = ok (\<lambda>s. s\<lparr>f_debugfs := f_debugfs s @ [argv]\<rparr>)"

definition sysctl_cmd :: cmd where
  "sysctl_cmd argv =
     (if ''-w'' \<in> set argv then
        bnd (of_sum (kw 1 ''-w'' argv)) (\<lambda>kv.
        ok (\<lambda>s. s\<lparr>f_sysctl := (f_sysctl s)
             (takeWhile (\<lambda>c. c \<noteq> CHR ''='') kv \<mapsto> drop 1 (dropWhile (\<lambda>c. c \<noteq> CHR ''='') kv))\<rparr>))
      else nothing)"

definition fdb_line :: "string \<Rightarrow> string \<times> string \<Rightarrow> string" where
  "fdb_line dev e = fst e @ '' dev '' @ dev @ '' dst '' @ snd e @ '' self permanent''"

definition fdb_of :: "fstate \<Rightarrow> string \<Rightarrow> (string \<times> string) set" where
  "fdb_of s dev = (case f_fdb s dev of None \<Rightarrow> {} | Some b \<Rightarrow> b)"

definition bridge_cmd :: cmd where
  "bridge_cmd argv =
     (if length argv < 3 \<or> argv ! 1 \<noteq> ''fdb'' then nothing
      else bnd (of_sum (kw 1 ''dev'' argv)) (\<lambda>dev.
        if argv ! 2 = ''show'' then
          gets (\<lambda>s. Text (concat (map (\<lambda>e. fdb_line dev e @ [newline]) (sorted_list_of_set (fdb_of s dev)))))
        else
          bnd (of_sum (arg argv 3)) (\<lambda>mac.
          bnd (of_sum (kw 1 ''dst'' argv)) (\<lambda>dst.
          ok (\<lambda>s. s\<lparr>f_fdb := (f_fdb s)(dev \<mapsto>
               (if argv ! 2 \<in> {''append'', ''add'', ''replace''}
                then insert (mac, dst) (fdb_of s dev) else fdb_of s dev - {(mac, dst)}))\<rparr>)))))"

section \<open>iptables\<close>

type_synonym ipt_op = "string list \<Rightarrow> (ipt, stdout) prog"

definition ipt_rules :: "ipt \<Rightarrow> string \<Rightarrow> string list list" where
  "ipt_rules t c = (case rules t c of None \<Rightarrow> [] | Some rs \<Rightarrow> rs)"

definition ipt_new :: ipt_op where
  "ipt_new a = bnd (of_sum (arg a 0)) (\<lambda>c.
     andThen (modify (\<lambda>t. t\<lparr>chains := insert c (chains t), rules := (rules t)(c \<mapsto> ipt_rules t c)\<rparr>))
             (ret (Text [])))"

definition ipt_list :: ipt_op where
  "ipt_list a = bnd (gets chains) (\<lambda>cs.
     if a \<noteq> [] \<and> hd a \<notin> cs then raise (PrivopsError ''iptables: No chain/target/match by that name'')
     else ret (Text []))"

definition ipt_check :: ipt_op where
  "ipt_check a = bnd (of_sum (arg a 0)) (\<lambda>c. bnd (gets (\<lambda>t. ipt_rules t c)) (\<lambda>rs.
     if tl a \<notin> set rs then raise (PrivopsError ''iptables: Bad rule'') else ret (Text [])))"

definition ipt_append :: ipt_op where
  "ipt_append a = bnd (of_sum (arg a 0)) (\<lambda>c.
     andThen (modify (\<lambda>t. t\<lparr>rules := (rules t)(c \<mapsto> ipt_rules t c @ [tl a])\<rparr>)) (ret (Text [])))"

definition ipt_insert :: ipt_op where
  "ipt_insert a = bnd (of_sum (arg a 0)) (\<lambda>c.
     let tail = tl a; rule = (if tail \<noteq> [] \<and> all_digits (hd tail) then tl tail else tail)
     in andThen (modify (\<lambda>t. t\<lparr>rules := (rules t)(c \<mapsto> rule # ipt_rules t c)\<rparr>)) (ret (Text [])))"

definition ipt_delete :: ipt_op where
  "ipt_delete a = bnd (of_sum (arg a 0)) (\<lambda>c.
     andThen (modify (\<lambda>t. t\<lparr>rules := (rules t)(c := map_option (remove1 (tl a)) (rules t c))\<rparr>))
             (ret (Text [])))"

definition ipt_flush :: ipt_op where
  "ipt_flush a =
     andThen (modify (\<lambda>t. t\<lparr>rules := (case a of
                [] \<Rightarrow> (\<lambda>c. map_option (\<lambda>_. []) (rules t c))
              | c # _ \<Rightarrow> (rules t)(c \<mapsto> []))\<rparr>)) (ret (Text []))"

definition ipt_xchain :: ipt_op where
  "ipt_xchain a =
     andThen (modify (\<lambda>t. let drop = (case a of [] \<Rightarrow> chains t - builtin t | c # _ \<Rightarrow> {c})
                        in t\<lparr>chains := chains t - drop, rules := (\<lambda>c. if c \<in> drop then None else rules t c)\<rparr>))
             (ret (Text []))"

definition ipt_ops :: "string \<Rightarrow> ipt_op option" where
  "ipt_ops = [''-N'' \<mapsto> ipt_new, ''-nL'' \<mapsto> ipt_list, ''-L'' \<mapsto> ipt_list, ''-C'' \<mapsto> ipt_check,
              ''-A'' \<mapsto> ipt_append, ''-I'' \<mapsto> ipt_insert, ''-D'' \<mapsto> ipt_delete, ''-F'' \<mapsto> ipt_flush,
              ''-X'' \<mapsto> ipt_xchain]"

definition ipt_empty :: ipt where
  "ipt_empty = \<lparr>chains = {}, builtin = {}, rules = Map.empty\<rparr>"

definition ipt_table :: "fstate \<Rightarrow> string \<Rightarrow> ipt" where
  "ipt_table s table = (case f_ipt s table of None \<Rightarrow> ipt_empty | Some t \<Rightarrow> t)"

definition ipt_on :: "string \<Rightarrow> (ipt, stdout) prog \<Rightarrow> (fstate, stdout) prog" where
  "ipt_on table m =
     zoom (\<lambda>s. ipt_table s table) (\<lambda>f s. s\<lparr>f_ipt := (f_ipt s)(table \<mapsto> f (ipt_table s table))\<rparr>) m"

fun without_t :: "string list \<Rightarrow> exn + (string \<times> string list)" where
  "without_t [] = Inr (''filter'', [])"
| "without_t (x # xs) =
     (if x = ''-t'' then (case xs of [] \<Rightarrow> Inl IndexError | t # r \<Rightarrow> Inr (t, r))
      else (case without_t xs of Inl e \<Rightarrow> Inl e | Inr (t, r) \<Rightarrow> Inr (t, x # r)))"

definition iptables_cmd :: cmd where
  "iptables_cmd argv =
     bnd (of_sum (without_t (tl argv))) (\<lambda>(table, args).
       ipt_on table
         (case args of
            [] \<Rightarrow> ret (Text [])
          | op # a \<Rightarrow> (case ipt_ops op of None \<Rightarrow> ret (Text []) | Some f \<Rightarrow> f a)))"

section \<open>LVM\<close>

definition losetup_cmd :: cmd where
  "losetup_cmd argv =
     (if ''-j'' \<in> set argv then
        bnd (of_sum (kw 1 ''-j'' argv)) (\<lambda>f.
        gets (\<lambda>s. Text (case map_of (f_loops s) f of
                          None \<Rightarrow> [] | Some d \<Rightarrow> d @ '': []: ('' @ f @ '')'' @ [newline])))
      else if ''-d'' \<in> set argv then
        bnd (of_sum (kw 1 ''-d'' argv)) (\<lambda>dev.
        ok (\<lambda>s. s\<lparr>f_loops := filter (\<lambda>(f, d). d \<noteq> dev) (f_loops s)\<rparr>))
      else
        let f = last argv in
        andThen (modify (\<lambda>s. case map_of (f_loops s) f of
                   None \<Rightarrow> s\<lparr>f_loops := f_loops s @ [(f, ''/dev/loop'' @ dec (length (f_loops s)))]\<rparr>
                 | Some _ \<Rightarrow> s))
          (gets (\<lambda>s. Text ((case map_of (f_loops s) f of None \<Rightarrow> [] | Some d \<Rightarrow> d) @ [newline]))))"

definition pvcreate_cmd :: cmd where
  "pvcreate_cmd argv = ok (\<lambda>s. s\<lparr>f_pvs := insert (last argv) (f_pvs s)\<rparr>)"

definition pvremove_cmd :: cmd where
  "pvremove_cmd argv = ok (\<lambda>s. s\<lparr>f_pvs := f_pvs s - {last argv}\<rparr>)"

definition vgcreate_cmd :: cmd where
  "vgcreate_cmd argv = bnd (of_sum (arg argv 1)) (\<lambda>vg. ok (\<lambda>s. s\<lparr>f_vgs := insert vg (f_vgs s)\<rparr>))"

definition vgremove_cmd :: cmd where
  "vgremove_cmd argv =
     ok (\<lambda>s. s\<lparr>f_vgs := f_vgs s - {last argv},
              f_lvs := filter (\<lambda>(k, _). fst k \<noteq> last argv) (f_lvs s)\<rparr>)"

text \<open>\<open>_report_json\<close>: the value whose \<open>json.dumps\<close> is printed, kept as a value\<close>

definition report_json :: "string \<Rightarrow> (string \<times> string) list list \<Rightarrow> stdout" where
  [simp]: "report_json kind rows = Json kind rows"

definition vgchange_cmd :: cmd where
  "vgchange_cmd argv = nothing"

definition pvs_cmd :: cmd where
  "pvs_cmd argv = gets (\<lambda>s. report_json ''pv'' (if last argv \<in> f_pvs s then [[(''pv_name'', last argv)]] else []))"

definition vgs_cmd :: cmd where
  "vgs_cmd argv = gets (\<lambda>s. report_json ''vg'' (if last argv \<in> f_vgs s then [[(''vg_name'', last argv)]] else []))"

definition add_lv ::
  "string \<Rightarrow> string \<Rightarrow> string option \<Rightarrow> string option \<Rightarrow> string \<Rightarrow> int \<Rightarrow> fstate \<Rightarrow> fstate" where
  "add_lv vg name pool origin attr sz s =
     s\<lparr>f_lvs := AList.update (vg, name)
         \<lparr>lv_size = sz, lv_pool = pool, lv_origin = origin, lv_attr = attr\<rparr> (f_lvs s)\<rparr>"

definition lvcreate_cmd :: cmd where
  "lvcreate_cmd argv =
     bnd (of_sum (kw 1 ''-n'' argv)) (\<lambda>name.
       if ''thin-pool'' \<in> set argv then ok (add_lv (last argv) name None None ''twi-a-tz--'' 0)
       else if ''-s'' \<in> set argv then
         (case find (\<lambda>a. CHR ''/'' \<in> set a) argv of
            None \<Rightarrow> raise StopIteration
          | Some a \<Rightarrow>
              bnd (of_sum (split2 a)) (\<lambda>(vg, origin).
                let attr = (if ''--permission'' \<in> set argv then ''Vri---tz-k'' else ''Vwi-a-tz--'')
                in ok (\<lambda>s. case map_of (f_lvs s) (vg, origin) of
                          None \<Rightarrow> add_lv vg name None (Some origin) attr 0 s
                        | Some src \<Rightarrow> add_lv vg name (lv_pool src) (Some origin) attr (lv_size src) s)))
       else
         bnd (of_sum (kw 1 ''-T'' argv)) (\<lambda>a. bnd (of_sum (split2 a)) (\<lambda>(vg, pool).
         bnd (of_sum (kw 1 ''-V'' argv)) (\<lambda>v. bnd (of_sum (parse_m v)) (\<lambda>sz.
         ok (add_lv vg name (Some pool) None ''Vwi-a-tz--'' sz))))))"

definition lvremove_cmd :: cmd where
  "lvremove_cmd argv =
     bnd (of_sum (split2 (last argv))) (\<lambda>k. ok (\<lambda>s. s\<lparr>f_lvs := AList.delete k (f_lvs s)\<rparr>))"

definition lvextend_cmd :: cmd where
  "lvextend_cmd argv =
     bnd (of_sum (split2 (last argv))) (\<lambda>k. bnd (gets f_lvs) (\<lambda>lvs.
       if map_of lvs k \<noteq> None \<and> ''-L'' \<in> set argv then
         bnd (of_sum (kw 1 ''-L'' argv)) (\<lambda>v. bnd (of_sum (parse_m v)) (\<lambda>sz.
         ok (\<lambda>s. s\<lparr>f_lvs := AList.map_entry k (\<lambda>d. d\<lparr>lv_size := sz\<rparr>) (f_lvs s)\<rparr>)))
       else nothing))"

definition opt_str :: "string option \<Rightarrow> string" where
  "opt_str x = (case x of None \<Rightarrow> [] | Some s \<Rightarrow> s)"

definition lvs_row :: "(string \<times> string) \<times> lvrec \<Rightarrow> (string \<times> string) list" where
  "lvs_row e = (case e of ((v, n), d) \<Rightarrow>
     [(''lv_name'', n), (''vg_name'', v), (''lv_size'', str_int (lv_size d)),
      (''pool_lv'', opt_str (lv_pool d)), (''origin'', opt_str (lv_origin d)), (''lv_attr'', lv_attr d)])"

definition lvs_cmd :: cmd where
  "lvs_cmd argv =
     gets (\<lambda>s. report_json ''lv'' (map lvs_row (filter (\<lambda>(k, _). fst k = last argv) (f_lvs s))))"

definition noop_cmd :: cmd where
  "noop_cmd argv = nothing"

section \<open>Dispatch\<close>

definition handlers :: "string \<Rightarrow> cmd option" where
  "handlers =
     [''ip'' \<mapsto> ip_cmd, ''brctl'' \<mapsto> brctl_cmd, ''mkfs.ext4'' \<mapsto> mkfs_cmd, ''truncate'' \<mapsto> truncate_cmd,
      ''mount'' \<mapsto> mount_cmd, ''umount'' \<mapsto> umount_cmd, ''firecracker'' \<mapsto> firecracker_cmd,
      ''kill'' \<mapsto> kill_cmd, ''sysctl'' \<mapsto> sysctl_cmd, ''bridge'' \<mapsto> bridge_cmd, ''iptables'' \<mapsto> iptables_cmd,
      ''debugfs'' \<mapsto> debugfs_cmd, ''losetup'' \<mapsto> losetup_cmd, ''pvcreate'' \<mapsto> pvcreate_cmd,
      ''pvremove'' \<mapsto> pvremove_cmd, ''pvs'' \<mapsto> pvs_cmd, ''vgcreate'' \<mapsto> vgcreate_cmd,
      ''vgremove'' \<mapsto> vgremove_cmd, ''vgchange'' \<mapsto> vgchange_cmd, ''vgs'' \<mapsto> vgs_cmd, ''lvcreate'' \<mapsto> lvcreate_cmd,
      ''lvremove'' \<mapsto> lvremove_cmd, ''lvextend'' \<mapsto> lvextend_cmd, ''lvchange'' \<mapsto> noop_cmd,
      ''lvs'' \<mapsto> lvs_cmd, ''dd'' \<mapsto> noop_cmd, ''resize2fs'' \<mapsto> noop_cmd, ''dmsetup'' \<mapsto> noop_cmd]"

text \<open>
  \<open>ip netns exec NS cmd\<close> runs \<open>cmd\<close> through \<open>fake_run\<close> again (\<open>_netns_exec\<close>).
\<close>

definition is_netns_exec :: "string list \<Rightarrow> bool" where
  "is_netns_exec argv \<longleftrightarrow> take 3 argv = [''ip'', ''netns'', ''exec'']"

function fake_run :: cmd where
  "fake_run argv =
     (if is_netns_exec argv then (if drop 4 argv = [] then nothing else fake_run (drop 4 argv))
      else (case argv of
              [] \<Rightarrow> nothing
            | head # _ \<Rightarrow> (case handlers head of None \<Rightarrow> nothing | Some h \<Rightarrow> h argv)))"
  by pat_completeness auto
termination
  by (relation "measure length") auto

declare fake_run.simps [simp del]

end
