(* ===== verification/World.thy ===== *)
theory World
  imports PrivopsFake
begin

text \<open>
  The state a node's process runs in, and \<open>nyc/client/privops.py\<close>. The world holds the
  environment variables, the parsed \<open>config.toml\<close>, the node folder with its files, the
  simulator's \<open>STATE\<close>, the database, and what lies outside the program as functions the
  model is free in: the result of each subprocess as a function of those run before, process
  identifiers and liveness, the sources of UUIDs, time and random choice, SHA-256, and the
  answers of other nodes over HTTP.
\<close>

section \<open>State\<close>

type_synonym path = "string list"

datatype fnode = Dir | File string | Link string

datatype json = JNull | JBool bool | JStr string | JInt int | JList "json list" | JObj "(string \<times> json) list"

datatype toml = TStr string | TInt int | TList "toml list" | TTable "(string \<times> toml) list"

record http_req =
  rq_method :: string
  rq_url :: string
  rq_json :: "json option"
  rq_headers :: "(string \<times> string) list"

record http_resp =
  rs_status :: nat
  rs_text :: string
  rs_json :: json

type_synonym proc_log = "(string list \<times> string option) list"

record 'db world =
  w_env :: "string \<Rightarrow> string option"
  w_toml :: "string \<Rightarrow> toml option"
  w_cwd :: path
  w_pkg_root :: path
  w_fs :: "(path \<times> fnode) list"
  w_fake :: fstate
  w_db :: 'db
  w_log :: proc_log
  w_exec :: "proc_log \<Rightarrow> string list \<Rightarrow> string option \<Rightarrow> int \<times> string \<times> string"
  w_report :: "string \<Rightarrow> string \<Rightarrow> exn + (string \<times> string) list list"
  w_pid :: "nat \<Rightarrow> int"
  w_alive :: "nat \<Rightarrow> int \<Rightarrow> bool"
  w_polls :: nat
  w_tmp :: path
  w_uuid :: "nat \<Rightarrow> string"
  w_nuuid :: nat
  w_time :: "nat \<Rightarrow> int"
  w_tick :: nat
  w_rand :: "nat \<Rightarrow> nat"
  w_nrand :: nat
  w_sha :: "string \<Rightarrow> nat list"
  w_http :: "http_req \<Rightarrow> 'db \<Rightarrow> (exn + http_resp) \<times> 'db"

type_synonym ('db, 'a) node_prog = "('db world, 'a) prog"

definition environ :: "string \<Rightarrow> ('db, string option) node_prog" where
  "environ k = gets (\<lambda>w. w_env w k)"

definition uuid4 :: "('db, string) node_prog" where
  "uuid4 = (\<lambda>w. (Inr (w_uuid w (w_nuuid w)), w\<lparr>w_nuuid := Suc (w_nuuid w)\<rparr>))"

text \<open>\<open>datetime.now(timezone.utc)\<close>, in microseconds; the code stores its ISO text and reads
  it back with \<open>fromisoformat\<close>.\<close>

definition now :: "('db, int) node_prog" where
  "now = (\<lambda>w. (Inr (w_time w (w_tick w)), w\<lparr>w_tick := Suc (w_tick w)\<rparr>))"

text \<open>\<open>random.choice\<close> of a non-empty list\<close>

definition choice :: "'a list \<Rightarrow> ('db, 'a) node_prog" where
  "choice xs = (\<lambda>w. if xs = [] then (Inl IndexError, w)
     else (Inr (xs ! (w_rand w (w_nrand w) mod length xs)), w\<lparr>w_nrand := Suc (w_nrand w)\<rparr>))"

section \<open>Files\<close>

definition fs_at :: "path \<Rightarrow> 'db world \<Rightarrow> fnode option" where
  "fs_at p w = map_of (w_fs w) p"

definition is_dir :: "path \<Rightarrow> 'db world \<Rightarrow> bool" where
  "is_dir p w \<longleftrightarrow> p = [] \<or> fs_at p w = Some Dir"

text \<open>Present under that name, as \<open>p.exists() or p.is_symlink()\<close> asks.\<close>

definition present :: "path \<Rightarrow> 'db world \<Rightarrow> bool" where
  "present p w \<longleftrightarrow> p = [] \<or> fs_at p w \<noteq> None"

definition path_str :: "path \<Rightarrow> string" where
  "path_str p = ''/'' @ join ''/'' p"

definition fs_put :: "path \<Rightarrow> fnode \<Rightarrow> 'db world \<Rightarrow> 'db world" where
  "fs_put p n w = w\<lparr>w_fs := AList.update p n (w_fs w)\<rparr>"

definition fs_drop :: "path \<Rightarrow> 'db world \<Rightarrow> 'db world" where
  "fs_drop p w = w\<lparr>w_fs := AList.delete p (w_fs w)\<rparr>"

definition write_text :: "path \<Rightarrow> string \<Rightarrow> ('db, unit) node_prog" where
  "write_text p t =
     bnd (gets (\<lambda>w. is_dir (butlast p) w \<and> \<not> is_dir p w)) (\<lambda>b.
       if b then modify (fs_put p (File t)) else raise (OSError (path_str p)))"

definition symlink_to :: "path \<Rightarrow> string \<Rightarrow> ('db, unit) node_prog" where
  "symlink_to p src =
     bnd (gets (\<lambda>w. is_dir (butlast p) w \<and> \<not> present p w)) (\<lambda>b.
       if b then modify (fs_put p (Link src)) else raise (OSError (path_str p)))"

definition unlink :: "path \<Rightarrow> ('db, unit) node_prog" where
  "unlink p =
     bnd (gets (\<lambda>w. present p w \<and> \<not> is_dir p w)) (\<lambda>b.
       if b then modify (fs_drop p) else raise (OSError (path_str p)))"

definition unlink_missing_ok :: "path \<Rightarrow> ('db, unit) node_prog" where
  "unlink_missing_ok p = bnd (gets (present p)) (\<lambda>b. if b then unlink p else ret ())"

text \<open>\<open>p.mkdir(parents=True, exist_ok=True)\<close>: every missing prefix of the path, then the path.\<close>

definition mkdir_one :: "path \<Rightarrow> ('db, unit) node_prog" where
  "mkdir_one p =
     bnd (gets (fs_at p)) (\<lambda>n.
       case n of
         None \<Rightarrow> modify (fs_put p Dir)
       | Some k \<Rightarrow> if k = Dir then ret () else raise (OSError (path_str p)))"

definition prefixes1 :: "path \<Rightarrow> path list" where
  "prefixes1 p = map (\<lambda>i. take (Suc i) p) [0..<length p]"

definition mkdir_p :: "path \<Rightarrow> ('db, unit) node_prog" where
  "mkdir_p p = for_each (prefixes1 p) mkdir_one"

text \<open>\<open>shutil.rmtree(p, ignore_errors=True)\<close>\<close>

definition rmtree :: "path \<Rightarrow> ('db, unit) node_prog" where
  "rmtree p = modify (\<lambda>w. w\<lparr>w_fs := filter (\<lambda>(q, _). take (length p) q \<noteq> p) (w_fs w)\<rparr>)"

text \<open>The names of the directories directly under \<open>p\<close>.\<close>

definition sub_dirs :: "path \<Rightarrow> 'db world \<Rightarrow> string list" where
  "sub_dirs p w =
     map (last \<circ> fst) (filter (\<lambda>(q, n). n = Dir \<and> q \<noteq> [] \<and> butlast q = p) (w_fs w))"

section \<open>privops\<close>

definition backend :: "'db world \<Rightarrow> string" where
  "backend w = lower (case w_env w ''NYC_BACKEND'' of None \<Rightarrow> ''fake'' | Some b \<Rightarrow> b)"

definition no_sudo :: "string set" where
  "no_sudo = {''truncate''}"

definition sudo_argv :: "string list \<Rightarrow> string list" where
  "sudo_argv argv = (if argv \<noteq> [] \<and> hd argv \<in> no_sudo then argv else [''sudo'', ''-n''] @ argv)"

definition real_run :: "string list \<Rightarrow> string option \<Rightarrow> ('db, stdout) node_prog" where
  "real_run argv inp = (\<lambda>w.
     let cmd = sudo_argv argv;
         (rc, out, err) = w_exec w (w_log w) cmd inp;
         w' = w\<lparr>w_log := w_log w @ [(cmd, inp)]\<rparr>
     in if rc \<noteq> 0
        then (Inl (PrivopsError (join '' '' argv @ '' -> '' @ str_int rc @ '': '' @ strip err)), w')
        else (Inr (Text out), w'))"

definition fake_step :: "string list \<Rightarrow> ('db, stdout) node_prog" where
  "fake_step argv = zoom w_fake w_fake_update (fake_run argv)"

definition run :: "string list \<Rightarrow> string option \<Rightarrow> ('db, stdout) node_prog" where
  "run argv inp = bnd (gets backend) (\<lambda>b. if b = ''real'' then real_run argv inp else fake_step argv)"

text \<open>\<open>privops.run(argv)\<close> whose output is not used.\<close>

definition priv :: "string list \<Rightarrow> ('db, unit) node_prog" where
  "priv argv = andThen (run argv None) (ret ())"

definition text_of :: "stdout \<Rightarrow> string" where
  "text_of o' = (case o' of Text s \<Rightarrow> s | Json _ _ \<Rightarrow> [])"

text \<open>\<open>json.loads(out)["report"][0][kind] if out else []\<close>\<close>

definition load_report :: "string \<Rightarrow> stdout \<Rightarrow> ('db, (string \<times> string) list list) node_prog" where
  "load_report kind o' =
     (case o' of
        Json k rows \<Rightarrow> if k = kind then ret rows else raise (KeyError kind)
      | Text s \<Rightarrow> if s = [] then ret [] else bnd (gets (\<lambda>w. w_report w kind s)) of_sum)"

text \<open>A call that returns whether the command raised \<open>PrivopsError\<close>.\<close>

definition probe :: "('db, 'a) node_prog \<Rightarrow> ('db, bool) node_prog" where
  "probe m = except (andThen m (ret True))
     (\<lambda>e. case e of PrivopsError _ \<Rightarrow> ret False | _ \<Rightarrow> raise e)"

section \<open>Running on the simulator\<close>

definition on_fake :: "'db world \<Rightarrow> bool" where
  "on_fake w \<longleftrightarrow> backend w = ''fake''"

lemma run_fake:
  "on_fake w \<Longrightarrow> run argv inp w = (let (r, s) = fake_run argv (w_fake w) in (r, w\<lparr>w_fake := s\<rparr>))"
  by (simp add: run_def on_fake_def fake_step_def bnd_run zoom_run split: prod.splits)

lemma run_fake_ok:
  "on_fake w \<Longrightarrow> fake_run argv (w_fake w) = (Inr x, s) \<Longrightarrow> run argv inp w = (Inr x, w\<lparr>w_fake := s\<rparr>)"
  by (simp add: run_fake)

lemma priv_fake:
  "on_fake w \<Longrightarrow> fake_run argv (w_fake w) = (Inr x, s) \<Longrightarrow> priv argv w = (Inr (), w\<lparr>w_fake := s\<rparr>)"
  by (simp add: priv_def andThen_run run_fake_ok)

lemma backend_upd [simp]:
  "backend (w\<lparr>w_fake := s\<rparr>) = backend w" "backend (w\<lparr>w_fs := f\<rparr>) = backend w"
  "backend (w\<lparr>w_db := d\<rparr>) = backend w" "backend (w\<lparr>w_log := l\<rparr>) = backend w"
  "backend (w\<lparr>w_nuuid := n\<rparr>) = backend w" "backend (w\<lparr>w_tick := n\<rparr>) = backend w"
  "backend (w\<lparr>w_nrand := n\<rparr>) = backend w" "backend (w\<lparr>w_polls := n\<rparr>) = backend w"
  by (simp_all add: backend_def)

lemma on_fake_upd [simp]:
  "on_fake (w\<lparr>w_fake := s\<rparr>) = on_fake w" "on_fake (w\<lparr>w_fs := f\<rparr>) = on_fake w"
  "on_fake (w\<lparr>w_db := d\<rparr>) = on_fake w" "on_fake (w\<lparr>w_log := l\<rparr>) = on_fake w"
  "on_fake (w\<lparr>w_nuuid := n\<rparr>) = on_fake w" "on_fake (w\<lparr>w_tick := n\<rparr>) = on_fake w"
  "on_fake (w\<lparr>w_nrand := n\<rparr>) = on_fake w" "on_fake (w\<lparr>w_polls := n\<rparr>) = on_fake w"
  by (simp_all add: on_fake_def)

text \<open>The program's own steps never change its environment; what they may change is the
  simulator, the files, the database, and the position in each outside source.\<close>

lemma keeps_real_run [keeps_rules]:
  "(\<And>w l. f (w\<lparr>w_log := l\<rparr>) = f w) \<Longrightarrow> keeps f (real_run argv inp)"
  by (auto simp: keeps_def real_run_def Let_def split: prod.splits)

lemma keeps_run [keeps_rules]:
  assumes "\<And>w l. f (w\<lparr>w_log := l\<rparr>) = f w" and "\<And>w s. f (w\<lparr>w_fake := s\<rparr>) = f w"
  shows "keeps f (run argv inp)"
  unfolding run_def fake_step_def
  by (intro keeps_rules keeps_zoom) (simp_all add: assms)

lemma keeps_priv [keeps_rules]:
  assumes "\<And>w l. f (w\<lparr>w_log := l\<rparr>) = f w" and "\<And>w s. f (w\<lparr>w_fake := s\<rparr>) = f w"
  shows "keeps f (priv argv)"
  unfolding priv_def by (intro keeps_rules) (simp_all add: assms)

lemma keeps_load_report [keeps_rules]: "keeps f (load_report kind out)"
  by (auto simp: load_report_def split: stdout.splits intro!: keeps_rules)

lemma keeps_probe [keeps_rules]: "keeps f m \<Longrightarrow> keeps f (probe m)"
  by (auto simp: probe_def split: exn.splits intro!: keeps_rules)

lemma keeps_uuid4 [keeps_rules]: "(\<And>w n. f (w\<lparr>w_nuuid := n\<rparr>) = f w) \<Longrightarrow> keeps f uuid4"
  by (simp add: keeps_def uuid4_def)

lemma keeps_now [keeps_rules]: "(\<And>w n. f (w\<lparr>w_tick := n\<rparr>) = f w) \<Longrightarrow> keeps f now"
  by (simp add: keeps_def now_def)

lemma keeps_environ [keeps_rules]: "keeps f (environ k)"
  by (simp add: environ_def keeps_gets)

lemma keeps_choice [keeps_rules]: "(\<And>w n. f (w\<lparr>w_nrand := n\<rparr>) = f w) \<Longrightarrow> keeps f (choice xs)"
  by (simp add: keeps_def choice_def)

lemma keeps_fs_prog [keeps_rules]:
  assumes "\<And>w s. f (w\<lparr>w_fs := s\<rparr>) = f w"
  shows "keeps f (write_text p t)" "keeps f (symlink_to p src)" "keeps f (unlink p)"
    "keeps f (unlink_missing_ok p)" "keeps f (mkdir_p p)" "keeps f (rmtree p)"
proof -
  show 1: "keeps f (unlink p)" and "keeps f (write_text p t)" "keeps f (symlink_to p src)"
    and "keeps f (rmtree p)"
    by (auto simp: unlink_def write_text_def symlink_to_def rmtree_def fs_put_def fs_drop_def assms
             intro!: keeps_rules keeps_modify)
  show "keeps f (unlink_missing_ok p)"
    unfolding unlink_missing_ok_def by (intro keeps_rules 1)
  show "keeps f (mkdir_p p)"
    by (auto simp: mkdir_p_def mkdir_one_def fs_put_def assms intro!: keeps_rules keeps_modify)
qed

section \<open>A node to try things on\<close>

text \<open>A node on the simulator with no settings and no files, over a given database.\<close>

definition world0 :: "'db \<Rightarrow> 'db world" where
  "world0 d =
     \<lparr>w_env = Map.empty, w_toml = Map.empty, w_cwd = [''srv'', ''node''], w_pkg_root = [''opt'', ''nyc''],
      w_fs = [([''srv''], Dir), ([''srv'', ''node''], Dir)], w_fake = reset_state, w_db = d, w_log = [],
      w_exec = (\<lambda>_ _ _. (0, [], [])), w_report = (\<lambda>_ _. Inr []), w_pid = int, w_alive = (\<lambda>_ _. False),
      w_polls = 0, w_tmp = [''tmp'', ''t0''], w_uuid = (\<lambda>n. ''id-'' @ dec n), w_nuuid = 0, w_time = int, w_tick = 0,
      w_rand = (\<lambda>n. n), w_nrand = 0, w_sha = (\<lambda>_. replicate 32 7),
      w_http = (\<lambda>_ d. (Inr \<lparr>rs_status = 200, rs_text = [], rs_json = JNull\<rparr>, d))\<rparr>"

lemma lower_fake: "lower ''fake'' = ''fake''" and lower_real: "lower ''real'' = ''real''"
  by code_simp+

lemma on_fake_world0 [simp]: "on_fake (world0 d)"
  by (simp add: on_fake_def backend_def world0_def lower_fake)

lemma world0_sel [simp]:
  "w_fake (world0 d) = reset_state" "w_db (world0 d) = d" "w_tmp (world0 d) = [''tmp'', ''t0'']"
  "w_fs (world0 d) = [([''srv''], Dir), ([''srv'', ''node''], Dir)]"
  by (simp_all add: world0_def)

end
