(* ===== verification/FakeProps.thy ===== *)
theory FakeProps
  imports World
begin

text \<open>
  The simulator's state is always a value Python could hold: sets and dictionaries are finite, an
  association list has its keys once, a volume's attributes are those of \<open>lvs\<close>, a table of the packet
  filter keeps its built-in chains, and a socket belongs to the directory it is in. Every command
  keeps this, whatever its arguments.
\<close>

definition lv_attrs :: "string set" where
  "lv_attrs = {''twi-a-tz--'', ''Vri---tz-k'', ''Vwi-a-tz--''}"

definition ipt_ok :: "string \<Rightarrow> ipt \<Rightarrow> bool" where
  "ipt_ok t i \<longleftrightarrow> finite (chains i) \<and> finite (dom (rules i)) \<and>
     builtin i = (case ipt_builtin t of None \<Rightarrow> {} | Some c \<Rightarrow> c)"

definition ipts_ok :: "(string \<Rightarrow> ipt option) \<Rightarrow> bool" where
  "ipts_ok m \<longleftrightarrow> finite (dom m) \<and> (\<forall>t. ipt_builtin t \<noteq> None \<longrightarrow> m t \<noteq> None) \<and>
     (\<forall>t i. m t = Some i \<longrightarrow> ipt_ok t i)"

definition lvs_ok :: "((string \<times> string) \<times> lvrec) list \<Rightarrow> bool" where
  "lvs_ok xs \<longleftrightarrow> distinct (map fst xs) \<and> (\<forall>e \<in> set xs. lv_attr (snd e) \<in> lv_attrs)"

definition socks_ok :: "(string \<Rightarrow> (string \<times> bool) option) \<Rightarrow> bool" where
  "socks_ok m \<longleftrightarrow> finite (dom m) \<and> (\<forall>p e. m p = Some e \<longrightarrow> e = (dir_of p, True))"

definition fdbs_ok :: "(string \<Rightarrow> (string \<times> string) set option) \<Rightarrow> bool" where
  "fdbs_ok m \<longleftrightarrow> finite (dom m) \<and> (\<forall>dev b. m dev = Some b \<longrightarrow> finite b)"

definition sim_ok :: "fstate \<Rightarrow> bool" where
  "sim_ok s \<longleftrightarrow>
     finite (f_netns s) \<and> finite (dom (f_links s)) \<and> finite (dom (f_addrs s)) \<and> finite (f_bridges s) \<and>
     finite (dom (f_files s)) \<and> finite (dom (f_mounts s)) \<and> finite (dom (f_sysctl s)) \<and>
     finite (f_pvs s) \<and> finite (f_vgs s) \<and> distinct (map fst (f_loops s)) \<and>
     lvs_ok (f_lvs s) \<and> ipts_ok (f_ipt s) \<and> socks_ok (f_socks s) \<and> fdbs_ok (f_fdb s)"

lemma fdb_finite: "sim_ok s \<Longrightarrow> finite (fdb_of s dev)"
  by (auto simp: sim_ok_def fdbs_ok_def fdb_of_def split: option.splits)

lemma sim_ok_reset: "sim_ok reset_state"
proof -
  have "dom (f_ipt reset_state) \<subseteq> {''filter'', ''nat''}"
    by (auto simp: reset_state_def ipt_builtin_def split: if_splits)
  then have "finite (dom (f_ipt reset_state))" by (rule finite_subset) simp
  then show ?thesis
    by (auto simp: sim_ok_def reset_state_def ipt_ok_def ipt_builtin_def lvs_ok_def ipts_ok_def socks_ok_def fdbs_ok_def split: if_splits)
qed

lemma pres_ok: "(\<And>s. P s \<Longrightarrow> P (f s)) \<Longrightarrow> pres P (ok f)"
  by (simp add: pres_def ok_def andThen_run)

lemma pres_nothing: "pres P nothing"
  by (simp add: nothing_def pres_ret)

lemma pres_modify: "(\<And>s. P s \<Longrightarrow> P (f s)) \<Longrightarrow> pres P (modify f)"
  by (simp add: pres_def)

lemmas sim_rules = pres_rules pres_ok pres_nothing pres_modify

lemma finite_dom_sub: "finite (dom m) \<Longrightarrow> (\<And>x. n x \<noteq> None \<Longrightarrow> m x \<noteq> None) \<Longrightarrow> finite (dom n)"
  by (rule finite_subset [of _ "dom m"]) auto

lemma finite_dom_if [simp]: "finite (dom m) \<Longrightarrow> finite (dom (\<lambda>x. if P x then None else m x))"
  by (erule finite_dom_sub) (simp split: if_splits)

section \<open>Links, files, processes\<close>

lemma sim_links:
  "sim_ok s \<Longrightarrow> finite (dom ls) \<Longrightarrow> sim_ok (s\<lparr>f_links := ls\<rparr>)"
  "sim_ok s \<Longrightarrow> finite (dom as) \<Longrightarrow> sim_ok (s\<lparr>f_addrs := as\<rparr>)"
  by (simp_all add: sim_ok_def)

lemma sim_link_verbs:
  assumes "sim_ok s"
  shows "sim_ok (link_add n k p s)" "sim_ok (link_upd n g s)" "sim_ok (link_default n s)" "sim_ok (link_del n s)"
proof -
  have f: "finite (dom (f_links s))" "finite (dom (f_addrs s))" using assms by (simp_all add: sim_ok_def)
  show "sim_ok (link_add n k p s)" using assms f by (auto simp: link_add_def Let_def intro!: sim_links split: option.splits)
  show "sim_ok (link_upd n g s)" using assms f(1)
    by (auto simp: link_upd_def intro!: sim_links elim: finite_dom_sub)
  show "sim_ok (link_default n s)" using assms f by (auto simp: link_default_def intro!: sim_links split: option.splits)
  show "sim_ok (link_del n s)" using sim_links(2) [OF sim_links(1) [OF assms]] f by (simp add: link_del_def)
qed

lemma sim_netns: "pres sim_ok (netns_cmd argv)"
proof -
  have "sim_ok (s\<lparr>f_netns := f_netns s - {n},
      f_links := (\<lambda>l. if d l then None else f_links s l), f_addrs := (\<lambda>l. if d l then None else f_addrs s l)\<rparr>)"
    if "sim_ok s" for s n d
    using that by (simp add: sim_ok_def)
  moreover have "sim_ok (s\<lparr>f_netns := insert n (f_netns s)\<rparr>)" if "sim_ok s" for s n
    using that by (simp add: sim_ok_def)
  ultimately show ?thesis
    unfolding netns_cmd_def Let_def by (intro sim_rules) auto
qed

lemma sim_link: "pres sim_ok (link_cmd argv)"
  unfolding link_cmd_def link_set_kw_def Let_def by (intro sim_rules sim_link_verbs)

lemma sim_addr: "pres sim_ok (addr_cmd argv)"
  unfolding addr_cmd_def
proof (intro sim_rules)
  fix s dev ip assume "sim_ok s"
  then show "sim_ok (s\<lparr>f_addrs := (f_addrs s)(dev \<mapsto> (case f_addrs s dev of None \<Rightarrow> [] | Some l \<Rightarrow> l) @ [ip])\<rparr>)"
    by (simp add: sim_ok_def)
next
  fix s dev ip assume "sim_ok s"
  then show "sim_ok (s\<lparr>f_addrs := (f_addrs s)(dev := map_option (remove1 ip) (f_addrs s dev))\<rparr>)"
    by (intro sim_links) (auto simp: sim_ok_def elim: finite_dom_sub)
qed

lemma sim_route: "pres sim_ok (route_cmd argv)"
  unfolding route_cmd_def by (intro sim_rules) (simp_all add: sim_ok_def)

lemma sim_tuntap: "pres sim_ok (tuntap_cmd argv)"
  unfolding tuntap_cmd_def by (intro sim_rules) (auto simp: sim_ok_def)

lemma sim_ip: "pres sim_ok (ip_cmd argv)"
proof -
  have "pres sim_ok (f argv)" if "ip_sub k = Some f" for k f
    using that by (auto simp: ip_sub_def sim_netns sim_link sim_addr sim_route sim_tuntap split: if_splits)
  then show ?thesis unfolding ip_cmd_def by (intro sim_rules)
qed

lemma sim_plain:
  "pres sim_ok (brctl_cmd argv)" "pres sim_ok (mkfs_cmd argv)" "pres sim_ok (truncate_cmd argv)"
  "pres sim_ok (mount_cmd argv)" "pres sim_ok (umount_cmd argv)" "pres sim_ok (debugfs_cmd argv)"
  "pres sim_ok (sysctl_cmd argv)" "pres sim_ok (pvcreate_cmd argv)" "pres sim_ok (pvremove_cmd argv)"
  "pres sim_ok (pvs_cmd argv)" "pres sim_ok (vgcreate_cmd argv)" "pres sim_ok (vgs_cmd argv)" "pres sim_ok (lvs_cmd argv)"
  unfolding brctl_cmd_def mkfs_cmd_def truncate_cmd_def mount_cmd_def umount_cmd_def debugfs_cmd_def sysctl_cmd_def
    pvcreate_cmd_def pvremove_cmd_def pvs_cmd_def vgcreate_cmd_def vgs_cmd_def lvs_cmd_def
  by (intro sim_rules; auto simp: sim_ok_def)+

lemma sim_firecracker: "pres sim_ok (firecracker_cmd argv)"
  unfolding firecracker_cmd_def by (intro sim_rules) (auto simp: sim_ok_def socks_ok_def)

section \<open>Tunnels and rules\<close>

lemma sim_bridge: "pres sim_ok (bridge_cmd argv)"
proof -
  have "sim_ok (s\<lparr>f_fdb := (f_fdb s)(dev \<mapsto> b)\<rparr>)" if "sim_ok s" "finite b" for s dev b
    using that by (auto simp: sim_ok_def fdbs_ok_def)
  then show ?thesis unfolding bridge_cmd_def by (intro sim_rules) (auto simp: fdb_finite)
qed

lemma ipt_ops_keep:
  assumes "ipt_ops op = Some f"
  shows "pres (ipt_ok t) (f a)"
proof -
  have "pres (ipt_ok t) (g a)" if "g \<in> {ipt_new, ipt_list, ipt_check, ipt_append, ipt_insert, ipt_delete, ipt_flush, ipt_xchain}" for g
    using that
    by (elim insertE emptyE; simp only: ipt_new_def ipt_list_def ipt_check_def ipt_append_def ipt_insert_def ipt_delete_def
          ipt_flush_def ipt_xchain_def Let_def; intro sim_rules)
       (auto simp: ipt_ok_def elim: finite_dom_sub split: list.splits option.splits)
  with assms show ?thesis by (auto simp: ipt_ops_def split: if_splits)
qed

lemma sim_ipt_on:
  assumes "pres (ipt_ok t) m"
  shows "pres sim_ok (ipt_on t m)"
proof -
  have "sim_ok (snd (ipt_on t m s))" if s: "sim_ok s" for s
  proof -
    have ipts: "ipts_ok (f_ipt s)" using s by (simp add: sim_ok_def)
    have "ipt_ok t (ipt_table s t)"
    proof (cases "f_ipt s t")
      case (Some i)
      with ipts show ?thesis by (simp add: ipt_table_def ipts_ok_def)
    next
      case None
      with ipts have "ipt_builtin t = None" by (auto simp: ipts_ok_def)
      with None show ?thesis by (simp add: ipt_table_def ipt_empty_def ipt_ok_def)
    qed
    then have "ipt_ok t (snd (m (ipt_table s t)))" using assms by (simp add: pres_def)
    with ipts have "ipts_ok ((f_ipt s)(t \<mapsto> snd (m (ipt_table s t))))" by (simp add: ipts_ok_def)
    with s show ?thesis by (cases "m (ipt_table s t)") (simp add: ipt_on_def zoom_run sim_ok_def)
  qed
  then show ?thesis by (simp add: pres_def)
qed

lemma sim_iptables: "pres sim_ok (iptables_cmd argv)"
proof -
  have "pres (ipt_ok t) (case args of [] \<Rightarrow> ret (Text [])
      | op # a \<Rightarrow> (case ipt_ops op of None \<Rightarrow> ret (Text []) | Some f \<Rightarrow> f a))" for t args
    by (cases args) (auto intro!: sim_rules dest: ipt_ops_keep)
  then have "pres sim_ok (case p of (t, args) \<Rightarrow> ipt_on t
      (case args of [] \<Rightarrow> ret (Text []) | op # a \<Rightarrow> (case ipt_ops op of None \<Rightarrow> ret (Text []) | Some f \<Rightarrow> f a)))" for p
    by (cases p) (simp add: sim_ipt_on)
  then show ?thesis unfolding iptables_cmd_def by (intro sim_rules)
qed

section \<open>Volumes\<close>

lemma lvs_ok_update: "lvs_ok xs \<Longrightarrow> lv_attr d \<in> lv_attrs \<Longrightarrow> lvs_ok (AList.update k d xs)"
proof -
  have "(\<forall>e \<in> set (AList.update k d xs). lv_attr (snd e) \<in> lv_attrs)"
    if "\<forall>e \<in> set xs. lv_attr (snd e) \<in> lv_attrs" "lv_attr d \<in> lv_attrs"
    using that by (induction xs) auto
  then show "lvs_ok xs \<Longrightarrow> lv_attr d \<in> lv_attrs \<Longrightarrow> lvs_ok (AList.update k d xs)"
    by (simp add: lvs_ok_def distinct_update)
qed

lemma lvs_ok_filter: "lvs_ok xs \<Longrightarrow> lvs_ok (filter P xs)"
  by (auto simp: lvs_ok_def distinct_map intro: inj_on_subset)

lemma lvs_ok_entry:
  assumes "lvs_ok xs" and "\<And>d. lv_attr (f d) = lv_attr d"
  shows "lvs_ok (AList.map_entry k f xs)"
proof -
  have "\<forall>e \<in> set (AList.map_entry k f xs). lv_attr (snd e) \<in> lv_attrs" if "\<forall>e \<in> set xs. lv_attr (snd e) \<in> lv_attrs"
    using that by (induction xs) (auto simp: assms(2))
  with assms(1) show ?thesis by (simp add: lvs_ok_def distinct_map_entry)
qed

lemma lvs_ok_of: "sim_ok s \<Longrightarrow> lvs_ok (f_lvs s)"
  by (simp add: sim_ok_def)

lemma sim_lvs: "sim_ok s \<Longrightarrow> lvs_ok xs \<Longrightarrow> sim_ok (s\<lparr>f_lvs := xs\<rparr>)"
  by (simp add: sim_ok_def)

lemma sim_add_lv: "sim_ok s \<Longrightarrow> attr \<in> lv_attrs \<Longrightarrow> sim_ok (add_lv vg n pool origin attr sz s)"
  unfolding add_lv_def by (intro sim_lvs lvs_ok_update lvs_ok_of) simp_all

lemma sim_lvcreate: "pres sim_ok (lvcreate_cmd argv)"
  unfolding lvcreate_cmd_def case_prod_beta Let_def
  by (intro sim_rules) (auto intro!: sim_add_lv simp: lv_attrs_def split: option.split)

lemma sim_lvm:
  "pres sim_ok (vgremove_cmd argv)" "pres sim_ok (lvremove_cmd argv)" "pres sim_ok (lvextend_cmd argv)"
proof -
  show "pres sim_ok (vgremove_cmd argv)"
    unfolding vgremove_cmd_def by (intro sim_rules) (simp add: sim_ok_def lvs_ok_filter)
  show "pres sim_ok (lvremove_cmd argv)"
    unfolding lvremove_cmd_def by (intro sim_rules sim_lvs) (simp_all add: AList.delete_eq lvs_ok_filter lvs_ok_of)
  show "pres sim_ok (lvextend_cmd argv)"
    unfolding lvextend_cmd_def by (intro sim_rules sim_lvs lvs_ok_entry lvs_ok_of) simp_all
qed

lemma sim_losetup: "pres sim_ok (losetup_cmd argv)"
proof -
  have "sim_ok (s\<lparr>f_loops := filter P (f_loops s)\<rparr>)" if "sim_ok s" for s P
    using that by (auto simp: sim_ok_def distinct_map intro: inj_on_subset)
  moreover have "sim_ok (case map_of (f_loops s) f of None \<Rightarrow> s\<lparr>f_loops := f_loops s @ [(f, d)]\<rparr> | Some _ \<Rightarrow> s)"
    if "sim_ok s" for s f d
    using that by (auto simp: sim_ok_def map_of_eq_None_iff split: option.splits)
  ultimately show ?thesis unfolding losetup_cmd_def Let_def by (intro sim_rules) simp_all
qed

section \<open>Every command\<close>

lemma sim_noops: "pres sim_ok (kill_cmd argv)" "pres sim_ok (vgchange_cmd argv)" "pres sim_ok (noop_cmd argv)"
  unfolding kill_cmd_def vgchange_cmd_def noop_cmd_def by (intro sim_rules)+

lemmas sim_handlers = sim_noops sim_ip sim_plain sim_firecracker sim_bridge sim_iptables sim_lvcreate sim_lvm sim_losetup

lemma sim_handler: "handlers h = Some f \<Longrightarrow> pres sim_ok (f argv)"
  by (auto simp: handlers_def sim_handlers split: if_splits)

lemma sim_fake_run: "pres sim_ok (fake_run argv)"
proof (induction argv rule: fake_run.induct)
  case (1 argv)
  then show ?case
    by (subst fake_run.simps) (auto intro!: sim_rules dest: sim_handler split: list.split)
qed


end
