(* ===== verification/IpNet.thy ===== *)
theory IpNet
  imports PyStr
begin

text \<open>
  What the code uses of the standard module \<open>ipaddress\<close>, for IPv4: parsing and printing of
  addresses, \<open>ip_network(s, strict=True)\<close> with a prefix length, a netmask or a host mask
  after the slash, the netmask of a network, and the range that \<open>hosts()\<close> runs over. An
  address is the number \<open>int(ip)\<close>. IPv6 text is rejected like any other malformed text.
\<close>

section \<open>Addresses\<close>

definition parse_octet :: "string \<Rightarrow> nat option" where
  "parse_octet s =
     (if all_digits s \<and> length s \<le> 3 \<and> (s = ''0'' \<or> hd s \<noteq> CHR ''0'') \<and> int_of_digits s \<le> 255
      then Some (int_of_digits s) else None)"

definition ip_of_string :: "string \<Rightarrow> nat option" where
  "ip_of_string s =
     (case map parse_octet (split_on (CHR ''.'') s) of
        [Some a, Some b, Some c, Some d] \<Rightarrow> Some (((a * 256 + b) * 256 + c) * 256 + d)
      | _ \<Rightarrow> None)"

definition octets :: "nat \<Rightarrow> nat list" where
  "octets n = [n div 16777216 mod 256, n div 65536 mod 256, n div 256 mod 256, n mod 256]"

definition ip_str :: "nat \<Rightarrow> string" where
  "ip_str n = join ''.'' (map dec (octets n))"

lemma parse_octet_dec: "n < 256 \<Longrightarrow> parse_octet (dec n) = Some n"
  using length_dec_le [of n 3] hd_dec [of n] dec_0
  by (auto simp: parse_octet_def all_digits_dec)

lemma split_ip_str: "split_on (CHR ''.'') (ip_str n) = map dec (octets n)"
  unfolding ip_str_def by (rule split_on_join) (auto simp: octets_def)

lemma octets_value:
  assumes "(n::nat) < 4294967296"
  shows "((n div 16777216 mod 256 * 256 + n div 65536 mod 256) * 256 + n div 256 mod 256) * 256
           + n mod 256 = n"
proof -
  have a: "n div 65536 div 256 = n div 16777216" "n div 256 div 256 = n div 65536"
    by (simp_all flip: div_mult2_eq)
  have b: "n div 16777216 mod 256 = n div 16777216"
    using assms by (simp add: less_mult_imp_div_less)
  have c: "x div 256 * 256 + x mod 256 = x" for x :: nat by simp
  show ?thesis
    unfolding b using c [of "n div 65536"] c [of "n div 256"] c [of n] by (simp only: a)
qed

lemma ip_roundtrip: "n < 4294967296 \<Longrightarrow> ip_of_string (ip_str n) = Some n"
  unfolding ip_of_string_def split_ip_str
  using octets_value [of n] by (simp add: octets_def parse_octet_dec)

lemma ip_str_inject: "m < 4294967296 \<Longrightarrow> n < 4294967296 \<Longrightarrow> ip_str m = ip_str n \<longleftrightarrow> m = n"
  by (metis ip_roundtrip option.inject)

lemma ip_of_string_bound: "ip_of_string s = Some n \<Longrightarrow> n < 4294967296"
  by (auto simp: ip_of_string_def parse_octet_def split: list.splits option.splits if_splits)

section \<open>Networks\<close>

record ipnet =
  net_int :: nat
  net_plen :: nat

definition netmask_int :: "nat \<Rightarrow> nat" where
  "netmask_int p = 4294967296 - 2 ^ (32 - p)"

definition prefix_from_int :: "nat \<Rightarrow> nat option" where
  "prefix_from_int n = find (\<lambda>p. netmask_int p = n) [0..<33]"

text \<open>The text after the slash: a prefix length, else a netmask, else a host mask.\<close>

definition prefix_of_string :: "string \<Rightarrow> nat option" where
  "prefix_of_string s =
     (if all_digits s \<and> int_of_digits s \<le> 32 then Some (int_of_digits s)
      else (case ip_of_string s of
              None \<Rightarrow> None
            | Some n \<Rightarrow>
                (case prefix_from_int n of
                   Some p \<Rightarrow> Some p
                 | None \<Rightarrow> prefix_from_int (4294967295 - n))))"

definition ip_network :: "string \<Rightarrow> exn + ipnet" where
  "ip_network s =
     (let mk = (\<lambda>a m.
        (case (ip_of_string a, m) of
           (Some n, Some p) \<Rightarrow>
             if n mod 2 ^ (32 - p) \<noteq> 0 then Inl (ValueError (s @ '' has host bits set''))
             else Inr \<lparr>net_int = n, net_plen = p\<rparr>
         | _ \<Rightarrow> Inl (ValueError (s @ '' does not appear to be a network''))))
      in case split_on (CHR ''/'') s of
           [a] \<Rightarrow> mk a (Some 32)
         | [a, m] \<Rightarrow> mk a (prefix_of_string m)
         | _ \<Rightarrow> Inl (ValueError (s @ '' does not appear to be a network'')))"

definition net_str :: "ipnet \<Rightarrow> string" where
  "net_str n = ip_str (net_int n) @ ''/'' @ dec (net_plen n)"

definition net_ok :: "ipnet \<Rightarrow> bool" where
  "net_ok n \<longleftrightarrow> net_plen n \<le> 32 \<and> net_int n < 4294967296 \<and> net_int n mod 2 ^ (32 - net_plen n) = 0"

text \<open>The addresses \<open>hosts()\<close> yields are \<open>[host_lo, host_hi)\<close>; for a /32 it is a list, not
  an iterator.\<close>

definition host_lo :: "ipnet \<Rightarrow> nat" where
  "host_lo n = (if net_plen n \<ge> 31 then net_int n else Suc (net_int n))"

definition host_hi :: "ipnet \<Rightarrow> nat" where
  "host_hi n = (if net_plen n \<ge> 31 then net_int n + 2 ^ (32 - net_plen n)
                else net_int n + 2 ^ (32 - net_plen n) - 1)"

definition in_net :: "nat \<Rightarrow> ipnet \<Rightarrow> bool" where
  "in_net a n \<longleftrightarrow> net_int n \<le> a \<and> a < net_int n + 2 ^ (32 - net_plen n)"

lemma prefix_from_int_le: "prefix_from_int n = Some p \<Longrightarrow> p \<le> 32"
  by (auto simp: prefix_from_int_def find_Some_iff)

lemma prefix_of_string_le: "prefix_of_string s = Some p \<Longrightarrow> p \<le> 32"
  by (auto simp: prefix_of_string_def dest: prefix_from_int_le split: if_splits option.splits)

lemma ip_network_ok: "ip_network s = Inr n \<Longrightarrow> net_ok n"
  by (auto simp: ip_network_def net_ok_def Let_def dest: prefix_of_string_le ip_of_string_bound
           split: list.splits option.splits if_splits)

lemma ip_network_ValueError: "ip_network s = Inl e \<Longrightarrow> \<exists>m. e = ValueError m"
  by (auto simp: ip_network_def Let_def split: list.splits option.splits if_splits)

lemma all_digits_dec_free: "CHR ''/'' \<notin> set (ip_str n)"
  by (simp add: ip_str_def octets_def)

lemma split_net_str: "split_on (CHR ''/'') (net_str n) = [ip_str (net_int n), dec (net_plen n)]"
  using split_on_append [OF all_digits_dec_free, of "net_int n" "dec (net_plen n)"]
  by (simp add: net_str_def split_on_free)

lemma ip_network_net_str: "net_ok n \<Longrightarrow> ip_network (net_str n) = Inr n"
  by (simp add: ip_network_def split_net_str net_ok_def ip_roundtrip prefix_of_string_def
        all_digits_dec Let_def)

lemma net_span:
  assumes "net_ok n"
  shows "net_int n + 2 ^ (32 - net_plen n) \<le> 4294967296"
proof -
  let ?k = "32 - net_plen n"
  obtain q where q: "net_int n = q * 2 ^ ?k"
    using assms by (auto simp: net_ok_def mod_eq_0_iff_dvd dvd_def mult.commute)
  have m: "(4294967296::nat) = 2 ^ net_plen n * 2 ^ ?k"
    using assms by (simp add: net_ok_def flip: power_add)
  with q assms have "q < 2 ^ net_plen n" by (simp add: net_ok_def)
  then have "Suc q * 2 ^ ?k \<le> 2 ^ net_plen n * 2 ^ ?k" by (intro mult_le_mono1) simp
  with q m show ?thesis by simp
qed

lemma host_in_net: "net_ok n \<Longrightarrow> host_lo n \<le> a \<Longrightarrow> a < host_hi n \<Longrightarrow> in_net a n"
  by (auto simp: host_lo_def host_hi_def in_net_def split: if_splits)

lemma host_lt: "net_ok n \<Longrightarrow> a < host_hi n \<Longrightarrow> a < 4294967296"
  using net_span [of n] by (auto simp: host_hi_def split: if_splits)

lemma host_lo_lt_hi: "net_ok n \<Longrightarrow> host_lo n < host_hi n"
proof -
  assume "net_ok n"
  show ?thesis
  proof (cases "net_plen n \<ge> 31")
    case True
    then show ?thesis by (simp add: host_lo_def host_hi_def)
  next
    case False
    then have "(2::nat) ^ 2 \<le> 2 ^ (32 - net_plen n)" by (intro power_increasing) auto
    with False show ?thesis by (simp add: host_lo_def host_hi_def)
  qed
qed

end
