(* ===== verification/Allocate.thy ===== *)
theory Allocate
  imports IpNet
begin

text \<open>
  \<open>nyc/client/network/allocate.py\<close> (VPC address allocation) and \<open>nyc/client/pubip/pool.py\<close>
  with its \<open>PubipConfig\<close> (public address pool). Both hand out the first candidate whose key
  is not in use: the contract is the locale \<open>first_free\<close>, interpreted on both.
\<close>

section \<open>The contract of an allocator\<close>

locale first_free =
  fixes alloc :: "'k set \<Rightarrow> exn + 'r" and cands :: "'r list" and key :: "'r \<Rightarrow> 'k"
  assumes alloc_Inr: "alloc used = Inr r \<longleftrightarrow> find (\<lambda>r. key r \<notin> used) cands = Some r"
begin

lemma alloc_free: "alloc used = Inr r \<Longrightarrow> r \<in> set cands \<and> key r \<notin> used"
  by (auto simp: alloc_Inr find_Some_iff)

lemma alloc_fails_iff: "(\<exists>e. alloc used = Inl e) \<longleftrightarrow> (\<forall>r \<in> set cands. key r \<in> used)"
proof -
  have "(\<exists>e. alloc used = Inl e) \<longleftrightarrow> (\<forall>r. alloc used \<noteq> Inr r)"
    by (metis old.sum.exhaust sum.distinct(1))
  also have "\<dots> \<longleftrightarrow> find (\<lambda>r. key r \<notin> used) cands = None"
    by (simp add: alloc_Inr)
  finally show ?thesis by (auto simp: find_None_iff)
qed

lemma alloc_first:
  "alloc used = Inr r \<Longrightarrow> \<exists>i < length cands. cands ! i = r \<and> (\<forall>j < i. key (cands ! j) \<in> used)"
  by (auto simp: alloc_Inr find_Some_iff)

lemma alloc_succeeds:
  assumes "finite used" and "card used < card (key ` set cands)"
  shows "\<exists>r. alloc used = Inr r"
proof (rule ccontr)
  assume "\<not> ?thesis"
  then have "\<exists>e. alloc used = Inl e" by (metis old.sum.exhaust)
  then have "key ` set cands \<subseteq> used" by (auto simp: alloc_fails_iff)
  with assms show False by (meson card_mono leD)
qed

lemma alloc_apart:
  "alloc used = Inr r \<Longrightarrow> alloc used' = Inr r' \<Longrightarrow> insert (key r) used \<subseteq> used' \<Longrightarrow> key r \<noteq> key r'"
  by (auto dest!: alloc_free)

end

section \<open>VPC addresses\<close>

definition gateway :: "string \<Rightarrow> exn + string" where
  "gateway cidr =
     (case ip_network cidr of
        Inl e \<Rightarrow> Inl e
      | Inr net \<Rightarrow>
          if net_plen net = 32 then Inl (TypeError ''list object is not an iterator'')
          else if host_lo net < host_hi net then Inr (ip_str (host_lo net))
          else Inl StopIteration)"

definition netmask :: "string \<Rightarrow> exn + string" where
  "netmask cidr =
     (case ip_network cidr of
        Inl e \<Rightarrow> Inl e
      | Inr net \<Rightarrow> Inr (ip_str (netmask_int (net_plen net))))"

definition gateway_cidr :: "string \<Rightarrow> exn + string" where
  "gateway_cidr cidr =
     (case gateway cidr of
        Inl e \<Rightarrow> Inl e
      | Inr g \<Rightarrow> (case split_on (CHR ''/'') cidr of
                   _ # p # _ \<Rightarrow> Inr (g @ ''/'' @ p)
                 | _ \<Rightarrow> Inl IndexError))"

function pick_loop :: "string \<Rightarrow> string set \<Rightarrow> nat \<Rightarrow> nat \<Rightarrow> exn + string" where
  "pick_loop cidr used lo hi =
     (if lo < hi
      then (case gateway cidr of
              Inl e \<Rightarrow> Inl e
            | Inr g \<Rightarrow>
                if ip_str lo \<noteq> g \<and> ip_str lo \<notin> used then Inr (ip_str lo)
                else pick_loop cidr used (Suc lo) hi)
      else Inl (RuntimeError (''VPC '' @ cidr @ '' is full'')))"
  by pat_completeness auto
termination
  by (relation "measure (\<lambda>(c, u, lo, hi). hi - lo)") auto

declare pick_loop.simps [simp del]

definition pick_ip :: "string \<Rightarrow> string set \<Rightarrow> exn + string" where
  "pick_ip cidr used =
     (case ip_network cidr of
        Inl e \<Rightarrow> Inl e
      | Inr net \<Rightarrow> pick_loop cidr used (host_lo net) (host_hi net))"

text \<open>The addresses a VPC can give to its VMs, in the order they are tried.\<close>

definition vm_hosts :: "string \<Rightarrow> string list" where
  "vm_hosts cidr =
     (case (ip_network cidr, gateway cidr) of
        (Inr net, Inr g) \<Rightarrow> filter (\<lambda>ip. ip \<noteq> g) (map ip_str [host_lo net..<host_hi net])
      | _ \<Rightarrow> [])"

lemma pick_loop_find:
  assumes g: "gateway cidr = Inr g"
  shows "pick_loop cidr used lo hi =
     (case find (\<lambda>ip. ip \<notin> used) (filter (\<lambda>ip. ip \<noteq> g) (map ip_str [lo..<hi])) of
        Some ip \<Rightarrow> Inr ip
      | None \<Rightarrow> Inl (RuntimeError (''VPC '' @ cidr @ '' is full'')))"
proof (induction "hi - lo" arbitrary: lo)
  case 0
  then show ?case by (simp add: pick_loop.simps)
next
  case (Suc n)
  then have "lo < hi" and IH: "n = hi - Suc lo" by auto
  then have "[lo..<hi] = lo # [Suc lo..<hi]" by (simp add: upt_conv_Cons)
  with \<open>lo < hi\<close> show ?case
    by (subst pick_loop.simps) (simp add: g Suc.hyps(1) [OF IH])
qed

lemma gateway_net:
  assumes "ip_network cidr = Inr net"
  shows "gateway cidr = (if net_plen net = 32 then Inl (TypeError ''list object is not an iterator'')
                         else Inr (ip_str (host_lo net)))"
  using assms host_lo_lt_hi [OF ip_network_ok [OF assms]] by (simp add: gateway_def)

lemma gateway_Inr:
  "gateway cidr = Inr g \<Longrightarrow>
   \<exists>net. ip_network cidr = Inr net \<and> net_plen net < 32 \<and> g = ip_str (host_lo net)"
  using ip_network_ok [of cidr]
  by (auto simp: gateway_def net_ok_def split: sum.splits if_splits)

lemma pick_ip_find:
  assumes "gateway cidr = Inr g"
  shows "pick_ip cidr used =
     (case find (\<lambda>ip. ip \<notin> used) (vm_hosts cidr) of
        Some ip \<Rightarrow> Inr ip
      | None \<Rightarrow> Inl (RuntimeError (''VPC '' @ cidr @ '' is full'')))"
  using gateway_Inr [OF assms] by (auto simp: pick_ip_def vm_hosts_def assms pick_loop_find [OF assms])

lemma pick_ip_no_gateway:
  assumes "gateway cidr = Inl e"
  shows "\<exists>e'. pick_ip cidr used = Inl e'"
proof (cases "ip_network cidr")
  case (Inr net)
  have "host_lo net < host_hi net" using Inr by (simp add: host_lo_lt_hi ip_network_ok)
  with Inr assms show ?thesis by (simp add: pick_ip_def pick_loop.simps)
qed (simp add: pick_ip_def)

interpretation ipam: first_free "pick_ip cidr" "vm_hosts cidr" "\<lambda>ip. ip" for cidr
proof unfold_locales
  fix used r
  show "pick_ip cidr used = Inr r \<longleftrightarrow> find (\<lambda>r. r \<notin> used) (vm_hosts cidr) = Some r"
  proof (cases "gateway cidr")
    case (Inl e)
    then have "vm_hosts cidr = []" by (simp add: vm_hosts_def split: sum.splits)
    moreover obtain e' where "pick_ip cidr used = Inl e'" using pick_ip_no_gateway [OF Inl] by blast
    ultimately show ?thesis by simp
  next
    case (Inr g)
    then show ?thesis by (auto simp: pick_ip_find split: option.splits)
  qed
qed

lemma vm_hosts_gateway: "gateway cidr = Inl e \<Longrightarrow> vm_hosts cidr = []"
  by (simp add: vm_hosts_def split: sum.splits)

lemma vm_hosts_net:
  assumes "ip \<in> set (vm_hosts cidr)"
  obtains net a where "ip_network cidr = Inr net" "net_ok net" "net_plen net < 32" "ip = ip_str a"
    "in_net a net" "a \<noteq> host_lo net" "gateway cidr = Inr (ip_str (host_lo net))" "ip \<noteq> ip_str (host_lo net)"
proof (cases "gateway cidr")
  case (Inl e)
  with assms show ?thesis by (simp add: vm_hosts_gateway)
next
  case (Inr g)
  then obtain net where net: "ip_network cidr = Inr net" "net_plen net < 32" "g = ip_str (host_lo net)"
    using gateway_Inr by blast
  then have ok: "net_ok net" using ip_network_ok by blast
  from assms net Inr obtain a where a: "ip = ip_str a" "host_lo net \<le> a" "a < host_hi net" "ip \<noteq> g"
    by (auto simp: vm_hosts_def)
  with that [OF net(1) ok net(2)] host_in_net [OF ok] Inr net(3) show ?thesis by auto
qed

section \<open>The public address pool\<close>

record pubip_entry =
  pe_address :: string
  pe_mac :: string
  pe_prefix :: string

record pubip_config =
  pc_iface :: string
  pc_ips :: "pubip_entry list"
  pc_gateway :: "string option"
  pc_bridge :: string

definition acquire ::
  "pubip_config \<Rightarrow> string set \<Rightarrow> exn + (string \<times> string \<times> string \<times> string)" where
  "acquire cfg used =
     (case filter (\<lambda>e. pe_address e \<notin> used) (pc_ips cfg) of
        [] \<Rightarrow> Inl (RuntimeError ''no free public IPs in pool for this node'')
      | e # _ \<Rightarrow> Inr (pe_address e, case pc_gateway cfg of None \<Rightarrow> [] | Some g \<Rightarrow> g,
                      pe_mac e, pe_prefix e))"

definition pool_offers :: "pubip_config \<Rightarrow> (string \<times> string \<times> string \<times> string) list" where
  "pool_offers cfg =
     map (\<lambda>e. (pe_address e, case pc_gateway cfg of None \<Rightarrow> [] | Some g \<Rightarrow> g, pe_mac e, pe_prefix e))
       (pc_ips cfg)"

lemma find_map_filter: "find P (map f xs) = (case filter (P \<circ> f) xs of [] \<Rightarrow> None | x # _ \<Rightarrow> Some (f x))"
  by (induction xs) auto

interpretation pubpool: first_free "acquire cfg" "pool_offers cfg" fst for cfg
  by unfold_locales
     (auto simp: acquire_def pool_offers_def find_map_filter comp_def split: list.splits)

section \<open>Properties\<close>

lemma first_split:
  "(\<exists>i < length xs. xs ! i = x \<and> (\<forall>j < i. P (xs ! j))) = (\<exists>before rest. xs = before @ x # rest \<and> (\<forall>y \<in> set before. P y))"
proof
  assume "\<exists>i < length xs. xs ! i = x \<and> (\<forall>j < i. P (xs ! j))"
  then obtain i where i: "i < length xs" "xs ! i = x" "\<forall>j < i. P (xs ! j)" by blast
  then have "xs = take i xs @ x # drop (Suc i) xs" by (auto simp: id_take_nth_drop)
  moreover have "\<forall>y \<in> set (take i xs). P y" using i by (auto simp: in_set_conv_nth)
  ultimately show "\<exists>before rest. xs = before @ x # rest \<and> (\<forall>y \<in> set before. P y)" by blast
next
  assume "\<exists>before rest. xs = before @ x # rest \<and> (\<forall>y \<in> set before. P y)"
  then obtain before rest where "xs = before @ x # rest" "\<forall>y \<in> set before. P y" by blast
  then show "\<exists>i < length xs. xs ! i = x \<and> (\<forall>j < i. P (xs ! j))"
    by (intro exI [of _ "length before"]) (auto simp: nth_append)
qed

text \<open>A network of four addresses, two of them for hosts, one of these the gateway's.\<close>

definition net30 :: ipnet where
  "net30 = \<lparr>net_int = 167837696, net_plen = 30\<rparr>"

lemma net30_facts:
  "gateway (net_str net30) = Inr (ip_str 167837697)" "vm_hosts (net_str net30) = [ip_str 167837698]"
proof -
  have n: "ip_network (net_str net30) = Inr net30"
    by (rule ip_network_net_str) (simp add: net30_def net_ok_def)
  have "[167837697..<167837699] = [167837697, 167837698]" by (simp add: upt_rec)
  then show "gateway (net_str net30) = Inr (ip_str 167837697)" "vm_hosts (net_str net30) = [ip_str 167837698]"
    using gateway_net [OF n] n
    by (simp_all add: vm_hosts_def net30_def host_lo_def host_hi_def ip_str_inject)
qed

text \<open>C27: an address \<open>pick_ip\<close> returns belongs to the VPC's network, is neither its gateway nor in
  use, and is the first such host address: every host before it in the order of the network is
  the gateway or in use.\<close>

theorem pick_ip_correct:
  assumes "pick_ip cidr used = Inr ip"
  shows "\<exists>net a. ip_network cidr = Inr net \<and> ip = ip_str a \<and> in_net a net \<and> ip \<notin> used \<and>
    gateway cidr = Inr (ip_str (host_lo net)) \<and> ip \<noteq> ip_str (host_lo net) \<and>
    (\<exists>before rest. vm_hosts cidr = before @ ip # rest \<and> set before \<subseteq> used)"
proof -
  have "ip \<notin> used" "ip \<in> set (vm_hosts cidr)" using ipam.alloc_free [OF assms] by simp_all
  moreover have "\<exists>before rest. vm_hosts cidr = before @ ip # rest \<and> set before \<subseteq> used"
    using ipam.alloc_first [OF assms] unfolding subset_eq
    by (simp only: first_split [of "vm_hosts cidr" ip "\<lambda>y. y \<in> used"])
  ultimately show ?thesis by (elim vm_hosts_net) blast
qed

lemma pick_ip_correct_witness:
  "pick_ip (net_str net30) {} = Inr (ip_str 167837698) \<and> gateway (net_str net30) \<noteq> Inr (ip_str 167837698)"
proof -
  have "pick_ip (net_str net30) {} = Inr (ip_str 167837698)"
    using pick_ip_find [OF net30_facts(1)] by (simp add: net30_facts(2))
  with pick_ip_correct [OF this] show ?thesis by auto
qed

text \<open>C28: on a VPC that has a gateway, allocation fails exactly when every host address but the
  gateway is in use, and then with the \<open>RuntimeError\<close> that says so; two allocations, the second with
  the first's address marked as used, never give the same address.\<close>

theorem pick_ip_full:
  assumes "gateway cidr = Inr g"
  shows "(pick_ip cidr used = Inl (RuntimeError (''VPC '' @ cidr @ '' is full''))) = (set (vm_hosts cidr) \<subseteq> used) \<and>
    (\<not> set (vm_hosts cidr) \<subseteq> used \<longrightarrow> (\<exists>ip. pick_ip cidr used = Inr ip \<and>
       (\<forall>ip'. pick_ip cidr (insert ip used) = Inr ip' \<longrightarrow> ip' \<noteq> ip)))"
proof (cases "find (\<lambda>ip. ip \<notin> used) (vm_hosts cidr)")
  case None
  with pick_ip_find [OF assms, of used] show ?thesis by (auto simp: find_None_iff)
next
  case (Some ip)
  then have "pick_ip cidr used = Inr ip" by (simp add: pick_ip_find [OF assms])
  moreover from Some have "\<not> set (vm_hosts cidr) \<subseteq> used"
    by (metis find_None_iff option.distinct(1) subset_code(1))
  moreover have "ip' \<noteq> ip" if "pick_ip cidr (insert ip used) = Inr ip'" for ip'
    using ipam.alloc_free [OF that] by auto
  ultimately show ?thesis by auto
qed

lemma pick_ip_full_witness:
  "pick_ip (net_str net30) {ip_str 167837698} = Inl (RuntimeError (''VPC '' @ net_str net30 @ '' is full''))"
  using pick_ip_full [OF net30_facts(1), of "{ip_str 167837698}"] by (simp add: net30_facts(2))

text \<open>\<open>acquire\<close> gives the first entry of the node's pool whose address is not in use, with
  its MAC and prefix and the pool's gateway, and fails exactly when none is left.\<close>

theorem acquire_correct:
  "(\<forall>r. (acquire cfg used = Inr r) = (find (\<lambda>o'. fst o' \<notin> used) (pool_offers cfg) = Some r)) \<and>
   (\<exists>e. acquire cfg used = Inl e) = (pe_address ` set (pc_ips cfg) \<subseteq> used)"
proof -
  have "(\<forall>r \<in> set (pool_offers cfg). fst r \<in> used) = (pe_address ` set (pc_ips cfg) \<subseteq> used)"
    by (auto simp: pool_offers_def)
  then show ?thesis using pubpool.alloc_fails_iff [of cfg used] by (simp add: pubpool.alloc_Inr)
qed

end
