(* ===== verification/Config.thy ===== *)
theory Config
  imports World Allocate
begin

text \<open>
  \<open>nyc/config.py\<close>: where a node's files are, its LVM substrate, the cluster's domain and its
  public addresses, each read from the environment first and from \<open>config.toml\<close> second.
\<close>

section \<open>Reading settings\<close>

definition truthy_str :: "string option \<Rightarrow> string option" where
  "truthy_str x = (case x of None \<Rightarrow> None | Some s \<Rightarrow> if s = [] then None else Some s)"

fun toml_truthy :: "toml \<Rightarrow> bool" where
  "toml_truthy (TStr s) = (s \<noteq> [])"
| "toml_truthy (TInt i) = (i \<noteq> 0)"
| "toml_truthy (TList l) = (l \<noteq> [])"
| "toml_truthy (TTable t) = (t \<noteq> [])"

text \<open>\<open>os.environ.get(env) or data.get(key)\<close>\<close>

definition setting :: "string \<Rightarrow> string \<Rightarrow> ('db, toml option) node_prog" where
  "setting env key = gets (\<lambda>w.
     case truthy_str (w_env w env) of
       Some s \<Rightarrow> Some (TStr s)
     | None \<Rightarrow> (case w_toml w key of
                  None \<Rightarrow> None
                | Some t \<Rightarrow> if toml_truthy t then Some t else None))"

text \<open>\<open>str(v)\<close> and \<open>int(v)\<close> of a scalar setting\<close>

fun toml_str :: "toml \<Rightarrow> string" where
  "toml_str (TStr s) = s"
| "toml_str (TInt i) = str_int i"
| "toml_str _ = []"

fun toml_int :: "toml \<Rightarrow> exn + int" where
  "toml_int (TStr s) = parse_int (strip s)"
| "toml_int (TInt i) = Inr i"
| "toml_int _ = Inl (TypeError ''int()'')"

definition str_setting :: "string \<Rightarrow> string \<Rightarrow> string \<Rightarrow> ('db, string) node_prog" where
  "str_setting env key dflt = bnd (setting env key) (\<lambda>v.
     ret (case v of None \<Rightarrow> dflt | Some t \<Rightarrow> toml_str t))"

definition int_setting :: "string \<Rightarrow> string \<Rightarrow> int \<Rightarrow> ('db, int) node_prog" where
  "int_setting env key dflt = bnd (setting env key) (\<lambda>v.
     case v of None \<Rightarrow> ret dflt | Some t \<Rightarrow> of_sum (toml_int t))"

section \<open>Paths\<close>

record paths =
  p_node_folder :: path
  p_repo_root :: path

definition vms_dir :: "paths \<Rightarrow> path" where
  "vms_dir p = p_node_folder p @ [''vms'']"

definition path_of_str :: "string \<Rightarrow> path" where
  "path_of_str s = filter (\<lambda>c. c \<noteq> []) (split_on (CHR ''/'') s)"

definition firecracker_bin :: "paths \<Rightarrow> ('db, path) node_prog" where
  "firecracker_bin p = gets (\<lambda>w.
     case truthy_str (w_env w ''NYC_FIRECRACKER'') of
       Some s \<Rightarrow> path_of_str s
     | None \<Rightarrow> p_repo_root p @ [''bin'', ''firecracker''])"

definition kernel_path :: "paths \<Rightarrow> path" where
  "kernel_path p = p_repo_root p @ [''assets'', ''vmlinux'']"

definition rootfs_path :: "paths \<Rightarrow> path" where
  "rootfs_path p = p_repo_root p @ [''assets'', ''rootfs.ext4'']"

definition ssh_key_path :: "paths \<Rightarrow> path" where
  "ssh_key_path p = p_repo_root p @ [''assets'', ''id_ed25519'']"

text \<open>\<open>p.exists()\<close>: a symbolic link exists when its target does.\<close>

definition path_exists :: "path \<Rightarrow> 'db world \<Rightarrow> bool" where
  "path_exists p w = (case fs_at p w of
     None \<Rightarrow> p = []
   | Some (Link t) \<Rightarrow> present (path_of_str t) w
   | Some _ \<Rightarrow> True)"

definition is_root_dir :: "'db world \<Rightarrow> path \<Rightarrow> bool" where
  "is_root_dir w d \<longleftrightarrow> path_exists (d @ [''pyproject.toml'']) w \<and> is_dir (d @ [''nyc'']) w"

definition find_repo_root :: "path \<Rightarrow> ('db, path) node_prog" where
  "find_repo_root start = gets (\<lambda>w.
     case find (is_root_dir w) (rev ([] # prefixes1 start)) of
       Some d \<Rightarrow> d
     | None \<Rightarrow> w_pkg_root w)"

definition resolve :: "('db, paths) node_prog" where
  "resolve = bnd (gets w_cwd) (\<lambda>folder. bnd (find_repo_root folder) (\<lambda>root.
     ret \<lparr>p_node_folder = folder, p_repo_root = root\<rparr>))"

section \<open>LVM substrate\<close>

record lvm_config =
  lc_vg :: string
  lc_thinpool :: string
  lc_device :: "string option"
  lc_node_folder :: path
  lc_loop_size_gb :: int
  lc_base_rootfs_mb :: int

definition loopback :: "lvm_config \<Rightarrow> bool" where
  "loopback c \<longleftrightarrow> lc_device c = None"

definition loop_file :: "lvm_config \<Rightarrow> path" where
  "loop_file c = lc_node_folder c @ [''.lvm'', ''pv.img'']"

definition vg_for :: "lvm_config \<Rightarrow> string \<Rightarrow> string" where
  "vg_for c node_id =
     (case truthy_str (lc_device c) of
        Some _ \<Rightarrow> lc_vg c
      | None \<Rightarrow> lc_vg c @ ''-'' @ take 8 node_id)"

definition lvm :: "('db, lvm_config) node_prog" where
  "lvm =
     bnd (gets w_cwd) (\<lambda>folder.
     bnd (str_setting ''NYC_LVM_VG'' ''lvm_vg'' ''nyc'') (\<lambda>vg.
     bnd (str_setting ''NYC_LVM_THINPOOL'' ''lvm_thinpool'' ''pool'') (\<lambda>tp.
     bnd (setting ''NYC_LVM_DEVICE'' ''lvm_device'') (\<lambda>dev.
     bnd (int_setting ''NYC_LVM_LOOP_GB'' ''lvm_loop_gb'' 20) (\<lambda>gb.
     bnd (int_setting ''NYC_LVM_ROOTFS_MB'' ''lvm_rootfs_mb'' 4096) (\<lambda>mb.
     ret \<lparr>lc_vg = vg, lc_thinpool = tp, lc_device = map_option toml_str dev,
          lc_node_folder = folder, lc_loop_size_gb = gb, lc_base_rootfs_mb = mb\<rparr>))))))"

definition volume_vg :: "string \<Rightarrow> ('db, string) node_prog" where
  "volume_vg node_id = bnd lvm (\<lambda>c. ret (vg_for c node_id))"

section \<open>Domain and public addresses\<close>

definition cluster_domain :: "('db, string option) node_prog" where
  "cluster_domain = bnd (setting ''NYC_DOMAIN'' ''domain'') (\<lambda>v. ret (map_option toml_str v))"

definition split_bar :: "string \<Rightarrow> string \<times> string" where
  "split_bar s = (takeWhile (\<lambda>c. c \<noteq> CHR ''|'') s, drop 1 (dropWhile (\<lambda>c. c \<noteq> CHR ''|'') s))"

text \<open>The comma-separated form \<open>addr|mac,addr|mac\<close> of \<open>NYC_PUBLIC_IPS\<close>\<close>

definition csv_ips :: "string \<Rightarrow> pubip_entry list" where
  "csv_ips s =
     map (\<lambda>item. \<lparr>pe_address = fst (split_bar item), pe_mac = snd (split_bar item), pe_prefix = ''32''\<rparr>)
       (filter (\<lambda>i. i \<noteq> []) (map strip (split_on (CHR '','') s)))"

definition toml_ip :: "toml \<Rightarrow> exn + pubip_entry" where
  "toml_ip e =
     (case e of
        TTable t \<Rightarrow>
          (case map_of t ''address'' of
             None \<Rightarrow> Inl (KeyError ''address'')
           | Some a \<Rightarrow>
               (case map_of t ''mac'' of
                  None \<Rightarrow> Inl (KeyError ''mac'')
                | Some m \<Rightarrow> Inr \<lparr>pe_address = toml_str a, pe_mac = toml_str m,
                     pe_prefix = (case map_of t ''prefix'' of None \<Rightarrow> ''32'' | Some p \<Rightarrow> toml_str p)\<rparr>))
      | _ \<Rightarrow> Inr \<lparr>pe_address = toml_str e, pe_mac = [], pe_prefix = ''32''\<rparr>)"

definition pubip :: "('db, pubip_config) node_prog" where
  "pubip =
     bnd (setting ''NYC_PUBLIC_IPS'' ''public_ips'') (\<lambda>raw.
     bnd (case raw of
            Some (TStr s) \<Rightarrow> ret (csv_ips s)
          | Some (TList es) \<Rightarrow> map_prog (\<lambda>e. of_sum (toml_ip e)) es
          | _ \<Rightarrow> ret []) (\<lambda>ips.
     bnd (str_setting ''NYC_PUBLIC_IFACE'' ''public_iface'' ''eth0'') (\<lambda>iface.
     bnd (setting ''NYC_PUBIP_GATEWAY'' ''pubip_gateway'') (\<lambda>gw.
     bnd (str_setting ''NYC_PUBLIC_BRIDGE'' ''public_bridge'' ''pub0'') (\<lambda>br.
     ret \<lparr>pc_iface = iface, pc_ips = ips, pc_gateway = map_option toml_str gw, pc_bridge = br\<rparr>)))))"

section \<open>Reading settings changes nothing\<close>

lemma reads_only_setting: "snd (setting env key w) = w"
  by (simp add: setting_def)

lemma keeps_setting [keeps_rules]: "keeps f (setting env key)"
  by (simp add: keeps_def reads_only_setting)

lemma keeps_config [keeps_rules]:
  "keeps f (str_setting env key d)" "keeps f (int_setting env key i)"
  "keeps f (find_repo_root p)" "keeps f (firecracker_bin ps)"
  by (auto simp: str_setting_def int_setting_def find_repo_root_def firecracker_bin_def
           intro!: keeps_rules)

lemma keeps_lvm [keeps_rules]: "keeps f lvm"
  unfolding lvm_def by (intro keeps_rules)

lemma keeps_readers [keeps_rules]:
  "keeps f resolve" "keeps f (volume_vg n)" "keeps f cluster_domain"
  by (auto simp: resolve_def volume_vg_def cluster_domain_def intro!: keeps_rules)

lemma keeps_pubip [keeps_rules]: "keeps f pubip"
  unfolding pubip_def
  by (auto intro!: keeps_rules split: option.splits toml.splits)

lemma reads_only: "keeps (\<lambda>w. w) m \<Longrightarrow> snd (m w) = w"
  by (simp add: keeps_def)

text \<open>The volume group a node's storage lives in, as a function of its settings.\<close>

definition vg_of :: "'db world \<Rightarrow> string \<Rightarrow> string" where
  "vg_of w node_id = (case fst (volume_vg node_id w) of Inr vg \<Rightarrow> vg | Inl _ \<Rightarrow> [])"

definition settings_ok :: "'db world \<Rightarrow> bool" where
  "settings_ok w \<longleftrightarrow> (\<exists>c. fst (lvm w) = Inr c)"

lemma volume_vg_run: "settings_ok w \<Longrightarrow> volume_vg n w = (Inr (vg_of w n), w)"
  using reads_only [OF keeps_readers(2), of n w] keeps_lvm [of "\<lambda>w. w"]
  by (cases "volume_vg n w")
     (auto simp: vg_of_def settings_ok_def volume_vg_def bnd_run split: prod.splits sum.splits)

text \<open>The settings are the same in every world with the same environment, configuration file and
  node folder, whatever the rest of the state is.\<close>

definition same_conf :: "'db world \<Rightarrow> 'db world \<Rightarrow> bool" where
  "same_conf w v \<longleftrightarrow> w_env w = w_env v \<and> w_toml w = w_toml v \<and> w_cwd w = w_cwd v"

definition reader :: "('db, 'a) node_prog \<Rightarrow> bool" where
  "reader m \<longleftrightarrow> (\<forall>w. snd (m w) = w) \<and> (\<forall>w v. same_conf w v \<longrightarrow> fst (m w) = fst (m v))"

lemma reader_of_sum: "reader (of_sum r)" and reader_ret: "reader (ret x)"
  by (simp_all add: reader_def)

lemma reader_setting: "reader (setting env key)"
  by (simp add: reader_def setting_def same_conf_def cong: option.case_cong)

lemma reader_cwd: "reader (gets w_cwd)"
  by (simp add: reader_def same_conf_def)

lemma reader_bnd:
  assumes "reader m" "\<And>x. reader (f x)"
  shows "reader (bnd m f)"
proof -
  have m: "m w = (fst (m w), w)" for w using assms(1) by (simp add: reader_def prod_eq_iff)
  have "bnd m f w = (case fst (m w) of Inl e \<Rightarrow> (Inl e, w) | Inr x \<Rightarrow> f x w)" for w
    by (subst bnd_run, subst m) (simp split: sum.splits)
  then show ?thesis using assms by (auto simp: reader_def split: sum.splits)
qed

lemma reader_map_prog: "(\<And>x. reader (f x)) \<Longrightarrow> reader (map_prog f xs)"
  by (induction xs) (auto intro: reader_ret reader_bnd)

lemmas reader_rules = reader_of_sum reader_ret reader_setting reader_cwd reader_bnd reader_map_prog

lemma reader_str: "reader (str_setting e k d)" and reader_int: "reader (int_setting e k i)"
  by (auto simp: str_setting_def int_setting_def intro!: reader_rules split: option.splits)

lemma reader_lvm: "reader lvm"
  unfolding lvm_def by (intro reader_rules reader_str reader_int)

lemma reader_pubip: "reader pubip"
  unfolding pubip_def
  by (auto intro!: reader_rules reader_str split: option.splits toml.splits)

lemma reader_vg: "reader (volume_vg n)"
  unfolding volume_vg_def by (intro reader_rules reader_lvm)

lemma reader_same: "reader m \<Longrightarrow> same_conf w v \<Longrightarrow> fst (m w) = fst (m v)"
  by (simp add: reader_def)

lemma vg_of_same: "same_conf w v \<Longrightarrow> vg_of w n = vg_of v n"
  by (simp add: vg_of_def reader_same [OF reader_vg])

lemma settings_ok_same: "same_conf w v \<Longrightarrow> settings_ok w = settings_ok v"
  by (simp add: settings_ok_def reader_same [OF reader_lvm])

lemma conf_updates [simp]:
  "vg_of (w\<lparr>w_fake := s\<rparr>) n = vg_of w n" "vg_of (w\<lparr>w_fs := f\<rparr>) n = vg_of w n"
  "vg_of (w\<lparr>w_db := d\<rparr>) n = vg_of w n" "settings_ok (w\<lparr>w_fake := s\<rparr>) = settings_ok w"
  "settings_ok (w\<lparr>w_fs := f\<rparr>) = settings_ok w" "settings_ok (w\<lparr>w_db := d\<rparr>) = settings_ok w"
  "fst (pubip (w\<lparr>w_fake := s\<rparr>)) = fst (pubip w)" "fst (pubip (w\<lparr>w_fs := f\<rparr>)) = fst (pubip w)"
  "fst (pubip (w\<lparr>w_db := d\<rparr>)) = fst (pubip w)" "fst (pubip (w\<lparr>w_polls := k\<rparr>)) = fst (pubip w)"
  by (auto intro!: vg_of_same settings_ok_same reader_same [OF reader_pubip] simp: same_conf_def)

end
