(* ===== verification/Volume.thy ===== *)
theory Volume
  imports Config
begin

text \<open>
  \<open>nyc/client/volume\<close>: the LVM primitives (\<open>lv.py\<close>), the role prefixes (\<open>names.py\<close>), data
  volumes, snapshots and golden images (\<open>create.py\<close>, \<open>delete.py\<close>, \<open>snapshot.py\<close>), and the
  per-node substrate (\<open>pool.py\<close>). On the simulator each verb has an exact effect on the table
  of logical volumes, proved here; the contract \<open>lv_store\<close> of that table is a locale, and so
  is the sweep of orphans the reconciler runs over it.
\<close>

section \<open>Names\<close>

definition DATA :: string where "DATA = ''data-''"
definition SNAP :: string where "SNAP = ''snap-''"
definition GOLD :: string where "GOLD = ''gold-''"
definition ROOTFS :: string where "ROOTFS = ''rootfs-''"

definition data_name :: "string \<Rightarrow> string" where
  "data_name vol_id = DATA @ vol_id"

definition snap_name :: "string \<Rightarrow> string" where
  "snap_name snap_id = SNAP @ snap_id"

definition gold_name :: "string \<Rightarrow> string" where
  "gold_name snap_id = GOLD @ snap_id"

definition rootfs_name :: "string \<Rightarrow> string" where
  "rootfs_name vm_id = ROOTFS @ vm_id"

lemmas name_defs = data_name_def snap_name_def gold_name_def rootfs_name_def
  DATA_def SNAP_def GOLD_def ROOTFS_def

lemma names_inject [simp]:
  "data_name a = data_name b \<longleftrightarrow> a = b" "snap_name a = snap_name b \<longleftrightarrow> a = b"
  "gold_name a = gold_name b \<longleftrightarrow> a = b" "rootfs_name a = rootfs_name b \<longleftrightarrow> a = b"
  by (simp_all add: name_defs)

lemma names_apart [simp]:
  "data_name a \<noteq> snap_name b" "data_name a \<noteq> gold_name b" "data_name a \<noteq> rootfs_name b"
  "snap_name a \<noteq> data_name b" "snap_name a \<noteq> gold_name b" "snap_name a \<noteq> rootfs_name b"
  "gold_name a \<noteq> data_name b" "gold_name a \<noteq> snap_name b" "gold_name a \<noteq> rootfs_name b"
  "rootfs_name a \<noteq> data_name b" "rootfs_name a \<noteq> snap_name b" "rootfs_name a \<noteq> gold_name b"
  by (simp_all add: name_defs)

section \<open>Primitives\<close>

definition LVS_COLS :: string where
  "LVS_COLS = ''lv_name,vg_name,lv_size,pool_lv,origin,lv_attr''"

definition device_path :: "string \<Rightarrow> string \<Rightarrow> string" where
  "device_path vg name = ''/dev/'' @ vg @ ''/'' @ name"

definition lv_create_thin :: "string \<Rightarrow> string \<Rightarrow> string \<Rightarrow> int \<Rightarrow> ('db, string) node_prog" where
  "lv_create_thin vg pool name size_mb =
     andThen (priv [''lvcreate'', ''-T'', vg @ ''/'' @ pool, ''-V'', str_int size_mb @ ''m'', ''-n'', name])
             (ret (device_path vg name))"

definition lv_snapshot :: "string \<Rightarrow> string \<Rightarrow> string \<Rightarrow> bool \<Rightarrow> ('db, string) node_prog" where
  "lv_snapshot vg origin name readonly =
     andThen (priv ([''lvcreate'', ''-s'', ''-kn'', ''-n'', name, vg @ ''/'' @ origin]
                    @ (if readonly then [''--permission'', ''r''] else [])))
             (ret (device_path vg name))"

definition lv_clone :: "string \<Rightarrow> string \<Rightarrow> string \<Rightarrow> ('db, string) node_prog" where
  "lv_clone vg origin name =
     andThen (priv [''lvcreate'', ''-s'', ''-kn'', ''-n'', name, vg @ ''/'' @ origin])
             (ret (device_path vg name))"

text \<open>Run a query, with \<open>PrivopsError\<close> read as an empty answer.\<close>

definition query :: "string \<Rightarrow> string list \<Rightarrow> ('db, (string \<times> string) list list) node_prog" where
  "query kind argv =
     bnd (except (run argv None)
            (\<lambda>e. case e of PrivopsError _ \<Rightarrow> ret (Text []) | _ \<Rightarrow> raise e)) (load_report kind)"

definition list_lvs :: "string \<Rightarrow> ('db, (string \<times> string) list list) node_prog" where
  "list_lvs vg = query ''lv''
     [''lvs'', ''--reportformat'', ''json'', ''--units'', ''m'', ''--nosuffix'', ''-o'', LVS_COLS, vg]"

definition column :: "string \<Rightarrow> (string \<times> string) list \<Rightarrow> exn + string" where
  "column k row = (case map_of row k of None \<Rightarrow> Inl (KeyError k) | Some v \<Rightarrow> Inr v)"

definition lv_names :: "string \<Rightarrow> ('db, string list) node_prog" where
  "lv_names vg = bnd (list_lvs vg) (map_prog (\<lambda>row. of_sum (column ''lv_name'' row)))"

definition lv_exists :: "string \<Rightarrow> string \<Rightarrow> ('db, bool) node_prog" where
  "lv_exists vg name = bnd (lv_names vg) (\<lambda>ns. ret (name \<in> set ns))"

definition vg_exists :: "string \<Rightarrow> ('db, bool) node_prog" where
  "vg_exists vg = bnd (query ''vg'' [''vgs'', ''--reportformat'', ''json'', ''-o'', ''vg_name'', vg])
                    (\<lambda>rows. ret (rows \<noteq> []))"

definition lv_remove :: "string \<Rightarrow> string \<Rightarrow> ('db, unit) node_prog" where
  "lv_remove vg name =
     bnd (lv_exists vg name) (\<lambda>b. if b then priv [''lvremove'', ''-f'', vg @ ''/'' @ name] else ret ())"

definition lv_extend :: "string \<Rightarrow> string \<Rightarrow> int \<Rightarrow> ('db, unit) node_prog" where
  "lv_extend vg name size_mb =
     andThen (priv [''lvextend'', ''-L'', str_int size_mb @ ''m'', vg @ ''/'' @ name])
             (priv [''resize2fs'', device_path vg name])"

definition format_ext4 :: "string \<Rightarrow> ('db, unit) node_prog" where
  "format_ext4 device = priv [''mkfs.ext4'', ''-F'', device]"

section \<open>Data volumes, snapshots, golden images\<close>

definition vol_create :: "string \<Rightarrow> string \<Rightarrow> string \<Rightarrow> int \<Rightarrow> ('db, string) node_prog" where
  "vol_create vg pool name size_mb =
     bnd (lv_create_thin vg pool name size_mb) (\<lambda>dev. andThen (format_ext4 dev) (ret dev))"

definition vol_from_snapshot :: "string \<Rightarrow> string \<Rightarrow> string \<Rightarrow> ('db, string) node_prog" where
  "vol_from_snapshot vg snapshot_lv name = lv_clone vg snapshot_lv name"

definition vol_delete :: "string \<Rightarrow> string \<Rightarrow> ('db, unit) node_prog" where
  "vol_delete vg name = lv_remove vg name"

definition snap_create :: "string \<Rightarrow> string \<Rightarrow> string \<Rightarrow> ('db, string) node_prog" where
  "snap_create vg source_lv snap_id = lv_snapshot vg source_lv (snap_name snap_id) True"

definition snap_golden :: "string \<Rightarrow> string \<Rightarrow> string \<Rightarrow> ('db, string) node_prog" where
  "snap_golden vg snap_id gold_id = lv_snapshot vg (snap_name snap_id) (gold_name gold_id) True"

definition snap_remove :: "string \<Rightarrow> string \<Rightarrow> ('db, unit) node_prog" where
  "snap_remove vg lv_name' = lv_remove vg lv_name'"

section \<open>The substrate\<close>

definition GOLD_DEFAULT :: string where "GOLD_DEFAULT = ''gold-default''"
definition BASE_ROOTFS :: string where "BASE_ROOTFS = ''base-rootfs''"

definition pv_exists :: "string \<Rightarrow> ('db, bool) node_prog" where
  "pv_exists dev = bnd (query ''pv'' [''pvs'', ''--reportformat'', ''json'', ''-o'', ''pv_name'', dev])
                     (\<lambda>rows. ret (rows \<noteq> []))"

definition ensure_pvcreate :: "string \<Rightarrow> ('db, unit) node_prog" where
  "ensure_pvcreate dev =
     bnd (pv_exists dev) (\<lambda>b. if b then ret ()
       else bnd (environ ''NYC_LVM_FORCE'') (\<lambda>f.
         priv (if f = Some ''1'' then [''pvcreate'', ''-ff'', ''-y'', dev] else [''pvcreate'', dev])))"

definition loop_dev :: "path \<Rightarrow> ('db, string) node_prog" where
  "loop_dev f =
     bnd (run [''losetup'', ''-j'', path_str f] None) (\<lambda>o1.
       let out = strip (text_of o1) in
       if out \<noteq> [] then ret (strip (hd (split_on (CHR '':'') out)))
       else bnd (run [''losetup'', ''--find'', ''--show'', path_str f] None) (\<lambda>o2. ret (strip (text_of o2))))"

definition ensure_loopback :: "lvm_config \<Rightarrow> ('db, string) node_prog" where
  "ensure_loopback cfg =
     (let f = loop_file cfg in
      andThen (mkdir_p (butlast f))
     (bnd (gets (path_exists f)) (\<lambda>b.
      andThen (if b then ret ()
               else priv [''truncate'', ''-s'', str_int (lc_loop_size_gb cfg) @ ''G'', path_str f])
     (bnd (loop_dev f) (\<lambda>dev. andThen (ensure_pvcreate dev) (ret dev))))))"

definition ensure_pv :: "lvm_config \<Rightarrow> ('db, string) node_prog" where
  "ensure_pv cfg =
     (case truthy_str (lc_device cfg) of
        Some d \<Rightarrow> andThen (ensure_pvcreate d) (ret d)
      | None \<Rightarrow> ensure_loopback cfg)"

definition ensure_pool :: "string \<Rightarrow> string \<Rightarrow> ('db, unit) node_prog" where
  "ensure_pool vg pool =
     bnd (lv_exists vg pool) (\<lambda>b. if b then ret ()
       else priv [''lvcreate'', ''--type'', ''thin-pool'', ''-l'', ''100%FREE'', ''-n'', pool, vg])"

definition ensure_default_golden :: "string \<Rightarrow> lvm_config \<Rightarrow> path \<Rightarrow> ('db, unit) node_prog" where
  "ensure_default_golden vg cfg rootfs_src =
     bnd (lv_exists vg GOLD_DEFAULT) (\<lambda>b. if b then ret ()
       else bnd (lv_create_thin vg (lc_thinpool cfg) BASE_ROOTFS (lc_base_rootfs_mb cfg)) (\<lambda>_.
            andThen (priv [''dd'', ''if='' @ path_str rootfs_src, ''of='' @ device_path vg BASE_ROOTFS,
                           ''bs=4M'', ''conv=fsync''])
                    (bnd (lv_snapshot vg BASE_ROOTFS GOLD_DEFAULT True) (\<lambda>_. ret ()))))"

definition pool_ensure :: "string \<Rightarrow> lvm_config \<Rightarrow> path \<Rightarrow> ('db, string) node_prog" where
  "pool_ensure node_id cfg rootfs_src =
     bnd (ensure_pv cfg) (\<lambda>pv.
       let vg = vg_for cfg node_id in
       bnd (vg_exists vg) (\<lambda>b.
       andThen (if b then ret () else priv [''vgcreate'', vg, pv])
      (andThen (ensure_pool vg (lc_thinpool cfg))
      (andThen (priv [''vgchange'', ''-ay'', vg])
      (andThen (ensure_default_golden vg cfg rootfs_src) (ret vg))))))"

section \<open>The simulator's table of logical volumes\<close>

type_synonym lv_key = "string \<times> string"

definition lv_map :: "fstate \<Rightarrow> lv_key \<Rightarrow> lvrec option" where
  "lv_map s = map_of (f_lvs s)"

definition lv_put :: "lv_key \<Rightarrow> lvrec \<Rightarrow> fstate \<Rightarrow> fstate" where
  "lv_put k d s = s\<lparr>f_lvs := AList.update k d (f_lvs s)\<rparr>"

definition lv_drop :: "lv_key \<Rightarrow> fstate \<Rightarrow> fstate" where
  "lv_drop k s = s\<lparr>f_lvs := AList.delete k (f_lvs s)\<rparr>"

definition lv_here :: "string \<Rightarrow> fstate \<Rightarrow> string set" where
  "lv_here vg s = {n. lv_map s (vg, n) \<noteq> None}"

definition noslash :: "string \<Rightarrow> bool" where
  "noslash s \<longleftrightarrow> CHR ''/'' \<notin> set s"

lemma lv_map_put [simp]: "lv_map (lv_put k d s) = (lv_map s)(k \<mapsto> d)"
  by (simp add: lv_map_def lv_put_def update_conv')

lemma lv_map_drop [simp]: "lv_map (lv_drop k s) = (lv_map s)(k := None)"
  by (simp add: lv_map_def lv_drop_def delete_conv')

lemma lv_here_put [simp]: "lv_here vg (lv_put (v, n) d s) = (if v = vg then insert n (lv_here vg s) else lv_here vg s)"
  by (auto simp: lv_here_def)

lemma lv_here_drop [simp]: "lv_here vg (lv_drop (v, n) s) = (if v = vg then lv_here vg s - {n} else lv_here vg s)"
  by (auto simp: lv_here_def)

lemma lv_drop_absent: "lv_map s k = None \<Longrightarrow> lv_drop k s = s"
  by (simp add: lv_drop_def lv_map_def map_of_eq_None_iff)

text \<open>The contract of a store of named volumes, and what follows from it alone: thin
  independence (removing one volume never touches another) and idempotent removal.\<close>

locale lv_store =
  fixes look :: "'s \<Rightarrow> 'k \<Rightarrow> 'v option" and put :: "'k \<Rightarrow> 'v \<Rightarrow> 's \<Rightarrow> 's" and del :: "'k \<Rightarrow> 's \<Rightarrow> 's"
  assumes look_put: "look (put k v s) = (look s)(k \<mapsto> v)"
    and look_del: "look (del k s) = (look s)(k := None)"
begin

lemma del_other: "k \<noteq> k' \<Longrightarrow> look (del k s) k' = look s k'"
  by (simp add: look_del)

lemma del_twice: "look (del k (del k s)) = look (del k s)"
  by (simp add: look_del)

lemma put_then_del: "look (del k (put k v s)) = look (del k s)"
  by (simp add: look_put look_del)

lemma del_origin_keeps_clone: "k \<noteq> c \<Longrightarrow> look (del k (put c v s)) c = Some v"
  by (simp add: look_put look_del)

lemma fold_del: "look (fold del ks s) k = (if k \<in> set ks then None else look s k)"
  by (induction ks arbitrary: s) (auto simp: look_del)

end

interpretation lvt: lv_store lv_map lv_put lv_drop
  by unfold_locales simp_all

text \<open>A sweep destroys every listed resource that nobody expects. From the one law of
  \<open>destroy\<close> it leaves exactly the expected ones, and a second sweep finds nothing.\<close>

locale orphan_sweep =
  fixes listed :: "'s \<Rightarrow> 'k set" and destroy :: "'k \<Rightarrow> 's \<Rightarrow> 's"
  assumes listed_destroy: "listed (destroy k s) = listed s - {k}"
begin

lemma listed_fold: "listed (fold destroy ks s) = listed s - set ks"
  by (induction ks arbitrary: s) (auto simp: listed_destroy)

lemma sweep_exact: "set ks = listed s - expected \<Longrightarrow> listed (fold destroy ks s) = listed s \<inter> expected"
  by (auto simp: listed_fold)

lemma sweep_converged: "set ks = listed s - expected \<Longrightarrow> listed (fold destroy ks s) - expected = {}"
  by (auto simp: listed_fold)

end

definition role_here :: "(string \<Rightarrow> bool) \<Rightarrow> string \<Rightarrow> fstate \<Rightarrow> string set" where
  "role_here role vg s = {n \<in> lv_here vg s. role n}"

interpretation lv_sweep: orphan_sweep "role_here role vg" "\<lambda>n. lv_drop (vg, n)" for role vg
  by unfold_locales (auto simp: role_here_def)

end
