(* ===== verification/VolumeFake.thy ===== *)
theory VolumeFake
  imports Volume
begin

text \<open>
  What each verb of the volume client does on the simulator: its exact effect on the table of
  logical volumes, as equations on a world whose backend is \<open>fake\<close>, and from them the
  functional facts about volumes, snapshots, golden images and the node substrate.
\<close>

section \<open>Commands\<close>

lemma fake_run_head:
  "h \<noteq> ''ip'' \<Longrightarrow> fake_run (h # as) s = (case handlers h of None \<Rightarrow> nothing s | Some f \<Rightarrow> f (h # as) s)"
  by (subst fake_run.simps) (simp add: is_netns_exec_def split: option.splits)

lemma parse_int_str [simp]: "parse_int (str_int i) = Inr i"
proof (cases "i < 0")
  case True
  then show ?thesis by (simp add: parse_int_def str_int_def all_digits_dec)
next
  case False
  obtain c ds where d: "dec (nat i) = c # ds" by (cases "dec (nat i)") auto
  have "is_digit c" using dec_not_char [of c "nat i"] d by simp
  then have "c \<noteq> CHR ''-''" "c \<noteq> CHR ''+''" by (auto simp: is_digit_def)
  moreover have "all_digits (c # ds)" "int_of_digits (c # ds) = nat i"
    using all_digits_dec [of "nat i"] int_of_digits_dec [of "nat i"] by (simp_all add: d)
  ultimately show ?thesis using False by (simp add: parse_int_def str_int_def d)
qed

lemma str_int_chars: "c \<in> set (str_int i) \<Longrightarrow> is_digit c \<or> c = CHR ''-''"
  by (auto simp: str_int_def dest: dec_not_char split: if_splits)

lemma str_int_ne [simp]: "str_int i \<noteq> []"
  by (simp add: str_int_def)

lemma rstrip_str_int:
  assumes "\<And>c. is_digit c \<or> c = CHR ''-'' \<Longrightarrow> c \<notin> set cs" and "u \<in> set cs"
  shows "rstrip_chars cs (str_int i @ [u]) = str_int i"
proof -
  have "last (str_int i) \<notin> set cs"
    using assms(1) str_int_chars [of "last (str_int i)" i] by auto
  then have "dropWhile (\<lambda>c. c \<in> set cs) (rev (str_int i)) = rev (str_int i)"
    by (cases "rev (str_int i)") (auto simp: last_rev hd_rev)
  with assms(2) show ?thesis by (simp add: rstrip_chars_def)
qed

lemma parse_m_str [simp]: "parse_m (str_int i @ ''m'') = Inr i"
proof -
  have plus: "dropWhile (\<lambda>c. c = CHR ''+'') (str_int i @ ''m'') = str_int i @ ''m''"
    using str_int_chars [of "hd (str_int i)" i]
    by (cases "str_int i") (auto simp: is_digit_def)
  have "rstrip_chars ''mMgGkK'' (str_int i @ ''m'') = str_int i"
    by (rule rstrip_str_int) (auto simp: is_digit_def)
  moreover have "CHR ''.'' \<notin> set (str_int i)"
    using str_int_chars [of "CHR ''.''" i] by (auto simp: is_digit_def)
  ultimately show ?thesis by (simp add: parse_m_def plus split_on_free)
qed

lemma split2_pair: "noslash a \<Longrightarrow> noslash b \<Longrightarrow> split2 (a @ ''/'' @ b) = Inr (a, b)"
  by (simp add: split2_def noslash_def split_on_append split_on_free)

lemma fake_lvs [fake_simps]:
  "fake_run [''lvs'', ''--reportformat'', ''json'', ''--units'', ''m'', ''--nosuffix'', ''-o'', cols, vg] s
   = (Inr (Json ''lv'' (map lvs_row (filter (\<lambda>(k, _). fst k = vg) (f_lvs s)))), s)"
  by (simp add: fake_run_head handlers_def lvs_cmd_def)

lemma fake_vgs [fake_simps]:
  "fake_run [''vgs'', ''--reportformat'', ''json'', ''-o'', ''vg_name'', vg] s
   = (Inr (Json ''vg'' (if vg \<in> f_vgs s then [[(''vg_name'', vg)]] else [])), s)"
  by (simp add: fake_run_head handlers_def vgs_cmd_def)

lemma fake_pvs [fake_simps]:
  "fake_run [''pvs'', ''--reportformat'', ''json'', ''-o'', ''pv_name'', dev] s
   = (Inr (Json ''pv'' (if dev \<in> f_pvs s then [[(''pv_name'', dev)]] else [])), s)"
  by (simp add: fake_run_head handlers_def pvs_cmd_def)

lemma ok_run [simp, fake_simps]: "ok f s = (Inr (Text []), f s)"
  by (simp add: ok_def andThen_run)

lemma nothing_run [simp, fake_simps]: "nothing s = (Inr (Text []), s)"
  by (simp add: nothing_def)

lemma fake_lvremove [fake_simps]:
  assumes "noslash vg" "noslash name"
  shows "fake_run [''lvremove'', ''-f'', vg @ ''/'' @ name] s = (Inr (Text []), lv_drop (vg, name) s)"
  using split2_pair [OF assms]
  by (simp add: fake_run_head handlers_def lvremove_cmd_def bnd_run lv_drop_def)

lemma fake_mkfs:
  "\<exists>g. fake_run [''mkfs.ext4'', ''-F'', dev] s = (Inr (Text []), s\<lparr>f_files := g\<rparr>)"
  by (simp add: fake_run_head handlers_def mkfs_cmd_def) blast

definition lv_name_ok :: "string \<Rightarrow> bool" where
  "lv_name_ok n \<longleftrightarrow> noslash n \<and> n \<notin> {''-s'', ''-n'', ''thin-pool'', ''--permission''}"

lemma lv_name_okD:
  assumes "lv_name_ok n"
  shows "noslash n" "n \<noteq> ''-s''" "''-s'' \<noteq> n" "n \<noteq> ''-n''" "''-n'' \<noteq> n" "n \<noteq> ''thin-pool''"
    "''thin-pool'' \<noteq> n" "n \<noteq> ''--permission''" "''--permission'' \<noteq> n"
  using assms by (auto simp: lv_name_ok_def)

lemma slash_neq: "CHR ''/'' \<notin> set k \<Longrightarrow> a @ CHR ''/'' # b \<noteq> k \<and> k \<noteq> a @ CHR ''/'' # b"
  by auto

lemma str_int_m_neq [simp]:
  "str_int n @ ''m'' \<noteq> ''-n''" "str_int n @ ''m'' \<noteq> ''-s''" "str_int n @ ''m'' \<noteq> ''thin-pool''"
  "str_int n @ ''m'' \<noteq> ''--permission''" "str_int n @ ''m'' \<noteq> ''-L''" "str_int n @ ''m'' \<noteq> ''-V''"
  by (auto dest: arg_cong [of _ _ last])

lemma fake_lvcreate_thin [fake_simps]:
  assumes "noslash vg" "noslash pool" "lv_name_ok name"
  shows "fake_run [''lvcreate'', ''-T'', vg @ ''/'' @ pool, ''-V'', str_int n @ ''m'', ''-n'', name] s
     = (Inr (Text []), lv_put (vg, name)
          \<lparr>lv_size = n, lv_pool = Some pool, lv_origin = None, lv_attr = ''Vwi-a-tz--''\<rparr> s)"
  using lv_name_okD [OF assms(3)] split2_pair [OF assms(1,2)] slash_neq [of "''-n''" vg pool]
    slash_neq [of "''-s''" vg pool] slash_neq [of "''thin-pool''" vg pool] slash_neq [of "''-V''" vg pool]
    slash_neq [of "''--permission''" vg pool]
  by (simp add: fake_run_head handlers_def lvcreate_cmd_def bnd_run arg_def add_lv_def lv_put_def)

text \<open>The record a thin snapshot gets: the pool and size of its origin, 0 when that is absent.\<close>

definition thin_of :: "lvrec option \<Rightarrow> string \<Rightarrow> bool \<Rightarrow> lvrec" where
  "thin_of src origin ro =
     \<lparr>lv_size = (case src of None \<Rightarrow> 0 | Some d \<Rightarrow> lv_size d),
      lv_pool = (case src of None \<Rightarrow> None | Some d \<Rightarrow> lv_pool d),
      lv_origin = Some origin, lv_attr = (if ro then ''Vri---tz-k'' else ''Vwi-a-tz--'')\<rparr>"

lemma find_slash: "noslash name \<Longrightarrow>
   find (\<lambda>a. CHR ''/'' \<in> set a) [''lvcreate'', ''-s'', ''-kn'', ''-n'', name, vg @ CHR ''/'' # o']
     = Some (vg @ CHR ''/'' # o') \<and>
   find (\<lambda>a. CHR ''/'' \<in> set a)
     [''lvcreate'', ''-s'', ''-kn'', ''-n'', name, vg @ CHR ''/'' # o', ''--permission'', ''r'']
     = Some (vg @ CHR ''/'' # o')"
  by (simp add: noslash_def)

lemma fake_lvcreate_snap [fake_simps]:
  assumes "noslash vg" "noslash o'" "lv_name_ok name"
  shows "fake_run [''lvcreate'', ''-s'', ''-kn'', ''-n'', name, vg @ ''/'' @ o'] s
     = (Inr (Text []), lv_put (vg, name) (thin_of (lv_map s (vg, o')) o' False) s)"
    "fake_run [''lvcreate'', ''-s'', ''-kn'', ''-n'', name, vg @ ''/'' @ o', ''--permission'', ''r''] s
     = (Inr (Text []), lv_put (vg, name) (thin_of (lv_map s (vg, o')) o' True) s)"
  using lv_name_okD [OF assms(3)] split2_pair [OF assms(1,2)] slash_neq [of "''-n''" vg o'] slash_neq [of "''-s''" vg o']
    slash_neq [of "''thin-pool''" vg o'] slash_neq [of "''--permission''" vg o']
    find_slash [of name vg o']
  by (simp_all add: fake_run_head handlers_def lvcreate_cmd_def bnd_run arg_def add_lv_def lv_put_def
        thin_of_def lv_map_def Let_def del: find.simps split: option.splits)

lemma fake_lvcreate_pool [fake_simps]:
  "fake_run [''lvcreate'', ''--type'', ''thin-pool'', ''-l'', ''100%FREE'', ''-n'', pool, vg] s
     = (Inr (Text []), lv_put (vg, pool)
          \<lparr>lv_size = 0, lv_pool = None, lv_origin = None, lv_attr = ''twi-a-tz--''\<rparr> s)"
  by (simp add: fake_run_head handlers_def lvcreate_cmd_def bnd_run arg_def add_lv_def lv_put_def)

lemma lv_map_entry:
  "lv_map (s\<lparr>f_lvs := AList.map_entry k f (f_lvs s)\<rparr>) = (lv_map s)(k := map_option f (lv_map s k))"
  by (simp add: lv_map_def map_of_map_entry map_option_case)

lemma fake_lvextend:
  assumes "noslash vg" "noslash name"
  shows "\<exists>t. fake_run [''lvextend'', ''-L'', str_int n @ ''m'', vg @ ''/'' @ name] s = (Inr (Text []), t)
     \<and> (\<exists>lvs. t = s\<lparr>f_lvs := lvs\<rparr>)
     \<and> lv_map t = (lv_map s)((vg, name) := map_option (\<lambda>d. d\<lparr>lv_size := n\<rparr>) (lv_map s (vg, name)))"
proof (cases "lv_map s (vg, name)")
  case None
  then have "fake_run [''lvextend'', ''-L'', str_int n @ ''m'', vg @ ''/'' @ name] s = (Inr (Text []), s)"
    using split2_pair [OF assms]
    by (simp add: fake_run_head handlers_def lvextend_cmd_def bnd_run lv_map_def)
  moreover have "\<exists>lvs. s = s\<lparr>f_lvs := lvs\<rparr>" by (rule exI [of _ "f_lvs s"]) simp
  ultimately show ?thesis using None by (intro exI [of _ s]) (auto simp: fun_upd_idem)
next
  case (Some d)
  then have "fake_run [''lvextend'', ''-L'', str_int n @ ''m'', vg @ ''/'' @ name] s
     = (Inr (Text []), s\<lparr>f_lvs := AList.map_entry (vg, name) (\<lambda>d. d\<lparr>lv_size := n\<rparr>) (f_lvs s)\<rparr>)"
    using split2_pair [OF assms]
    by (simp add: fake_run_head handlers_def lvextend_cmd_def bnd_run arg_def lv_map_def)
  then show ?thesis by (auto simp: lv_map_entry)
qed

lemma fake_noop [fake_simps]:
  "fake_run (''resize2fs'' # as) s = (Inr (Text []), s)" "fake_run (''dd'' # as) s = (Inr (Text []), s)"
  "fake_run (''vgchange'' # as) s = (Inr (Text []), s)" "fake_run (''kill'' # as) s = (Inr (Text []), s)"
  by (simp_all add: fake_run_head handlers_def kill_cmd_def vgchange_cmd_def noop_cmd_def nothing_def)

lemma fake_vgcreate [fake_simps]:
  "fake_run [''vgcreate'', vg, pv] s = (Inr (Text []), s\<lparr>f_vgs := insert vg (f_vgs s)\<rparr>)"
  by (simp add: fake_run_head handlers_def vgcreate_cmd_def bnd_run arg_def)

lemma fake_pvcreate [fake_simps]:
  "fake_run [''pvcreate'', dev] s = (Inr (Text []), s\<lparr>f_pvs := insert dev (f_pvs s)\<rparr>)"
  "fake_run [''pvcreate'', ''-ff'', ''-y'', dev] s = (Inr (Text []), s\<lparr>f_pvs := insert dev (f_pvs s)\<rparr>)"
  by (simp_all add: fake_run_head handlers_def pvcreate_cmd_def)

section \<open>Verbs\<close>

definition set_fake :: "(fstate \<Rightarrow> fstate) \<Rightarrow> 'db world \<Rightarrow> 'db world" where
  "set_fake f w = w\<lparr>w_fake := f (w_fake w)\<rparr>"

lemma set_fake_sel [simp]:
  "w_fake (set_fake f w) = f (w_fake w)" "w_fs (set_fake f w) = w_fs w" "w_db (set_fake f w) = w_db w"
  "w_env (set_fake f w) = w_env w" "w_toml (set_fake f w) = w_toml w" "w_cwd (set_fake f w) = w_cwd w"
  "on_fake (set_fake f w) = on_fake w"
  by (simp_all add: set_fake_def)

lemma set_fake_comp [simp]: "set_fake g (set_fake f w) = set_fake (\<lambda>s. g (f s)) w"
  by (simp add: set_fake_def)

lemma set_fake_id [simp]: "set_fake (\<lambda>s. s) w = w"
  by (simp add: set_fake_def)

lemma priv_set_fake:
  "on_fake w \<Longrightarrow> (\<And>s. fake_run argv s = (Inr x, f s)) \<Longrightarrow> priv argv w = (Inr (), set_fake f w)"
  by (simp add: priv_fake set_fake_def)

lemma query_fake:
  assumes "on_fake w" "fake_run argv (w_fake w) = (Inr (Json kind rows), w_fake w)"
  shows "query kind argv w = (Inr rows, w)"
  using run_fake_ok [OF assms, of None] by (simp add: query_def bnd_run except_run load_report_def)

lemma list_lvs_fake:
  "on_fake w \<Longrightarrow>
   list_lvs vg w = (Inr (map lvs_row (filter (\<lambda>(k, _). fst k = vg) (f_lvs (w_fake w)))), w)"
  unfolding list_lvs_def by (rule query_fake) (simp_all add: fake_lvs)

definition lv_list :: "string \<Rightarrow> fstate \<Rightarrow> string list" where
  "lv_list vg s = map (\<lambda>e. snd (fst e)) (filter (\<lambda>(k, _). fst k = vg) (f_lvs s))"

lemma set_lv_list [simp]: "set (lv_list vg s) = lv_here vg s"
  by (auto simp: lv_list_def lv_here_def lv_map_def map_of_eq_None_iff image_iff)
     (metis fst_conv prod.exhaust_sel snd_conv)+

lemma map_prog_of_sum: "(\<And>x. x \<in> set xs \<Longrightarrow> g x = Inr (h x)) \<Longrightarrow> map_prog (\<lambda>x. of_sum (g x)) xs w = (Inr (map h xs), w)"
  by (induction xs) (simp_all add: bnd_run)

lemma lv_names_fake [prog_simps]: "on_fake w \<Longrightarrow> lv_names vg w = (Inr (lv_list vg (w_fake w)), w)"
proof -
  assume w: "on_fake w"
  let ?es = "filter (\<lambda>(k, _). fst k = vg) (f_lvs (w_fake w))"
  have "map_prog (\<lambda>row. of_sum (column ''lv_name'' row)) (map lvs_row es) w = (Inr (map (\<lambda>e. snd (fst e)) es), w)"
    for es by (induction es) (auto simp: bnd_run column_def lvs_row_def split: prod.splits)
  then show ?thesis
    by (simp add: lv_names_def bnd_run list_lvs_fake [OF w] lv_list_def)
qed

lemma lv_exists_fake [prog_simps]:
  "on_fake w \<Longrightarrow> lv_exists vg name w = (Inr (name \<in> lv_here vg (w_fake w)), w)"
  by (simp add: lv_exists_def bnd_run lv_names_fake)

lemma lv_remove_fake:
  assumes "on_fake w" "noslash vg" "noslash name"
  shows "lv_remove vg name w = (Inr (), set_fake (lv_drop (vg, name)) w)"
proof (cases "name \<in> lv_here vg (w_fake w)")
  case True
  then show ?thesis
    using priv_set_fake [OF assms(1) fake_lvremove [OF assms(2,3)]]
    by (simp add: lv_remove_def bnd_run lv_exists_fake assms(1))
next
  case False
  then have "lv_drop (vg, name) (w_fake w) = w_fake w"
    by (simp add: lv_drop_absent lv_here_def)
  with False show ?thesis
    by (simp add: lv_remove_def bnd_run lv_exists_fake assms(1) set_fake_def)
qed

lemma lv_create_thin_fake:
  assumes "on_fake w" "noslash vg" "noslash pool" "lv_name_ok name"
  shows "lv_create_thin vg pool name n w = (Inr (device_path vg name),
     set_fake (lv_put (vg, name)
       \<lparr>lv_size = n, lv_pool = Some pool, lv_origin = None, lv_attr = ''Vwi-a-tz--''\<rparr>) w)"
  using priv_set_fake [OF assms(1) fake_lvcreate_thin [OF assms(2-4)]]
  by (simp add: lv_create_thin_def andThen_run)

lemma lv_clone_fake:
  assumes "on_fake w" "noslash vg" "noslash o'" "lv_name_ok name"
  shows "lv_clone vg o' name w = (Inr (device_path vg name),
     set_fake (\<lambda>s. lv_put (vg, name) (thin_of (lv_map s (vg, o')) o' False) s) w)"
  using priv_set_fake [OF assms(1) fake_lvcreate_snap(1) [OF assms(2-4)]]
  by (simp add: lv_clone_def andThen_run)

lemma lv_snapshot_fake:
  assumes "on_fake w" "noslash vg" "noslash o'" "lv_name_ok name"
  shows "lv_snapshot vg o' name ro w = (Inr (device_path vg name),
     set_fake (\<lambda>s. lv_put (vg, name) (thin_of (lv_map s (vg, o')) o' ro) s) w)"
  using priv_set_fake [OF assms(1) fake_lvcreate_snap(1) [OF assms(2-4)]]
    priv_set_fake [OF assms(1) fake_lvcreate_snap(2) [OF assms(2-4)]]
  by (cases ro) (simp_all add: lv_snapshot_def andThen_run)

lemma format_ext4_fake:
  "on_fake w \<Longrightarrow> \<exists>g. format_ext4 dev w = (Inr (), set_fake (f_files_update (\<lambda>_. g)) w)"
  using fake_mkfs [of dev "w_fake w"] by (auto simp: format_ext4_def priv_fake set_fake_def)

end
