(* ===== verification/Network.thy ===== *)
theory Network
  imports VolumeFake
begin

text \<open>
  \<open>nyc/client/network\<close>: network namespaces, veth pairs, the bridge and the VXLAN tunnel of a
  VPC, the tap and the bridge inside a VM's namespace, the NAT rules, and the identifiers every
  node derives from a VPC's id. On the simulator, NAT is an instance of the locale
  \<open>ensure_once\<close> (make a resource exist unless it does), and the tunnel's peer list is
  reconciled by printing and parsing \<open>bridge fdb\<close> lines.
\<close>

section \<open>Namespaces\<close>

text \<open>\<open>[line.split()[0] for line in out.splitlines() if line.strip()]\<close>\<close>

definition first_words :: "string \<Rightarrow> string list" where
  "first_words out = map (\<lambda>l. hd (words l)) (filter (\<lambda>l. strip l \<noteq> []) (splitlines out))"

definition netns_create :: "string \<Rightarrow> ('db, unit) node_prog" where
  "netns_create name = priv [''ip'', ''netns'', ''add'', name]"

definition netns_delete :: "string \<Rightarrow> ('db, unit) node_prog" where
  "netns_delete name = priv [''ip'', ''netns'', ''del'', name]"

definition netns_list_all :: "('db, string list) node_prog" where
  "netns_list_all = bnd (run [''ip'', ''netns'', ''list''] None) (\<lambda>out. ret (first_words (text_of out)))"

definition netns_exists :: "string \<Rightarrow> ('db, bool) node_prog" where
  "netns_exists name =
     bnd (run [''ip'', ''netns'', ''list''] None) (\<lambda>out. ret (name \<in> set (first_words (text_of out))))"

section \<open>veth, bridges, taps\<close>

definition veth_create_pair :: "string \<Rightarrow> string \<Rightarrow> ('db, unit) node_prog" where
  "veth_create_pair host_name ns_name =
     priv [''ip'', ''link'', ''add'', host_name, ''type'', ''veth'', ''peer'', ''name'', ns_name]"

definition veth_place_in_ns :: "string \<Rightarrow> string \<Rightarrow> ('db, unit) node_prog" where
  "veth_place_in_ns name ns = priv [''ip'', ''link'', ''set'', name, ''netns'', ns]"

definition veth_up :: "string \<Rightarrow> ('db, unit) node_prog" where
  "veth_up name = priv [''ip'', ''link'', ''set'', name, ''up'']"

definition veth_delete :: "string \<Rightarrow> ('db, unit) node_prog" where
  "veth_delete name = priv [''ip'', ''link'', ''del'', name]"

definition bridge_name :: "string \<Rightarrow> string \<Rightarrow> string" where
  "bridge_name node_id vpc_id = ''br-'' @ take 4 node_id @ ''-'' @ take 4 vpc_id"

definition bridge_exists :: "string \<Rightarrow> ('db, bool) node_prog" where
  "bridge_exists bridge =
     bnd (gets backend) (\<lambda>b.
       if b = ''fake'' then gets (\<lambda>w. bridge \<in> f_bridges (w_fake w) \<or> f_links (w_fake w) bridge \<noteq> None)
       else probe (priv [''ip'', ''link'', ''show'', bridge]))"

definition bridge_ensure :: "string \<Rightarrow> string \<Rightarrow> string option \<Rightarrow> ('db, unit) node_prog" where
  "bridge_ensure bridge host_ip_cidr mac =
     bnd (bridge_exists bridge) (\<lambda>b. if b then ret () else
       andThen (priv [''ip'', ''link'', ''add'', bridge, ''type'', ''bridge''])
      (andThen (case truthy_str mac of
                  Some m \<Rightarrow> priv [''ip'', ''link'', ''set'', bridge, ''address'', m]
                | None \<Rightarrow> ret ())
      (andThen (priv [''ip'', ''addr'', ''add'', host_ip_cidr, ''dev'', bridge])
               (priv [''ip'', ''link'', ''set'', bridge, ''up'']))))"

definition bridge_delete :: "string \<Rightarrow> ('db, unit) node_prog" where
  "bridge_delete bridge =
     bnd (bridge_exists bridge) (\<lambda>b. if b then priv [''ip'', ''link'', ''del'', bridge] else ret ())"

definition bridge_attach :: "string \<Rightarrow> string \<Rightarrow> ('db, unit) node_prog" where
  "bridge_attach bridge host_veth = priv [''ip'', ''link'', ''set'', host_veth, ''master'', bridge]"

definition tap_create :: "string \<Rightarrow> string \<Rightarrow> ('db, unit) node_prog" where
  "tap_create ns name =
     priv [''ip'', ''netns'', ''exec'', ns, ''ip'', ''tuntap'', ''add'', ''dev'', name, ''mode'', ''tap'']"

definition tap_delete :: "string \<Rightarrow> string \<Rightarrow> ('db, unit) node_prog" where
  "tap_delete ns name = priv [''ip'', ''netns'', ''exec'', ns, ''ip'', ''link'', ''del'', name]"

definition ns_bridge_NAME :: string where
  "ns_bridge_NAME = ''nbr0''"

definition ns_bridge_create :: "string \<Rightarrow> string \<Rightarrow> ('db, unit) node_prog" where
  "ns_bridge_create ns name =
     andThen (priv [''ip'', ''netns'', ''exec'', ns, ''ip'', ''link'', ''add'', name, ''type'', ''bridge''])
             (priv [''ip'', ''netns'', ''exec'', ns, ''ip'', ''link'', ''set'', name, ''up''])"

definition ns_bridge_attach :: "string \<Rightarrow> string \<Rightarrow> string \<Rightarrow> ('db, unit) node_prog" where
  "ns_bridge_attach ns link' name =
     andThen (priv [''ip'', ''netns'', ''exec'', ns, ''ip'', ''link'', ''set'', link', ''master'', name])
             (priv [''ip'', ''netns'', ''exec'', ns, ''ip'', ''link'', ''set'', link', ''up''])"

section \<open>NAT\<close>

definition NAT :: string where "NAT = ''nat''"
definition FILTER :: string where "FILTER = ''filter''"
definition POST :: string where "POST = ''NYC-POSTROUTING''"
definition FWD :: string where "FWD = ''NYC-FORWARD''"

definition chain_exists :: "string \<Rightarrow> string \<Rightarrow> ('db, bool) node_prog" where
  "chain_exists table chain = probe (priv [''iptables'', ''-t'', table, ''-nL'', chain])"

definition ensure_chain :: "string \<Rightarrow> string \<Rightarrow> ('db, unit) node_prog" where
  "ensure_chain table chain =
     bnd (chain_exists table chain) (\<lambda>b.
       if b then ret () else priv [''iptables'', ''-t'', table, ''-N'', chain])"

definition rule_exists :: "string \<Rightarrow> string \<Rightarrow> string list \<Rightarrow> ('db, bool) node_prog" where
  "rule_exists table chain args = probe (priv ([''iptables'', ''-t'', table, ''-C'', chain] @ args))"

definition ensure_rule :: "string \<Rightarrow> string \<Rightarrow> string list \<Rightarrow> ('db, unit) node_prog" where
  "ensure_rule table chain args =
     bnd (rule_exists table chain args) (\<lambda>b.
       if b then ret () else priv ([''iptables'', ''-t'', table, ''-A'', chain] @ args))"

definition del_rule :: "string \<Rightarrow> string \<Rightarrow> string list \<Rightarrow> ('db, unit) node_prog" where
  "del_rule table chain args =
     bnd (rule_exists table chain args) (\<lambda>b.
       if b then priv ([''iptables'', ''-t'', table, ''-D'', chain] @ args) else ret ())"

definition nat_ensure :: "string \<Rightarrow> ('db, unit) node_prog" where
  "nat_ensure cidr =
     andThen (priv [''sysctl'', ''-w'', ''net.ipv4.ip_forward=1''])
    (andThen (ensure_chain NAT POST)
    (andThen (ensure_chain FILTER FWD)
    (andThen (ensure_rule NAT ''POSTROUTING'' [''-j'', POST])
    (andThen (ensure_rule FILTER ''FORWARD'' [''-j'', FWD])
    (andThen (ensure_rule NAT POST [''-s'', cidr, ''!'', ''-d'', cidr, ''-j'', ''MASQUERADE''])
    (andThen (ensure_rule FILTER FWD [''-s'', cidr, ''-j'', ''ACCEPT''])
             (ensure_rule FILTER FWD [''-d'', cidr, ''-j'', ''ACCEPT''])))))))"

definition nat_delete :: "string \<Rightarrow> ('db, unit) node_prog" where
  "nat_delete cidr =
     andThen (del_rule NAT POST [''-s'', cidr, ''!'', ''-d'', cidr, ''-j'', ''MASQUERADE''])
    (andThen (del_rule FILTER FWD [''-s'', cidr, ''-j'', ''ACCEPT''])
             (del_rule FILTER FWD [''-d'', cidr, ''-j'', ''ACCEPT'']))"

section \<open>VXLAN\<close>

definition DSTPORT :: string where "DSTPORT = ''4789''"
definition ALL_ZEROS :: string where "ALL_ZEROS = ''00:00:00:00:00:00''"

definition vxlan_name :: "string \<Rightarrow> string \<Rightarrow> string" where
  "vxlan_name node_id vpc_id = ''vx-'' @ take 4 node_id @ ''-'' @ take 4 vpc_id"

definition vxlan_exists :: "string \<Rightarrow> ('db, bool) node_prog" where
  "vxlan_exists name =
     bnd (gets backend) (\<lambda>b.
       if b = ''fake'' then gets (\<lambda>w. f_links (w_fake w) name \<noteq> None)
       else probe (priv [''ip'', ''link'', ''show'', name]))"

definition vxlan_ensure :: "string \<Rightarrow> int \<Rightarrow> string \<Rightarrow> string \<Rightarrow> ('db, unit) node_prog" where
  "vxlan_ensure name vni local_ip bridge =
     bnd (vxlan_exists name) (\<lambda>b. if b then ret () else
       andThen (priv [''ip'', ''link'', ''add'', name, ''type'', ''vxlan'', ''id'', str_int vni,
                      ''dstport'', DSTPORT, ''local'', local_ip])
      (andThen (priv [''ip'', ''link'', ''set'', name, ''master'', bridge])
               (priv [''ip'', ''link'', ''set'', name, ''up''])))"

definition vxlan_delete :: "string \<Rightarrow> ('db, unit) node_prog" where
  "vxlan_delete name =
     bnd (vxlan_exists name) (\<lambda>b. if b then priv [''ip'', ''link'', ''del'', name] else ret ())"

text \<open>\<open>line.split("dst")[1].split()[0]\<close> of the lines that name the all-zeros address\<close>

definition dst_of :: "string \<Rightarrow> exn + string" where
  "dst_of line = (case arg (split_str ''dst'' line) 1 of Inl e \<Rightarrow> Inl e | Inr t \<Rightarrow> arg (words t) 0)"

definition fdb_peers :: "string \<Rightarrow> ('db, string list) node_prog" where
  "fdb_peers name =
     bnd (run [''bridge'', ''fdb'', ''show'', ''dev'', name] None) (\<lambda>out.
     map_prog (\<lambda>line. of_sum (dst_of line))
       (filter (\<lambda>line. contains line ALL_ZEROS \<and> contains line ''dst'') (splitlines (text_of out))))"

text \<open>The two loops of \<open>set_fdb\<close> run over Python sets, each element once, in an order the
  language leaves open; here it is the order of the lists.\<close>

definition set_fdb :: "string \<Rightarrow> string list \<Rightarrow> ('db, unit) node_prog" where
  "set_fdb name peers =
     bnd (fdb_peers name) (\<lambda>current.
     andThen (for_each (filter (\<lambda>d. d \<notin> set current) (remdups peers))
                (\<lambda>dst. priv [''bridge'', ''fdb'', ''append'', ALL_ZEROS, ''dev'', name, ''dst'', dst]))
             (for_each (filter (\<lambda>d. d \<notin> set peers) (remdups current))
                (\<lambda>dst. priv [''bridge'', ''fdb'', ''del'', ALL_ZEROS, ''dev'', name, ''dst'', dst])))"

section \<open>Identifiers derived from a VPC\<close>

definition int_from_bytes :: "nat list \<Rightarrow> int" where
  "int_from_bytes bs = foldl (\<lambda>n b. 256 * n + int b) 0 bs"

definition vni_for :: "(string \<Rightarrow> nat list) \<Rightarrow> string \<Rightarrow> int" where
  "vni_for sha256 vpc_id = int_from_bytes (take 4 (sha256 vpc_id)) mod (2 ^ 24 - 1) + 1"

definition hex_digit :: "nat \<Rightarrow> char" where
  "hex_digit d = (if d < 10 then digit_char d else char_of (87 + d))"

text \<open>\<open>f"{x:02x}"\<close> of a byte\<close>

definition hex2 :: "nat \<Rightarrow> string" where
  "hex2 x = [hex_digit (x div 16), hex_digit (x mod 16)]"

definition anycast_mac :: "(string \<Rightarrow> nat list) \<Rightarrow> string \<Rightarrow> string" where
  "anycast_mac sha256 vpc_id = ''02:'' @ join '':'' (map hex2 (take 5 (sha256 vpc_id)))"

section \<open>The simulator's rule tables\<close>

text \<open>A resource of the packet filter: a chain, or a rule of a chain.\<close>

type_synonym ipt_item = "string \<times> string \<times> string list option"

definition ipt_upd :: "string \<Rightarrow> (ipt \<Rightarrow> ipt) \<Rightarrow> fstate \<Rightarrow> fstate" where
  "ipt_upd t f s = s\<lparr>f_ipt := (f_ipt s)(t \<mapsto> f (ipt_table s t))\<rparr>"

fun ipt_has :: "fstate \<Rightarrow> ipt_item \<Rightarrow> bool" where
  "ipt_has s (t, c, None) = (c \<in> chains (ipt_table s t))"
| "ipt_has s (t, c, Some r) = (r \<in> set (ipt_rules (ipt_table s t) c))"

fun ipt_add :: "ipt_item \<Rightarrow> fstate \<Rightarrow> fstate" where
  "ipt_add (t, c, None) s =
     ipt_upd t (\<lambda>i. i\<lparr>chains := insert c (chains i), rules := (rules i)(c \<mapsto> ipt_rules i c)\<rparr>) s"
| "ipt_add (t, c, Some r) s = ipt_upd t (\<lambda>i. i\<lparr>rules := (rules i)(c \<mapsto> ipt_rules i c @ [r])\<rparr>) s"

definition ensure_in :: "('s \<Rightarrow> 'r \<Rightarrow> bool) \<Rightarrow> ('r \<Rightarrow> 's \<Rightarrow> 's) \<Rightarrow> 'r \<Rightarrow> 's \<Rightarrow> 's" where
  "ensure_in has add r s = (if has s r then s else add r s)"

locale ensure_once =
  fixes has :: "'s \<Rightarrow> 'r \<Rightarrow> bool" and add :: "'r \<Rightarrow> 's \<Rightarrow> 's"
  assumes has_add: "has (add r s) r' \<longleftrightarrow> r' = r \<or> has s r'"
begin

lemma has_ensured: "has (fold (ensure_in has add) rs s) r \<longleftrightarrow> r \<in> set rs \<or> has s r"
  by (induction rs arbitrary: s) (auto simp: ensure_in_def has_add)

lemma ensured_noop: "(\<And>r. r \<in> set rs \<Longrightarrow> has s r) \<Longrightarrow> fold (ensure_in has add) rs s = s"
  by (induction rs) (auto simp: ensure_in_def)

lemma ensured_twice:
  "fold (ensure_in has add) rs (fold (ensure_in has add) rs s) = fold (ensure_in has add) rs s"
  by (rule ensured_noop) (simp add: has_ensured)

end

lemma ipt_table_upd: "ipt_table (ipt_upd t f s) u = (if u = t then f (ipt_table s t) else ipt_table s u)"
  by (simp add: ipt_upd_def ipt_table_def)

interpretation ipt_once: ensure_once ipt_has ipt_add
proof
  fix r r' :: ipt_item and s
  obtain t c a where "r = (t, c, a)" by (cases r)
  moreover obtain t' c' a' where "r' = (t', c', a')" by (cases r')
  ultimately show "ipt_has (ipt_add r s) r' \<longleftrightarrow> r' = r \<or> ipt_has s r'"
    by (cases a; cases a') (auto simp: ipt_table_upd ipt_rules_def)
qed

end
