(* ===== verification/NetworkFake.thy ===== *)
theory NetworkFake
  imports Network
begin

text \<open>
  The network verbs on the simulator: NAT rules are ensured once and removed exactly, the
  tunnel's peer list becomes exactly the peers asked for, and each link verb has its effect on
  the table of links. The names of links are told apart from the keywords of \<open>ip\<close> by
  \<open>iface\<close>: they hold a dash or a digit.
\<close>

section \<open>NAT\<close>

definition ipt_ready :: "fstate \<Rightarrow> bool" where
  "ipt_ready s \<longleftrightarrow> f_ipt s NAT \<noteq> None \<and> f_ipt s FILTER \<noteq> None"

lemma ipt_upd_same: "f_ipt s t = Some i \<Longrightarrow> ipt_upd t (\<lambda>_. i) s = s"
  by (simp add: ipt_upd_def fun_upd_idem)

lemma ipt_upd_id: "f_ipt s t \<noteq> None \<Longrightarrow> ipt_upd t (\<lambda>i. i) s = s"
  by (auto simp: ipt_upd_def ipt_table_def fun_upd_idem)

lemma fake_ipt:
  "fake_run (''iptables'' # ''-t'' # t # op # a) s =
     (case (case ipt_ops op of None \<Rightarrow> ret (Text []) | Some f \<Rightarrow> f a) (ipt_table s t) of
        (r, i) \<Rightarrow> (r, ipt_upd t (\<lambda>_. i) s))"
  by (simp add: fake_run_head handlers_def iptables_cmd_def bnd_run ipt_on_def zoom_run ipt_upd_def)

lemma fake_nL:
  "f_ipt s t \<noteq> None \<Longrightarrow> fake_run [''iptables'', ''-t'', t, ''-nL'', c] s =
     (if ipt_has s (t, c, None) then (Inr (Text []), s)
      else (Inl (PrivopsError ''iptables: No chain/target/match by that name''), s))"
  by (auto simp: fake_ipt ipt_ops_def ipt_list_def bnd_run ipt_upd_same ipt_table_def)

lemma fake_C:
  "f_ipt s t \<noteq> None \<Longrightarrow> fake_run (''iptables'' # ''-t'' # t # ''-C'' # c # r) s =
     (if ipt_has s (t, c, Some r) then (Inr (Text []), s)
      else (Inl (PrivopsError ''iptables: Bad rule''), s))"
  by (auto simp: fake_ipt ipt_ops_def ipt_check_def bnd_run arg_def ipt_upd_same ipt_table_def)

lemma fake_N: "fake_run [''iptables'', ''-t'', t, ''-N'', c] s = (Inr (Text []), ipt_add (t, c, None) s)"
  by (simp add: fake_ipt ipt_ops_def ipt_new_def bnd_run arg_def andThen_run ipt_upd_def)

lemma fake_A:
  "fake_run (''iptables'' # ''-t'' # t # ''-A'' # c # r) s = (Inr (Text []), ipt_add (t, c, Some r) s)"
  by (simp add: fake_ipt ipt_ops_def ipt_append_def bnd_run arg_def andThen_run ipt_upd_def)

lemma probe_fake:
  assumes "on_fake w" "fake_run argv (w_fake w) = (if b then (Inr x, w_fake w) else (Inl (PrivopsError e), w_fake w))"
  shows "probe (priv argv) w = (Inr b, w)"
  using assms by (cases b) (simp_all add: probe_def priv_def except_run andThen_run run_fake)

lemma chain_exists_fake:
  assumes "on_fake w" "f_ipt (w_fake w) t \<noteq> None"
  shows "chain_exists t c w = (Inr (ipt_has (w_fake w) (t, c, None)), w)"
  unfolding chain_exists_def
  by (rule probe_fake [OF assms(1)]) (rule fake_nL [OF assms(2)])

lemma rule_exists_fake:
  assumes "on_fake w" "f_ipt (w_fake w) t \<noteq> None"
  shows "rule_exists t c r w = (Inr (ipt_has (w_fake w) (t, c, Some r)), w)"
  unfolding rule_exists_def append_Cons append_Nil
  by (rule probe_fake [OF assms(1)]) (rule fake_C [OF assms(2)])

lemma ensure_chain_fake:
  assumes "on_fake w" "f_ipt (w_fake w) t \<noteq> None"
  shows "ensure_chain t c w = (Inr (), set_fake (ensure_in ipt_has ipt_add (t, c, None)) w)"
  using priv_set_fake [OF assms(1) fake_N]
  by (auto simp: ensure_chain_def bnd_run chain_exists_fake assms ensure_in_def set_fake_def)

lemma ensure_rule_fake:
  assumes "on_fake w" "f_ipt (w_fake w) t \<noteq> None"
  shows "ensure_rule t c r w = (Inr (), set_fake (ensure_in ipt_has ipt_add (t, c, Some r)) w)"
  using priv_set_fake [OF assms(1) fake_A]
  by (auto simp: ensure_rule_def bnd_run rule_exists_fake assms ensure_in_def set_fake_def)

lemma ipt_add_table: "f_ipt s u \<noteq> None \<Longrightarrow> f_ipt (ensure_in ipt_has ipt_add r s) u \<noteq> None"
  by (cases "(r, s)" rule: ipt_add.cases) (auto simp: ensure_in_def ipt_upd_def)

lemma ipt_ready_ensure [simp]: "ipt_ready s \<Longrightarrow> ipt_ready (ensure_in ipt_has ipt_add r s)"
  by (simp add: ipt_ready_def ipt_add_table del: not_None_eq)

definition nat_items :: "string \<Rightarrow> ipt_item list" where
  "nat_items cidr =
     [(NAT, POST, None), (FILTER, FWD, None),
      (NAT, ''POSTROUTING'', Some [''-j'', POST]), (FILTER, ''FORWARD'', Some [''-j'', FWD]),
      (NAT, POST, Some [''-s'', cidr, ''!'', ''-d'', cidr, ''-j'', ''MASQUERADE'']),
      (FILTER, FWD, Some [''-s'', cidr, ''-j'', ''ACCEPT'']),
      (FILTER, FWD, Some [''-d'', cidr, ''-j'', ''ACCEPT''])]"

definition forwarding_on :: "fstate \<Rightarrow> fstate" where
  "forwarding_on s = s\<lparr>f_sysctl := (f_sysctl s)(''net.ipv4.ip_forward'' \<mapsto> ''1'')\<rparr>"

lemma fake_sysctl:
  "fake_run [''sysctl'', ''-w'', ''net.ipv4.ip_forward=1''] s = (Inr (Text []), forwarding_on s)"
  by (simp add: fake_run_head handlers_def sysctl_cmd_def bnd_run arg_def forwarding_on_def)

lemma ipt_has_forwarding [simp]: "ipt_has (forwarding_on s) r = ipt_has s r"
  by (cases "(s, r)" rule: ipt_has.cases) (simp_all add: forwarding_on_def ipt_table_def)

lemma ipt_ready_forwarding [simp]: "ipt_ready (forwarding_on s) = ipt_ready s"
  by (simp add: forwarding_on_def ipt_ready_def)

lemma nat_ensure_fake:
  assumes w: "on_fake w" and s: "ipt_ready (w_fake w)"
  shows "nat_ensure cidr w =
    (Inr (), set_fake (\<lambda>s. fold (ensure_in ipt_has ipt_add) (nat_items cidr) (forwarding_on s)) w)"
proof -
  have step: "\<lbrakk>on_fake w; ipt_ready (w_fake w); t = NAT \<or> t = FILTER\<rbrakk> \<Longrightarrow>
      ensure_chain t c w = (Inr (), set_fake (ensure_in ipt_has ipt_add (t, c, None)) w) \<and>
      ensure_rule t c r w = (Inr (), set_fake (ensure_in ipt_has ipt_add (t, c, Some r)) w)"
    for t c r and w :: "'a world"
    by (auto simp: ipt_ready_def ensure_chain_fake ensure_rule_fake)
  show ?thesis
    using priv_set_fake [OF w fake_sysctl] w s
    by (simp add: nat_ensure_def andThen_run step nat_items_def)
qed

lemma sysctl_add: "f_sysctl (ipt_add r s) = f_sysctl s"
  by (cases "(r, s)" rule: ipt_add.cases) (simp_all add: ipt_upd_def)

lemma sysctl_fold: "f_sysctl (fold (ensure_in ipt_has ipt_add) rs s) = f_sysctl s"
  by (induction rs arbitrary: s) (simp_all add: ensure_in_def sysctl_add)

lemma forwarding_idem: "f_sysctl s = f_sysctl (forwarding_on u) \<Longrightarrow> forwarding_on s = s"
  by (simp add: forwarding_on_def fun_upd_idem)

lemma ipt_ready_fold: "ipt_ready s \<Longrightarrow> ipt_ready (fold (ensure_in ipt_has ipt_add) rs s)"
  by (induction rs arbitrary: s) simp_all

section \<open>Removing rules\<close>

definition ipt_del :: "ipt_item \<Rightarrow> fstate \<Rightarrow> fstate" where
  "ipt_del r s = (case r of (t, c, None) \<Rightarrow> s
     | (t, c, Some a) \<Rightarrow>
         ipt_upd t (\<lambda>i. i\<lparr>rules := (rules i)(c := map_option (remove1 a) (rules i c))\<rparr>) s)"

lemma fake_D:
  "fake_run (''iptables'' # ''-t'' # t # ''-D'' # c # r) s = (Inr (Text []), ipt_del (t, c, Some r) s)"
  by (simp add: fake_ipt ipt_ops_def ipt_delete_def bnd_run arg_def andThen_run ipt_upd_def ipt_del_def)

lemma del_rule_fake:
  assumes "on_fake w" "f_ipt (w_fake w) t \<noteq> None"
  shows "del_rule t c r w =
    (Inr (), set_fake (\<lambda>s. if ipt_has s (t, c, Some r) then ipt_del (t, c, Some r) s else s) w)"
  using priv_set_fake [OF assms(1) fake_D]
  by (auto simp: del_rule_def bnd_run rule_exists_fake assms set_fake_def)

lemma ipt_rules_del:
  "ipt_rules (ipt_table (ipt_del (t, c, Some a) s) u) d =
     (if u = t \<and> d = c then remove1 a (ipt_rules (ipt_table s u) d) else ipt_rules (ipt_table s u) d)"
  by (auto simp: ipt_del_def ipt_table_upd ipt_rules_def split: option.splits)

section \<open>The peers of a tunnel\<close>

definition fdb_put :: "string \<Rightarrow> string \<Rightarrow> fstate \<Rightarrow> fstate" where
  "fdb_put dev d s = s\<lparr>f_fdb := (f_fdb s)(dev \<mapsto> insert (ALL_ZEROS, d) (fdb_of s dev))\<rparr>"

definition fdb_cut :: "string \<Rightarrow> string \<Rightarrow> fstate \<Rightarrow> fstate" where
  "fdb_cut dev d s = s\<lparr>f_fdb := (f_fdb s)(dev \<mapsto> fdb_of s dev - {(ALL_ZEROS, d)})\<rparr>"

text \<open>Names of tunnels hold no \<open>t\<close> (\<open>vx-\<close> and hexadecimal digits); a peer is an address or a host
  name, without white space, that does not make the text \<open>dst\<close> appear a second time in its line.\<close>

definition dev_ok :: "string \<Rightarrow> bool" where
  "dev_ok dev \<longleftrightarrow> CHR ''t'' \<notin> set dev \<and> newline \<notin> set dev"

definition peer_ok :: "string \<Rightarrow> bool" where
  "peer_ok d \<longleftrightarrow> d \<noteq> [] \<and> list_all (\<lambda>c. \<not> is_space c) d \<and> \<not> contains (d @ '' self permanent'') ''dst''"

lemma find_sub_dst:
  "CHR ''t'' \<notin> set u \<Longrightarrow> find_sub ''dst'' (u @ ''dst'' @ v) = Some (length u)"
proof (induction u)
  case Nil
  then show ?case by simp
next
  case (Cons x u)
  then have "\<not> startswith ((x # u) @ ''dst'' @ v) ''dst''"
    by (cases u; cases "tl u") auto
  with Cons show ?case by simp
qed

lemma split_dst:
  "CHR ''t'' \<notin> set u \<Longrightarrow> split_str ''dst'' (u @ ''dst'' @ v) = u # split_str ''dst'' v"
  using find_sub_dst [of u v] by (subst split_str.simps) (simp del: append_Cons)

lemma dst_of_line:
  assumes "dev_ok dev" "peer_ok d"
  shows "dst_of (fdb_line dev (ALL_ZEROS, d)) = Inr d"
proof -
  let ?pre = "ALL_ZEROS @ '' dev '' @ dev @ '' ''"
  let ?tail = "'' '' @ d @ '' self permanent''"
  have "CHR ''t'' \<notin> set ?pre" using assms(1) by (auto simp: dev_ok_def ALL_ZEROS_def)
  then have "split_str ''dst'' (?pre @ ''dst'' @ ?tail) = ?pre # split_str ''dst'' ?tail"
    by (rule split_dst)
  moreover have "split_str ''dst'' ?tail = [?tail]"
    using assms(2) by (subst split_str.simps) (simp add: peer_ok_def contains_def)
  moreover have "words ?tail = d # words ''self permanent''"
    using assms(2) words_word_space [of d "''self permanent''"]
    by (auto simp: peer_ok_def list_all_iff)
  ultimately show ?thesis by (simp add: dst_of_def fdb_line_def arg_def)
qed

lemma fdb_line_facts:
  assumes "dev_ok dev" "peer_ok d"
  shows "contains (fdb_line dev (ALL_ZEROS, d)) ALL_ZEROS" "contains (fdb_line dev (ALL_ZEROS, d)) ''dst''"
    "newline \<notin> set (fdb_line dev (ALL_ZEROS, d))"
proof -
  show "contains (fdb_line dev (ALL_ZEROS, d)) ALL_ZEROS"
    using find_sub_append [of ALL_ZEROS "[]"] by (simp add: contains_def fdb_line_def)
  show "contains (fdb_line dev (ALL_ZEROS, d)) ''dst''"
    using find_sub_append [of "''dst''" "ALL_ZEROS @ '' dev '' @ dev @ '' ''"]
    by (simp add: contains_def fdb_line_def)
  have "\<not> is_space c" if "c \<in> set d" for c using that assms(2) by (auto simp: peer_ok_def list_all_iff)
  then have "newline \<notin> set d" by (force simp: is_space_def newline_def)
  then show "newline \<notin> set (fdb_line dev (ALL_ZEROS, d))"
    using assms(1) by (auto simp: fdb_line_def dev_ok_def newline_def ALL_ZEROS_def)
qed

definition fdb_wf :: "fstate \<Rightarrow> string \<Rightarrow> bool" where
  "fdb_wf s dev \<longleftrightarrow> finite (fdb_of s dev) \<and> (\<forall>(m, d) \<in> fdb_of s dev. m = ALL_ZEROS \<and> peer_ok d)"

lemma fake_fdb_show:
  "fake_run [''bridge'', ''fdb'', ''show'', ''dev'', dev] s =
     (Inr (Text (concat (map (\<lambda>e. fdb_line dev e @ [newline]) (sorted_list_of_set (fdb_of s dev))))), s)"
  by (simp add: fake_run_head handlers_def bridge_cmd_def bnd_run arg_def)

lemma fake_fdb_append:
  "dev \<noteq> ''dst'' \<Longrightarrow>
   fake_run [''bridge'', ''fdb'', ''append'', ALL_ZEROS, ''dev'', dev, ''dst'', d] s = (Inr (Text []), fdb_put dev d s)"
  by (simp add: fake_run_head handlers_def bridge_cmd_def bnd_run arg_def ALL_ZEROS_def fdb_put_def)

lemma fake_fdb_del:
  "dev \<noteq> ''dst'' \<Longrightarrow>
   fake_run [''bridge'', ''fdb'', ''del'', ALL_ZEROS, ''dev'', dev, ''dst'', d] s = (Inr (Text []), fdb_cut dev d s)"
  by (simp add: fake_run_head handlers_def bridge_cmd_def bnd_run arg_def ALL_ZEROS_def fdb_cut_def)

lemma fdb_peers_fake:
  assumes "on_fake w" "dev_ok dev" "fdb_wf (w_fake w) dev"
  shows "fdb_peers dev w = (Inr (map snd (sorted_list_of_set (fdb_of (w_fake w) dev))), w)"
proof -
  let ?es = "sorted_list_of_set (fdb_of (w_fake w) dev)"
  have es: "e = (ALL_ZEROS, snd e) \<and> peer_ok (snd e)" if "e \<in> set ?es" for e
  proof -
    have "set ?es = fdb_of (w_fake w) dev" using assms(3) by (simp add: fdb_wf_def)
    with that have "e \<in> fdb_of (w_fake w) dev" by simp
    with assms(3) have "case e of (m, d) \<Rightarrow> m = ALL_ZEROS \<and> peer_ok d"
      unfolding fdb_wf_def by (elim conjE) (rule bspec)
    then show ?thesis by (cases e) simp
  qed
  then have line: "contains (fdb_line dev e) ALL_ZEROS \<and> contains (fdb_line dev e) ''dst'' \<and>
      newline \<notin> set (fdb_line dev e) \<and> dst_of (fdb_line dev e) = Inr (snd e)" if "e \<in> set ?es" for e
  proof -
    from es [OF that] obtain d where "e = (ALL_ZEROS, d)" "peer_ok d" by blast
    then show ?thesis by (simp add: fdb_line_facts dst_of_line assms(2))
  qed
  have "newline \<notin> set x" if "x \<in> set (map (fdb_line dev) ?es)" for x
    using that line by auto
  from splitlines_concat [of "map (fdb_line dev) ?es", OF this]
  have "splitlines (concat (map (\<lambda>e. fdb_line dev e @ [newline]) ?es)) = map (fdb_line dev) ?es"
    by (simp add: comp_def)
  moreover have "map_prog (\<lambda>line. of_sum (dst_of line)) (map (fdb_line dev) es) w = (Inr (map snd es), w)"
    if "set es \<subseteq> set ?es" for es
    using that by (induction es) (auto simp: bnd_run line)
  moreover have "filter (\<lambda>l. contains l ALL_ZEROS \<and> contains l ''dst'') (map (fdb_line dev) ?es)
     = map (fdb_line dev) ?es"
    using line by (intro filter_True) auto
  ultimately show ?thesis
    by (simp add: fdb_peers_def bnd_run run_fake assms(1) fake_fdb_show text_of_def)
qed

lemma fdb_of_put: "fdb_of (fdb_put dev d s) u = (if u = dev then insert (ALL_ZEROS, d) (fdb_of s dev) else fdb_of s u)"
  by (simp add: fdb_put_def fdb_of_def)

lemma fdb_of_cut: "fdb_of (fdb_cut dev d s) u = (if u = dev then fdb_of s dev - {(ALL_ZEROS, d)} else fdb_of s u)"
  by (simp add: fdb_cut_def fdb_of_def)

lemma fdb_of_puts:
  "fdb_of (fold (fdb_put dev) ds s) u =
     (if u = dev then Pair ALL_ZEROS ` set ds \<union> fdb_of s dev else fdb_of s u)"
  by (induction ds arbitrary: s) (auto simp: fdb_of_put)

lemma fdb_of_cuts:
  "fdb_of (fold (fdb_cut dev) ds s) u =
     (if u = dev then fdb_of s dev - Pair ALL_ZEROS ` set ds else fdb_of s u)"
  by (induction ds arbitrary: s) (auto simp: fdb_of_cut)

lemma set_fake_fold: "fold (\<lambda>x. set_fake (g x)) xs w = set_fake (fold g xs) w"
  by (induction xs arbitrary: w) (simp_all add: set_fake_def)

lemma for_each_priv_fake:
  assumes "\<And>x s. fake_run (argv x) s = (Inr (out x), g x s)" and "on_fake w"
  shows "for_each xs (\<lambda>x. priv (argv x)) w = (Inr (), set_fake (fold g xs) w)"
proof -
  have "for_each xs (\<lambda>x. priv (argv x)) w = (Inr (), fold (\<lambda>x. set_fake (g x)) xs w)"
    by (rule for_each_total [where P = on_fake]) (use assms in \<open>auto intro: priv_set_fake\<close>)
  then show ?thesis by (simp add: set_fake_fold)
qed

lemma set_fdb_fake:
  assumes "on_fake w" "dev_ok dev" "fdb_wf (w_fake w) dev"
  shows "set_fdb dev peers w =
    (Inr (), set_fake (\<lambda>s. fold (fdb_cut dev)
         (filter (\<lambda>d. d \<notin> set peers) (remdups (map snd (sorted_list_of_set (fdb_of (w_fake w) dev)))))
         (fold (fdb_put dev) (filter (\<lambda>d. d \<notin> snd ` fdb_of (w_fake w) dev) (remdups peers)) s)) w)"
proof -
  have "dev \<noteq> ''dst''" using assms(2) by (auto simp: dev_ok_def)
  note app = for_each_priv_fake [OF fake_fdb_append [OF this]] and del = for_each_priv_fake [OF fake_fdb_del [OF this]]
  have "set (sorted_list_of_set (fdb_of (w_fake w) dev)) = fdb_of (w_fake w) dev"
    using assms(3) by (simp add: fdb_wf_def)
  then show ?thesis
    by (simp add: set_fdb_def bnd_run fdb_peers_fake assms andThen_run app del)
qed

lemma set_fdb_exact:
  assumes "on_fake w" "dev_ok dev" "fdb_wf (w_fake w) dev"
  shows "\<exists>g. set_fdb dev peers w = (Inr (), set_fake g w)
     \<and> fdb_of (g (w_fake w)) dev = Pair ALL_ZEROS ` set peers
     \<and> (\<forall>u. u \<noteq> dev \<longrightarrow> fdb_of (g (w_fake w)) u = fdb_of (w_fake w) u)"
proof -
  let ?F = "fdb_of (w_fake w) dev"
  have f: "set (sorted_list_of_set ?F) = ?F" using assms(3) by (simp add: fdb_wf_def)
  have z: "Pair ALL_ZEROS ` snd ` ?F = ?F"
    using assms(3) by (force simp: fdb_wf_def image_iff)
  have "Pair ALL_ZEROS ` set (filter (\<lambda>d. d \<notin> snd ` ?F) (remdups peers)) \<union> ?F
      - Pair ALL_ZEROS ` set (filter (\<lambda>d. d \<notin> set peers) (remdups (map snd (sorted_list_of_set ?F))))
      = Pair ALL_ZEROS ` set peers"
    unfolding f set_filter set_remdups set_map by (subst (2) z [symmetric]) auto
  then show ?thesis
    unfolding set_fdb_fake [OF assms]
    by (intro exI conjI) (rule refl, simp_all add: fdb_of_cuts fdb_of_puts)
qed

section \<open>Links\<close>

definition iface :: "string \<Rightarrow> bool" where
  "iface n \<longleftrightarrow> list_ex (\<lambda>c. c = CHR ''-'' \<or> is_digit c) n"

lemma ifaceD:
  assumes "iface n"
  shows "n \<noteq> ''type''" "''type'' \<noteq> n" "n \<noteq> ''peer''" "''peer'' \<noteq> n" "n \<noteq> ''netns''" "''netns'' \<noteq> n"
    "n \<noteq> ''master''" "''master'' \<noteq> n" "n \<noteq> ''address''" "''address'' \<noteq> n" "n \<noteq> ''dev''" "''dev'' \<noteq> n"
  using assms by (auto simp: iface_def is_digit_def)

lemma iface_append [simp]: "iface (a @ b) \<longleftrightarrow> iface a \<or> iface b"
  by (simp add: iface_def)

lemma iface_Cons [simp]: "iface (c # b) \<longleftrightarrow> c = CHR ''-'' \<or> is_digit c \<or> iface b"
  by (simp add: iface_def)

lemma iface_dec [simp]: "iface (dec n)"
  using all_digits_dec [of n] by (cases "dec n") (auto simp: iface_def all_digits_def)

lemma iface_str_int [simp]: "iface (str_int i)"
  by (simp add: str_int_def)

definition link_set :: "string \<Rightarrow> (link \<Rightarrow> link) \<Rightarrow> fstate \<Rightarrow> fstate" where
  "link_set name f s = link_upd name f (link_default name s)"

definition netns_add :: "string \<Rightarrow> fstate \<Rightarrow> fstate" where
  "netns_add ns s = s\<lparr>f_netns := insert (Some ns) (f_netns s)\<rparr>"

definition netns_del :: "string \<Rightarrow> fstate \<Rightarrow> fstate" where
  "netns_del ns s =
     s\<lparr>f_netns := f_netns s - {Some ns},
       f_links := (\<lambda>l. case f_links s l of None \<Rightarrow> None | Some m \<Rightarrow> if l_netns m = Some ns then None else Some m),
       f_addrs := (\<lambda>l. case f_links s l of None \<Rightarrow> f_addrs s l
                      | Some m \<Rightarrow> if l_netns m = Some ns then None else f_addrs s l)\<rparr>"

definition addr_add :: "string \<Rightarrow> string \<Rightarrow> fstate \<Rightarrow> fstate" where
  "addr_add dev ip s =
     s\<lparr>f_addrs := (f_addrs s)(dev \<mapsto> (case f_addrs s dev of None \<Rightarrow> [] | Some l \<Rightarrow> l) @ [ip])\<rparr>"

definition tap_add :: "string \<Rightarrow> fstate \<Rightarrow> fstate" where
  "tap_add name s = s\<lparr>f_links := (f_links s)(name \<mapsto> new_link None ''tap'' None)\<rparr>"

lemma fake_ip: "sub \<noteq> ''netns'' \<Longrightarrow> fake_run (''ip'' # sub # as) s = ip_cmd (''ip'' # sub # as) s"
  by (subst fake_run.simps) (simp add: is_netns_exec_def handlers_def)

lemma fake_exec [fake_simps]: "as \<noteq> [] \<Longrightarrow> fake_run (''ip'' # ''netns'' # ''exec'' # ns # as) s = fake_run as s"
  by (subst fake_run.simps) (simp add: is_netns_exec_def)

lemma fake_netns_add [fake_simps]:
  "fake_run [''ip'', ''netns'', ''add'', ns] s = (Inr (Text []), netns_add ns s)"
  by (subst fake_run.simps) (simp add: is_netns_exec_def handlers_def ip_cmd_def ip_sub_def netns_cmd_def netns_add_def)

lemma fake_netns_del [fake_simps]:
  "fake_run [''ip'', ''netns'', ''del'', ns] s = (Inr (Text []), netns_del ns s)"
  by (subst fake_run.simps)
     (auto simp: is_netns_exec_def handlers_def ip_cmd_def ip_sub_def netns_cmd_def netns_del_def Let_def fun_eq_iff
        split: option.splits)

lemmas link_cmd_simps = fake_ip ip_cmd_def ip_sub_def Let_def link_cmd_def bnd_run arg_def link_set_kw_def andThen_run

lemma fake_link_add [fake_simps]:
  assumes "iface name"
  shows "fake_run [''ip'', ''link'', ''add'', name, ''type'', ''bridge''] s
           = (Inr (Text []), link_add name ''bridge'' None s)"
    "fake_run [''ip'', ''link'', ''add'', name, ''type'', ''veth'', ''peer'', ''name'', other] s
           = (Inr (Text []), link_add name ''veth'' (Some other) s)"
  using ifaceD [OF assms] by (simp_all add: link_cmd_simps)

lemma fake_vxlan_add [fake_simps]:
  assumes "iface name" "iface ip"
  shows "fake_run [''ip'', ''link'', ''add'', name, ''type'', ''vxlan'', ''id'', str_int i,
           ''dstport'', DSTPORT, ''local'', ip] s = (Inr (Text []), link_add name ''vxlan'' None s)"
  using ifaceD [OF assms(1)] ifaceD [OF assms(2)] ifaceD [OF iface_str_int, of i]
  by (simp add: link_cmd_simps DSTPORT_def)

lemma fake_link_set [fake_simps]:
  assumes "iface name"
  shows "fake_run [''ip'', ''link'', ''set'', name, ''up''] s = (Inr (Text []), link_set name (\<lambda>m. m) s)"
    "iface v \<Longrightarrow> fake_run [''ip'', ''link'', ''set'', name, ''netns'', v] s
       = (Inr (Text []), link_set name (\<lambda>m. m\<lparr>l_netns := Some v\<rparr>) s)"
    "iface v \<Longrightarrow> fake_run [''ip'', ''link'', ''set'', name, ''master'', v] s
       = (Inr (Text []), link_set name (\<lambda>m. m\<lparr>l_master := Some v\<rparr>) s)"
    "iface v \<Longrightarrow> fake_run [''ip'', ''link'', ''set'', name, ''address'', v] s
       = (Inr (Text []), link_set name (\<lambda>m. m\<lparr>l_address := Some v\<rparr>) s)"
  using ifaceD [OF assms] ifaceD [of v]
  by (simp_all add: link_cmd_simps link_set_def link_upd_def option.map_ident)

lemma fake_link_del [fake_simps]:
  "fake_run [''ip'', ''link'', ''del'', name] s = (Inr (Text []), link_del name s)"
  by (simp add: link_cmd_simps)

lemma fake_tuntap [fake_simps]:
  "fake_run [''ip'', ''tuntap'', ''add'', ''dev'', name, ''mode'', ''tap''] s
     = (Inr (Text []), tap_add name s)"
  by (simp add: tap_add_def fake_ip ip_cmd_def ip_sub_def Let_def tuntap_cmd_def bnd_run arg_def)

lemma fake_addr_add [fake_simps]:
  "iface ip \<Longrightarrow> fake_run [''ip'', ''addr'', ''add'', ip, ''dev'', dev] s = (Inr (Text []), addr_add dev ip s)"
  using ifaceD [of ip] by (simp add: fake_ip ip_cmd_def ip_sub_def Let_def addr_cmd_def bnd_run arg_def addr_add_def)

end
