(* ===== verification/VmDir.thy ===== *)
theory VmDir
  imports NetworkFake
begin

text \<open>
  A VM's directory and its Firecracker process: \<open>nyc/client/env\<close> (layout, set-up, teardown),
  \<open>nyc/client/volume/attach.py\<close>, \<open>nyc/client/vm\<close> (the injected guest files, the JSON
  configuration, create, boot, kill, status, ssh) and \<open>nyc/client/guest/run.py\<close>.
\<close>

section \<open>Layout\<close>

definition for_vm :: "path \<Rightarrow> string \<Rightarrow> path" where
  "for_vm vms vm_id = vms @ [vm_id]"

definition vp_rootfs :: "path \<Rightarrow> path" where "vp_rootfs root = root @ [''rootfs.ext4'']"
definition vp_kernel :: "path \<Rightarrow> path" where "vp_kernel root = root @ [''vmlinux'']"
definition vp_ssh_key :: "path \<Rightarrow> path" where "vp_ssh_key root = root @ [''id_ed25519'']"
definition vp_config :: "path \<Rightarrow> path" where "vp_config root = root @ [''config.json'']"
definition vp_api_sock :: "path \<Rightarrow> path" where "vp_api_sock root = root @ [''api.sock'']"
definition vp_data :: "path \<Rightarrow> path" where "vp_data root = root @ [''data.ext4'']"
definition vp_pid_file :: "path \<Rightarrow> path" where "vp_pid_file root = root @ [''pid'']"
definition vp_log_fifo :: "path \<Rightarrow> path" where "vp_log_fifo root = root @ [''log.fifo'']"

lemmas vp_defs = for_vm_def vp_rootfs_def vp_kernel_def vp_ssh_key_def vp_config_def vp_api_sock_def
  vp_data_def vp_pid_file_def vp_log_fifo_def

section \<open>Set-up, attaching a volume, teardown\<close>

text \<open>\<open>p.resolve()\<close>, for a path whose own last component may be a link\<close>

definition resolve_path :: "path \<Rightarrow> 'db world \<Rightarrow> path" where
  "resolve_path p w = (case fs_at p w of Some (Link t) \<Rightarrow> path_of_str t | _ \<Rightarrow> p)"

definition symlink :: "path \<Rightarrow> string \<Rightarrow> ('db, unit) node_prog" where
  "symlink target source =
     andThen (bnd (gets (present target)) (\<lambda>b. if b then unlink target else ret ()))
             (symlink_to target source)"

record assets =
  as_kernel :: path
  as_ssh_key :: path

definition env_setup :: "path \<Rightarrow> string \<Rightarrow> assets \<Rightarrow> string \<Rightarrow> string \<Rightarrow> ('db, path) node_prog" where
  "env_setup vms vm_id as vg rootfs_origin =
     (let root = for_vm vms vm_id in
      andThen (mkdir_p root)
     (andThen (lv_remove vg (rootfs_name vm_id))
     (bnd (lv_clone vg rootfs_origin (rootfs_name vm_id)) (\<lambda>dev.
      andThen (symlink (vp_rootfs root) dev)
     (bnd (gets (resolve_path (as_kernel as))) (\<lambda>k.
      andThen (symlink (vp_kernel root) (path_str k))
     (bnd (gets (resolve_path (as_ssh_key as))) (\<lambda>s.
      andThen (symlink (vp_ssh_key root) (path_str s)) (ret root)))))))))"

definition attach_run :: "path \<Rightarrow> string \<Rightarrow> ('db, path) node_prog" where
  "attach_run vm_dir volume_path =
     (let target = vp_data vm_dir in
      andThen (bnd (gets (present target)) (\<lambda>b. if b then unlink target else ret ()))
     (andThen (symlink_to target volume_path) (ret target)))"

definition attach_detach :: "path \<Rightarrow> ('db, unit) node_prog" where
  "attach_detach vm_dir =
     bnd (gets (present (vp_data vm_dir))) (\<lambda>b. if b then unlink (vp_data vm_dir) else ret ())"

definition env_teardown :: "path \<Rightarrow> string \<Rightarrow> ('db, unit) node_prog" where
  "env_teardown vm_dir vg =
     andThen (bnd (gets (path_exists vm_dir)) (\<lambda>b. if b then rmtree vm_dir else ret ()))
             (lv_remove vg (rootfs_name (last vm_dir)))"

definition env_list_dirs :: "path \<Rightarrow> ('db, path list) node_prog" where
  "env_list_dirs vms = gets (\<lambda>w. if path_exists vms w then map (\<lambda>n. vms @ [n]) (sub_dirs vms w) else [])"

text \<open>\<open>vm/list_dirs.py\<close>\<close>

definition list_dirs :: "path \<Rightarrow> ('db, string list) node_prog" where
  "list_dirs vms = bnd (env_list_dirs vms) (\<lambda>ps. ret (map last ps))"

section \<open>Injected files\<close>

definition text_lines :: "string list \<Rightarrow> string" where
  "text_lines ls = concat (map (\<lambda>l. l @ [newline]) ls)"

definition MOUNT_UNIT :: string where
  "MOUNT_UNIT = text_lines
     [''[Unit]'', ''Description=Mount /home data volume'', ''DefaultDependencies=no'',
      ''Before=local-fs.target'', ''After=local-fs-pre.target'', [],
      ''[Mount]'', ''What=/dev/vdb'', ''Where=/home'', ''Type=ext4'', ''Options=defaults'', [],
      ''[Install]'', ''WantedBy=local-fs.target'']"

record pubip_spec =
  ps_address :: string
  ps_prefix :: string
  ps_gateway :: string
  ps_mac :: string

definition PUBIP_SCRIPT :: "pubip_spec \<Rightarrow> string" where
  "PUBIP_SCRIPT p = text_lines
     [''#!/bin/sh'', ''set -e'', ''ip link set eth1 up'',
      ''ip addr add '' @ ps_address p @ ''/'' @ ps_prefix p @ '' dev eth1'',
      ''ip route add '' @ ps_gateway p @ '' dev eth1'',
      ''ip route add default via '' @ ps_gateway p @ '' dev eth1 table 100'',
      ''ip rule add from '' @ ps_address p @ '' table 100'',
      ''sysctl -w net.ipv4.conf.all.rp_filter=2'']"

definition PUBIP_SERVICE :: string where
  "PUBIP_SERVICE = text_lines
     [''[Unit]'', ''Description=Configure public IP on eth1'', ''After=network.target'',
      ''DefaultDependencies=no'', [],
      ''[Service]'', ''Type=oneshot'', ''ExecStart=/usr/local/sbin/nyc-pubip.sh'',
      ''RemainAfterExit=yes'', [],
      ''[Install]'', ''WantedBy=multi-user.target'']"

text \<open>Each helper of \<open>_lines\<close> writes its file into the temporary directory and returns the
  \<open>debugfs\<close> commands.\<close>

definition write_cmd :: "path \<Rightarrow> string \<Rightarrow> string" where
  "write_cmd f dst = ''write '' @ path_str f @ '' '' @ dst"

definition inject_ssh :: "path \<Rightarrow> string \<Rightarrow> ('db, string list) node_prog" where
  "inject_ssh d pubkey =
     (let f = d @ [''authorized_keys''] in
      andThen (write_text f (strip pubkey @ [newline]))
        (ret [''mkdir /root/.ssh'', ''rm /root/.ssh/authorized_keys'',
              write_cmd f ''/root/.ssh/authorized_keys'',
              ''set_inode_field /root/.ssh/authorized_keys mode 0100600'',
              ''set_inode_field /root/.ssh/authorized_keys uid 0'',
              ''set_inode_field /root/.ssh/authorized_keys gid 0'',
              ''set_inode_field /root/.ssh mode 040700'']))"

definition inject_resolv :: "path \<Rightarrow> string \<Rightarrow> ('db, string list) node_prog" where
  "inject_resolv d dns =
     (let f = d @ [''resolv.conf''] in
      andThen (write_text f (''nameserver '' @ dns @ [newline]))
        (ret [''rm /etc/resolv.conf'', write_cmd f ''/etc/resolv.conf'',
              ''set_inode_field /etc/resolv.conf mode 0100644'',
              ''set_inode_field /etc/resolv.conf uid 0'',
              ''set_inode_field /etc/resolv.conf gid 0'']))"

definition inject_fstab :: "path \<Rightarrow> ('db, string list) node_prog" where
  "inject_fstab d =
     (let f = d @ [''fstab'']; t = [CHR 0x09] in
      andThen (write_text f (join t [''/dev/vdb'', ''/home'', ''ext4'', ''defaults,nofail'', ''0'', ''2'']
                             @ [newline]))
        (ret [''rm /etc/fstab'', write_cmd f ''/etc/fstab'',
              ''set_inode_field /etc/fstab mode 0100644'',
              ''set_inode_field /etc/fstab uid 0'', ''set_inode_field /etc/fstab gid 0'']))"

definition inject_home_mount :: "path \<Rightarrow> ('db, string list) node_prog" where
  "inject_home_mount d =
     (let f = d @ [''home.mount''] in
      andThen (write_text f MOUNT_UNIT)
        (ret [''mkdir /etc/systemd/system/local-fs.target.wants'',
              write_cmd f ''/etc/systemd/system/home.mount'',
              ''set_inode_field /etc/systemd/system/home.mount mode 0100644'',
              ''symlink /etc/systemd/system/local-fs.target.wants/home.mount ../home.mount'']))"

definition inject_pubip :: "path \<Rightarrow> pubip_spec \<Rightarrow> ('db, string list) node_prog" where
  "inject_pubip d p =
     (let sh = d @ [''nyc-pubip.sh'']; svc = d @ [''nyc-pubip.service''] in
      andThen (write_text sh (PUBIP_SCRIPT p))
     (andThen (write_text svc PUBIP_SERVICE)
        (ret [write_cmd sh ''/usr/local/sbin/nyc-pubip.sh'',
              ''set_inode_field /usr/local/sbin/nyc-pubip.sh mode 0100755'',
              ''set_inode_field /usr/local/sbin/nyc-pubip.sh uid 0'',
              ''set_inode_field /usr/local/sbin/nyc-pubip.sh gid 0'',
              write_cmd svc ''/etc/systemd/system/nyc-pubip.service'',
              ''set_inode_field /etc/systemd/system/nyc-pubip.service mode 0100644'',
              ''set_inode_field /etc/systemd/system/nyc-pubip.service uid 0'',
              ''set_inode_field /etc/systemd/system/nyc-pubip.service gid 0'',
              ''mkdir /etc/systemd/system/multi-user.target.wants'',
              ''symlink /etc/systemd/system/multi-user.target.wants/nyc-pubip.service ../nyc-pubip.service''])))"

definition inject_lines ::
  "path \<Rightarrow> string option \<Rightarrow> string \<Rightarrow> bool \<Rightarrow> pubip_spec option \<Rightarrow> ('db, string list) node_prog" where
  "inject_lines d ssh_pubkey dns has_data public_ip =
     bnd (case truthy_str ssh_pubkey of None \<Rightarrow> ret [] | Some k \<Rightarrow> inject_ssh d k) (\<lambda>a.
     bnd (inject_resolv d dns) (\<lambda>b.
     bnd (if has_data then bnd (inject_fstab d) (\<lambda>x. bnd (inject_home_mount d) (\<lambda>y. ret (x @ y)))
          else ret []) (\<lambda>c.
     bnd (case public_ip of None \<Rightarrow> ret [] | Some p \<Rightarrow> inject_pubip d p) (\<lambda>e.
     ret (a @ b @ c @ e)))))"

text \<open>\<open>with tempfile.TemporaryDirectory() as tmp\<close>: a new directory, removed on both exits.\<close>

definition finally_do :: "('s, 'a) prog \<Rightarrow> ('s, unit) prog \<Rightarrow> ('s, 'a) prog" where
  "finally_do m c = (\<lambda>s. case m s of (r, t) \<Rightarrow>
     (case c t of (Inl e, u) \<Rightarrow> (Inl e, u) | (Inr _, u) \<Rightarrow> (r, u)))"

definition with_tmp :: "(path \<Rightarrow> ('db, 'a) node_prog) \<Rightarrow> ('db, 'a) node_prog" where
  "with_tmp f =
     bnd (gets w_tmp) (\<lambda>d. andThen (modify (fs_put d Dir)) (finally_do (f d) (rmtree d)))"

definition inject_run ::
  "path \<Rightarrow> string option \<Rightarrow> string \<Rightarrow> bool \<Rightarrow> pubip_spec option \<Rightarrow> ('db, unit) node_prog" where
  "inject_run root ssh_pubkey dns has_data public_ip =
     with_tmp (\<lambda>d.
       bnd (inject_lines d ssh_pubkey dns has_data public_ip) (\<lambda>ls.
       andThen (write_text (d @ [''cmds'']) (join [newline] ls @ [newline]))
               (priv [''debugfs'', ''-w'', ''-f'', path_str (d @ [''cmds'']), path_str (vp_rootfs root)])))"

end
