(* ===== verification/VmProc.thy ===== *)
theory VmProc
  imports VmDir
begin

text \<open>
  \<open>nyc/client/vm\<close> and \<open>nyc/client/guest\<close>: the Firecracker configuration as a JSON value and as
  \<open>json.dumps(..., indent=2)\<close> prints it, spawning, booting, killing and asking for the status of
  the process, and running a script in the guest. Waiting for a killed process polls every 0.1 s
  for 3 s: 30 polls, the number \<open>wait_gone\<close> is started with.
\<close>

section \<open>JSON text\<close>

definition esc_char :: "char \<Rightarrow> string" where
  "esc_char c =
     (if c = CHR 0x22 then [CHR 0x5C, CHR 0x22]
      else if c = CHR 0x5C then [CHR 0x5C, CHR 0x5C]
      else if c = CHR 0x0A then [CHR 0x5C, CHR ''n'']
      else if c = CHR 0x0D then [CHR 0x5C, CHR ''r'']
      else if c = CHR 0x09 then [CHR 0x5C, CHR ''t'']
      else if c = CHR 0x0C then [CHR 0x5C, CHR ''f'']
      else if c = CHR 0x08 then [CHR 0x5C, CHR ''b'']
      else if (of_char c :: nat) < 32 \<or> 126 < (of_char c :: nat)
        then [CHR 0x5C] @ ''u00'' @ hex2 (of_char c)
      else [c])"

definition json_string :: "string \<Rightarrow> string" where
  "json_string s = [CHR 0x22] @ concat (map esc_char s) @ [CHR 0x22]"

text \<open>A container's items on lines of their own, two spaces further in than its brackets.\<close>

definition indented :: "nat \<Rightarrow> string list \<Rightarrow> string" where
  "indented n items =
     (let pad = (\<lambda>k. newline # replicate (2 * k) (CHR '' ''))
      in pad (Suc n) @ join ('','' @ pad (Suc n)) items @ pad n)"

fun dumps :: "nat \<Rightarrow> json \<Rightarrow> string" where
  "dumps n JNull = ''null''"
| "dumps n (JBool b) = (if b then ''true'' else ''false'')"
| "dumps n (JStr s) = json_string s"
| "dumps n (JInt i) = str_int i"
| "dumps n (JList xs) =
     (if xs = [] then ''[]'' else ''['' @ indented n (map (dumps (Suc n)) xs) @ '']'')"
| "dumps n (JObj kvs) =
     (if kvs = [] then ''{}''
      else ''{'' @ indented n (map (\<lambda>kv. json_string (fst kv) @ '': '' @ dumps (Suc n) (snd kv)) kvs) @ ''}'')"

text \<open>\<open>json.dumps\<close> on one line\<close>

fun dumps_flat :: "json \<Rightarrow> string" where
  "dumps_flat JNull = ''null''"
| "dumps_flat (JBool b) = (if b then ''true'' else ''false'')"
| "dumps_flat (JStr s) = json_string s"
| "dumps_flat (JInt i) = str_int i"
| "dumps_flat (JList xs) = ''['' @ join '', '' (map dumps_flat xs) @ '']''"
| "dumps_flat (JObj kvs) =
     ''{'' @ join '', '' (map (\<lambda>kv. json_string (fst kv) @ '': '' @ dumps_flat (snd kv)) kvs) @ ''}''"

section \<open>Configuration\<close>

record vm_config =
  vc_vm_id :: string
  vc_tap_name :: string
  vc_mac :: string
  vc_guest_ip :: string
  vc_cidr :: string
  vc_has_data_volume :: bool
  vc_vcpu_count :: int
  vc_mem_mib :: int
  vc_dns :: string
  vc_public_tap :: "string option"
  vc_public_mac :: "string option"

definition boot_args :: "vm_config \<Rightarrow> exn + string" where
  "boot_args cfg =
     (case gateway (vc_cidr cfg) of
        Inl e \<Rightarrow> Inl e
      | Inr gw \<Rightarrow>
          (case netmask (vc_cidr cfg) of
             Inl e \<Rightarrow> Inl e
           | Inr nm \<Rightarrow>
               Inr (''console=ttyS0 reboot=k panic=1 pci=off '' @ ''ip='' @ vc_guest_ip cfg @ ''::'' @ gw
                    @ '':'' @ nm @ ''::eth0:off:'' @ vc_dns cfg)))"

definition root_drive :: "path \<Rightarrow> json" where
  "root_drive root = JObj
     [(''drive_id'', JStr ''rootfs''), (''path_on_host'', JStr (path_str (vp_rootfs root))),
      (''is_root_device'', JBool True), (''is_read_only'', JBool False)]"

definition data_drive :: "path \<Rightarrow> json" where
  "data_drive root = JObj
     [(''drive_id'', JStr ''data''), (''path_on_host'', JStr (path_str (vp_data root))),
      (''is_root_device'', JBool False), (''is_read_only'', JBool False)]"

definition nic :: "string \<Rightarrow> string \<Rightarrow> json \<Rightarrow> json" where
  "nic iface_id dev mac =
     JObj [(''iface_id'', JStr iface_id), (''host_dev_name'', JStr dev), (''guest_mac'', mac)]"

definition drives :: "path \<Rightarrow> vm_config \<Rightarrow> json list" where
  "drives root cfg = [root_drive root] @ (if vc_has_data_volume cfg then [data_drive root] else [])"

definition nics :: "vm_config \<Rightarrow> json list" where
  "nics cfg =
     [nic ''eth0'' (vc_tap_name cfg) (JStr (vc_mac cfg))]
     @ (case truthy_str (vc_public_tap cfg) of
          None \<Rightarrow> []
        | Some t \<Rightarrow> [nic ''eth1'' t (case vc_public_mac cfg of None \<Rightarrow> JNull | Some m \<Rightarrow> JStr m)])"

definition payload :: "path \<Rightarrow> vm_config \<Rightarrow> exn + json" where
  "payload root cfg =
     (case boot_args cfg of
        Inl e \<Rightarrow> Inl e
      | Inr args \<Rightarrow> Inr (JObj
          [(''boot-source'', JObj [(''kernel_image_path'', JStr (path_str (vp_kernel root))),
                                   (''boot_args'', JStr args)]),
           (''drives'', JList (drives root cfg)),
           (''machine-config'', JObj [(''vcpu_count'', JInt (vc_vcpu_count cfg)),
                                      (''mem_size_mib'', JInt (vc_mem_mib cfg))]),
           (''network-interfaces'', JList (nics cfg))]))"

definition config_build :: "path \<Rightarrow> vm_config \<Rightarrow> ('db, path) node_prog" where
  "config_build root cfg =
     bnd (of_sum (payload root cfg)) (\<lambda>p.
     andThen (write_text (vp_config root) (dumps 0 p)) (ret (vp_config root)))"

section \<open>The process\<close>

definition open_append :: "path \<Rightarrow> ('db, unit) node_prog" where
  "open_append p =
     bnd (gets (\<lambda>w. is_dir (butlast p) w \<and> \<not> is_dir p w)) (\<lambda>b.
       if b then modify (\<lambda>w. if fs_at p w = None then fs_put p (File []) w else w)
       else raise (OSError (path_str p)))"

definition popen :: "string list \<Rightarrow> ('db, int) node_prog" where
  "popen argv = (\<lambda>w. (Inr (w_pid w (length (w_log w))), w\<lparr>w_log := w_log w @ [(argv, None)]\<rparr>))"

definition create_real :: "path \<Rightarrow> string \<Rightarrow> string \<Rightarrow> path \<Rightarrow> ('db, int) node_prog" where
  "create_real root vm_id ns bin =
     andThen (open_append (root @ [''firecracker.log'']))
    (bnd (popen [''sudo'', ''-n'', ''ip'', ''netns'', ''exec'', ns, path_str bin, ''--api-sock'',
                 path_str (vp_api_sock root), ''--id'', vm_id, ''--config-file'', path_str (vp_config root)])
       (\<lambda>pid. andThen (write_text (vp_pid_file root) (str_int pid)) (ret pid)))"

definition create_fake :: "path \<Rightarrow> string \<Rightarrow> ('db, int) node_prog" where
  "create_fake root vm_id =
     andThen (priv [''firecracker'', ''--api-sock'', path_str (vp_api_sock root), ''--id'', vm_id])
    (andThen (write_text (vp_pid_file root) ''0'') (ret 0))"

definition create_run :: "path \<Rightarrow> string \<Rightarrow> string \<Rightarrow> path \<Rightarrow> ('db, int) node_prog" where
  "create_run root vm_id ns bin =
     bnd (gets backend) (\<lambda>b.
       if b = ''fake'' then create_fake root vm_id else create_real root vm_id ns bin)"

definition sock_set :: "string \<Rightarrow> (string \<times> bool) option \<Rightarrow> fstate \<Rightarrow> fstate" where
  "sock_set p e s = s\<lparr>f_socks := (f_socks s)(p := e)\<rparr>"

definition boot_run :: "path \<Rightarrow> ('db, unit) node_prog" where
  "boot_run root =
     bnd (gets backend) (\<lambda>b.
       if b = ''fake''
       then modify (w_fake_update (sock_set (path_str (vp_api_sock root)) (Some (path_str root, True))))
       else ret ())"

definition read_text :: "path \<Rightarrow> ('db, string) node_prog" where
  "read_text p =
     bnd (gets (fs_at p)) (\<lambda>n. case n of Some (File t) \<Rightarrow> ret t | _ \<Rightarrow> raise (OSError (path_str p)))"

text \<open>\<open>int(pid_file.read_text().strip() or "0")\<close>\<close>

definition read_pid :: "path \<Rightarrow> ('db, int) node_prog" where
  "read_pid root =
     bnd (read_text (vp_pid_file root)) (\<lambda>t.
     of_sum (parse_int (if strip t = [] then ''0'' else strip t)))"

definition sock_cleanup :: "path \<Rightarrow> ('db, unit) node_prog" where
  "sock_cleanup root =
     bnd (gets backend) (\<lambda>b.
       if b \<noteq> ''fake'' then ret ()
       else modify (w_fake_update (sock_set (path_str (vp_api_sock root)) None)))"

text \<open>Whether \<open>os.kill(pid, 0)\<close> returns, at this poll.\<close>

definition poll_alive :: "int \<Rightarrow> ('db, bool) node_prog" where
  "poll_alive pid = (\<lambda>w. (Inr (w_alive w (w_polls w) pid), w\<lparr>w_polls := Suc (w_polls w)\<rparr>))"

primrec wait_gone :: "nat \<Rightarrow> int \<Rightarrow> ('db, unit) node_prog" where
  "wait_gone 0 pid = ret ()"
| "wait_gone (Suc n) pid = bnd (poll_alive pid) (\<lambda>a. if a then wait_gone n pid else ret ())"

definition terminate :: "int \<Rightarrow> ('db, unit) node_prog" where
  "terminate pid =
     except (andThen (priv [''kill'', str_int pid]) (wait_gone 30 pid))
       (\<lambda>e. case e of OSError _ \<Rightarrow> ret () | _ \<Rightarrow> raise e)"

definition kill_run :: "path \<Rightarrow> ('db, unit) node_prog" where
  "kill_run root =
     bnd (gets (path_exists (vp_pid_file root))) (\<lambda>b.
       if \<not> b then sock_cleanup root
       else bnd (read_pid root) (\<lambda>pid.
         andThen (if pid > 0 then terminate pid else ret ())
        (andThen (unlink_missing_ok (vp_pid_file root)) (sock_cleanup root))))"

definition real_status :: "path \<Rightarrow> ('db, string) node_prog" where
  "real_status root =
     bnd (gets (path_exists (vp_pid_file root))) (\<lambda>b.
       if \<not> b then ret ''stopped''
       else bnd (read_pid root) (\<lambda>pid.
         if pid \<le> 0 then ret ''stopped''
         else bnd (poll_alive pid) (\<lambda>a. ret (if a then ''running'' else ''stopped''))))"

definition fake_status :: "path \<Rightarrow> ('db, string) node_prog" where
  "fake_status root = gets (\<lambda>w.
     case f_socks (w_fake w) (path_str (vp_api_sock root)) of
       Some (_, True) \<Rightarrow> ''running''
     | _ \<Rightarrow> ''stopped'')"

definition status_run :: "path \<Rightarrow> ('db, string) node_prog" where
  "status_run root =
     bnd (gets backend) (\<lambda>b. if b = ''fake'' then fake_status root else real_status root)"

definition ssh_cmdline :: "string \<Rightarrow> string \<Rightarrow> path \<Rightarrow> string \<Rightarrow> string list" where
  "ssh_cmdline ns ip key user =
     [''ip'', ''netns'', ''exec'', ns, ''ssh'', ''-i'', path_str key, ''-o'', ''StrictHostKeyChecking=no'',
      ''-o'', ''UserKnownHostsFile=/dev/null'', ''-o'', ''LogLevel=ERROR'', user @ ''@'' @ ip]"

definition guest_SSH :: "string list" where
  "guest_SSH = [''ssh'', ''-o'', ''StrictHostKeyChecking=no'', ''-o'', ''UserKnownHostsFile=/dev/null'',
                ''-o'', ''LogLevel=ERROR'', ''-o'', ''ConnectTimeout=10'']"

definition guest_run :: "string \<Rightarrow> string \<Rightarrow> string \<Rightarrow> ('db, stdout) node_prog" where
  "guest_run ip key script = run (guest_SSH @ [''-i'', key, ''root@'' @ ip, ''bash'', ''-s'']) (Some script)"

section \<open>Facts about the process\<close>

lemma boot_run_fake: "on_fake w \<Longrightarrow>
  boot_run root w = (Inr (), set_fake (sock_set (path_str (vp_api_sock root)) (Some (path_str root, True))) w)"
  by (simp add: boot_run_def bnd_run on_fake_def set_fake_def)

lemma sock_cleanup_fake: "on_fake w \<Longrightarrow>
  sock_cleanup root w = (Inr (), set_fake (sock_set (path_str (vp_api_sock root)) None) w)"
  by (simp add: sock_cleanup_def bnd_run on_fake_def set_fake_def)

lemma status_run_fake: "on_fake w \<Longrightarrow> status_run root w = fake_status root w"
  by (simp add: status_run_def bnd_run on_fake_def)

lemma fake_status_set [simp]:
  "fake_status root (set_fake (sock_set (path_str (vp_api_sock root)) (Some (d, b))) w)
     = (Inr (if b then ''running'' else ''stopped''), set_fake (sock_set (path_str (vp_api_sock root)) (Some (d, b))) w)"
  "fake_status root (set_fake (sock_set (path_str (vp_api_sock root)) None) w)
     = (Inr ''stopped'', set_fake (sock_set (path_str (vp_api_sock root)) None) w)"
  by (simp_all add: fake_status_def sock_set_def)

text \<open>Waiting ends, whatever the process does, and asks at most as often as it was told to.\<close>

lemma wait_gone_total:
  "\<exists>k\<le>n. wait_gone n pid w = (Inr (), w\<lparr>w_polls := w_polls w + k\<rparr>)"
proof (induction n arbitrary: w)
  case 0
  then show ?case by simp
next
  case (Suc n)
  show ?case
  proof (cases "w_alive w (w_polls w) pid")
    case True
    obtain k where "k \<le> n" "wait_gone n pid (w\<lparr>w_polls := Suc (w_polls w)\<rparr>)
        = (Inr (), w\<lparr>w_polls := Suc (w_polls w) + k\<rparr>)"
      using Suc [of "w\<lparr>w_polls := Suc (w_polls w)\<rparr>"] by auto
    with True show ?thesis
      by (intro exI [of _ "Suc k"]) (simp add: poll_alive_def bnd_run)
  next
    case False
    then show ?thesis by (intro exI [of _ 1]) (simp add: poll_alive_def bnd_run)
  qed
qed

end
