(* ===== verification/Files.thy ===== *)
theory Files
  imports VmProc
begin

text \<open>
  What the file operations do to a directory that is as they expect it, and the two confined
  pieces of a VM's set-up: programs that only write below one directory (\<open>writes\<close>), and the
  temporary directory of \<open>inject.run\<close>, which leaves no trace.
\<close>

section \<open>Single operations\<close>

lemma fs_at_put [simp]: "fs_at q (fs_put p n w) = (if q = p then Some n else fs_at q w)"
  by (simp add: fs_at_def fs_put_def update_conv')

lemma fs_at_drop [simp]: "fs_at q (fs_drop p w) = (if q = p then None else fs_at q w)"
  by (simp add: fs_at_def fs_drop_def delete_conv')

lemma fs_at_fake [simp]: "fs_at q (w\<lparr>w_fake := s\<rparr>) = fs_at q w" "fs_at q (set_fake g w) = fs_at q w"
  by (simp_all add: fs_at_def)

lemma fs_put_sel [simp]:
  "w_fake (fs_put p n w) = w_fake w" "w_tmp (fs_put p n w) = w_tmp w" "w_sha (fs_put p n w) = w_sha w"
  "on_fake (fs_put p n w) = on_fake w" "w_db (fs_put p n w) = w_db w" "w_env (fs_put p n w) = w_env w"
  "w_toml (fs_put p n w) = w_toml w" "w_cwd (fs_put p n w) = w_cwd w" "backend (fs_put p n w) = backend w"
  by (simp_all add: fs_put_def)

lemma fs_put_fake [simp]: "fs_put p n (w\<lparr>w_fake := s\<rparr>) = (fs_put p n w)\<lparr>w_fake := s\<rparr>"
  by (simp add: fs_put_def)

lemma is_dir_put [simp]: "q \<noteq> p \<Longrightarrow> is_dir q (fs_put p n w) = is_dir q w"
  by (simp add: is_dir_def)

lemma is_dir_fake [simp]: "is_dir q (w\<lparr>w_fake := s\<rparr>) = is_dir q w" "is_dir q (set_fake g w) = is_dir q w"
  by (simp_all add: is_dir_def)

lemma write_text_ok:
  "p \<noteq> [] \<Longrightarrow> is_dir (butlast p) w \<Longrightarrow> fs_at p w \<noteq> Some Dir \<Longrightarrow>
   write_text p t w = (Inr (), fs_put p (File t) w)"
  by (simp add: write_text_def bnd_run is_dir_def)

lemma symlink_to_ok:
  "p \<noteq> [] \<Longrightarrow> is_dir (butlast p) w \<Longrightarrow> fs_at p w = None \<Longrightarrow>
   symlink_to p src w = (Inr (), fs_put p (Link src) w)"
  by (simp add: symlink_to_def bnd_run present_def)

lemma symlink_new:
  "p \<noteq> [] \<Longrightarrow> is_dir (butlast p) w \<Longrightarrow> fs_at p w = None \<Longrightarrow>
   symlink p src w = (Inr (), fs_put p (Link src) w)"
  by (simp add: symlink_def bnd_run andThen_run present_def symlink_to_ok)

text \<open>A link that is already there is replaced, whatever it was before.\<close>

lemma symlink_again:
  assumes "p \<noteq> []" "is_dir (butlast p) w" "fs_at p w = Some n" "n \<noteq> Dir"
  shows "symlink p src w = (Inr (), fs_put p (Link src) (fs_drop p w))"
proof -
  have "butlast p \<noteq> p" using assms(1) by (cases p rule: rev_cases) auto
  then have "is_dir (butlast p) (fs_drop p w)" using assms(2) by (simp add: is_dir_def)
  then show ?thesis
    using assms by (simp add: symlink_def unlink_def bnd_run andThen_run present_def is_dir_def symlink_to_ok)
qed

section \<open>Making a directory with its parents\<close>

definition dirs_ok :: "path \<Rightarrow> 'db world \<Rightarrow> bool" where
  "dirs_ok p w \<longleftrightarrow> (\<forall>q \<in> set (prefixes1 p). fs_at q w = None \<or> fs_at q w = Some Dir)"

lemma set_prefixes1: "set (prefixes1 p) = {q. q \<noteq> [] \<and> prefix q p}"
proof -
  have "q \<in> (\<lambda>i. take (Suc i) p) ` {0..<length p} \<longleftrightarrow> q \<noteq> [] \<and> prefix q p" for q
  proof
    assume "q \<noteq> [] \<and> prefix q p"
    then have "q = take (Suc (length q - 1)) p" "length q - 1 < length p"
      by (cases q; auto simp: prefix_def)+
    then show "q \<in> (\<lambda>i. take (Suc i) p) ` {0..<length p}" by (intro image_eqI) auto
  qed (auto simp: take_is_prefix)
  then show ?thesis unfolding prefixes1_def set_map set_upt by blast
qed

lemma mkdir_one_ok:
  "fs_at p w = None \<or> fs_at p w = Some Dir \<Longrightarrow>
   mkdir_one p w = (Inr (), if fs_at p w = None then fs_put p Dir w else w)"
  by (auto simp: mkdir_one_def bnd_run)

lemma mkdirs_ok:
  assumes "\<And>q. q \<in> set qs \<Longrightarrow> fs_at q w = None \<or> fs_at q w = Some Dir"
  shows "\<exists>f. for_each qs mkdir_one w = (Inr (), w\<lparr>w_fs := f\<rparr>) \<and>
    (\<forall>q. map_of f q = (if q \<in> set qs then Some Dir else map_of (w_fs w) q))"
  using assms
proof (induction qs arbitrary: w)
  case Nil
  then show ?case by (intro exI [of _ "w_fs w"]) simp
next
  case (Cons a qs)
  let ?v = "if fs_at a w = None then fs_put a Dir w else w"
  have a: "mkdir_one a w = (Inr (), ?v)" using Cons.prems [of a] by (intro mkdir_one_ok) simp
  have "fs_at q ?v = None \<or> fs_at q ?v = Some Dir" if "q \<in> set qs" for q
    using Cons.prems [of q] that by simp
  from Cons.IH [OF this] obtain f where f: "for_each qs mkdir_one ?v = (Inr (), ?v\<lparr>w_fs := f\<rparr>)"
    "\<And>q. map_of f q = (if q \<in> set qs then Some Dir else map_of (w_fs ?v) q)" by blast
  have "map_of (w_fs ?v) q = (if q = a then Some Dir else map_of (w_fs w) q)" for q
    using Cons.prems [of a] by (auto simp: fs_put_def fs_at_def update_conv')
  then have "map_of f q = (if q \<in> set (a # qs) then Some Dir else map_of (w_fs w) q)" for q
    unfolding f(2) by simp
  moreover have "for_each (a # qs) mkdir_one w = (Inr (), w\<lparr>w_fs := f\<rparr>)"
    using a f(1) by (simp add: andThen_run fs_put_def)
  ultimately show ?case by blast
qed

lemma mkdir_p_ok:
  assumes "dirs_ok p w"
  shows "\<exists>f. mkdir_p p w = (Inr (), w\<lparr>w_fs := f\<rparr>) \<and>
    (\<forall>q. map_of f q = (if q \<noteq> [] \<and> prefix q p then Some Dir else map_of (w_fs w) q))"
  using mkdirs_ok [of "prefixes1 p" w] assms by (simp add: mkdir_p_def dirs_ok_def set_prefixes1)

section \<open>Programs that write below one directory\<close>

definition dir_here :: "path \<Rightarrow> 'db world \<Rightarrow> bool" where
  "dir_here d w \<longleftrightarrow> d \<noteq> [] \<and> fs_at d w = Some Dir \<and> (\<forall>q. strict_prefix d q \<longrightarrow> fs_at q w \<noteq> Some Dir)"

definition only_below :: "path \<Rightarrow> 'db world \<Rightarrow> 'db world \<Rightarrow> bool" where
  "only_below d w v \<longleftrightarrow> (\<exists>f. v = w\<lparr>w_fs := f\<rparr> \<and> (\<forall>q. \<not> prefix d q \<longrightarrow> map_of f q = map_of (w_fs w) q))"

definition writes :: "path \<Rightarrow> ('db, 'a) node_prog \<Rightarrow> bool" where
  "writes d m \<longleftrightarrow>
     (\<forall>w. dir_here d w \<longrightarrow> (\<exists>x v. m w = (Inr x, v) \<and> only_below d w v \<and> dir_here d v))"

lemma only_below_refl: "only_below d w w"
  unfolding only_below_def by (rule exI [of _ "w_fs w"]) simp

lemma only_below_trans: "only_below d w v \<Longrightarrow> only_below d v u \<Longrightarrow> only_below d w u"
  unfolding only_below_def by auto

lemma writes_ret: "writes d (ret x)"
  by (auto simp: writes_def only_below_refl)

lemma writes_bnd: "writes d m \<Longrightarrow> (\<And>x. writes d (f x)) \<Longrightarrow> writes d (bnd m f)"
  unfolding writes_def
proof (intro allI impI)
  fix w :: "'a world"
  assume m: "\<forall>w. dir_here d w \<longrightarrow> (\<exists>x v. m w = (Inr x, v) \<and> only_below d w v \<and> dir_here d v)"
    and f: "\<And>x. \<forall>w. dir_here d w \<longrightarrow> (\<exists>y v. f x w = (Inr y, v) \<and> only_below d w v \<and> dir_here d v)"
    and w: "dir_here d w"
  then obtain x v where 1: "m w = (Inr x, v)" "only_below d w v" "dir_here d v" by blast
  with f obtain y u where "f x v = (Inr y, u)" "only_below d v u" "dir_here d u" by blast
  with 1 show "\<exists>x v. bnd m f w = (Inr x, v) \<and> only_below d w v \<and> dir_here d v"
    by (auto simp: bnd_run intro: only_below_trans)
qed

lemma writes_andThen: "writes d m \<Longrightarrow> writes d n \<Longrightarrow> writes d (andThen m n)"
  by (simp add: andThen_def writes_bnd)

lemma writes_write_text: "writes d (write_text (d @ [n]) t)"
  unfolding writes_def
proof (intro allI impI)
  fix w :: "'a world"
  assume w: "dir_here d w"
  then have "write_text (d @ [n]) t w = (Inr (), fs_put (d @ [n]) (File t) w)"
    by (intro write_text_ok) (auto simp: dir_here_def is_dir_def strict_prefix_def)
  moreover have "only_below d w (fs_put (d @ [n]) (File t) w)"
    unfolding only_below_def
    by (intro exI [of _ "AList.update (d @ [n]) (File t) (w_fs w)"]) (auto simp: fs_put_def update_conv')
  moreover have "dir_here d (fs_put (d @ [n]) (File t) w)"
    using w by (auto simp: dir_here_def)
  ultimately show "\<exists>x v. write_text (d @ [n]) t w = (Inr x, v) \<and> only_below d w v \<and> dir_here d v"
    by blast
qed

lemmas writes_rules = writes_ret writes_bnd writes_andThen writes_write_text

lemma writes_inject_lines: "writes d (inject_lines d k dns b p)"
  unfolding inject_lines_def inject_ssh_def inject_resolv_def inject_fstab_def inject_home_mount_def
    inject_pubip_def Let_def
  by (auto intro!: writes_rules split: option.splits)

section \<open>Injection\<close>

definition tmp_new :: "'db world \<Rightarrow> bool" where
  "tmp_new w \<longleftrightarrow> w_tmp w \<noteq> [] \<and> (\<forall>q. prefix (w_tmp w) q \<longrightarrow> fs_at q w = None)"

lemma fake_debugfs: "fake_run (''debugfs'' # as) s = (Inr (Text []), s\<lparr>f_debugfs := f_debugfs s @ [''debugfs'' # as]\<rparr>)"
  by (simp add: fake_run_head handlers_def debugfs_cmd_def)

lemma rmtree_run: "rmtree d w = (Inr (), w\<lparr>w_fs := filter (\<lambda>(q, _). \<not> prefix d q) (w_fs w)\<rparr>)"
proof -
  have "take (length d) q \<noteq> d \<longleftrightarrow> \<not> prefix d q" for q :: path
    by (metis append_take_drop_id prefix_def append_eq_conv_conj)
  then show ?thesis by (simp add: rmtree_def)
qed

lemma map_of_filter_key: "map_of (filter (\<lambda>(q, _). P q) xs) k = (if P k then map_of xs k else None)"
  by (induction xs) auto

text \<open>The injection leaves every file as it was, and one more \<open>debugfs\<close> session behind.\<close>

lemma inject_run_fake:
  assumes w: "on_fake w" and t: "tmp_new w"
  shows "\<exists>f cmd. inject_run root k dns b p w = (Inr (), w\<lparr>w_fs := f, w_fake := w_fake w
      \<lparr>f_debugfs := f_debugfs (w_fake w) @ [cmd]\<rparr>\<rparr>) \<and> (\<forall>q. map_of f q = map_of (w_fs w) q)"
proof -
  let ?d = "w_tmp w"
  let ?w1 = "fs_put ?d Dir w"
  have d: "dir_here ?d ?w1" using t by (auto simp: dir_here_def tmp_new_def strict_prefix_def)
  have "writes ?d (bnd (inject_lines ?d k dns b p) (\<lambda>ls. write_text (?d @ [''cmds'']) (join [newline] ls @ [newline])))"
    by (intro writes_rules writes_inject_lines)
  then obtain x v where 1: "bnd (inject_lines ?d k dns b p)
      (\<lambda>ls. write_text (?d @ [''cmds'']) (join [newline] ls @ [newline])) ?w1 = (Inr x, v)" "only_below ?d ?w1 v"
    using d unfolding writes_def by blast
  then obtain ls v1 where ls: "inject_lines ?d k dns b p ?w1 = (Inr ls, v1)"
    "write_text (?d @ [''cmds'']) (join [newline] ls @ [newline]) v1 = (Inr x, v)"
    by (auto simp: bnd_run split: prod.splits sum.splits)
  from 1(2) obtain g where g: "v = ?w1\<lparr>w_fs := g\<rparr>" "\<And>q. \<not> prefix ?d q \<Longrightarrow> map_of g q = map_of (w_fs ?w1) q"
    by (auto simp: only_below_def)
  let ?cmd = "[''debugfs'', ''-w'', ''-f'', path_str (?d @ [''cmds'']), path_str (vp_rootfs root)]"
  have v: "on_fake v" using w by (simp add: g(1))
  have "inject_run root k dns b p w = (Inr (), w
      \<lparr>w_fs := filter (\<lambda>(q, _). \<not> prefix ?d q) g, w_fake := w_fake w\<lparr>f_debugfs := f_debugfs (w_fake w) @ [?cmd]\<rparr>\<rparr>)"
    using priv_fake [OF v fake_debugfs] ls
    by (simp add: inject_run_def with_tmp_def bnd_run andThen_run finally_do_def rmtree_run g(1) fs_put_def)
  moreover have "map_of (filter (\<lambda>(q, _). \<not> prefix ?d q) g) q = map_of (w_fs w) q" for q
    using t g(2) [of q] by (auto simp: map_of_filter_key tmp_new_def fs_at_def fs_put_def update_conv')
  ultimately show ?thesis by blast
qed

end
