(* ===== verification/VolumeProps.thy ===== *)
theory VolumeProps
  imports VolumeFake Files
begin

text \<open>
  The properties of the volume client: exact effect of the verbs on the table of logical
  volumes, independence of thin volumes, and the node substrate of \<open>pool.py\<close>, which comes up
  from any state of the simulator and which a second run leaves alone.
\<close>

section \<open>The substrate\<close>

text \<open>What \<open>pool.ensure\<close> promises of a node: its volume group, the thin pool in it and the
  default golden image.\<close>

definition pool_up :: "string \<Rightarrow> string \<Rightarrow> fstate \<Rightarrow> bool" where
  "pool_up vg pool s \<longleftrightarrow> vg \<in> f_vgs s \<and> pool \<in> lv_here vg s \<and> GOLD_DEFAULT \<in> lv_here vg s"

definition lvm_same :: "'db world \<Rightarrow> 'db world \<Rightarrow> bool" where
  "lvm_same w v \<longleftrightarrow> (on_fake v = on_fake w) \<and> f_lvs (w_fake v) = f_lvs (w_fake w) \<and> f_vgs (w_fake v) = f_vgs (w_fake w)"

lemma lv_vgs [simp]:
  "f_vgs (lv_put k d s) = f_vgs s" "f_vgs (lv_drop k s) = f_vgs s"
  "lv_map (s\<lparr>f_vgs := x\<rparr>) = lv_map s" "lv_here vg (s\<lparr>f_vgs := x\<rparr>) = lv_here vg s"
  by (simp_all add: lv_put_def lv_drop_def lv_map_def lv_here_def)

lemma run_set_fake:
  "on_fake w \<Longrightarrow> fake_run argv (w_fake w) = (Inr x, s) \<Longrightarrow> run argv i w = (Inr x, set_fake (\<lambda>_. s) w)"
  by (simp add: run_fake_ok set_fake_def)

lemma pv_exists_fake [prog_simps]: "on_fake w \<Longrightarrow> pv_exists dev w = (Inr (dev \<in> f_pvs (w_fake w)), w)"
  by (simp add: pv_exists_def bnd_run query_fake [OF _ fake_pvs])

lemma vg_exists_fake [prog_simps]: "on_fake w \<Longrightarrow> vg_exists vg w = (Inr (vg \<in> f_vgs (w_fake w)), w)"
  by (simp add: vg_exists_def bnd_run query_fake [OF _ fake_vgs])

lemma ensure_pvcreate_fake:
  assumes "on_fake w"
  shows "ensure_pvcreate dev w = (Inr (), set_fake (\<lambda>s. s\<lparr>f_pvs := insert dev (f_pvs s)\<rparr>) w)"
proof (cases "dev \<in> f_pvs (w_fake w)")
  case True
  then show ?thesis using assms
    by (simp add: ensure_pvcreate_def bnd_run pv_exists_fake set_fake_def insert_absorb)
next
  case False
  then show ?thesis
    using assms priv_set_fake [OF assms fake_pvcreate(1)] priv_set_fake [OF assms fake_pvcreate(2)]
    by (simp add: ensure_pvcreate_def bnd_run pv_exists_fake environ_def)
qed

lemma fake_truncate:
  "\<exists>g. fake_run [''truncate'', ''-s'', str_int n @ ''G'', f] s = (Inr (Text []), s\<lparr>f_files := g\<rparr>)"
proof -
  have "rstrip_chars ''MGK'' (str_int n @ ''G'') = str_int n"
    by (rule rstrip_str_int) (auto simp: is_digit_def)
  then show ?thesis
    by (simp add: fake_run_head handlers_def truncate_cmd_def bnd_run arg_def) blast
qed

lemma fake_losetup_j:
  "fake_run [''losetup'', ''-j'', f] s = (Inr (Text (case map_of (f_loops s) f of
      None \<Rightarrow> [] | Some d \<Rightarrow> d @ '': []: ('' @ f @ '')'' @ [newline])), s)"
  by (simp add: fake_run_head handlers_def losetup_cmd_def bnd_run arg_def)

lemma fake_losetup_find:
  "\<exists>out l. fake_run [''losetup'', ''--find'', ''--show'', path_str p] s = (Inr (Text out), s\<lparr>f_loops := l\<rparr>)"
proof (cases "map_of (f_loops s) (path_str p)")
  case None
  then show ?thesis
    by (simp add: fake_run_head handlers_def losetup_cmd_def andThen_run path_str_def Let_def) blast
next
  case (Some d)
  then show ?thesis
    by (intro exI [of _ "d @ [newline]"] exI [of _ "f_loops s"])
       (simp add: fake_run_head handlers_def losetup_cmd_def andThen_run path_str_def Let_def)
qed

lemma set_fake_const: "set_fake (\<lambda>_. w_fake w) w = w"
  by (simp add: set_fake_def)

lemma loop_dev_fake:
  assumes w: "on_fake w"
  shows "\<exists>dev l. loop_dev f w = (Inr dev, set_fake (f_loops_update (\<lambda>_. l)) w)"
proof -
  note j = run_set_fake [OF w fake_losetup_j]
  obtain out l where "fake_run [''losetup'', ''--find'', ''--show'', path_str f] (w_fake w)
      = (Inr (Text out), w_fake w\<lparr>f_loops := l\<rparr>)" using fake_losetup_find by blast
  note n = run_set_fake [OF w this]
  show ?thesis
  proof (cases "strip (text_of (Text (case map_of (f_loops (w_fake w)) (path_str f) of
      None \<Rightarrow> [] | Some d \<Rightarrow> d @ '': []: ('' @ path_str f @ '')'' @ [newline]))) = []")
    case True
    then show ?thesis using j n by (simp add: loop_dev_def bnd_run Let_def set_fake_def) blast
  next
    case False
    then have "\<exists>dev. loop_dev f w = (Inr dev, w)" using j
      by (simp add: loop_dev_def bnd_run Let_def set_fake_const del: not_None_eq)
    moreover have "w = set_fake (f_loops_update (\<lambda>_. f_loops (w_fake w))) w" by (simp add: set_fake_def)
    ultimately show ?thesis by metis
  qed
qed

lemma ensure_loopback_fake:
  assumes w: "on_fake w" and d: "dirs_ok (butlast (loop_file cfg)) w"
  shows "\<exists>pv v. ensure_loopback cfg w = (Inr pv, v) \<and> lvm_same w v \<and> pv \<in> f_pvs (w_fake v)"
proof -
  let ?f = "loop_file cfg"
  obtain fs where m: "mkdir_p (butlast ?f) w = (Inr (), w\<lparr>w_fs := fs\<rparr>)"
    using mkdir_p_ok [OF d] by blast
  let ?w1 = "w\<lparr>w_fs := fs\<rparr>"
  have w1: "on_fake ?w1" using w by simp
  obtain g where "(if path_exists ?f ?w1 then ret ()
      else priv [''truncate'', ''-s'', str_int (lc_loop_size_gb cfg) @ ''G'', path_str ?f]) ?w1
      = (Inr (), set_fake (f_files_update (\<lambda>_. g)) ?w1)"
  proof (cases "path_exists ?f ?w1")
    case True
    have "?w1 = set_fake (f_files_update (\<lambda>_. f_files (w_fake ?w1))) ?w1" by (simp add: set_fake_def)
    with True that show thesis by simp
  next
    case False
    obtain g where "fake_run [''truncate'', ''-s'', str_int (lc_loop_size_gb cfg) @ ''G'', path_str ?f] (w_fake ?w1)
        = (Inr (Text []), w_fake ?w1\<lparr>f_files := g\<rparr>)" using fake_truncate by blast
    with False that [of g] show thesis by (simp add: priv_fake [OF w1] set_fake_def)
  qed
  note t = this
  let ?w2 = "set_fake (f_files_update (\<lambda>_. g)) ?w1"
  have w2: "on_fake ?w2" using w by simp
  obtain dev l where l: "loop_dev ?f ?w2 = (Inr dev, set_fake (f_loops_update (\<lambda>_. l)) ?w2)"
    using loop_dev_fake [OF w2] by blast
  show ?thesis
    using w by (simp add: ensure_loopback_def Let_def andThen_run bnd_run m t l ensure_pvcreate_fake lvm_same_def)
qed

lemma ensure_pv_fake:
  assumes "on_fake w" and "truthy_str (lc_device cfg) = None \<Longrightarrow> dirs_ok (butlast (loop_file cfg)) w"
  shows "\<exists>pv v. ensure_pv cfg w = (Inr pv, v) \<and> lvm_same w v \<and> pv \<in> f_pvs (w_fake v)"
proof (cases "truthy_str (lc_device cfg)")
  case None
  with ensure_loopback_fake [OF assms(1)] assms(2) show ?thesis by (simp add: ensure_pv_def)
next
  case (Some d)
  with assms(1) show ?thesis
    by (simp add: ensure_pv_def andThen_run ensure_pvcreate_fake lvm_same_def)
qed

definition base_lv :: "lvm_config \<Rightarrow> lvrec" where
  "base_lv cfg = \<lparr>lv_size = lc_base_rootfs_mb cfg, lv_pool = Some (lc_thinpool cfg), lv_origin = None,
                  lv_attr = ''Vwi-a-tz--''\<rparr>"

definition pool_lv :: lvrec where
  "pool_lv = \<lparr>lv_size = 0, lv_pool = None, lv_origin = None, lv_attr = ''twi-a-tz--''\<rparr>"

lemma reserved_names [simp]:
  "lv_name_ok BASE_ROOTFS" "lv_name_ok GOLD_DEFAULT" "noslash BASE_ROOTFS" "noslash GOLD_DEFAULT"
  "BASE_ROOTFS \<noteq> GOLD_DEFAULT" "GOLD_DEFAULT \<noteq> BASE_ROOTFS"
  by (simp_all add: lv_name_ok_def noslash_def BASE_ROOTFS_def GOLD_DEFAULT_def)

lemma ensure_pool_fake:
  assumes "on_fake w"
  shows "ensure_pool vg pool w
     = (Inr (), if pool \<in> lv_here vg (w_fake w) then w else set_fake (lv_put (vg, pool) pool_lv) w)"
  using priv_set_fake [OF assms fake_lvcreate_pool]
  by (simp add: ensure_pool_def bnd_run lv_exists_fake [OF assms] pool_lv_def)

lemma ensure_golden_fake:
  assumes "on_fake w" "noslash vg" "noslash (lc_thinpool cfg)"
  shows "ensure_default_golden vg cfg src w
     = (Inr (), if GOLD_DEFAULT \<in> lv_here vg (w_fake w) then w
                else set_fake (\<lambda>s. lv_put (vg, GOLD_DEFAULT) (thin_of (Some (base_lv cfg)) BASE_ROOTFS True)
                       (lv_put (vg, BASE_ROOTFS) (base_lv cfg) s)) w)"
proof (cases "GOLD_DEFAULT \<in> lv_here vg (w_fake w)")
  case True
  then show ?thesis by (simp add: ensure_default_golden_def bnd_run lv_exists_fake [OF assms(1)])
next
  case False
  let ?w1 = "set_fake (lv_put (vg, BASE_ROOTFS) (base_lv cfg)) w"
  have "on_fake ?w1" using assms(1) by simp
  note dd = priv_set_fake [OF this fake_noop(2)] and sn = lv_snapshot_fake [OF this assms(2)]
  show ?thesis
    using False lv_create_thin_fake [OF assms reserved_names(1)] dd sn
    by (simp add: ensure_default_golden_def bnd_run andThen_run lv_exists_fake [OF assms(1)] base_lv_def)
qed

text \<open>On a node whose substrate is up \<open>pool.ensure\<close> finds nothing to make.\<close>

lemma pool_ensure_up:
  assumes "on_fake w" "noslash (vg_for cfg node_id)" "noslash (lc_thinpool cfg)"
    and "truthy_str (lc_device cfg) = None \<Longrightarrow> dirs_ok (butlast (loop_file cfg)) w"
    and "pool_up (vg_for cfg node_id) (lc_thinpool cfg) (w_fake w)"
  shows "\<exists>v. pool_ensure node_id cfg src w = (Inr (vg_for cfg node_id), v) \<and>
    f_vgs (w_fake v) = f_vgs (w_fake w) \<and> f_lvs (w_fake v) = f_lvs (w_fake w)"
proof -
  obtain pv v where v: "ensure_pv cfg w = (Inr pv, v)" "lvm_same w v"
    using ensure_pv_fake [OF assms(1), of cfg] assms(4) by blast
  then have f: "on_fake v" using assms(1) by (simp add: lvm_same_def)
  have up: "pool_up (vg_for cfg node_id) (lc_thinpool cfg) (w_fake v)"
    using assms(5) v(2) by (simp add: pool_up_def lvm_same_def lv_here_def lv_map_def)
  note [simp] = f vg_exists_fake ensure_pool_fake ensure_golden_fake [OF _ assms(2,3)]
    priv_set_fake [OF _ fake_noop(3)]
  show ?thesis
    using up v(2) by (simp add: pool_ensure_def v(1) Let_def bnd_run andThen_run pool_up_def lvm_same_def)
qed

text \<open>C21: on the simulator, from any state of it, \<open>pool.ensure\<close> returns the node's volume group
  and leaves the substrate up: the group, the thin pool and a default golden image exist. It
  succeeds with a block device as with a loopback file whose directory can be made; and on a node whose
  substrate was up already it changes neither the volume groups nor any logical volume.\<close>

theorem pool_ensure_establishes:
  assumes "on_fake w" "noslash (vg_for cfg node_id)" "noslash (lc_thinpool cfg)"
    and "truthy_str (lc_device cfg) = None \<Longrightarrow> dirs_ok (butlast (loop_file cfg)) w"
  shows "\<exists>v. pool_ensure node_id cfg src w = (Inr (vg_for cfg node_id), v) \<and>
    pool_up (vg_for cfg node_id) (lc_thinpool cfg) (w_fake v) \<and>
    (pool_up (vg_for cfg node_id) (lc_thinpool cfg) (w_fake w) \<longrightarrow>
      f_vgs (w_fake v) = f_vgs (w_fake w) \<and> f_lvs (w_fake v) = f_lvs (w_fake w))"
proof (cases "pool_up (vg_for cfg node_id) (lc_thinpool cfg) (w_fake w)")
  case True
  then show ?thesis using pool_ensure_up [OF assms True, of src] by (auto simp: pool_up_def lv_here_def lv_map_def)
next
  case False
  let ?vg = "vg_for cfg node_id"
  obtain pv v where v: "ensure_pv cfg w = (Inr pv, v)" "lvm_same w v" using ensure_pv_fake [OF assms(1), of cfg] assms(4) by blast
  then have "on_fake v" using assms(1) by (simp add: lvm_same_def)
  note [simp] = this vg_exists_fake ensure_pool_fake ensure_golden_fake [OF _ assms(2,3)]
    priv_set_fake [OF _ fake_vgcreate] priv_set_fake [OF _ fake_noop(3)]
  have "\<exists>v. pool_ensure node_id cfg src w = (Inr (vg_for cfg node_id), v) \<and> pool_up (vg_for cfg node_id) (lc_thinpool cfg) (w_fake v)"
    by (simp add: pool_ensure_def v(1) Let_def bnd_run andThen_run pool_up_def)
  with False show ?thesis by blast
qed

definition loop_lvm :: lvm_config where
  "loop_lvm = \<lparr>lc_vg = ''nyc'', lc_thinpool = ''pool'', lc_device = None,
     lc_node_folder = [''srv'', ''node''], lc_loop_size_gb = 20, lc_base_rootfs_mb = 4096\<rparr>"

lemma loop_lvm_facts:
  "vg_for loop_lvm ''n1'' = ''nyc-n1''" "lc_thinpool loop_lvm = ''pool''" "noslash ''nyc-n1''" "noslash ''pool''"
  by (simp_all add: vg_for_def loop_lvm_def truthy_str_def noslash_def)

lemma pool_ensure_establishes_witness:
  "\<exists>v. pool_ensure ''n1'' loop_lvm [] (world0 ()) = (Inr ''nyc-n1'', v) \<and> pool_up ''nyc-n1'' ''pool'' (w_fake v)"
proof -
  have "dirs_ok (butlast (loop_file loop_lvm)) (world0 ())"
    by (simp add: dirs_ok_def prefixes1_def loop_file_def loop_lvm_def fs_at_def world0_def upt_rec)
  then show ?thesis
    using pool_ensure_establishes [of "world0 ()" loop_lvm "''n1''" "[]"] by (simp add: loop_lvm_facts) blast
qed

section \<open>Volumes, snapshots, clones\<close>

lemma role_name_ok [simp]:
  assumes "noslash i"
  shows "lv_name_ok (data_name i)" "lv_name_ok (snap_name i)" "lv_name_ok (gold_name i)" "lv_name_ok (rootfs_name i)"
    "noslash (data_name i)" "noslash (snap_name i)" "noslash (gold_name i)" "noslash (rootfs_name i)"
  using assms by (auto simp: lv_name_ok_def noslash_def name_defs)

text \<open>A thin clone is independent of its origin. Cloning an LV and then deleting the origin
  (as deleting a golden image does) succeeds, removes the origin alone, and leaves the clone with
  the size and pool it took from the origin; every other LV is as before.\<close>

theorem thin_clone_independent:
  assumes "on_fake w" "noslash vg" "noslash origin" "lv_name_ok name" "name \<noteq> origin"
    and "lv_map (w_fake w) (vg, origin) = Some d"
  shows "\<exists>v. bnd (vol_from_snapshot vg origin name) (\<lambda>dev. andThen (vol_delete vg origin) (ret dev)) w
      = (Inr (device_path vg name), v) \<and>
    lv_map (w_fake v) = (lv_map (w_fake w))
      ((vg, origin) := None,
       (vg, name) \<mapsto> \<lparr>lv_size = lv_size d, lv_pool = lv_pool d, lv_origin = Some origin, lv_attr = ''Vwi-a-tz--''\<rparr>)"
proof -
  show ?thesis
    using assms(1,5,6) by (simp add: vol_from_snapshot_def vol_delete_def bnd_run andThen_run
      lv_clone_fake [OF assms(1-4)] lv_remove_fake [OF _ assms(2,3)] thin_of_def fun_upd_twist)
qed

lemma thin_clone_independent_witness:
  "\<exists>v. bnd (vol_from_snapshot ''nyc'' ''gold-default'' ''rootfs-a'')
      (\<lambda>dev. andThen (vol_delete ''nyc'' ''gold-default'') (ret dev))
      (set_fake (lv_put (''nyc'', ''gold-default'') pool_lv) (world0 ())) = (Inr (device_path ''nyc'' ''rootfs-a''), v) \<and>
    lv_map (w_fake v) (''nyc'', ''rootfs-a'') \<noteq> None"
  using thin_clone_independent [of "set_fake (lv_put (''nyc'', ''gold-default'') pool_lv) (world0 ())" "''nyc''"
      "''gold-default''" "''rootfs-a''" pool_lv]
  by (simp add: noslash_def lv_name_ok_def) force

text \<open>C22: creating a data volume, snapshotting it and promoting the snapshot to a golden image makes
  exactly three LVs: a writable one of the requested size, and two read-only ones of the same size
  and pool whose origins are the volume and the snapshot; nothing else in the table changes.\<close>

theorem volume_snapshot_golden_chain:
  assumes "on_fake w" "noslash vg" "noslash pool" "noslash v" "noslash s" "noslash g"
  shows "\<exists>u. andThen (vol_create vg pool (data_name v) n)
             (andThen (snap_create vg (data_name v) s) (snap_golden vg s g)) w
      = (Inr (device_path vg (gold_name g)), u) \<and>
    lv_map (w_fake u) = (lv_map (w_fake w))
      ((vg, data_name v) \<mapsto> \<lparr>lv_size = n, lv_pool = Some pool, lv_origin = None, lv_attr = ''Vwi-a-tz--''\<rparr>,
       (vg, snap_name s) \<mapsto> \<lparr>lv_size = n, lv_pool = Some pool, lv_origin = Some (data_name v), lv_attr = ''Vri---tz-k''\<rparr>,
       (vg, gold_name g) \<mapsto> \<lparr>lv_size = n, lv_pool = Some pool, lv_origin = Some (snap_name s), lv_attr = ''Vri---tz-k''\<rparr>)"
proof -
  let ?w1 = "set_fake (lv_put (vg, data_name v)
     \<lparr>lv_size = n, lv_pool = Some pool, lv_origin = None, lv_attr = ''Vwi-a-tz--''\<rparr>) w"
  have "on_fake ?w1" using assms(1) by simp
  then obtain f where f: "format_ext4 (device_path vg (data_name v)) ?w1 = (Inr (), set_fake (f_files_update (\<lambda>_. f)) ?w1)"
    using format_ext4_fake by blast
  have lm: "lv_map (t\<lparr>f_files := x\<rparr>) = lv_map t" for t x by (simp add: lv_map_def)
  note [simp] = role_name_ok [OF assms(4)] role_name_ok [OF assms(5)] role_name_ok [OF assms(6)]
    lv_snapshot_fake [OF _ assms(2)]
  show ?thesis
    using assms(1) lv_create_thin_fake [OF assms(1-3), of "data_name v"] f
    by (simp add: vol_create_def snap_create_def snap_golden_def bnd_run andThen_run thin_of_def lm)
qed

lemma volume_snapshot_golden_chain_witness:
  "\<exists>u. andThen (vol_create ''nyc'' ''pool'' (data_name ''v'') 64)
      (andThen (snap_create ''nyc'' (data_name ''v'') ''s'') (snap_golden ''nyc'' ''s'' ''g'')) (world0 ())
    = (Inr (device_path ''nyc'' (gold_name ''g'')), u) \<and> lv_map (w_fake u) (''nyc'', gold_name ''g'') \<noteq> None"
  using volume_snapshot_golden_chain [of "world0 ()" "''nyc''" "''pool''" "''v''" "''s''" "''g''" 64]
  by (simp add: noslash_def) force

text \<open>Resizing an LV changes its size and nothing else, and removing one is exact and idempotent:
  it deletes the named LV alone, and removing it again succeeds without changing anything.\<close>

lemma extend_remove_exact:
  assumes "on_fake w" "noslash vg" "noslash name"
  shows "(\<exists>v. lv_extend vg name n w = (Inr (), v) \<and>
      lv_map (w_fake v) = (lv_map (w_fake w))((vg, name) := map_option (\<lambda>d. d\<lparr>lv_size := n\<rparr>) (lv_map (w_fake w) (vg, name)))) \<and>
    (\<exists>v. lv_remove vg name w = (Inr (), v) \<and> lv_map (w_fake v) = (lv_map (w_fake w))((vg, name) := None) \<and>
      lv_remove vg name v = (Inr (), v))"
proof -
  obtain t where t: "fake_run [''lvextend'', ''-L'', str_int n @ ''m'', vg @ ''/'' @ name] (w_fake w) = (Inr (Text []), t)"
    and lm: "lv_map t = (lv_map (w_fake w))((vg, name) := map_option (\<lambda>d. d\<lparr>lv_size := n\<rparr>) (lv_map (w_fake w) (vg, name)))"
    using fake_lvextend [OF assms(2,3)] by blast
  have "on_fake (w\<lparr>w_fake := t\<rparr>)" using assms(1) by simp
  note rs = priv_fake [OF this fake_noop(1)]
  have "\<exists>v. lv_extend vg name n w = (Inr (), v) \<and> lv_map (w_fake v) = lv_map t"
    using priv_fake [OF assms(1) t] rs by (simp add: lv_extend_def andThen_run)
  moreover let ?v = "set_fake (lv_drop (vg, name)) w"
  have "on_fake ?v" using assms(1) by simp
  note again = lv_remove_fake [OF this assms(2,3)]
  have "lv_drop (vg, name) (lv_drop (vg, name) t) = lv_drop (vg, name) t" for t
    by (rule lv_drop_absent) simp
  then have "lv_remove vg name ?v = (Inr (), ?v)" using again by simp
  ultimately show ?thesis using lv_remove_fake [OF assms] lm by auto
qed

end
