(* ===== verification/Lifecycle.thy ===== *)
theory Lifecycle
  imports VmProc
begin

text \<open>
  \<open>nyc/client/lifecycle\<close>: bringing a VM up (set-up, injection, network, process), taking it
  down, stopping and starting it.
\<close>

section \<open>Names\<close>

definition ns_name :: "string \<Rightarrow> string" where
  "ns_name vm_id = ''vm-'' @ take 8 vm_id"

definition veth_names :: "string \<Rightarrow> string \<times> string" where
  "veth_names vm_id = (''vmh-'' @ take 8 vm_id, ''vmn-'' @ take 8 vm_id)"

definition pub_veth_names :: "string \<Rightarrow> string \<times> string" where
  "pub_veth_names vm_id = (''pvh-'' @ take 8 vm_id, ''pvn-'' @ take 8 vm_id)"

definition vm_mac :: "string \<Rightarrow> string" where
  "vm_mac vm_id =
     (let h = take 10 (filter (\<lambda>c. c \<noteq> CHR ''-'') vm_id)
      in ''02:'' @ join '':'' (map (\<lambda>i. take 2 (drop i h)) [0, 2, 4, 6, 8]))"

section \<open>Up\<close>

record vm_spec =
  vs_vm_id :: string
  vs_vm_name :: string
  vs_node_id :: string
  vs_vpc_id :: string
  vs_ip :: string
  vs_cidr :: string
  vs_data_volume_path :: "string option"
  vs_assets :: assets
  vs_vms_dir :: path
  vs_firecracker_bin :: path
  vs_vg :: string
  vs_node_host :: "string option"
  vs_peer_hosts :: "string list"
  vs_dns :: string
  vs_ssh_pubkey :: "string option"
  vs_vcpu_count :: int
  vs_mem_mib :: int
  vs_rootfs_origin :: string
  vs_public_ip :: "pubip_spec option"

definition wire_veth :: "vm_spec \<Rightarrow> string \<Rightarrow> string \<Rightarrow> string \<Rightarrow> ('db, unit) node_prog" where
  "wire_veth spec ns host_veth ns_veth =
     andThen (veth_create_pair host_veth ns_veth)
    (andThen (veth_place_in_ns ns_veth ns)
    (andThen (bridge_attach (bridge_name (vs_node_id spec) (vs_vpc_id spec)) host_veth)
             (veth_up host_veth)))"

definition wire_tap :: "string \<Rightarrow> string \<Rightarrow> ('db, unit) node_prog" where
  "wire_tap ns ns_veth =
     andThen (ns_bridge_create ns ns_bridge_NAME)
    (andThen (ns_bridge_attach ns ns_veth ns_bridge_NAME)
    (andThen (tap_create ns ''tap0'')
             (ns_bridge_attach ns ''tap0'' ns_bridge_NAME)))"

definition wire_public :: "vm_spec \<Rightarrow> string \<Rightarrow> ('db, unit) node_prog" where
  "wire_public spec ns =
     bnd pubip (\<lambda>cfg.
     let (host_veth, ns_veth) = pub_veth_names (vs_vm_id spec) in
     andThen (veth_create_pair host_veth ns_veth)
    (andThen (veth_place_in_ns ns_veth ns)
    (andThen (bridge_attach (pc_bridge cfg) host_veth)
    (andThen (veth_up host_veth)
    (andThen (ns_bridge_create ns ''pbr1'')
    (andThen (ns_bridge_attach ns ns_veth ''pbr1'')
    (andThen (tap_create ns ''tap1'')
             (ns_bridge_attach ns ''tap1'' ''pbr1''))))))))"

definition LOOPBACK :: "string option set" where
  "LOOPBACK = {None, Some ''127.0.0.1'', Some ''localhost''}"

definition overlay_up :: "vm_spec \<Rightarrow> string \<Rightarrow> ('db, unit) node_prog" where
  "overlay_up spec br =
     (if vs_peer_hosts spec = [] \<or> vs_node_host spec \<in> LOOPBACK then ret ()
      else bnd (gets w_sha) (\<lambda>sha.
        let name = vxlan_name (vs_node_id spec) (vs_vpc_id spec) in
        andThen (vxlan_ensure name (vni_for sha (vs_vpc_id spec)) (the (vs_node_host spec)) br)
                (set_fdb name (vs_peer_hosts spec))))"

definition vm_network :: "vm_spec \<Rightarrow> ('db, unit) node_prog" where
  "vm_network spec =
     (let br = bridge_name (vs_node_id spec) (vs_vpc_id spec) in
      bnd (of_sum (gateway_cidr (vs_cidr spec))) (\<lambda>gw.
      bnd (gets w_sha) (\<lambda>sha.
      andThen (bridge_ensure br gw (Some (anycast_mac sha (vs_vpc_id spec))))
     (andThen (overlay_up spec br)
     (andThen (nat_ensure (vs_cidr spec))
     (let ns = ns_name (vs_vm_id spec); (host_veth, ns_veth) = veth_names (vs_vm_id spec) in
      andThen (netns_create ns)
     (andThen (wire_veth spec ns host_veth ns_veth)
     (andThen (wire_tap ns ns_veth)
              (case vs_public_ip spec of Some _ \<Rightarrow> wire_public spec ns | None \<Rightarrow> ret ())))))))))"

definition config_of_spec :: "vm_spec \<Rightarrow> vm_config" where
  "config_of_spec spec =
     \<lparr>vc_vm_id = vs_vm_id spec, vc_tap_name = ''tap0'', vc_mac = vm_mac (vs_vm_id spec),
      vc_guest_ip = vs_ip spec, vc_cidr = vs_cidr spec,
      vc_has_data_volume = vs_data_volume_path spec \<noteq> None,
      vc_vcpu_count = vs_vcpu_count spec, vc_mem_mib = vs_mem_mib spec, vc_dns = vs_dns spec,
      vc_public_tap = (case vs_public_ip spec of Some _ \<Rightarrow> Some ''tap1'' | None \<Rightarrow> None),
      vc_public_mac = map_option ps_mac (vs_public_ip spec)\<rparr>"

definition vm_spawn :: "path \<Rightarrow> vm_spec \<Rightarrow> ('db, unit) node_prog" where
  "vm_spawn root spec =
     bnd (config_build root (config_of_spec spec)) (\<lambda>_.
     bnd (create_run root (vs_vm_id spec) (ns_name (vs_vm_id spec)) (vs_firecracker_bin spec)) (\<lambda>_.
     boot_run root))"

definition vm_up :: "vm_spec \<Rightarrow> ('db, path) node_prog" where
  "vm_up spec =
     bnd (env_setup (vs_vms_dir spec) (vs_vm_id spec) (vs_assets spec) (vs_vg spec)
            (vs_rootfs_origin spec)) (\<lambda>root.
     andThen (inject_run root (vs_ssh_pubkey spec) (vs_dns spec)
                (vs_data_volume_path spec \<noteq> None) (vs_public_ip spec))
    (andThen (case vs_data_volume_path spec of
                Some p \<Rightarrow> andThen (attach_run root p) (ret ()) | None \<Rightarrow> ret ())
    (andThen (vm_network spec)
    (andThen (vm_spawn root spec) (ret root)))))"

section \<open>Down, stop, start\<close>

definition safe :: "('s, unit) prog \<Rightarrow> ('s, unit) prog" where
  "safe m = except m (\<lambda>_. ret ())"

definition network_down :: "string \<Rightarrow> ('db, unit) node_prog" where
  "network_down vm_id =
     andThen (safe (netns_delete (ns_name vm_id)))
    (andThen (safe (veth_delete (fst (veth_names vm_id))))
             (safe (veth_delete (fst (pub_veth_names vm_id)))))"

definition vm_down :: "path \<Rightarrow> string \<Rightarrow> string \<Rightarrow> ('db, unit) node_prog" where
  "vm_down vms vm_id vg =
     (let root = for_vm vms vm_id in
      andThen (bnd (gets (path_exists root)) (\<lambda>b. if b then kill_run root else ret ()))
     (andThen (network_down vm_id)
              (env_teardown root vg)))"

definition vm_stop :: "path \<Rightarrow> string \<Rightarrow> ('db, unit) node_prog" where
  "vm_stop vms vm_id = kill_run (for_vm vms vm_id)"

definition vm_start :: "path \<Rightarrow> string \<Rightarrow> string \<Rightarrow> path \<Rightarrow> ('db, unit) node_prog" where
  "vm_start vms vm_id ns bin =
     (let root = for_vm vms vm_id in
      bnd (create_run root vm_id ns bin) (\<lambda>_. boot_run root))"

end
