(* ===== verification/NetworkProps.thy ===== *)
theory NetworkProps
  imports NetworkFake Lifecycle
begin

text \<open>
  The properties of the network client: NAT rules are installed once and removed exactly, the
  replication list of a tunnel becomes the peers asked for, and the identifiers derived from a
  VPC's id are in the ranges the kernel accepts.
\<close>

section \<open>NAT\<close>

text \<open>C24: on the simulator \<open>nat.ensure\<close> succeeds, afterwards exactly the two chains, the two jumps
  and the VPC's three rules are there beside what was there before, and forwarding is on; a second
  call changes nothing at all.\<close>

theorem nat_ensure_idempotent:
  assumes "on_fake w" "ipt_ready (w_fake w)"
  shows "\<exists>v. nat_ensure cidr w = (Inr (), v) \<and>
    (\<forall>r. ipt_has (w_fake v) r = (r \<in> set (nat_items cidr) \<or> ipt_has (w_fake w) r)) \<and>
    f_sysctl (w_fake v) ''net.ipv4.ip_forward'' = Some ''1'' \<and>
    nat_ensure cidr v = (Inr (), v)"
proof -
  let ?g = "\<lambda>s. fold (ensure_in ipt_has ipt_add) (nat_items cidr) (forwarding_on s)"
  let ?v = "set_fake ?g w"
  have "on_fake ?v" "ipt_ready (w_fake ?v)" using assms by (simp_all add: ipt_ready_fold)
  note again = nat_ensure_fake [OF this, of cidr]
  have sys: "f_sysctl (?g (w_fake w)) = f_sysctl (forwarding_on (w_fake w))" by (rule sysctl_fold)
  have "?g (?g (w_fake w)) = ?g (w_fake w)"
    by (simp only: forwarding_idem [OF sys] ipt_once.ensured_twice)
  then have "set_fake ?g ?v = ?v" by (simp add: set_fake_def)
  moreover have "f_sysctl (?g (w_fake w)) ''net.ipv4.ip_forward'' = Some ''1''"
    unfolding sys by (simp add: forwarding_on_def)
  ultimately show ?thesis
    using again nat_ensure_fake [OF assms, of cidr] by (auto simp: ipt_once.has_ensured)
qed

lemma nat_ensure_idempotent_witness:
  "\<exists>v. nat_ensure ''10.0.0.0/24'' (world0 ()) = (Inr (), v) \<and> nat_ensure ''10.0.0.0/24'' v = (Inr (), v)"
proof -
  have "ipt_ready (w_fake (world0 ()))"
    by (simp add: ipt_ready_def reset_state_def ipt_builtin_def NAT_def FILTER_def)
  then show ?thesis using nat_ensure_idempotent [of "world0 ()" "''10.0.0.0/24''"] by auto
qed

text \<open>The rules of one VPC, and what removing them means.\<close>

definition vpc_rules :: "string \<Rightarrow> ipt_item list" where
  "vpc_rules cidr = drop 4 (nat_items cidr)"

definition rules_once :: "fstate \<Rightarrow> bool" where
  "rules_once s \<longleftrightarrow> (\<forall>t c. distinct (ipt_rules (ipt_table s t) c))"

definition rule_gone :: "ipt_item \<Rightarrow> fstate \<Rightarrow> fstate" where
  "rule_gone r s = (if ipt_has s r then ipt_del r s else s)"

lemma chains_del: "chains (ipt_table (ipt_del r s) t) = chains (ipt_table s t)"
  by (auto simp: ipt_del_def ipt_table_upd split: prod.splits option.splits)

lemma rules_once_gone: "rules_once s \<Longrightarrow> rules_once (rule_gone (t, c, Some a) s)"
  by (simp add: rules_once_def rule_gone_def ipt_rules_del)

lemma has_rule_gone:
  assumes "rules_once s"
  shows "ipt_has (rule_gone (t, c, Some a) s) r = (ipt_has s r \<and> r \<noteq> (t, c, Some a))"
proof -
  obtain t' c' b where "r = (t', c', b)" by (cases r)
  then show ?thesis using assms
    by (cases b) (auto simp: rule_gone_def rules_once_def ipt_rules_del chains_del)
qed

lemma ipt_ready_gone [simp]: "ipt_ready s \<Longrightarrow> ipt_ready (rule_gone r s)"
  by (auto simp: ipt_ready_def rule_gone_def ipt_del_def ipt_upd_def split: prod.splits option.splits)

lemma del_rule_ready:
  "on_fake w \<Longrightarrow> ipt_ready (w_fake w) \<Longrightarrow> t = NAT \<or> t = FILTER \<Longrightarrow>
   del_rule t c a w = (Inr (), set_fake (rule_gone (t, c, Some a)) w)"
  by (auto simp: ipt_ready_def del_rule_fake rule_gone_def [abs_def])

lemma nat_delete_fake:
  assumes "on_fake w" "ipt_ready (w_fake w)"
  shows "nat_delete cidr w = (Inr (), set_fake (fold rule_gone (vpc_rules cidr)) w)"
  using assms by (simp add: nat_delete_def andThen_run del_rule_ready vpc_rules_def nat_items_def comp_def)

lemma vpc_rules_inject: "set (vpc_rules a) \<inter> set (vpc_rules b) \<noteq> {} \<Longrightarrow> a = b"
  by (auto simp: vpc_rules_def nat_items_def POST_def FWD_def)



section \<open>Tunnels and identifiers\<close>

text \<open>\<open>set_fdb\<close> makes the head-end replication list of a tunnel exactly the peers asked for,
  whatever it was, by reading the \<open>bridge fdb\<close> listing back and adding and deleting the difference;
  other tunnels are untouched, and a second call with the same peers changes nothing in the list.\<close>

theorem set_fdb_reconciles:
  assumes "on_fake w" "dev_ok dev" "fdb_wf (w_fake w) dev" "list_all peer_ok peers"
  shows "\<exists>v. set_fdb dev peers w = (Inr (), v) \<and>
    fdb_of (w_fake v) dev = {(ALL_ZEROS, p) | p. p \<in> set peers} \<and>
    (\<forall>u. u \<noteq> dev \<longrightarrow> fdb_of (w_fake v) u = fdb_of (w_fake w) u) \<and>
    (\<exists>x. set_fdb dev peers v = (Inr (), x) \<and> fdb_of (w_fake x) = fdb_of (w_fake v))"
proof -
  obtain g where g: "set_fdb dev peers w = (Inr (), set_fake g w)"
    "fdb_of (g (w_fake w)) dev = Pair ALL_ZEROS ` set peers"
    "\<And>u. u \<noteq> dev \<Longrightarrow> fdb_of (g (w_fake w)) u = fdb_of (w_fake w) u"
    using set_fdb_exact [OF assms(1-3), of peers] by blast
  have "fdb_wf (w_fake (set_fake g w)) dev" "on_fake (set_fake g w)"
    using assms(1,4) g(2) by (auto simp: fdb_wf_def list_all_iff)
  from set_fdb_exact [OF this(2) assms(2) this(1), of peers] obtain h where
    h: "set_fdb dev peers (set_fake g w) = (Inr (), set_fake h (set_fake g w))"
    "fdb_of (h (g (w_fake w))) dev = Pair ALL_ZEROS ` set peers"
    "\<And>u. u \<noteq> dev \<Longrightarrow> fdb_of (h (g (w_fake w))) u = fdb_of (g (w_fake w)) u" by auto
  have "fdb_of (h (g (w_fake w))) = fdb_of (g (w_fake w))"
    using g(2) h(2,3) by (intro ext) metis
  then show ?thesis using g h(1) by (intro exI [of _ "set_fake g w"]) auto
qed

lemma set_fdb_reconciles_witness:
  "\<exists>v. set_fdb ''vx-0-a'' [''10.0.0.2''] (world0 ()) = (Inr (), v) \<and>
    fdb_of (w_fake v) ''vx-0-a'' = {(ALL_ZEROS, ''10.0.0.2'')}"
proof -
  have "dev_ok ''vx-0-a''" "fdb_wf (w_fake (world0 ())) ''vx-0-a''" "list_all peer_ok [''10.0.0.2'']"
    by (simp add: dev_ok_def newline_def, simp add: fdb_wf_def fdb_of_def reset_state_def,
        simp add: peer_ok_def contains_def is_space_def)
  then show ?thesis using set_fdb_reconciles [of "world0 ()" "''vx-0-a''" "[''10.0.0.2'']"] by auto
qed

lemma int_from_bytes_nonneg: "0 \<le> int_from_bytes bs"
proof -
  have "0 \<le> foldl (\<lambda>n b. 256 * n + int b) a bs" if "0 \<le> a" for a
    using that by (induction bs arbitrary: a) auto
  then show ?thesis by (simp add: int_from_bytes_def)
qed

lemma length_join_hex: "xs \<noteq> [] \<Longrightarrow> length (join '':'' (map hex2 xs)) = 3 * length xs - 1"
  by (induction xs rule: induct_list012) (simp_all add: hex2_def)

text \<open>For every VPC id the VNI fits the 24 bits of a VXLAN header and is not zero, and the
  anycast MAC has the length of a MAC and starts with a locally administered unicast octet.\<close>

theorem overlay_ids_in_range:
  assumes "length (sha256 vpc_id) = 32"
  shows "1 \<le> vni_for sha256 vpc_id \<and> vni_for sha256 vpc_id < 2 ^ 24 \<and>
    length (anycast_mac sha256 vpc_id) = 17 \<and> take 3 (anycast_mac sha256 vpc_id) = ''02:''"
proof -
  have "0 \<le> int_from_bytes bs mod (2 ^ 24 - 1) \<and> int_from_bytes bs mod (2 ^ 24 - 1) < 2 ^ 24 - 1" for bs
    by simp
  moreover have "take 5 (sha256 vpc_id) \<noteq> []" "length (take 5 (sha256 vpc_id)) = 5" using assms by auto
  ultimately show ?thesis
    by (auto simp: vni_for_def anycast_mac_def length_join_hex)
qed

lemma overlay_ids_in_range_witness:
  "vni_for (\<lambda>_. replicate 32 255) ''v'' < 2 ^ 24 \<and> length (anycast_mac (\<lambda>_. replicate 32 255) ''v'') = 17"
  using overlay_ids_in_range [of "\<lambda>_. replicate 32 255" "''v''"] by simp


end
