(* ===== verification/LifecycleFake.thy ===== *)
theory LifecycleFake
  imports Lifecycle Files
begin

text \<open>
  A VM's life on the simulator: how \<open>vm_up\<close> leaves the links, the rootfs clone, the VM's
  directory and its process, and what \<open>vm_down\<close>, \<open>vm_stop\<close> and \<open>vm_start\<close> make of them.
\<close>

section \<open>Links after each verb\<close>

definition link_or_tap :: "link option \<Rightarrow> link" where
  "link_or_tap x = (case x of None \<Rightarrow> new_link None ''tap'' None | Some m \<Rightarrow> m)"

lemma link_or_tap_simps [simp]: "link_or_tap (Some m) = m"
  by (simp add: link_or_tap_def)

lemma links_set [simp]: "f_links (link_set n f s) = (f_links s)(n \<mapsto> f (link_or_tap (f_links s n)))"
  by (auto simp: link_set_def link_upd_def link_default_def link_or_tap_def split: option.splits)

lemma links_add [simp]:
  "f_links (link_add n k None s) = (f_links s)(n \<mapsto> new_link None k None)"
  "p \<noteq> [] \<Longrightarrow> f_links (link_add n k (Some p) s)
     = (f_links s)(n \<mapsto> new_link None k (Some p), p \<mapsto> new_link None ''veth'' (Some n))"
  by (simp_all add: link_add_def Let_def)

lemma links_other [simp]:
  "f_links (addr_add dv ip s) = f_links s" "f_links (netns_add ns s) = f_links s"
  "f_links (forwarding_on s) = f_links s" "f_links (ipt_upd t h s) = f_links s"
  "f_links (lv_put k r s) = f_links s" "f_links (lv_drop k s) = f_links s"
  "f_links (sock_set p e s) = f_links s" "f_links (fdb_put dev d s) = f_links s"
  "f_links (fdb_cut dev d s) = f_links s" "f_links (link_del n s) = (f_links s)(n := None)"
  by (simp_all add: addr_add_def netns_add_def forwarding_on_def ipt_upd_def lv_put_def lv_drop_def
        sock_set_def fdb_put_def fdb_cut_def link_del_def)

text \<open>The parts of the simulator the link verbs and the rule verbs leave alone.\<close>

definition f_rest ::
  "fstate \<Rightarrow> (lv_key \<times> lvrec) list \<times> (string \<Rightarrow> (string \<times> bool) option) \<times> string set \<times> string set" where
  "f_rest s = (f_lvs s, f_socks s, f_vgs s, f_bridges s)"

lemma rest_verbs [simp]:
  "f_rest (link_set n f s) = f_rest s" "f_rest (link_add n k p s) = f_rest s"
  "f_rest (addr_add d ip s) = f_rest s" "f_rest (netns_add ns s) = f_rest s"
  "f_rest (netns_del ns s) = f_rest s" "f_rest (link_del n s) = f_rest s"
  "f_rest (forwarding_on s) = f_rest s" "f_rest (ipt_upd t h s) = f_rest s"
  "f_rest (fdb_put dev d s) = f_rest s" "f_rest (fdb_cut dev d s) = f_rest s"
  "f_rest (tap_add n s) = f_rest s" "f_rest (s\<lparr>f_links := ls\<rparr>) = f_rest s" "f_rest (s\<lparr>f_debugfs := ds\<rparr>) = f_rest s"
  by (simp_all add: f_rest_def link_set_def link_upd_def link_default_def link_add_def addr_add_def
        netns_add_def netns_del_def link_del_def forwarding_on_def ipt_upd_def fdb_put_def fdb_cut_def
        tap_add_def Let_def split: option.splits)

lemma netns_verbs [simp]:
  "f_netns (link_set n f s) = f_netns s" "f_netns (link_add n k p s) = f_netns s"
  "f_netns (addr_add d ip s) = f_netns s" "f_netns (netns_add ns s) = insert (Some ns) (f_netns s)"
  "f_netns (netns_del ns s) = f_netns s - {Some ns}" "f_netns (link_del n s) = f_netns s"
  "f_netns (forwarding_on s) = f_netns s" "f_netns (ipt_upd t h s) = f_netns s"
  "f_netns (fdb_put dev d s) = f_netns s" "f_netns (fdb_cut dev d s) = f_netns s"
  by (simp_all add: link_set_def link_upd_def link_default_def link_add_def addr_add_def
        netns_add_def netns_del_def link_del_def forwarding_on_def ipt_upd_def fdb_put_def fdb_cut_def
        tap_add_def Let_def split: option.splits)

lemma ipt_verbs [simp]:
  "f_ipt (link_set n f s) = f_ipt s" "f_ipt (link_add n k p s) = f_ipt s"
  "f_ipt (addr_add d ip s) = f_ipt s" "f_ipt (fdb_put dev d s) = f_ipt s"
  "f_ipt (fdb_cut dev d s) = f_ipt s"
  by (simp_all add: link_set_def link_upd_def link_default_def link_add_def addr_add_def
        fdb_put_def fdb_cut_def Let_def split: option.splits)

lemma fdb_verbs [simp]:
  "f_fdb (link_set n f s) = f_fdb s" "f_fdb (link_add n k p s) = f_fdb s"
  "f_fdb (addr_add d ip s) = f_fdb s" "f_fdb (ipt_upd t h s) = f_fdb s" "f_fdb (forwarding_on s) = f_fdb s"
  "f_fdb (netns_add ns s) = f_fdb s" "f_ipt (netns_add ns s) = f_ipt s"
  by (simp_all add: link_set_def link_upd_def link_default_def link_add_def addr_add_def
        ipt_upd_def forwarding_on_def netns_add_def Let_def split: option.splits)

lemma bridges_verbs [simp]:
  "f_bridges (link_set n f s) = f_bridges s" "f_bridges (link_add n k p s) = f_bridges s"
  "f_bridges (addr_add d ip s) = f_bridges s" "f_bridges (netns_add ns s) = f_bridges s"
  by (simp_all add: link_set_def link_upd_def link_default_def link_add_def addr_add_def netns_add_def
        Let_def split: option.splits)

text \<open>A view of the simulator that a fold of steps leaves alone, when each step does.\<close>

lemma fold_view: "(\<And>x s. v (f x s) = v s) \<Longrightarrow> v (fold f xs s) = v s"
  by (induction xs arbitrary: s) simp_all

lemma ensure_view: "(\<And>t h s. v (ipt_upd t h s) = v s) \<Longrightarrow> v (ensure_in ipt_has ipt_add r s) = v s"
  by (cases "(r, s)" rule: ipt_add.cases) (simp_all add: ensure_in_def)

lemma nat_view:
  assumes "\<And>t h s. v (ipt_upd t h s) = v s"
  shows "v (fold (ensure_in ipt_has ipt_add) rs (forwarding_on s)) = v (forwarding_on s)"
  by (intro fold_view ensure_view assms)

section \<open>Bridge and overlay\<close>

definition bridge_up :: "string \<Rightarrow> string \<Rightarrow> string \<Rightarrow> fstate \<Rightarrow> fstate" where
  "bridge_up br gw mac s =
     (if br \<in> f_bridges s \<or> f_links s br \<noteq> None then s
      else link_set br (\<lambda>m. m) (addr_add br gw (link_set br (\<lambda>m. m\<lparr>l_address := Some mac\<rparr>)
             (link_add br ''bridge'' None s))))"

lemma bridge_up_facts:
  "n \<noteq> br \<Longrightarrow> f_links (bridge_up br gw mac s) n = f_links s n"
  "br \<in> f_bridges s \<or> f_links (bridge_up br gw mac s) br \<noteq> None"
  "f_netns (bridge_up br gw mac s) = f_netns s" "f_rest (bridge_up br gw mac s) = f_rest s"
  "f_ipt (bridge_up br gw mac s) = f_ipt s" "f_fdb (bridge_up br gw mac s) = f_fdb s"
  by (simp_all add: bridge_up_def)

lemma bridge_ensure_fake:
  assumes "on_fake w" "iface br" "iface gw" "iface mac"
  shows "bridge_ensure br gw (Some mac) w = (Inr (), set_fake (bridge_up br gw mac) w)"
proof -
  have "mac \<noteq> []" using assms(4) by (auto simp: iface_def)
  then have m: "truthy_str (Some mac) = Some mac" by (simp add: truthy_str_def)
  have "backend w = ''fake''" using assms(1) by (simp add: on_fake_def)
  then show ?thesis
    by (simp add: bridge_ensure_def bnd_run bridge_exists_def andThen_run m bridge_up_def assms(1)
          priv_set_fake [OF _ fake_link_add(1) [OF assms(2)]] priv_set_fake [OF _ fake_addr_add [OF assms(3)]]
          priv_set_fake [OF _ fake_link_set(1) [OF assms(2)]] priv_set_fake [OF _ fake_link_set(4) [OF assms(2,4)]])
       (auto simp: set_fake_def bridge_up_def)
qed

definition overlay_ready :: "vm_spec \<Rightarrow> fstate \<Rightarrow> bool" where
  "overlay_ready spec s \<longleftrightarrow>
     vs_peer_hosts spec = [] \<or> vs_node_host spec \<in> LOOPBACK \<or>
     (let name = vxlan_name (vs_node_id spec) (vs_vpc_id spec) in
      dev_ok name \<and> fdb_wf s name \<and> iface (the (vs_node_host spec)))"

text \<open>What every step of a VM's network keeps for the VMs to come: the packet filter's tables, and the
  shape of every tunnel's replication list (for peers of the right form).\<close>

definition peers_fine :: "vm_spec \<Rightarrow> bool" where
  "peers_fine spec \<longleftrightarrow> (\<forall>d \<in> set (vs_peer_hosts spec). peer_ok d)"

definition net_kept :: "vm_spec \<Rightarrow> fstate \<Rightarrow> fstate \<Rightarrow> bool" where
  "net_kept spec s t \<longleftrightarrow> (ipt_ready s \<longrightarrow> ipt_ready t) \<and>
     (peers_fine spec \<longrightarrow> (\<forall>dev. fdb_wf s dev \<longrightarrow> fdb_wf t dev))"

lemma net_kept_same: "f_ipt t = f_ipt s \<Longrightarrow> f_fdb t = f_fdb s \<Longrightarrow> net_kept spec s t"
  by (simp add: net_kept_def ipt_ready_def fdb_wf_def fdb_of_def)

lemma net_kept_trans: "net_kept spec s t \<Longrightarrow> net_kept spec t u \<Longrightarrow> net_kept spec s u"
  by (simp add: net_kept_def)

lemma overlay_ready_kept:
  "overlay_ready spec s \<Longrightarrow> net_kept other s t \<Longrightarrow> peers_fine other \<Longrightarrow> overlay_ready spec t"
  by (auto simp: overlay_ready_def net_kept_def Let_def)

lemma fdb_wf_puts: "fdb_wf s dev \<Longrightarrow> (\<And>d. d \<in> set ds \<Longrightarrow> peer_ok d) \<Longrightarrow> fdb_wf (fold (fdb_put n) ds s) dev"
  by (auto simp: fdb_wf_def fdb_of_puts)

lemma fdb_wf_cuts: "fdb_wf s dev \<Longrightarrow> fdb_wf (fold (fdb_cut n) ds s) dev"
  by (auto simp: fdb_wf_def fdb_of_cuts)

lemma iface_names [simp]:
  "iface (bridge_name n v)" "iface (vxlan_name n v)" "iface (ns_name i)"
  "iface (fst (veth_names i))" "iface (snd (veth_names i))"
  "iface (fst (pub_veth_names i))" "iface (snd (pub_veth_names i))"
  by (simp_all add: bridge_name_def vxlan_name_def ns_name_def veth_names_def pub_veth_names_def)

definition vx_up :: "string \<Rightarrow> string \<Rightarrow> fstate \<Rightarrow> fstate" where
  "vx_up name br s =
     (if f_links s name \<noteq> None then s
      else link_set name (\<lambda>m. m) (link_set name (\<lambda>m. m\<lparr>l_master := Some br\<rparr>)
             (link_add name ''vxlan'' None s)))"

lemma vxlan_ensure_fake:
  assumes "on_fake w" "iface name" "iface ip" "iface br"
  shows "vxlan_ensure name vni ip br w = (Inr (), set_fake (vx_up name br) w)"
proof -
  have "backend w = ''fake''" using assms(1) by (simp add: on_fake_def)
  then show ?thesis
    by (simp add: vxlan_ensure_def bnd_run vxlan_exists_def andThen_run vx_up_def assms(1)
          priv_set_fake [OF _ fake_vxlan_add [OF assms(2,3)]]
          priv_set_fake [OF _ fake_link_set(1) [OF assms(2)]] priv_set_fake [OF _ fake_link_set(3) [OF assms(2,4)]])
       (auto simp: set_fake_def vx_up_def)
qed

lemma overlay_up_fake:
  assumes w: "on_fake w" and s: "overlay_ready spec (w_fake w)" and br: "iface br"
  shows "\<exists>g. overlay_up spec br w = (Inr (), set_fake g w) \<and>
    (\<forall>n. n \<noteq> vxlan_name (vs_node_id spec) (vs_vpc_id spec) \<longrightarrow> f_links (g (w_fake w)) n = f_links (w_fake w) n) \<and>
    f_netns (g (w_fake w)) = f_netns (w_fake w) \<and> f_rest (g (w_fake w)) = f_rest (w_fake w) \<and>
    f_ipt (g (w_fake w)) = f_ipt (w_fake w) \<and> net_kept spec (w_fake w) (g (w_fake w))"
proof (cases "vs_peer_hosts spec = [] \<or> vs_node_host spec \<in> LOOPBACK")
  case True
  then have "overlay_up spec br w = (Inr (), set_fake (\<lambda>s. s) w)" by (simp add: overlay_up_def)
  then show ?thesis by (intro exI conjI) (assumption, simp_all add: net_kept_same)
next
  case False
  let ?n = "vxlan_name (vs_node_id spec) (vs_vpc_id spec)"
  let ?v = "set_fake (vx_up ?n br) w"
  from False s have ok: "dev_ok ?n" "fdb_wf (w_fake w) ?n" "iface (the (vs_node_host spec))"
    by (auto simp: overlay_ready_def Let_def)
  have v: "on_fake ?v" "fdb_wf (w_fake ?v) ?n"
    using w ok(2) by (simp_all add: fdb_wf_def fdb_of_def vx_up_def)
  define cut where "cut = filter (\<lambda>d. d \<notin> set (vs_peer_hosts spec)) (remdups (map snd (sorted_list_of_set (fdb_of (w_fake ?v) ?n))))"
  define put where "put = filter (\<lambda>d. d \<notin> snd ` fdb_of (w_fake ?v) ?n) (remdups (vs_peer_hosts spec))"
  let ?g = "\<lambda>s. fold (fdb_cut ?n) cut (fold (fdb_put ?n) put (vx_up ?n br s))"
  from False have "overlay_up spec br w = set_fdb ?n (vs_peer_hosts spec) ?v"
    by (simp add: overlay_up_def Let_def bnd_run andThen_run vxlan_ensure_fake [OF w _ ok(3) br])
  then have run: "overlay_up spec br w = (Inr (), set_fake ?g w)"
    unfolding set_fdb_fake [OF v(1) ok(1) v(2)] set_fake_comp cut_def put_def .
  have views: "f_links (?g s) = f_links (vx_up ?n br s)" "f_netns (?g s) = f_netns s" "f_rest (?g s) = f_rest s"
    "f_ipt (?g s) = f_ipt s" for s
    by (simp_all add: fold_view [of f_links] fold_view [of f_netns] fold_view [of f_rest] fold_view [of f_ipt] vx_up_def)
  have "net_kept spec s (?g s)" for s
  proof -
    have "net_kept spec s (vx_up ?n br s)" by (rule net_kept_same) (simp_all add: vx_up_def)
    then show ?thesis
      using views(4) [of s] by (auto simp: net_kept_def peers_fine_def ipt_ready_def put_def vx_up_def intro!: fdb_wf_puts fdb_wf_cuts)
  qed
  moreover have "f_links (vx_up ?n br s) n = f_links s n" if "n \<noteq> ?n" for n s
    using that by (simp add: vx_up_def)
  ultimately show ?thesis using run by (intro exI [of _ ?g]) (simp add: views)
qed

section \<open>The network of a VM\<close>

definition stack_up :: "string \<Rightarrow> string \<Rightarrow> string \<Rightarrow> string \<Rightarrow> string \<Rightarrow> string \<Rightarrow> fstate \<Rightarrow> fstate" where
  "stack_up ns hv nv br nb tap s =
     s\<lparr>f_links := (f_links s)
       (hv \<mapsto> \<lparr>l_netns = None, l_kind = ''veth'', l_peer = Some nv, l_master = Some br, l_address = None\<rparr>,
        nv \<mapsto> \<lparr>l_netns = Some ns, l_kind = ''veth'', l_peer = Some hv, l_master = Some nb, l_address = None\<rparr>,
        nb \<mapsto> new_link None ''bridge'' None,
        tap \<mapsto> \<lparr>l_netns = None, l_kind = ''tap'', l_peer = None, l_master = Some nb, l_address = None\<rparr>)\<rparr>"

text \<open>What one stack adds: a veth pair from the bridge into the namespace, and there a bridge that
  joins it to the tap.\<close>

lemma links_eqI: "f = g \<Longrightarrow> s\<lparr>f_links := f\<rparr> = s\<lparr>f_links := g\<rparr>"
  by simp

lemma stack_up_eq:
  assumes "distinct [hv, nv, nb, tap]" "nv \<noteq> []"
  shows "link_set tap (\<lambda>m. m) (link_set tap (\<lambda>m. m\<lparr>l_master := Some nb\<rparr>)
     (tap_add tap (link_set nv (\<lambda>m. m) (link_set nv (\<lambda>m. m\<lparr>l_master := Some nb\<rparr>)
     (link_set nb (\<lambda>m. m) (link_add nb ''bridge'' None
     (link_set hv (\<lambda>m. m) (link_set hv (\<lambda>m. m\<lparr>l_master := Some br\<rparr>)
     (link_set nv (\<lambda>m. m\<lparr>l_netns := Some ns\<rparr>) (link_add hv ''veth'' (Some nv) s))))))))))
     = stack_up ns hv nv br nb tap s"
proof -
  have set_eq: "link_set n f s = s\<lparr>f_links := (f_links s)(n \<mapsto> f (link_or_tap (f_links s n)))\<rparr>" for n f s
    by (auto simp: link_set_def link_upd_def link_default_def link_or_tap_def split: option.splits)
  have add_eq: "link_add nb ''bridge'' None s = s\<lparr>f_links := (f_links s)(nb \<mapsto> new_link None ''bridge'' None)\<rparr>"
    "link_add hv ''veth'' (Some nv) s
      = s\<lparr>f_links := (f_links s)(hv \<mapsto> new_link None ''veth'' (Some nv), nv \<mapsto> new_link None ''veth'' (Some hv))\<rparr>" for s
    using assms(2) by (simp_all add: link_add_def)
  show ?thesis
    using assms(1) by (auto simp: set_eq add_eq tap_add_def stack_up_def new_link_def intro!: links_eqI ext)
qed

lemma stack_fake:
  assumes w: "on_fake w"
    and n: "distinct [hv, nv, nb, tap]" "iface hv" "iface nv" "iface nb" "iface tap" "iface ns" "iface br"
  shows "andThen (veth_create_pair hv nv) (andThen (veth_place_in_ns nv ns)
     (andThen (bridge_attach br hv) (andThen (veth_up hv)
     (andThen (ns_bridge_create ns nb) (andThen (ns_bridge_attach ns nv nb)
     (andThen (tap_create ns tap) (ns_bridge_attach ns tap nb))))))) w
     = (Inr (), set_fake (stack_up ns hv nv br nb tap) w)"
proof -
  have "nv \<noteq> []" using n(3) by (auto simp: iface_def)
  note eq = stack_up_eq [OF n(1) this, of br ns "w_fake w"]
  note set = priv_set_fake [OF _ fake_link_set(1) [OF n(2)]] priv_set_fake [OF _ fake_link_set(3) [OF n(2) n(7)]]
    priv_set_fake [OF _ fake_link_set(2) [OF n(3) n(6)]] priv_set_fake [OF _ fake_link_add(2) [OF n(2)]]
    priv_set_fake [OF _ trans [OF fake_exec fake_link_add(1) [OF n(4)]]]
    priv_set_fake [OF _ trans [OF fake_exec fake_link_set(1) [OF n(4)]]]
    priv_set_fake [OF _ trans [OF fake_exec fake_link_set(1) [OF n(3)]]]
    priv_set_fake [OF _ trans [OF fake_exec fake_link_set(1) [OF n(5)]]]
    priv_set_fake [OF _ trans [OF fake_exec fake_link_set(3) [OF n(3) n(4)]]]
    priv_set_fake [OF _ trans [OF fake_exec fake_link_set(3) [OF n(5) n(4)]]]
    priv_set_fake [OF _ trans [OF fake_exec fake_tuntap]]
  show ?thesis
    by (simp add: andThen_run veth_create_pair_def veth_place_in_ns_def bridge_attach_def veth_up_def
          ns_bridge_create_def ns_bridge_attach_def tap_create_def w set)
       (simp add: set_fake_def eq)
qed

text \<open>The state of one stack in the table of links: the pair, the inner bridge and the tap.\<close>

definition stack_wired :: "string \<Rightarrow> string \<Rightarrow> string \<Rightarrow> string \<Rightarrow> string \<Rightarrow> string \<Rightarrow> fstate \<Rightarrow> bool" where
  "stack_wired ns hv nv br nb tap s \<longleftrightarrow>
     f_links s hv = Some \<lparr>l_netns = None, l_kind = ''veth'', l_peer = Some nv, l_master = Some br, l_address = None\<rparr> \<and>
     f_links s nv = Some \<lparr>l_netns = Some ns, l_kind = ''veth'', l_peer = Some hv, l_master = Some nb, l_address = None\<rparr> \<and>
     f_links s nb = Some \<lparr>l_netns = None, l_kind = ''bridge'', l_peer = None, l_master = None, l_address = None\<rparr> \<and>
     f_links s tap = Some \<lparr>l_netns = None, l_kind = ''tap'', l_peer = None, l_master = Some nb, l_address = None\<rparr>"

definition vpc_wired :: "vm_spec \<Rightarrow> fstate \<Rightarrow> bool" where
  "vpc_wired spec s \<longleftrightarrow>
     (let br = bridge_name (vs_node_id spec) (vs_vpc_id spec); ns = ns_name (vs_vm_id spec) in
      Some ns \<in> f_netns s \<and> (br \<in> f_bridges s \<or> f_links s br \<noteq> None) \<and>
      stack_wired ns (fst (veth_names (vs_vm_id spec))) (snd (veth_names (vs_vm_id spec))) br ''nbr0'' ''tap0'' s)"

definition pub_wired :: "vm_spec \<Rightarrow> string \<Rightarrow> fstate \<Rightarrow> bool" where
  "pub_wired spec br s \<longleftrightarrow>
     stack_wired (ns_name (vs_vm_id spec)) (fst (pub_veth_names (vs_vm_id spec)))
       (snd (pub_veth_names (vs_vm_id spec))) br ''pbr1'' ''tap1'' s"

definition vm_links :: "vm_spec \<Rightarrow> string set" where
  "vm_links spec =
     {bridge_name (vs_node_id spec) (vs_vpc_id spec), vxlan_name (vs_node_id spec) (vs_vpc_id spec),
      fst (veth_names (vs_vm_id spec)), snd (veth_names (vs_vm_id spec)), ''nbr0'', ''tap0'',
      fst (pub_veth_names (vs_vm_id spec)), snd (pub_veth_names (vs_vm_id spec)), ''pbr1'', ''tap1''}"

lemma stack_up_frame:
  "n \<notin> {hv, nv, nb, tap} \<Longrightarrow> f_links (stack_up ns hv nv br nb tap s) n = f_links s n"
  "f_netns (stack_up ns hv nv br nb tap s) = f_netns s"
  "f_rest (stack_up ns hv nv br nb tap s) = f_rest s"
  "f_bridges (stack_up ns hv nv br nb tap s) = f_bridges s"
  "f_ipt (stack_up ns hv nv br nb tap s) = f_ipt s"
  "f_fdb (stack_up ns hv nv br nb tap s) = f_fdb s"
  by (simp_all add: stack_up_def f_rest_def)

lemma stack_up_wired:
  "distinct [hv, nv, nb, tap] \<Longrightarrow> stack_wired ns hv nv br nb tap (stack_up ns hv nv br nb tap s)"
  by (simp add: stack_wired_def stack_up_def new_link_def)

lemma stack_wired_frame:
  "(\<And>n. n \<in> {hv, nv, nb, tap} \<Longrightarrow> f_links t n = f_links s n) \<Longrightarrow>
   stack_wired ns hv nv br nb tap t = stack_wired ns hv nv br nb tap s"
  by (simp add: stack_wired_def)

lemmas name_of_vm_defs = bridge_name_def vxlan_name_def ns_name_def veth_names_def pub_veth_names_def

lemma vpc_names: "distinct [fst (veth_names i), snd (veth_names i), ''nbr0'', ''tap0'',
    fst (pub_veth_names i), snd (pub_veth_names i), ''pbr1'', ''tap1'', bridge_name n v, vxlan_name n v]"
  by (simp add: name_of_vm_defs)

lemma names_outside:
  "bridge_name n v \<notin> {fst (veth_names i), snd (veth_names i), ''nbr0'', ''tap0''}"
  "x \<in> {fst (veth_names i), snd (veth_names i), ''nbr0'', ''tap0'', bridge_name n v} \<Longrightarrow>
   x \<notin> {fst (pub_veth_names i), snd (pub_veth_names i), ''pbr1'', ''tap1''}"
  by (auto simp: name_of_vm_defs)

lemma iface_fixed [simp]: "iface ''nbr0''" "iface ''pbr1''" "iface ''tap0''" "iface ''tap1''"
  by (simp_all add: is_digit_def)

definition pub_bridge_ok :: "vm_spec \<Rightarrow> 'db world \<Rightarrow> bool" where
  "pub_bridge_ok spec w \<longleftrightarrow> vs_public_ip spec = None \<or>
     (case fst (pubip w) of Inl _ \<Rightarrow> False | Inr cfg \<Rightarrow> iface (pc_bridge cfg))"

definition pub_bridge_of :: "'db world \<Rightarrow> string" where
  "pub_bridge_of w = (case fst (pubip w) of Inl _ \<Rightarrow> [] | Inr cfg \<Rightarrow> pc_bridge cfg)"

lemma wire_public_fake:
  assumes w: "on_fake w" and p: "pub_bridge_ok spec w" "vs_public_ip spec \<noteq> None"
  shows "wire_public spec (ns_name (vs_vm_id spec)) w =
    (Inr (), set_fake (stack_up (ns_name (vs_vm_id spec)) (fst (pub_veth_names (vs_vm_id spec)))
       (snd (pub_veth_names (vs_vm_id spec))) (pub_bridge_of w) ''pbr1'' ''tap1'') w)"
proof -
  from p obtain cfg where "fst (pubip w) = Inr cfg" and i: "iface (pc_bridge cfg)"
    by (auto simp: pub_bridge_ok_def split: sum.splits)
  then have "pubip w = (Inr cfg, w)" "pub_bridge_of w = pc_bridge cfg"
    using reads_only [OF keeps_pubip, of w] by (auto simp: pub_bridge_of_def prod_eq_iff)
  moreover have "distinct [fst (pub_veth_names (vs_vm_id spec)), snd (pub_veth_names (vs_vm_id spec)), ''pbr1'', ''tap1'']"
    using vpc_names by simp
  ultimately show ?thesis
    using stack_fake [OF w, of _ _ "''pbr1''" "''tap1''" "ns_name (vs_vm_id spec)" "pc_bridge cfg"] i
    by (simp add: wire_public_def bnd_run case_prod_beta Let_def is_digit_def)
qed

lemma wire_vpc_fake:
  assumes w: "on_fake w"
  shows "andThen (wire_veth spec (ns_name i) (fst (veth_names i)) (snd (veth_names i)))
      (wire_tap (ns_name i) (snd (veth_names i))) w
    = (Inr (), set_fake (stack_up (ns_name i) (fst (veth_names i)) (snd (veth_names i))
         (bridge_name (vs_node_id spec) (vs_vpc_id spec)) ''nbr0'' ''tap0'') w)"
proof -
  have "distinct [fst (veth_names i), snd (veth_names i), ''nbr0'', ''tap0'']" using vpc_names by simp
  from stack_fake [OF w this, of "ns_name i" "bridge_name (vs_node_id spec) (vs_vpc_id spec)"]
  show ?thesis
    by (simp add: wire_veth_def wire_tap_def ns_bridge_NAME_def andThen_assoc [symmetric] is_digit_def)
qed

lemma iface_gateway:
  assumes "gateway_cidr c = Inr gw"
  shows "iface gw"
proof -
  have "iface (ip_str i)" for i by (simp add: ip_str_def octets_def)
  then show ?thesis
    using assms by (auto simp: gateway_cidr_def gateway_def split: sum.splits if_splits list.splits)
qed

lemma pubip_fake [simp]: "fst (pubip (set_fake g w)) = fst (pubip w)"
  by (simp add: set_fake_def)

lemma w_fake_set: "w_fake (set_fake f w) = f (w_fake w)"
  by simp

text \<open>What a VM's network needs of its VPC: the bridge, the tunnel and the rules.\<close>

definition vpc_net :: "vm_spec \<Rightarrow> string \<Rightarrow> string \<Rightarrow> ('db, unit) node_prog" where
  "vpc_net spec gw mac =
     (let br = bridge_name (vs_node_id spec) (vs_vpc_id spec) in
      andThen (bridge_ensure br gw (Some mac)) (andThen (overlay_up spec br) (nat_ensure (vs_cidr spec))))"

lemma vpc_net_fake:
  assumes w: "on_fake w" and ipt: "ipt_ready (w_fake w)" and ov: "overlay_ready spec (w_fake w)"
    and i: "iface gw" "iface mac"
  defines "br \<equiv> bridge_name (vs_node_id spec) (vs_vpc_id spec)" and "s \<equiv> w_fake w"
  shows "\<exists>g. vpc_net spec gw mac w = (Inr (), set_fake g w) \<and>
    f_netns (g s) = f_netns s \<and> f_rest (g s) = f_rest s \<and> net_kept spec s (g s) \<and>
    (br \<in> f_bridges (g s) \<or> f_links (g s) br \<noteq> None) \<and>
    (\<forall>n. n \<noteq> br \<longrightarrow> n \<noteq> vxlan_name (vs_node_id spec) (vs_vpc_id spec) \<longrightarrow> f_links (g s) n = f_links s n)"
proof -
  let ?vx = "vxlan_name (vs_node_id spec) (vs_vpc_id spec)"
  let ?s1 = "bridge_up br gw mac s" and ?w1 = "set_fake (bridge_up br gw mac) w"
  have ov1: "overlay_ready spec (w_fake ?w1)"
    using ov by (simp add: overlay_ready_def fdb_wf_def fdb_of_def bridge_up_def)
  have w1: "on_fake ?w1" "w_fake ?w1 = ?s1" using w by (simp_all add: s_def)
  have ib: "iface br" by (simp add: br_def)
  obtain g2 where g2: "overlay_up spec br ?w1 = (Inr (), set_fake g2 ?w1) \<and>
      (\<forall>n. n \<noteq> ?vx \<longrightarrow> f_links (g2 ?s1) n = f_links ?s1 n) \<and>
      f_netns (g2 ?s1) = f_netns ?s1 \<and> f_rest (g2 ?s1) = f_rest ?s1 \<and> f_ipt (g2 ?s1) = f_ipt ?s1 \<and>
      net_kept spec ?s1 (g2 ?s1)"
    by (rule exE [OF overlay_up_fake [OF w1(1) ov1 ib, unfolded w1(2)]])
  note o2 = g2 [THEN conjunct1] and l2 = g2 [THEN conjunct2, THEN conjunct1, rule_format]
    and r2 = g2 [THEN conjunct2, THEN conjunct2]
  let ?nat = "\<lambda>s. fold (ensure_in ipt_has ipt_add) (nat_items (vs_cidr spec)) (forwarding_on s)"
  have w2: "on_fake (set_fake g2 ?w1)" "ipt_ready (w_fake (set_fake g2 ?w1))"
    using w1 ipt r2 by (simp_all add: ipt_ready_def bridge_up_facts s_def)
  let ?g = "\<lambda>s. ?nat (g2 (bridge_up br gw mac s))"
  have run: "vpc_net spec gw mac w = (Inr (), set_fake ?g w)"
    unfolding vpc_net_def Let_def br_def [symmetric] andThen_run bridge_ensure_fake [OF w ib i] o2
      nat_ensure_fake [OF w2] prod.case sum.case
    by (simp only: set_fake_comp)
  have nat: "f_netns (?nat u) = f_netns u" "f_rest (?nat u) = f_rest u" "f_links (?nat u) = f_links u" "f_fdb (?nat u) = f_fdb u" for u
    by (rule trans [OF nat_view]; simp)+
  have "net_kept spec u (?nat u)" for u
    using nat(4) [of u] by (simp add: net_kept_def fdb_wf_def fdb_of_def ipt_ready_fold ipt_ready_forwarding)
  moreover have "net_kept spec s ?s1" by (rule net_kept_same) (simp_all add: bridge_up_facts)
  ultimately have "net_kept spec s (?g s)" using r2 by (blast intro: net_kept_trans)
  moreover have "f_links (?g s) br = f_links ?s1 br"
    using l2 [of br] vpc_names by (simp add: nat br_def)
  then have "br \<in> f_bridges (?g s) \<or> f_links (?g s) br \<noteq> None"
    using bridge_up_facts(2) [of br s gw mac] nat(2) [of "g2 ?s1"] r2 bridge_up_facts(4) [of br gw mac s] by (auto simp: f_rest_def)
  moreover have "f_links (?g s) n = f_links s n" if "n \<noteq> br" "n \<noteq> ?vx" for n
    using that l2 [of n] by (simp add: nat bridge_up_facts)
  ultimately show ?thesis
    using run r2 by (intro exI [of _ ?g]) (simp add: nat bridge_up_facts)
qed

text \<open>And what it adds for the VM itself: the stack of its VPC address, and that of its public one.\<close>

definition vm_stacks :: "vm_spec \<Rightarrow> string \<Rightarrow> fstate \<Rightarrow> fstate" where
  "vm_stacks spec pub s =
     (let ns = ns_name (vs_vm_id spec); (h, n) = veth_names (vs_vm_id spec); (ph, pn) = pub_veth_names (vs_vm_id spec);
          s1 = stack_up ns h n (bridge_name (vs_node_id spec) (vs_vpc_id spec)) ''nbr0'' ''tap0'' (netns_add ns s)
      in if vs_public_ip spec = None then s1 else stack_up ns ph pn pub ''pbr1'' ''tap1'' s1)"

lemma vm_stacks_views:
  "f_netns (vm_stacks spec pub s) = insert (Some (ns_name (vs_vm_id spec))) (f_netns s)"
  "f_rest (vm_stacks spec pub s) = f_rest s" "f_ipt (vm_stacks spec pub s) = f_ipt s" "f_fdb (vm_stacks spec pub s) = f_fdb s"
  "n \<notin> vm_links spec \<Longrightarrow> f_links (vm_stacks spec pub s) n = f_links s n"
  by (simp_all add: vm_stacks_def vm_links_def case_prod_beta Let_def stack_up_frame)

lemma vm_stacks_wired:
  fixes spec :: vm_spec
  defines "br \<equiv> bridge_name (vs_node_id spec) (vs_vpc_id spec)"
  assumes "br \<in> f_bridges s \<or> f_links s br \<noteq> None"
  shows "vpc_wired spec (vm_stacks spec pub s)" "vs_public_ip spec \<noteq> None \<Longrightarrow> pub_wired spec pub (vm_stacks spec pub s)"
proof -
  let ?i = "vs_vm_id spec"
  let ?s1 = "stack_up (ns_name ?i) (fst (veth_names ?i)) (snd (veth_names ?i)) br ''nbr0'' ''tap0'' (netns_add (ns_name ?i) s)"
  have d: "distinct [fst (veth_names ?i), snd (veth_names ?i), ''nbr0'', ''tap0'']"
    "distinct [fst (pub_veth_names ?i), snd (pub_veth_names ?i), ''pbr1'', ''tap1'']"
    using vpc_names [of ?i] by simp_all
  have eq: "vm_stacks spec pub s = (if vs_public_ip spec = None then ?s1
      else stack_up (ns_name ?i) (fst (pub_veth_names ?i)) (snd (pub_veth_names ?i)) pub ''pbr1'' ''tap1'' ?s1)"
    by (simp add: vm_stacks_def case_prod_beta Let_def br_def)
  have "f_links (vm_stacks spec pub s) n = f_links ?s1 n"
    if "n \<in> {fst (veth_names ?i), snd (veth_names ?i), ''nbr0'', ''tap0'', br}" for n
    using names_outside(2) [OF that [unfolded br_def]] by (simp add: eq stack_up_frame)
  moreover have "f_bridges (vm_stacks spec pub s) = f_bridges s" "f_links ?s1 br = f_links s br"
    using vm_stacks_views(2) [of spec pub s] names_outside(1) [of "vs_node_id spec" "vs_vpc_id spec" ?i]
    by (simp_all add: f_rest_def stack_up_frame br_def)
  ultimately show "vpc_wired spec (vm_stacks spec pub s)"
    using assms(2) stack_up_wired [OF d(1), of "ns_name ?i" br] vm_stacks_views(1) [of spec pub s]
    by (simp add: vpc_wired_def Let_def stack_wired_def flip: br_def)
  show "vs_public_ip spec \<noteq> None \<Longrightarrow> pub_wired spec pub (vm_stacks spec pub s)"
    using stack_up_wired [OF d(2)] by (auto simp: pub_wired_def eq)
qed

lemma vm_network_fake:
  assumes w: "on_fake w" and ipt: "ipt_ready (w_fake w)" and ov: "overlay_ready spec (w_fake w)"
    and gw: "gateway_cidr (vs_cidr spec) = Inr gw" and pub: "pub_bridge_ok spec w"
  shows "\<exists>g. vm_network spec w = (Inr (), set_fake g w) \<and> vpc_wired spec (g (w_fake w)) \<and>
    (vs_public_ip spec \<noteq> None \<longrightarrow> pub_wired spec (pub_bridge_of w) (g (w_fake w))) \<and>
    f_rest (g (w_fake w)) = f_rest (w_fake w) \<and>
    (\<forall>n. n \<notin> vm_links spec \<longrightarrow> f_links (g (w_fake w)) n = f_links (w_fake w) n) \<and>
    f_netns (g (w_fake w)) = insert (Some (ns_name (vs_vm_id spec))) (f_netns (w_fake w)) \<and>
    net_kept spec (w_fake w) (g (w_fake w))"
proof -
  let ?i = "vs_vm_id spec" and ?s = "w_fake w" and ?br = "bridge_name (vs_node_id spec) (vs_vpc_id spec)"
  let ?vx = "vxlan_name (vs_node_id spec) (vs_vpc_id spec)"
  define mac where "mac = anycast_mac (w_sha w) (vs_vpc_id spec)"
  have "iface mac" by (simp add: mac_def anycast_mac_def is_digit_def)
  from vpc_net_fake [OF w ipt ov iface_gateway [OF gw] this] obtain g where
    g: "vpc_net spec gw mac w = (Inr (), set_fake g w) \<and> f_netns (g ?s) = f_netns ?s \<and> f_rest (g ?s) = f_rest ?s \<and>
      net_kept spec ?s (g ?s) \<and> (?br \<in> f_bridges (g ?s) \<or> f_links (g ?s) ?br \<noteq> None) \<and>
      (\<forall>n. n \<noteq> ?br \<longrightarrow> n \<noteq> ?vx \<longrightarrow> f_links (g ?s) n = f_links ?s n)"
    by (rule exE)
  let ?h = "\<lambda>s. vm_stacks spec (pub_bridge_of w) (g s)"
  let ?w4 = "set_fake (netns_add (ns_name ?i)) (set_fake g w)"
  let ?w5 = "set_fake (stack_up (ns_name ?i) (fst (veth_names ?i)) (snd (veth_names ?i)) ?br ''nbr0'' ''tap0'') ?w4"
  have w4: "on_fake (set_fake g w)" "on_fake ?w4" using w by simp_all
  have w5: "on_fake ?w5" "pub_bridge_ok spec ?w5" "pub_bridge_of ?w5 = pub_bridge_of w"
    using w pub by (simp_all add: pub_bridge_ok_def pub_bridge_of_def pubip_fake)
  have p6: "(case vs_public_ip spec of Some _ \<Rightarrow> wire_public spec (ns_name ?i) | None \<Rightarrow> ret ()) ?w5
      = (Inr (), set_fake ?h w)"
    using wire_public_fake [OF w5(1,2)] w5(3)
    by (cases "vs_public_ip spec") (simp_all add: vm_stacks_def case_prod_beta Let_def)
  have "vm_network spec w = andThen (vpc_net spec gw mac) (andThen (netns_create (ns_name ?i))
      (andThen (andThen (wire_veth spec (ns_name ?i) (fst (veth_names ?i)) (snd (veth_names ?i)))
                        (wire_tap (ns_name ?i) (snd (veth_names ?i))))
        (case vs_public_ip spec of Some _ \<Rightarrow> wire_public spec (ns_name ?i) | None \<Rightarrow> ret ()))) w"
    by (simp only: vm_network_def vpc_net_def Let_def bnd_run [of "of_sum _"] bnd_run [of "gets _"] gw of_sum_run gets_run
        case_prod_beta fst_conv snd_conv sum.case andThen_assoc mac_def)
  also have "\<dots> = (Inr (), set_fake ?h w)"
    unfolding andThen_run [of "vpc_net spec gw mac"] andThen_run [of "priv _"] andThen_run [of "andThen _ _"]
      g [THEN conjunct1] netns_create_def priv_set_fake [OF w4(1) fake_netns_add] wire_vpc_fake [OF w4(2)] prod.case sum.case p6 ..
  finally have run: "vm_network spec w = (Inr (), set_fake ?h w)" .
  have "net_kept spec (g ?s) (?h ?s)" by (rule net_kept_same) (simp_all add: vm_stacks_views)
  then have "net_kept spec ?s (?h ?s)" using g net_kept_trans by blast
  moreover have "f_links (?h ?s) n = f_links ?s n" if "n \<notin> vm_links spec" for n
    using that g vm_stacks_views(5) [of n spec] by (simp add: vm_links_def)
  ultimately show ?thesis
    using run g vm_stacks_wired [of spec "g ?s" "pub_bridge_of w"]
    by (intro exI [of _ ?h] conjI) (simp_all add: vm_stacks_views)
qed

end
