(* ===== verification/VmLife.thy ===== *)
theory VmLife
  imports LifecycleFake
begin

text \<open>
  The whole life of one VM on the simulator: \<open>vm_up\<close> from a directory that does not exist yet
  to a running process, \<open>vm_stop\<close>, \<open>vm_start\<close> and \<open>vm_down\<close>.
\<close>

section \<open>Set-up\<close>

definition vm_fresh :: "path \<Rightarrow> 'db world \<Rightarrow> bool" where
  "vm_fresh root w \<longleftrightarrow> dirs_ok root w \<and> (\<forall>q. prefix root q \<longrightarrow> fs_at q w = None)"

definition clone_lv :: "string \<Rightarrow> string \<Rightarrow> string \<Rightarrow> fstate \<Rightarrow> fstate" where
  "clone_lv vg origin name s =
     (let s' = lv_drop (vg, name) s in lv_put (vg, name) (thin_of (lv_map s' (vg, origin)) origin False) s')"

lemma lv_map_clone: "lv_map (clone_lv vg origin name s) = (lv_map s)
    ((vg, name) \<mapsto> thin_of (if origin = name then None else lv_map s (vg, origin)) origin False)"
  by (simp add: clone_lv_def Let_def)

lemma rootfs_name_ok: "noslash vm_id \<Longrightarrow> lv_name_ok (rootfs_name vm_id) \<and> noslash (rootfs_name vm_id)"
  by (auto simp: lv_name_ok_def noslash_def rootfs_name_def ROOTFS_def)

lemma env_setup_fake:
  assumes w: "on_fake w" and fr: "vm_fresh (for_vm vms i) w"
    and n: "noslash vg" "noslash origin" "noslash i"
  defines "root \<equiv> for_vm vms i"
  shows "\<exists>f v. env_setup vms i as vg origin w = (Inr root, v) \<and>
    v = w\<lparr>w_fs := f, w_fake := clone_lv vg origin (rootfs_name i) (w_fake w)\<rparr> \<and>
    fs_at root v = Some Dir \<and>
    fs_at (vp_rootfs root) v = Some (Link (device_path vg (rootfs_name i))) \<and>
    (\<forall>q. strict_prefix root q \<and> q \<notin> {vp_rootfs root, vp_kernel root, vp_ssh_key root} \<longrightarrow> fs_at q v = None) \<and>
    (\<forall>q. q \<noteq> [] \<and> prefix q root \<longrightarrow> fs_at q v = Some Dir) \<and>
    (\<forall>q. \<not> prefix root q \<and> \<not> prefix q root \<longrightarrow> fs_at q v = fs_at q w)"
proof -
  have ne: "root \<noteq> []" by (simp add: root_def for_vm_def)
  obtain f where f: "mkdir_p root w = (Inr (), w\<lparr>w_fs := f\<rparr>)"
    "\<And>q. map_of f q = (if q \<noteq> [] \<and> prefix q root then Some Dir else map_of (w_fs w) q)"
    using mkdir_p_ok [of root w] fr unfolding vm_fresh_def root_def by blast
  let ?w1 = "w\<lparr>w_fs := f\<rparr>"
  have at1: "fs_at q ?w1 = (if q \<noteq> [] \<and> prefix q root then Some Dir else fs_at q w)" for q
    using f(2) by (simp add: fs_at_def)
  let ?w2 = "set_fake (clone_lv vg origin (rootfs_name i)) ?w1"
  have below: "fs_at q ?w1 = None" if "strict_prefix root q" for q
  proof -
    have "\<not> prefix q root" "prefix root q" using that by (auto simp: strict_prefix_def dest: prefix_order.antisym)
    then show ?thesis using at1 fr by (simp add: vm_fresh_def root_def)
  qed
  have dir: "is_dir root ?w1" "fs_at root ?w1 = Some Dir" using at1 ne by (simp_all add: is_dir_def)
  let ?l = "\<lambda>p t w. fs_put p (Link t) w"
  have names: "strict_prefix root (root @ [x])" "root \<noteq> root @ [x]" for x by (simp_all add: strict_prefix_def)
  have rem: "lv_remove vg (rootfs_name i) ?w1 = (Inr (), set_fake (lv_drop (vg, rootfs_name i)) ?w1)"
    using lv_remove_fake [of ?w1 vg "rootfs_name i"] w n rootfs_name_ok [OF n(3)] by simp
  have clone: "lv_clone vg origin (rootfs_name i) (set_fake (lv_drop (vg, rootfs_name i)) ?w1)
      = (Inr (device_path vg (rootfs_name i)), ?w2)"
    using lv_clone_fake [of "set_fake (lv_drop (vg, rootfs_name i)) ?w1" vg origin "rootfs_name i"] w n
      rootfs_name_ok [OF n(3)] by (simp add: set_fake_def clone_lv_def Let_def)
  have link: "symlink (root @ [x]) t u = (Inr (), ?l (root @ [x]) t u)"
    if "is_dir root u" "fs_at (root @ [x]) u = None" for x t and u :: "'a world"
    using that by (simp add: symlink_new)
  obtain k s where run: "env_setup vms i as vg origin w
      = (Inr root, ?l (vp_ssh_key root) s (?l (vp_kernel root) k (?l (vp_rootfs root) (device_path vg (rootfs_name i)) ?w2)))"
    using rem clone f(1) unfolding env_setup_def root_def [symmetric] vp_defs(2-4) Let_def
    by (simp add: andThen_run bnd_run link dir below names)
  let ?v = "?l (vp_ssh_key root) s (?l (vp_kernel root) k (?l (vp_rootfs root) (device_path vg (rootfs_name i)) ?w2))"
  have at: "fs_at q ?v = (if q = vp_ssh_key root then Some (Link s) else if q = vp_kernel root then Some (Link k)
      else if q = vp_rootfs root then Some (Link (device_path vg (rootfs_name i))) else fs_at q ?w1)" for q
    by simp
  have "?v = w\<lparr>w_fs := w_fs ?v, w_fake := clone_lv vg origin (rootfs_name i) (w_fake w)\<rparr>"
    by (simp add: fs_put_def set_fake_def)
  moreover have "fs_at root ?v = Some Dir" "fs_at (vp_rootfs root) ?v = Some (Link (device_path vg (rootfs_name i)))"
    unfolding at using dir(2) names(2) by (simp_all add: vp_defs(2-4))
  moreover have "\<forall>q. strict_prefix root q \<and> q \<notin> {vp_rootfs root, vp_kernel root, vp_ssh_key root} \<longrightarrow> fs_at q ?v = None"
    unfolding at using below by simp
  moreover have "\<forall>q. q \<noteq> [] \<and> prefix q root \<longrightarrow> fs_at q ?v = Some Dir"
    unfolding at using at1 by (auto simp: vp_defs(2-4))
  moreover have "\<forall>q. \<not> prefix root q \<and> \<not> prefix q root \<longrightarrow> fs_at q ?v = fs_at q w"
    unfolding at using at1 by (auto simp: vp_defs(2-4))
  ultimately show ?thesis using run by (intro exI [of _ "w_fs ?v"] exI [of _ ?v] conjI)
qed

section \<open>The process\<close>

lemma fake_firecracker:
  "fake_run [''firecracker'', ''--api-sock'', sock, ''--id'', i] s
     = (Inr (Text []), sock_set sock (Some (dir_of sock, True)) s)"
  by (simp add: fake_run_head handlers_def firecracker_cmd_def bnd_run arg_def sock_set_def)

lemma sock_set_twice [simp]: "sock_set p a (sock_set p b s) = sock_set p a s"
  by (simp add: sock_set_def)

definition started :: "path \<Rightarrow> 'db world \<Rightarrow> 'db world" where
  "started root w = fs_put (vp_pid_file root) (File ''0'')
     (set_fake (sock_set (path_str (vp_api_sock root)) (Some (path_str root, True))) w)"

lemma start_fake:
  assumes "on_fake w" "is_dir root w" "fs_at (vp_pid_file root) w \<noteq> Some Dir"
  shows "bnd (create_run root i ns bin) (\<lambda>_. boot_run root) w = (Inr (), started root w)"
proof -
  let ?w1 = "set_fake (sock_set (path_str (vp_api_sock root)) (Some (dir_of (path_str (vp_api_sock root)), True))) w"
  have "priv [''firecracker'', ''--api-sock'', path_str (vp_api_sock root), ''--id'', i] w = (Inr (), ?w1)"
    by (rule priv_set_fake [OF assms(1) fake_firecracker])
  moreover have "write_text (vp_pid_file root) ''0'' ?w1 = (Inr (), fs_put (vp_pid_file root) (File ''0'') ?w1)"
    using assms by (intro write_text_ok) (simp_all add: vp_pid_file_def)
  moreover have "boot_run root (fs_put (vp_pid_file root) (File ''0'') ?w1) = (Inr (), started root w)"
    using assms(1) by (simp add: boot_run_fake started_def) (simp add: set_fake_def fs_put_def)
  ultimately show ?thesis
    using assms(1) by (simp add: bnd_run create_run_def create_fake_def andThen_run on_fake_def)
qed

lemma started_sel [simp]:
  "on_fake (started root w) = on_fake w"
  "w_fake (started root w) = sock_set (path_str (vp_api_sock root)) (Some (path_str root, True)) (w_fake w)"
  "fs_at q (started root w) = (if q = vp_pid_file root then Some (File ''0'') else fs_at q w)"
  by (simp_all add: started_def)

lemma status_fake_iff:
  "on_fake w \<Longrightarrow> status_run root w =
     (Inr (if \<exists>d. f_socks (w_fake w) (path_str (vp_api_sock root)) = Some (d, True) then ''running'' else ''stopped''), w)"
  by (auto simp: status_run_fake fake_status_def split: option.splits bool.splits)

lemma started_running: "on_fake w \<Longrightarrow> fst (status_run root (started root w)) = Inr ''running''"
  by (simp add: status_fake_iff sock_set_def)

lemma payload_ok:
  assumes "gateway_cidr (vc_cidr cfg) = Inr gw"
  shows "\<exists>p. payload root cfg = Inr p"
  using assms
  by (auto simp: payload_def boot_args_def gateway_cidr_def gateway_def netmask_def split: sum.splits if_splits)

section \<open>Up\<close>

definition vm_ready :: "vm_spec \<Rightarrow> 'db world \<Rightarrow> bool" where
  "vm_ready spec w \<longleftrightarrow>
     (let root = for_vm (vs_vms_dir spec) (vs_vm_id spec) in
      on_fake w \<and> vm_fresh root w \<and> tmp_new w \<and> \<not> prefix (w_tmp w) root \<and> \<not> prefix root (w_tmp w) \<and>
      noslash (vs_vg spec) \<and> noslash (vs_rootfs_origin spec) \<and> noslash (vs_vm_id spec) \<and>
      ipt_ready (w_fake w) \<and> overlay_ready spec (w_fake w) \<and> pub_bridge_ok spec w \<and>
      (case gateway_cidr (vs_cidr spec) of Inr _ \<Rightarrow> True | Inl _ \<Rightarrow> False))"

text \<open>What a VM is after \<open>vm_up\<close>: running, on a thin clone of its origin, with its data volume,
  its configuration and its links, and nothing else of the node touched.\<close>

definition vm_is_up :: "vm_spec \<Rightarrow> 'db world \<Rightarrow> 'db world \<Rightarrow> bool" where
  "vm_is_up spec w v \<longleftrightarrow>
     (let root = for_vm (vs_vms_dir spec) (vs_vm_id spec); name = rootfs_name (vs_vm_id spec);
          origin = vs_rootfs_origin spec in
      fst (status_run root v) = Inr ''running'' \<and>
      fs_at root v = Some Dir \<and> fs_at (vp_pid_file root) v = Some (File ''0'') \<and> on_fake v \<and>
      fs_at (vp_rootfs root) v = Some (Link (device_path (vs_vg spec) name)) \<and>
      fs_at (vp_data root) v = map_option Link (vs_data_volume_path spec) \<and>
      (\<exists>p. payload root (config_of_spec spec) = Inr p \<and> fs_at (vp_config root) v = Some (File (dumps 0 p))) \<and>
      lv_map (w_fake v) = (lv_map (w_fake w)) ((vs_vg spec, name) \<mapsto>
        thin_of (if origin = name then None else lv_map (w_fake w) (vs_vg spec, origin)) origin False) \<and>
      vpc_wired spec (w_fake v) \<and>
      (vs_public_ip spec \<noteq> None \<longrightarrow> pub_wired spec (pub_bridge_of w) (w_fake v)))"

definition vm_around :: "vm_spec \<Rightarrow> 'db world \<Rightarrow> 'db world \<Rightarrow> bool" where
  "vm_around spec w v \<longleftrightarrow>
     (let root = for_vm (vs_vms_dir spec) (vs_vm_id spec) in
      net_kept spec (w_fake w) (w_fake v) \<and>
      (\<forall>q. q \<noteq> [] \<and> prefix q root \<longrightarrow> fs_at q v = Some Dir) \<and>
      (\<forall>q. \<not> prefix root q \<and> \<not> prefix q root \<longrightarrow> fs_at q v = fs_at q w) \<and>
      (\<forall>n. n \<notin> vm_links spec \<longrightarrow> f_links (w_fake v) n = f_links (w_fake w) n) \<and>
      (\<forall>p. p \<noteq> path_str (vp_api_sock root) \<longrightarrow> f_socks (w_fake v) p = f_socks (w_fake w) p) \<and>
      f_netns (w_fake v) = insert (Some (ns_name (vs_vm_id spec))) (f_netns (w_fake w)))"

definition vm_frame :: "vm_spec \<Rightarrow> 'db world \<Rightarrow> 'db world \<Rightarrow> bool" where
  "vm_frame spec w v \<longleftrightarrow> (\<exists>f s. v = w\<lparr>w_fs := f, w_fake := s\<rparr>) \<and> vm_around spec w v"

lemma network_clone:
  "ipt_ready (clone_lv vg og nm s\<lparr>f_debugfs := d\<rparr>) = ipt_ready s"
  "overlay_ready spec (clone_lv vg og nm s\<lparr>f_debugfs := d\<rparr>) = overlay_ready spec s"
  "f_links (clone_lv vg og nm s\<lparr>f_debugfs := d\<rparr>) = f_links s"
  "f_netns (clone_lv vg og nm s\<lparr>f_debugfs := d\<rparr>) = f_netns s"
  "f_socks (clone_lv vg og nm s\<lparr>f_debugfs := d\<rparr>) = f_socks s"
  "lv_map (clone_lv vg og nm s\<lparr>f_debugfs := d\<rparr>) = lv_map (clone_lv vg og nm s)"
  "net_kept spec s (clone_lv vg og nm s\<lparr>f_debugfs := d\<rparr>)"
  by (simp_all add: net_kept_def ipt_ready_def overlay_ready_def fdb_wf_def fdb_of_def clone_lv_def Let_def
        lv_put_def lv_drop_def lv_map_def)

lemma attach_new:
  "is_dir d w \<Longrightarrow> fs_at (vp_data d) w = None \<Longrightarrow>
   attach_run d p w = (Inr (vp_data d), fs_put (vp_data d) (Link p) w)"
  by (simp add: attach_run_def Let_def bnd_run andThen_run present_def symlink_to_ok vp_data_def)

lemma wired_sock [simp]:
  "vpc_wired spec (sock_set p e s) = vpc_wired spec s" "pub_wired spec br (sock_set p e s) = pub_wired spec br s"
  "lv_map (sock_set p e s) = lv_map s" "f_netns (sock_set p e s) = f_netns s"
  by (simp_all add: vpc_wired_def pub_wired_def stack_wired_def sock_set_def lv_map_def)

lemma attach_fake:
  assumes "is_dir d w" "fs_at (vp_data d) w = None"
  shows "\<exists>f. (case vol of Some p \<Rightarrow> andThen (attach_run d p) (ret ()) | None \<Rightarrow> ret ()) w = (Inr (), w\<lparr>w_fs := f\<rparr>) \<and>
    (\<forall>q. map_of f q = (if q = vp_data d then map_option Link vol else map_of (w_fs w) q))"
proof (cases vol)
  case None
  then show ?thesis using assms(2) by (intro exI [of _ "w_fs w"]) (simp add: fs_at_def)
next
  case (Some p)
  with attach_new [OF assms, of p] show ?thesis
    by (intro exI [of _ "w_fs (fs_put (vp_data d) (Link p) w)"]) (simp add: andThen_run fs_put_def update_conv')
qed

text \<open>The first half of \<open>vm_up\<close>: the VM's disk and directory.\<close>

lemma vm_disk_fake:
  fixes spec :: vm_spec
  defines "root \<equiv> for_vm (vs_vms_dir spec) (vs_vm_id spec)" and "name \<equiv> rootfs_name (vs_vm_id spec)"
  assumes ready: "vm_ready spec w"
  shows "\<exists>v f d. v = w\<lparr>w_fs := f, w_fake := clone_lv (vs_vg spec) (vs_rootfs_origin spec) name (w_fake w)\<lparr>f_debugfs := d\<rparr>\<rparr> \<and>
    vm_up spec w = andThen (vm_network spec) (andThen (vm_spawn root spec) (ret root)) v \<and>
    fs_at (vp_rootfs root) v = Some (Link (device_path (vs_vg spec) name)) \<and>
    fs_at (vp_data root) v = map_option Link (vs_data_volume_path spec) \<and>
    fs_at (vp_config root) v = None \<and> fs_at (vp_pid_file root) v = None \<and>
    (\<forall>q. q \<noteq> [] \<and> prefix q root \<longrightarrow> fs_at q v = Some Dir) \<and>
    (\<forall>q. \<not> prefix root q \<and> \<not> prefix q root \<longrightarrow> fs_at q v = fs_at q w)"
proof -
  have w: "on_fake w" and fr: "vm_fresh root w" and tn: "tmp_new w"
    and tr: "\<not> prefix (w_tmp w) root" "\<not> prefix root (w_tmp w)"
    and n: "noslash (vs_vg spec)" "noslash (vs_rootfs_origin spec)" "noslash (vs_vm_id spec)"
    using ready by (simp_all add: vm_ready_def Let_def root_def)
  have tr': "\<not> prefix root q \<and> \<not> prefix q root" if "prefix (w_tmp w) q" for q
    using tr that by (metis prefix_order.trans prefix_same_cases)
  obtain f1 v1 where 1: "env_setup (vs_vms_dir spec) (vs_vm_id spec) (vs_assets spec) (vs_vg spec)
      (vs_rootfs_origin spec) w = (Inr root, v1)"
    "v1 = w\<lparr>w_fs := f1, w_fake := clone_lv (vs_vg spec) (vs_rootfs_origin spec) name (w_fake w)\<rparr>"
    "fs_at (vp_rootfs root) v1 = Some (Link (device_path (vs_vg spec) name))"
    "\<And>q. strict_prefix root q \<and> q \<notin> {vp_rootfs root, vp_kernel root, vp_ssh_key root} \<Longrightarrow> fs_at q v1 = None"
    "\<And>q. q \<noteq> [] \<and> prefix q root \<Longrightarrow> fs_at q v1 = Some Dir"
    "\<And>q. \<not> prefix root q \<and> \<not> prefix q root \<Longrightarrow> fs_at q v1 = fs_at q w"
    using env_setup_fake [OF w fr [unfolded root_def] n, of "vs_assets spec"] unfolding root_def name_def by blast
  have v1: "on_fake v1" "tmp_new v1" "w_tmp v1 = w_tmp w"
    using w tn tr' 1(6) by (auto simp: 1(2) tmp_new_def)
  obtain f2 cmd where 2: "inject_run root (vs_ssh_pubkey spec) (vs_dns spec) (vs_data_volume_path spec \<noteq> None)
      (vs_public_ip spec) v1 = (Inr (), v1\<lparr>w_fs := f2, w_fake := w_fake v1\<lparr>f_debugfs := f_debugfs (w_fake v1) @ [cmd]\<rparr>\<rparr>)"
    "\<And>q. map_of f2 q = map_of (w_fs v1) q"
    using inject_run_fake [OF v1(1,2), of root] by blast
  let ?d = "f_debugfs (w_fake v1) @ [cmd]"
  let ?v2 = "v1\<lparr>w_fs := f2, w_fake := w_fake v1\<lparr>f_debugfs := ?d\<rparr>\<rparr>"
  have at2: "fs_at q ?v2 = fs_at q v1" for q using 2(2) by (simp add: fs_at_def)
  have below: "strict_prefix root (root @ [x])" "root \<noteq> root @ [x]" for x by (simp_all add: strict_prefix_def)
  have none: "fs_at (vp_data root) v1 = None" "fs_at (vp_config root) v1 = None" "fs_at (vp_pid_file root) v1 = None"
    by (intro 1(4); simp add: vp_defs(2-8) below)+
  have "is_dir root ?v2" "fs_at (vp_data root) ?v2 = None"
    using none(1) 1(5) [of root] at2 by (simp_all add: is_dir_def root_def for_vm_def)
  from attach_fake [OF this, of "vs_data_volume_path spec"] at2 obtain f3 where
    3: "(case vs_data_volume_path spec of
      Some p \<Rightarrow> andThen (attach_run root p) (ret ()) | None \<Rightarrow> ret ()) ?v2 = (Inr (), ?v2\<lparr>w_fs := f3\<rparr>)"
    "\<And>q. fs_at q (?v2\<lparr>w_fs := f3\<rparr>) = (if q = vp_data root then map_option Link (vs_data_volume_path spec) else fs_at q v1)"
    by (auto simp: fs_at_def)
  let ?v3 = "?v2\<lparr>w_fs := f3\<rparr>"
  have "vm_up spec w = andThen (vm_network spec) (andThen (vm_spawn root spec) (ret root)) ?v3"
    unfolding vm_up_def bnd_run [of "env_setup _ _ _ _ _"] 1(1) andThen_run [of "inject_run _ _ _ _ _"]
      andThen_run [of "case vs_data_volume_path spec of Some p \<Rightarrow> _ p | None \<Rightarrow> _"] prod.case sum.case 2(1) 3(1) ..
  moreover have "?v3 = w\<lparr>w_fs := f3, w_fake := clone_lv (vs_vg spec) (vs_rootfs_origin spec) name (w_fake w)\<lparr>f_debugfs := ?d\<rparr>\<rparr>"
    by (simp add: 1(2))
  moreover define v3 where "v3 = ?v3"
  moreover have "fs_at q v3 = (if q = vp_data root then map_option Link (vs_data_volume_path spec) else fs_at q v1)" for q
    unfolding v3_def by (rule 3(2))
  then have "fs_at (vp_rootfs root) v3 = Some (Link (device_path (vs_vg spec) name)) \<and>
    fs_at (vp_data root) v3 = map_option Link (vs_data_volume_path spec) \<and>
    fs_at (vp_config root) v3 = None \<and> fs_at (vp_pid_file root) v3 = None \<and>
    (\<forall>q. q \<noteq> [] \<and> prefix q root \<longrightarrow> fs_at q v3 = Some Dir) \<and>
    (\<forall>q. \<not> prefix root q \<and> \<not> prefix q root \<longrightarrow> fs_at q v3 = fs_at q w)"
    using 1(3,5,6) none(2,3) by (auto simp: vp_defs(2-8))
  ultimately show ?thesis by metis
qed

text \<open>The second half: the process.\<close>

lemma vm_spawn_fake:
  assumes "on_fake w" "is_dir root w" "fs_at (vp_config root) w = None" "fs_at (vp_pid_file root) w \<noteq> Some Dir"
    and "gateway_cidr (vs_cidr spec) = Inr gw"
  shows "\<exists>p. payload root (config_of_spec spec) = Inr p \<and>
    vm_spawn root spec w = (Inr (), started root (fs_put (vp_config root) (File (dumps 0 p)) w))"
proof -
  obtain p where p: "payload root (config_of_spec spec) = Inr p"
    using payload_ok [of "config_of_spec spec" gw root] assms(5) by (auto simp: config_of_spec_def)
  let ?w1 = "fs_put (vp_config root) (File (dumps 0 p)) w"
  have "write_text (vp_config root) (dumps 0 p) w = (Inr (), ?w1)"
    using assms(2,3) by (intro write_text_ok) (simp_all add: vp_config_def)
  then have cfg: "config_build root (config_of_spec spec) w = (Inr (vp_config root), ?w1)"
    by (simp add: config_build_def bnd_run andThen_run p)
  have "is_dir root ?w1" "fs_at (vp_pid_file root) ?w1 \<noteq> Some Dir"
    using assms(2,4) by (simp_all add: is_dir_def vp_config_def vp_pid_file_def)
  then have "vm_spawn root spec w = (Inr (), started root ?w1)"
    unfolding vm_spawn_def by (intro trans [OF bnd_ok [of _ _ "vp_config root" ?w1]] cfg start_fake)
      (use assms(1) in simp_all)
  with p show ?thesis by blast
qed

lemma vm_up_fake:
  assumes "vm_ready spec w"
  shows "\<exists>v. vm_up spec w = (Inr (for_vm (vs_vms_dir spec) (vs_vm_id spec)), v) \<and> vm_is_up spec w v \<and> vm_frame spec w v"
proof -
  define root where "root = for_vm (vs_vms_dir spec) (vs_vm_id spec)"
  let ?name = "rootfs_name (vs_vm_id spec)" and ?sock = "path_str (vp_api_sock root)"
  let ?s = "clone_lv (vs_vg spec) (vs_rootfs_origin spec) ?name (w_fake w)"
  have w: "on_fake w" and net: "ipt_ready (w_fake w)" "overlay_ready spec (w_fake w)" "pub_bridge_ok spec w"
    using assms by (simp_all add: vm_ready_def Let_def)
  obtain gw where gw: "gateway_cidr (vs_cidr spec) = Inr gw"
    using assms by (auto simp: vm_ready_def Let_def split: sum.splits)
  obtain v3 f d where 3: "v3 = w\<lparr>w_fs := f, w_fake := ?s\<lparr>f_debugfs := d\<rparr>\<rparr>"
    "vm_up spec w = andThen (vm_network spec) (andThen (vm_spawn root spec) (ret root)) v3"
    "fs_at (vp_rootfs root) v3 = Some (Link (device_path (vs_vg spec) ?name))"
    "fs_at (vp_data root) v3 = map_option Link (vs_data_volume_path spec)"
    "fs_at (vp_config root) v3 = None" "fs_at (vp_pid_file root) v3 = None"
    "\<And>q. q \<noteq> [] \<and> prefix q root \<Longrightarrow> fs_at q v3 = Some Dir"
    "\<And>q. \<not> prefix root q \<and> \<not> prefix q root \<Longrightarrow> fs_at q v3 = fs_at q w"
    using vm_disk_fake [OF assms] unfolding root_def by blast
  have v3: "on_fake v3" "ipt_ready (w_fake v3)" "overlay_ready spec (w_fake v3)" "pub_bridge_ok spec v3"
    "pub_bridge_of v3 = pub_bridge_of w"
    using w net by (simp_all add: 3(1) network_clone pub_bridge_ok_def pub_bridge_of_def)
  obtain g where g: "vm_network spec v3 = (Inr (), set_fake g v3) \<and> vpc_wired spec (g (w_fake v3)) \<and>
    (vs_public_ip spec \<noteq> None \<longrightarrow> pub_wired spec (pub_bridge_of v3) (g (w_fake v3))) \<and>
    f_rest (g (w_fake v3)) = f_rest (w_fake v3) \<and>
    (\<forall>n. n \<notin> vm_links spec \<longrightarrow> f_links (g (w_fake v3)) n = f_links (w_fake v3) n) \<and>
    f_netns (g (w_fake v3)) = insert (Some (ns_name (vs_vm_id spec))) (f_netns (w_fake v3)) \<and>
    net_kept spec (w_fake v3) (g (w_fake v3))"
    by (rule exE [OF vm_network_fake [OF v3(1-3) gw v3(4)]])
  have 4: "on_fake (set_fake g v3)" "is_dir root (set_fake g v3)" "fs_at (vp_config root) (set_fake g v3) = None"
    "fs_at (vp_pid_file root) (set_fake g v3) \<noteq> Some Dir"
    using v3(1) 3(5,6) 3(7) [of root] by (simp_all add: is_dir_def root_def for_vm_def)
  obtain p where p: "payload root (config_of_spec spec) = Inr p"
    "vm_spawn root spec (set_fake g v3) = (Inr (), started root (fs_put (vp_config root) (File (dumps 0 p)) (set_fake g v3)))"
    using vm_spawn_fake [OF 4 gw] by blast
  define v where "v = started root (fs_put (vp_config root) (File (dumps 0 p)) (set_fake g v3))"
  have run: "vm_up spec w = (Inr root, v)"
    unfolding 3(2) andThen_run g [THEN conjunct1] p(2) prod.case sum.case v_def by simp
  have at: "fs_at q v = (if q = vp_pid_file root then Some (File ''0'') else if q = vp_config root
      then Some (File (dumps 0 p)) else fs_at q v3)" for q
    by (simp add: v_def)
  have fake: "w_fake v = sock_set ?sock (Some (path_str root, True)) (g (w_fake v3))" by (simp add: v_def)
  have same: "f_lvs (g (w_fake v3)) = f_lvs (w_fake v3)" "f_socks (g (w_fake v3)) = f_socks (w_fake v3)"
    using g by (simp_all add: f_rest_def)
  have "vm_is_up spec w v"
    unfolding vm_is_up_def Let_def at fake wired_sock root_def [symmetric]
    using started_running [of "fs_put (vp_config root) (File (dumps 0 p)) (set_fake g v3)" root] v3(1,5) 3(3,4) 3(7) [of root] p(1) g same(1)
    by (simp add: vp_defs(2-8) lv_map_def 3(1) v_def root_def for_vm_def) (simp add: lv_map_clone flip: lv_map_def)
  moreover have "vm_frame spec w v"
    unfolding vm_frame_def vm_around_def Let_def root_def [symmetric]
  proof (intro conjI)
    have s3: "f_links (w_fake v3) = f_links (w_fake w)" "f_netns (w_fake v3) = f_netns (w_fake w)"
      "f_socks (w_fake v3) = f_socks (w_fake w)" by (simp_all add: 3(1) network_clone)
    have "v = w\<lparr>w_fs := w_fs v, w_fake := w_fake v\<rparr>" by (simp add: v_def started_def fs_put_def set_fake_def 3(1))
    then show "\<exists>f s. v = w\<lparr>w_fs := f, w_fake := s\<rparr>" by blast
    have "net_kept spec (w_fake w) (w_fake v3)" by (simp add: 3(1) network_clone)
    moreover have "net_kept spec (g (w_fake v3)) (w_fake v)" by (rule net_kept_same) (simp_all add: fake sock_set_def)
    ultimately show "net_kept spec (w_fake w) (w_fake v)" using g by (blast intro: net_kept_trans)
    show "\<forall>q. q \<noteq> [] \<and> prefix q root \<longrightarrow> fs_at q v = Some Dir" using 3(7) unfolding at by (auto simp: vp_defs(2-8))
    show "\<forall>q. \<not> prefix root q \<and> \<not> prefix q root \<longrightarrow> fs_at q v = fs_at q w"
      using 3(8) unfolding at by (auto simp: vp_defs(2-8))
    show "\<forall>n. n \<notin> vm_links spec \<longrightarrow> f_links (w_fake v) n = f_links (w_fake w) n" using g by (simp add: fake s3)
    show "\<forall>p. p \<noteq> ?sock \<longrightarrow> f_socks (w_fake v) p = f_socks (w_fake w) p" using same(2) by (simp add: fake s3 sock_set_def)
    show "f_netns (w_fake v) = insert (Some (ns_name (vs_vm_id spec))) (f_netns (w_fake w))" using g by (simp add: fake s3)
  qed
  ultimately show ?thesis using run unfolding root_def by blast
qed

section \<open>Stop\<close>

text \<open>A pid file is absent, or holds an integer.\<close>

definition pid_fine :: "path \<Rightarrow> 'db world \<Rightarrow> bool" where
  "pid_fine root w \<longleftrightarrow>
     (case fs_at (vp_pid_file root) w of
        None \<Rightarrow> True
      | Some (File t) \<Rightarrow> (case parse_int (if strip t = [] then ''0'' else strip t) of Inr _ \<Rightarrow> True | Inl _ \<Rightarrow> False)
      | _ \<Rightarrow> False)"

definition halted :: "path \<Rightarrow> nat \<Rightarrow> 'db world \<Rightarrow> 'db world" where
  "halted root k w =
     set_fake (sock_set (path_str (vp_api_sock root)) None) (fs_drop (vp_pid_file root) (w\<lparr>w_polls := w_polls w + k\<rparr>))"

lemma terminate_fake:
  assumes "on_fake w"
  shows "\<exists>k. terminate pid w = (Inr (), w\<lparr>w_polls := w_polls w + k\<rparr>)"
proof -
  have "priv [''kill'', str_int pid] w = (Inr (), w)"
    using priv_set_fake [OF assms, of "[''kill'', str_int pid]"] by (simp add: fake_noop)
  moreover obtain k where "wait_gone 30 pid w = (Inr (), w\<lparr>w_polls := w_polls w + k\<rparr>)"
    using wait_gone_total by blast
  ultimately show ?thesis by (auto simp: terminate_def except_run andThen_run)
qed

lemma fs_drop_absent: "fs_at p w = None \<Longrightarrow> fs_drop p w = w"
  by (simp add: fs_drop_def fs_at_def map_of_eq_None_iff)

lemma fs_drop_sel [simp]:
  "on_fake (fs_drop p w) = on_fake w" "w_fake (fs_drop p w) = w_fake w" "fs_at q (w\<lparr>w_polls := n\<rparr>) = fs_at q w"
  by (simp_all add: fs_drop_def fs_at_def)

lemma halted_sel [simp]:
  "on_fake (halted root k w) = on_fake w"
  "w_fake (halted root k w) = sock_set (path_str (vp_api_sock root)) None (w_fake w)"
  "fs_at q (halted root k w) = (if q = vp_pid_file root then None else fs_at q w)"
  by (simp_all add: halted_def)

lemma kill_fake:
  assumes w: "on_fake w" and pid: "pid_fine root w"
  shows "\<exists>k. kill_run root w = (Inr (), halted root k w)"
proof (cases "fs_at (vp_pid_file root) w")
  case None
  then have "kill_run root w = (Inr (), halted root 0 w)"
    by (simp add: kill_run_def bnd_run path_exists_def sock_cleanup_fake w halted_def fs_drop_absent vp_pid_file_def)
  then show ?thesis by blast
next
  case (Some n)
  then obtain t i where t: "fs_at (vp_pid_file root) w = Some (File t)"
    "parse_int (if strip t = [] then ''0'' else strip t) = Inr i"
    using pid by (auto simp: pid_fine_def split: fnode.splits sum.splits)
  obtain k where "(if i > 0 then terminate i else ret ()) w = (Inr (), w\<lparr>w_polls := w_polls w + k\<rparr>)"
  proof (cases "i > 0")
    case True
    then show ?thesis using terminate_fake [OF w, of i] that by auto
  qed (use that [of 0] in simp)
  then have "kill_run root w = (Inr (), halted root k w)"
    using t by (simp add: kill_run_def bnd_run andThen_run path_exists_def read_pid_def read_text_def
      unlink_missing_ok_def unlink_def present_def is_dir_def halted_def sock_cleanup_fake w vp_pid_file_def)
  then show ?thesis by blast
qed

lemma halted_stopped: "on_fake w \<Longrightarrow> fst (status_run root (halted root k w)) = Inr ''stopped''"
  by (simp add: status_fake_iff sock_set_def)

section \<open>Down\<close>

definition net_gone :: "string \<Rightarrow> fstate \<Rightarrow> fstate" where
  "net_gone i s = link_del (fst (pub_veth_names i)) (link_del (fst (veth_names i)) (netns_del (ns_name i) s))"

lemma network_down_fake: "on_fake w \<Longrightarrow> network_down i w = (Inr (), set_fake (net_gone i) w)"
  by (simp add: network_down_def safe_def except_run andThen_run netns_delete_def veth_delete_def
      priv_set_fake [OF _ fake_netns_del] priv_set_fake [OF _ fake_link_del])
     (simp add: set_fake_def net_gone_def)

lemma net_gone_facts:
  "f_netns (net_gone i s) = f_netns s - {Some (ns_name i)}"
  "f_links (net_gone i s) n =
     (if n = fst (veth_names i) \<or> n = fst (pub_veth_names i) then None
      else case f_links s n of None \<Rightarrow> None | Some m \<Rightarrow> if l_netns m = Some (ns_name i) then None else Some m)"
  "f_rest (net_gone i s) = f_rest s"
  by (simp_all add: net_gone_def) (simp_all add: netns_del_def)

text \<open>What \<open>vm_down\<close> leaves: nothing of this VM, and everything else as it was.\<close>

definition vm_is_gone :: "path \<Rightarrow> string \<Rightarrow> string \<Rightarrow> 'db world \<Rightarrow> 'db world \<Rightarrow> bool" where
  "vm_is_gone vms i vg w v \<longleftrightarrow>
     (let root = for_vm vms i in
      (\<forall>q. fs_at q v = (if prefix root q then None else fs_at q w)) \<and>
      f_ipt (w_fake v) = f_ipt (w_fake w) \<and> f_fdb (w_fake v) = f_fdb (w_fake w) \<and>
      f_socks (w_fake v) = (f_socks (w_fake w))(path_str (vp_api_sock root) := None) \<and>
      f_netns (w_fake v) = f_netns (w_fake w) - {Some (ns_name i)} \<and>
      (\<forall>n m. f_links (w_fake v) n = Some m \<longleftrightarrow>
         f_links (w_fake w) n = Some m \<and> n \<notin> {fst (veth_names i), fst (pub_veth_names i)} \<and>
         l_netns m \<noteq> Some (ns_name i)) \<and>
      lv_map (w_fake v) = (lv_map (w_fake w)) ((vg, rootfs_name i) := None))"

definition without_dir :: "path \<Rightarrow> (path \<times> fnode) list \<Rightarrow> (path \<times> fnode) list" where
  "without_dir root = filter (\<lambda>(q, _). \<not> prefix root q)"

lemma vm_down_state:
  assumes w: "on_fake w" and n: "noslash vg" "noslash i"
    and r: "fs_at (for_vm vms i) w = Some Dir" and pid: "pid_fine (for_vm vms i) w"
  shows "\<exists>v k s. vm_down vms i vg w = (Inr (), v) \<and> vm_is_gone vms i vg w v \<and>
    v = w\<lparr>w_polls := k, w_fs := without_dir (for_vm vms i) (w_fs w), w_fake := s\<rparr>"
proof -
  let ?root = "for_vm vms i"
  obtain k where k: "kill_run ?root w = (Inr (), halted ?root k w)" using kill_fake [OF w pid] by blast
  let ?v1 = "set_fake (net_gone i) (halted ?root k w)"
  let ?v2 = "?v1\<lparr>w_fs := filter (\<lambda>(q, _). \<not> prefix ?root q) (w_fs ?v1)\<rparr>"
  let ?v = "set_fake (lv_drop (vg, rootfs_name i)) ?v2"
  have root: "path_exists ?root w" "path_exists ?root ?v1" "last ?root = i"
    using r by (simp_all add: path_exists_def vp_pid_file_def for_vm_def)
  have "lv_remove vg (rootfs_name i) ?v2 = (Inr (), ?v)"
    using lv_remove_fake [of ?v2 vg "rootfs_name i"] rootfs_name_ok [OF n(2)] w n(1) by simp
  then have run: "vm_down vms i vg w = (Inr (), ?v)"
    using k root network_down_fake [of "halted ?root k w" i] w
    by (simp add: vm_down_def Let_def bnd_run andThen_run env_teardown_def rmtree_run)
  have at: "fs_at q ?v = (if prefix ?root q then None else fs_at q w)" for q
  proof -
    have "fs_at q ?v = (if prefix ?root q then None else fs_at q ?v1)"
      by (simp add: fs_at_def map_of_filter_key)
    then show ?thesis by (auto simp: vp_pid_file_def)
  qed
  have "f_lvs (net_gone i s) = f_lvs s" for s using net_gone_facts(3) [of i s] by (simp add: f_rest_def)
  then have lv: "lv_map (net_gone i s) = lv_map s" for s by (simp add: lv_map_def)
  have fake: "w_fake ?v = lv_drop (vg, rootfs_name i) (net_gone i (sock_set (path_str (vp_api_sock ?root)) None (w_fake w)))"
    by simp
  have links: "f_links (sock_set p e s) = f_links s" "f_netns (lv_drop x s) = f_netns s" for p e s x
    by (simp_all add: sock_set_def lv_drop_def)
  have "w_fs ?v = without_dir ?root (w_fs w)"
    by (auto simp: halted_def fs_drop_def set_fake_def without_dir_def AList.delete_eq vp_pid_file_def intro!: filter_cong)
  then have other: "?v = w\<lparr>w_polls := w_polls ?v, w_fs := without_dir ?root (w_fs w), w_fake := w_fake ?v\<rparr>"
    by (simp add: set_fake_def halted_def fs_drop_def)
  have "f_ipt (w_fake ?v) = f_ipt (w_fake w)" "f_fdb (w_fake ?v) = f_fdb (w_fake w)"
    "f_socks (w_fake ?v) = (f_socks (w_fake w))(path_str (vp_api_sock ?root) := None)"
    by (simp_all add: net_gone_def netns_del_def link_del_def sock_set_def lv_drop_def)
  then have "vm_is_gone vms i vg w ?v"
    unfolding vm_is_gone_def Let_def at fake
    by (auto simp: lv net_gone_facts links split: option.splits if_splits)
  with run other show ?thesis by blast
qed

lemma vm_down_fake:
  assumes "on_fake w" "noslash vg" "noslash i" "fs_at (for_vm vms i) w = Some Dir" "pid_fine (for_vm vms i) w"
  shows "\<exists>v. vm_down vms i vg w = (Inr (), v) \<and> vm_is_gone vms i vg w v \<and>
    (\<exists>k f s. v = w\<lparr>w_polls := k, w_fs := f, w_fake := s\<rparr>)"
  using vm_down_state [OF assms] by blast

end
