(* ===== verification/VmProps.thy ===== *)
theory VmProps
  imports VmLife Allocate
begin

text \<open>
  The properties of a VM's life: \<open>vm_up\<close> and \<open>vm_down\<close> on the simulator, what the two leave
  when run one after the other, stop and start, the bound on waiting for a process, and what
  happens on the real backend to a VM whose process is already gone.
\<close>

section \<open>Up and down\<close>

lemma parse_int_zero: "strip ''0'' = ''0''" "parse_int ''0'' = Inr 0"
  by code_simp+


text \<open>A VM specification to try things on, over the four-address network.\<close>

definition spec0 :: vm_spec where
  "spec0 = \<lparr>vs_vm_id = ''a1'', vs_vm_name = ''web'', vs_node_id = ''n1'', vs_vpc_id = ''v1'',
     vs_ip = ip_str 167837698, vs_cidr = net_str net30, vs_data_volume_path = Some ''/dev/nyc/data-x'',
     vs_assets = \<lparr>as_kernel = [''vmlinux''], as_ssh_key = [''key'']\<rparr>, vs_vms_dir = [''srv'', ''node'', ''vms''],
     vs_firecracker_bin = [''fc''], vs_vg = ''nyc'', vs_node_host = None, vs_peer_hosts = [], vs_dns = ''1.1.1.1'',
     vs_ssh_pubkey = None, vs_vcpu_count = 1, vs_mem_mib = 512, vs_rootfs_origin = ''gold-default'',
     vs_public_ip = None\<rparr>"

lemma spec0_sel:
  "for_vm (vs_vms_dir spec0) (vs_vm_id spec0) = [''srv'', ''node'', ''vms'', ''a1'']" "vs_cidr spec0 = net_str net30"
  "noslash (vs_vg spec0)" "noslash (vs_rootfs_origin spec0)" "noslash (vs_vm_id spec0)"
  "vs_peer_hosts spec0 = []" "vs_public_ip spec0 = None"
  by (simp_all add: spec0_def for_vm_def noslash_def)

lemma fs_at_world0:
  "fs_at q (world0 d) = (if q = [''srv''] \<or> q = [''srv'', ''node''] then Some Dir else None)"
  by (simp add: fs_at_def)

lemma fresh_world0: "vm_fresh [''srv'', ''node'', ''vms'', ''a1''] (world0 d)"
  by (auto simp: vm_fresh_def dirs_ok_def fs_at_world0 prefix_def)

lemma ipt_ready_reset: "ipt_ready reset_state"
  by (simp add: ipt_ready_def reset_state_def ipt_builtin_def NAT_def FILTER_def)

lemma spec0_ready: "vm_ready spec0 (world0 ())"
proof -
  have "case gateway_cidr (net_str net30) of Inr _ \<Rightarrow> True | Inl _ \<Rightarrow> False"
    by (simp add: gateway_cidr_def net30_facts(1) split_net_str)
  moreover have "tmp_new (world0 ())" by (auto simp: tmp_new_def fs_at_world0 prefix_def)
  ultimately show ?thesis
    unfolding vm_ready_def Let_def spec0_sel(1,2) world0_sel
    by (simp only: on_fake_world0 fresh_world0 ipt_ready_reset spec0_sel overlay_ready_def pub_bridge_ok_def
          Cons_prefix_Cons) simp
qed



text \<open>A node with one VM's directory and nothing else of it.\<close>

definition node_with_vm :: "unit world" where
  "node_with_vm = (world0 ())\<lparr>w_fs := [([''srv''], Dir), ([''srv'', ''a1''], Dir), ([''srv'', ''a1'', ''pid''], File ''0'')]\<rparr>"

lemma node_with_vm_facts:
  "on_fake node_with_vm" "fs_at (for_vm [''srv''] ''a1'') node_with_vm = Some Dir" "pid_fine (for_vm [''srv''] ''a1'') node_with_vm"
  by (simp_all add: node_with_vm_def fs_at_def for_vm_def pid_fine_def vp_pid_file_def parse_int_zero)

text \<open>C18: \<open>vm_down\<close> of a VM whose directory and pid file are in order succeeds and leaves nothing of
  it: its directory tree, namespace, links and rootfs LV are gone, and everything else on the node is
  as before.\<close>

theorem vm_down_correct:
  assumes "on_fake w" "noslash vg" "noslash i"
    and "fs_at (for_vm vms i) w = Some Dir" "pid_fine (for_vm vms i) w"
  shows "\<exists>v. vm_down vms i vg w = (Inr (), v) \<and> vm_is_gone vms i vg w v"
  using vm_down_fake [OF assms] by blast

lemma vm_down_correct_witness:
  "\<exists>v. vm_down [''srv''] ''a1'' ''nyc'' node_with_vm = (Inr (), v) \<and> fs_at [''srv'', ''a1''] v = None"
  using vm_down_correct [OF node_with_vm_facts(1) _ _ node_with_vm_facts(2,3), of "''nyc''"]
  by (auto simp: vm_is_gone_def noslash_def for_vm_def Let_def)

text \<open>Bringing a VM up and taking it down again restores the node: the table of logical volumes
  (for a rootfs name that was free), the namespaces (for a name that was free), every file outside the
  directories above the VM's own; no link other than the VPC's and the VM's is new or changed.\<close>

theorem up_down_roundtrip:
  assumes "vm_ready spec w"
    and "lv_map (w_fake w) (vs_vg spec, rootfs_name (vs_vm_id spec)) = None"
    and "Some (ns_name (vs_vm_id spec)) \<notin> f_netns (w_fake w)"
  shows "\<exists>v. andThen (vm_up spec) (vm_down (vs_vms_dir spec) (vs_vm_id spec) (vs_vg spec)) w = (Inr (), v) \<and>
    lv_map (w_fake v) = lv_map (w_fake w) \<and> f_netns (w_fake v) = f_netns (w_fake w) \<and>
    (\<forall>q. \<not> prefix q (for_vm (vs_vms_dir spec) (vs_vm_id spec)) \<longrightarrow> fs_at q v = fs_at q w) \<and>
    (\<forall>n m. n \<notin> vm_links spec \<longrightarrow> f_links (w_fake v) n = Some m \<longrightarrow> f_links (w_fake w) n = Some m)"
proof -
  let ?root = "for_vm (vs_vms_dir spec) (vs_vm_id spec)" and ?i = "vs_vm_id spec"
  obtain u where u: "vm_up spec w = (Inr ?root, u)" "vm_is_up spec w u" "vm_frame spec w u"
    using vm_up_fake [OF assms(1)] by blast
  have n: "noslash (vs_vg spec)" "noslash ?i" using assms(1) by (simp_all add: vm_ready_def Let_def)
  have "on_fake u" "fs_at ?root u = Some Dir" "pid_fine ?root u"
    using u(2) by (simp_all add: vm_is_up_def Let_def pid_fine_def parse_int_zero)
  from vm_down_fake [OF this(1) n this(2,3)] obtain v where
    v: "vm_down (vs_vms_dir spec) ?i (vs_vg spec) u = (Inr (), v)" "vm_is_gone (vs_vms_dir spec) ?i (vs_vg spec) u v"
    by blast
  have "lv_map (w_fake v) = lv_map (w_fake w)"
    using u(2) v(2) assms(2) by (auto simp: vm_is_up_def vm_is_gone_def Let_def fun_upd_idem)
  moreover have "f_netns (w_fake v) = f_netns (w_fake w)"
    using u(3) v(2) assms(3) by (auto simp: vm_frame_def vm_around_def vm_is_gone_def Let_def)
  moreover have "fs_at q v = fs_at q w" if "\<not> prefix q ?root" for q
  proof (cases "prefix ?root q")
    case True
    then have "fs_at q w = None" using assms(1) by (simp add: vm_ready_def vm_fresh_def Let_def)
    with True v(2) show ?thesis by (simp add: vm_is_gone_def Let_def)
  next
    case False
    with that u(3) v(2) show ?thesis by (simp add: vm_is_gone_def vm_frame_def vm_around_def Let_def)
  qed
  moreover have "f_links (w_fake w) n = Some m" if "n \<notin> vm_links spec" "f_links (w_fake v) n = Some m" for n m
    using that u(3) v(2) by (simp add: vm_is_gone_def vm_frame_def vm_around_def Let_def)
  ultimately show ?thesis using u(1) v(1) by (auto simp: andThen_run)
qed

lemma up_down_roundtrip_witness:
  "\<exists>v. andThen (vm_up spec0) (vm_down (vs_vms_dir spec0) (vs_vm_id spec0) (vs_vg spec0)) (world0 ()) = (Inr (), v) \<and>
    lv_map (w_fake v) = lv_map reset_state"
proof -
  have "lv_map (w_fake (world0 ())) k = None" "Some (ns_name i) \<notin> f_netns (w_fake (world0 ()))" for k i
    by (simp_all add: lv_map_def reset_state_def)
  then show ?thesis using up_down_roundtrip [OF spec0_ready] by auto
qed

section \<open>Stop, start and the process\<close>

text \<open>A stopped VM reports stopped, a started one running: from a VM directory in order, \<open>vm_stop\<close>
  and then \<open>vm_start\<close> succeed, the status is \<open>stopped\<close> in between and \<open>running\<close> after, no logical
  volume changes, and a second stop is harmless.\<close>

theorem stop_start_status:
  assumes "on_fake w" "is_dir (for_vm vms i) w" "pid_fine (for_vm vms i) w"
  shows "\<exists>v u. vm_stop vms i w = (Inr (), v) \<and> fst (status_run (for_vm vms i) v) = Inr ''stopped'' \<and>
    vm_start vms i ns bin v = (Inr (), u) \<and> fst (status_run (for_vm vms i) u) = Inr ''running'' \<and>
    lv_map (w_fake u) = lv_map (w_fake w) \<and>
    (\<exists>x. vm_stop vms i v = (Inr (), x) \<and> fst (status_run (for_vm vms i) x) = Inr ''stopped'')"
proof -
  let ?root = "for_vm vms i"
  obtain k where k: "kill_run ?root w = (Inr (), halted ?root k w)" using kill_fake [OF assms(1,3)] by blast
  let ?v = "halted ?root k w"
  have v: "on_fake ?v" "is_dir ?root ?v" "fs_at (vp_pid_file ?root) ?v \<noteq> Some Dir" "pid_fine ?root ?v"
    using assms by (auto simp: is_dir_def vp_pid_file_def pid_fine_def)
  obtain k' where "kill_run ?root ?v = (Inr (), halted ?root k' ?v)" using kill_fake [OF v(1,4)] by blast
  then show ?thesis
    using k start_fake [OF v(1-3)] halted_stopped [OF assms(1)] halted_stopped [OF v(1)] started_running [OF v(1)]
    by (auto simp: vm_stop_def vm_start_def Let_def)
qed

lemma stop_start_status_witness:
  "\<exists>v. vm_stop [''srv''] ''a1'' node_with_vm = (Inr (), v) \<and> fst (status_run [''srv'', ''a1''] v) = Inr ''stopped''"
proof -
  have "is_dir (for_vm [''srv''] ''a1'') node_with_vm" using node_with_vm_facts(2) by (simp add: is_dir_def)
  from stop_start_status [OF node_with_vm_facts(1) this node_with_vm_facts(3)] show ?thesis
    by (auto simp: for_vm_def)
qed



text \<open>C19: on the real backend, taking down a VM whose Firecracker process is already dead does not
  work: \<open>kill\<close> exits non-zero, the \<open>PrivopsError\<close> is not among the exceptions \<open>_terminate\<close> catches, and
  \<open>vm_down\<close> stops there. The only command run is the failed \<open>kill\<close>; the directory, with its pid file,
  stays as it was, so every later attempt meets the same pid.\<close>

theorem down_of_dead_process_aborts:
  assumes "backend w = ''real''" "path_exists (for_vm vms i) w"
    and "fs_at (vp_pid_file (for_vm vms i)) w = Some (File t)" "strip t \<noteq> []" "parse_int (strip t) = Inr pid" "pid > 0"
    and "fst (w_exec w (w_log w) [''sudo'', ''-n'', ''kill'', str_int pid] None) \<noteq> 0"
  shows "\<exists>m v. vm_down vms i vg w = (Inl (PrivopsError m), v) \<and> w_fs v = w_fs w \<and>
    w_log v = w_log w @ [([''sudo'', ''-n'', ''kill'', str_int pid], None)]"
proof -
  let ?root = "for_vm vms i" and ?cmd = "[''sudo'', ''-n'', ''kill'', str_int pid]"
  obtain rc out err where ex: "w_exec w (w_log w) ?cmd None = (rc, out, err)" by (cases "w_exec w (w_log w) ?cmd None")
  let ?v = "w\<lparr>w_log := w_log w @ [(?cmd, None)]\<rparr>"
  have sudo: "sudo_argv [''kill'', str_int pid] = ?cmd" by (simp add: sudo_argv_def no_sudo_def)
  obtain m where "priv [''kill'', str_int pid] w = (Inl (PrivopsError m), ?v)"
    using assms(1,7) ex by (auto simp: priv_def run_def andThen_run bnd_run real_run_def Let_def sudo)
  then have "terminate pid w = (Inl (PrivopsError m), ?v)"
    by (simp add: terminate_def except_run andThen_run)
  then have "kill_run ?root w = (Inl (PrivopsError m), ?v)"
    using assms(3-6) by (simp add: kill_run_def bnd_run andThen_run read_pid_def read_text_def path_exists_def)
  then have "vm_down vms i vg w = (Inl (PrivopsError m), ?v)"
    using assms(2) by (simp add: vm_down_def Let_def bnd_run andThen_run)
  then show ?thesis by (intro exI conjI) (assumption, simp_all)
qed

definition dead_vm :: "unit world" where
  "dead_vm = (world0 ())\<lparr>w_env := [''NYC_BACKEND'' \<mapsto> ''real''],
     w_fs := [([''srv''], Dir), ([''srv'', ''a1''], Dir), ([''srv'', ''a1'', ''pid''], File ''42'')],
     w_exec := (\<lambda>_ cmd _. if ''kill'' \<in> set cmd then (1, [], ''No such process'') else (0, [], []))\<rparr>"

lemma down_of_dead_process_aborts_witness:
  "\<exists>m v. vm_down [''srv''] ''a1'' ''nyc'' dead_vm = (Inl (PrivopsError m), v) \<and> w_fs v = w_fs dead_vm"
proof -
  have n: "strip ''42'' = ''42''" "parse_int ''42'' = Inr 42" by code_simp+
  have "backend dead_vm = ''real''" by (simp add: dead_vm_def backend_def lower_real)
  moreover have "path_exists (for_vm [''srv''] ''a1'') dead_vm"
    "fs_at (vp_pid_file (for_vm [''srv''] ''a1'')) dead_vm = Some (File ''42'')"
    by (simp_all add: dead_vm_def path_exists_def fs_at_def for_vm_def vp_pid_file_def)
  moreover have "fst (w_exec dead_vm (w_log dead_vm) [''sudo'', ''-n'', ''kill'', str_int 42] None) \<noteq> 0"
    by (simp add: dead_vm_def)
  ultimately show ?thesis
    using down_of_dead_process_aborts [of dead_vm "[''srv'']" "''a1''" "''42''" 42 "''nyc''"] n by auto
qed

end
