(* ===== verification/LifeProps.thy ===== *)
theory LifeProps
  imports VmProps
begin

text \<open>
  The life of several VMs of a node as an abstract machine: every VM is absent, stopped or running,
  and bringing it up, stopping, starting and taking it down move it between these phases. The four
  programs of \<open>client/lifecycle\<close> refine that machine on the simulator: whatever sequence of operations
  the machine allows succeeds, in any interleaving of the VMs, and ends in the phases it says, with the
  logical volumes they call for.
\<close>

section \<open>The abstract machine\<close>

datatype phase = Absent | Stopped | Running

datatype life_op = Up string | Stop string | Start string | Down string

fun life_step :: "string set \<Rightarrow> life_op \<Rightarrow> (string \<Rightarrow> phase) \<Rightarrow> (string \<Rightarrow> phase) option" where
  "life_step ids (Up i) ph = (if i \<in> ids \<and> ph i = Absent then Some (ph(i := Running)) else None)"
| "life_step ids (Stop i) ph = (if i \<in> ids \<and> ph i \<noteq> Absent then Some (ph(i := Stopped)) else None)"
| "life_step ids (Start i) ph = (if i \<in> ids \<and> ph i \<noteq> Absent then Some (ph(i := Running)) else None)"
| "life_step ids (Down i) ph = (if i \<in> ids \<and> ph i \<noteq> Absent then Some (ph(i := Absent)) else None)"

fun_cases life_step_SomeE: "life_step ids x ph = Some ph'"

section \<open>The machine's operations on a node\<close>

text \<open>The VMs of one node: what they share, and for each its specification.\<close>

record vm_family =
  fm_vms :: path
  fm_vg :: string
  fm_bin :: path
  fm_ids :: "string set"
  fm_spec :: "string \<Rightarrow> vm_spec"

definition vm_root :: "vm_family \<Rightarrow> string \<Rightarrow> path" where
  "vm_root F i = for_vm (fm_vms F) i"

definition family_ok :: "vm_family \<Rightarrow> bool" where
  "family_ok F \<longleftrightarrow> noslash (fm_vg F) \<and>
     (\<forall>i \<in> fm_ids F. let s = fm_spec F i in
        noslash i \<and> noslash (vs_rootfs_origin s) \<and> vs_vm_id s = i \<and> vs_vms_dir s = fm_vms F \<and> vs_vg s = fm_vg F \<and>
        vs_rootfs_origin s \<notin> rootfs_name ` fm_ids F \<and> peers_fine s \<and>
        (case gateway_cidr (vs_cidr s) of Inr _ \<Rightarrow> True | Inl _ \<Rightarrow> False))"

fun life_run :: "vm_family \<Rightarrow> life_op \<Rightarrow> ('db, unit) node_prog" where
  "life_run F (Up i) = bnd (vm_up (fm_spec F i)) (\<lambda>_. ret ())"
| "life_run F (Stop i) = vm_stop (fm_vms F) i"
| "life_run F (Start i) = vm_start (fm_vms F) i (ns_name i) (fm_bin F)"
| "life_run F (Down i) = vm_down (fm_vms F) i (fm_vg F)"

section \<open>The relation\<close>

definition in_phase :: "path \<Rightarrow> phase \<Rightarrow> 'db world \<Rightarrow> bool" where
  "in_phase root p w \<longleftrightarrow>
     (case p of
        Absent \<Rightarrow> \<forall>q. prefix root q \<longrightarrow> fs_at q w = None
      | Stopped \<Rightarrow> fs_at root w = Some Dir \<and> pid_fine root w \<and> fst (status_run root w) = Inr ''stopped''
      | Running \<Rightarrow> fs_at root w = Some Dir \<and> pid_fine root w \<and> fst (status_run root w) = Inr ''running'')"

definition node_fit :: "vm_family \<Rightarrow> 'db world \<Rightarrow> bool" where
  "node_fit F w \<longleftrightarrow> on_fake w \<and> tmp_new w \<and> ipt_ready (w_fake w) \<and>
     (\<forall>i \<in> fm_ids F. overlay_ready (fm_spec F i) (w_fake w) \<and> pub_bridge_ok (fm_spec F i) w \<and>
        dirs_ok (vm_root F i) w \<and> \<not> prefix (w_tmp w) (vm_root F i) \<and> \<not> prefix (vm_root F i) (w_tmp w))"

text \<open>The volumes: a thin clone of its origin for every VM that is there, and all others as in \<open>base\<close>.\<close>

definition life_lvs :: "vm_family \<Rightarrow> (lv_key \<Rightarrow> lvrec option) \<Rightarrow> (string \<Rightarrow> phase) \<Rightarrow> fstate \<Rightarrow> bool" where
  "life_lvs F base ph s \<longleftrightarrow>
     (\<forall>i \<in> fm_ids F. lv_map s (fm_vg F, rootfs_name i) =
        (if ph i = Absent then None
         else Some (thin_of (base (fm_vg F, vs_rootfs_origin (fm_spec F i))) (vs_rootfs_origin (fm_spec F i)) False))) \<and>
     (\<forall>k. k \<notin> (\<lambda>i. (fm_vg F, rootfs_name i)) ` fm_ids F \<longrightarrow> lv_map s k = base k)"

lemma life_lvs_other:
  "life_lvs F base ph s \<Longrightarrow> k \<notin> (\<lambda>i. (fm_vg F, rootfs_name i)) ` fm_ids F \<Longrightarrow> lv_map s k = base k"
  unfolding life_lvs_def by blast

definition life_rel :: "vm_family \<Rightarrow> (lv_key \<Rightarrow> lvrec option) \<Rightarrow> (string \<Rightarrow> phase) \<Rightarrow> 'db world \<Rightarrow> bool" where
  "life_rel F base ph w \<longleftrightarrow> family_ok F \<and> node_fit F w \<and> life_lvs F base ph (w_fake w) \<and>
     (\<forall>i \<in> fm_ids F. in_phase (vm_root F i) (ph i) w)"

section \<open>Frames\<close>

lemma roots_apart:
  assumes "i \<noteq> j" "prefix (vm_root F j) q"
  shows "\<not> prefix (vm_root F i) q" "\<not> prefix q (vm_root F i)"
  using assms by (auto simp: vm_root_def for_vm_def prefix_def append_eq_append_conv2 append_eq_Cons_conv Cons_eq_append_conv)

lemma join_inject: "join c (xs @ [a, b]) = join c (xs @ [a', b]) \<Longrightarrow> a = a'"
proof (induction xs)
  case Nil
  then show ?case by simp
next
  case (Cons x xs)
  then show ?case by (cases xs) auto
qed

lemma api_sock_inject: "path_str (vp_api_sock (vm_root F i)) = path_str (vp_api_sock (vm_root F j)) \<Longrightarrow> i = j"
  using join_inject by (simp add: path_str_def vm_root_def for_vm_def vp_api_sock_def)

lemma in_phase_frame:
  assumes "on_fake w" "on_fake v" "\<And>q. prefix root q \<Longrightarrow> fs_at q v = fs_at q w"
    and "f_socks (w_fake v) (path_str (vp_api_sock root)) = f_socks (w_fake w) (path_str (vp_api_sock root))"
  shows "in_phase root p v = in_phase root p w"
proof -
  have "fs_at root v = fs_at root w" "fs_at (vp_pid_file root) v = fs_at (vp_pid_file root) w"
    using assms(3) by (simp_all add: vp_pid_file_def)
  then show ?thesis
    using assms by (cases p) (simp_all add: in_phase_def pid_fine_def status_fake_iff)
qed

text \<open>What an operation on VM \<open>i\<close> leaves alone.\<close>

definition only_vm :: "vm_family \<Rightarrow> string \<Rightarrow> 'db world \<Rightarrow> 'db world \<Rightarrow> bool" where
  "only_vm F i w v \<longleftrightarrow>
     (\<exists>k f s. v = w\<lparr>w_polls := k, w_fs := f, w_fake := s\<rparr>) \<and> net_kept (fm_spec F i) (w_fake w) (w_fake v) \<and>
     (\<forall>q. q \<noteq> [] \<longrightarrow> \<not> prefix (vm_root F i) q \<longrightarrow> fs_at q v = fs_at q w \<or> prefix q (vm_root F i) \<and> fs_at q v = Some Dir) \<and>
     (\<forall>p. p \<noteq> path_str (vp_api_sock (vm_root F i)) \<longrightarrow> f_socks (w_fake v) p = f_socks (w_fake w) p) \<and>
     (\<forall>k. k \<noteq> (fm_vg F, rootfs_name i) \<longrightarrow> lv_map (w_fake v) k = lv_map (w_fake w) k)"

lemma only_vm_at:
  assumes "only_vm F i w v" "q \<noteq> []" "\<not> prefix (vm_root F i) q"
  shows "fs_at q v = fs_at q w \<or> prefix q (vm_root F i) \<and> fs_at q v = Some Dir"
  using assms unfolding only_vm_def by blast

lemma only_vm_proc:
  assumes "v = w\<lparr>w_polls := w_polls v, w_fs := w_fs v, w_fake := w_fake v\<rparr>"
    and "w_fake v = sock_set (path_str (vp_api_sock (vm_root F i))) e (w_fake w)"
    and "\<And>q. \<not> prefix (vm_root F i) q \<Longrightarrow> fs_at q v = fs_at q w"
  shows "only_vm F i w v"
proof -
  have "net_kept (fm_spec F i) (w_fake w) (w_fake v)"
    by (rule net_kept_same) (simp_all add: assms(2) sock_set_def)
  moreover have "f_socks (w_fake v) p = f_socks (w_fake w) p" if "p \<noteq> path_str (vp_api_sock (vm_root F i))" for p
    using that by (simp add: assms(2) sock_set_def)
  moreover have "lv_map (w_fake v) = lv_map (w_fake w)" by (simp add: assms(2))
  ultimately show ?thesis using assms(1,3) unfolding only_vm_def by metis
qed

lemma only_vm_fit:
  assumes F: "family_ok F" "i \<in> fm_ids F" and w: "node_fit F w" and o: "only_vm F i w v"
    and root: "fs_at (vm_root F i) v \<in> {None, Some Dir}"
  shows "node_fit F v"
proof -
  obtain k f s where v: "v = w\<lparr>w_polls := k, w_fs := f, w_fake := s\<rparr>" using o by (auto simp: only_vm_def)
  have conf: "on_fake v = on_fake w" "w_tmp v = w_tmp w" "pub_bridge_ok x v = pub_bridge_ok x w" for x
    by (simp_all add: v on_fake_def backend_def pub_bridge_ok_def)
  have tmp: "fs_at q v = None" if "prefix (w_tmp w) q" for q
  proof -
    have "\<not> prefix (vm_root F i) q \<and> \<not> prefix q (vm_root F i)"
      using w F(2) that by (metis node_fit_def prefix_order.trans prefix_same_cases)
    moreover have "fs_at q w = None" "q \<noteq> []" using w that by (auto simp: node_fit_def tmp_new_def)
    ultimately show ?thesis using only_vm_at [OF o] by fastforce
  qed
  have dirs: "dirs_ok (vm_root F j) v" if j: "j \<in> fm_ids F" for j
    unfolding dirs_ok_def set_prefixes1
  proof (intro ballI, elim CollectE conjE)
    fix q assume q: "q \<noteq> []" "prefix q (vm_root F j)"
    show "fs_at q v = None \<or> fs_at q v = Some Dir"
    proof (cases "prefix (vm_root F i) q")
      case True
      with q(2) have "prefix (vm_root F i) (vm_root F j)" by (rule prefix_order.trans [rotated])
      then have "i = j" by (auto simp: vm_root_def for_vm_def prefix_def)
      with True q(2) have "q = vm_root F i" by (simp add: prefix_order.antisym)
      then show ?thesis using root by auto
    next
      case False
      have "fs_at q w = None \<or> fs_at q w = Some Dir"
        using w j q by (simp add: node_fit_def dirs_ok_def set_prefixes1)
      with only_vm_at [OF o q(1) False] show ?thesis by auto
    qed
  qed
  have kept: "net_kept (fm_spec F i) (w_fake w) (w_fake v)" and fine: "peers_fine (fm_spec F i)"
    using o F by (auto simp: only_vm_def family_ok_def Let_def)
  show ?thesis
    using w dirs tmp overlay_ready_kept [OF _ kept fine] kept
    by (auto simp: node_fit_def conf tmp_new_def net_kept_def)
qed

text \<open>An operation that touches VM \<open>i\<close> only, and brings it into phase \<open>p\<close> with its volume, is a step of the
  relation.\<close>

lemma life_rel_step:
  assumes rel: "life_rel F base ph w" and i: "i \<in> fm_ids F" and o: "only_vm F i w v"
    and p: "in_phase (vm_root F i) p v"
    and lv: "lv_map (w_fake v) (fm_vg F, rootfs_name i) = (if p = Absent then None
      else Some (thin_of (base (fm_vg F, vs_rootfs_origin (fm_spec F i))) (vs_rootfs_origin (fm_spec F i)) False))"
  shows "life_rel F base (ph(i := p)) v"
proof -
  have F: "family_ok F" and w: "node_fit F w" and lvs: "life_lvs F base ph (w_fake w)"
    and phs: "\<And>j. j \<in> fm_ids F \<Longrightarrow> in_phase (vm_root F j) (ph j) w"
    using rel by (auto simp: life_rel_def)
  have "fs_at (vm_root F i) v \<in> {None, Some Dir}" using p by (cases p) (auto simp: in_phase_def)
  then have fit: "node_fit F v" by (rule only_vm_fit [OF F i w o])
  have inj: "rootfs_name a = rootfs_name b \<Longrightarrow> a = b" for a b by (simp add: rootfs_name_def)
  have "life_lvs F base (ph(i := p)) (w_fake v)"
    unfolding life_lvs_def
  proof (intro conjI ballI allI impI)
    fix j assume j: "j \<in> fm_ids F"
    show "lv_map (w_fake v) (fm_vg F, rootfs_name j) = (if (ph(i := p)) j = Absent then None
        else Some (thin_of (base (fm_vg F, vs_rootfs_origin (fm_spec F j))) (vs_rootfs_origin (fm_spec F j)) False))"
      using lv lvs j o inj [of j i] by (cases "j = i") (auto simp: life_lvs_def only_vm_def)
  next
    fix k assume k: "k \<notin> (\<lambda>i. (fm_vg F, rootfs_name i)) ` fm_ids F"
    with i have "k \<noteq> (fm_vg F, rootfs_name i)" by blast
    with o have "lv_map (w_fake v) k = lv_map (w_fake w) k" unfolding only_vm_def by blast
    with life_lvs_other [OF lvs k] show "lv_map (w_fake v) k = base k" by simp
  qed
  moreover have "in_phase (vm_root F j) ((ph(i := p)) j) v" if j: "j \<in> fm_ids F" for j
  proof (cases "j = i")
    case True
    with p show ?thesis by simp
  next
    case False
    have "fs_at q v = fs_at q w" if "prefix (vm_root F j) q" for q
    proof -
      have "q \<noteq> []" using that by (auto simp: vm_root_def for_vm_def)
      with roots_apart [OF False [symmetric] that] only_vm_at [OF o] show ?thesis by blast
    qed
    moreover have "f_socks (w_fake v) (path_str (vp_api_sock (vm_root F j))) = f_socks (w_fake w) (path_str (vp_api_sock (vm_root F j)))"
      using False api_sock_inject [of F j i] o by (auto simp: only_vm_def)
    ultimately show ?thesis
      using False phs [OF j] in_phase_frame [of w v "vm_root F j"] w fit by (simp add: node_fit_def)
  qed
  ultimately show ?thesis using F fit by (simp add: life_rel_def)
qed

section \<open>The four operations\<close>

lemma family_facts:
  assumes "family_ok F" "i \<in> fm_ids F"
  shows "noslash (fm_vg F)" "noslash i" "noslash (vs_rootfs_origin (fm_spec F i))" "vs_vm_id (fm_spec F i) = i"
    "vs_vms_dir (fm_spec F i) = fm_vms F" "vs_vg (fm_spec F i) = fm_vg F"
    "vs_rootfs_origin (fm_spec F i) \<notin> rootfs_name ` fm_ids F" "peers_fine (fm_spec F i)"
    "case gateway_cidr (vs_cidr (fm_spec F i)) of Inr _ \<Rightarrow> True | Inl _ \<Rightarrow> False"
  using assms by (simp_all add: family_ok_def Let_def)

lemma up_step:
  assumes rel: "life_rel F base ph w" and i: "i \<in> fm_ids F" and p: "ph i = Absent"
  shows "\<exists>v. life_run F (Up i) w = (Inr (), v) \<and> life_rel F base (ph(i := Running)) v"
proof -
  let ?spec = "fm_spec F i"
  have F: "family_ok F" and w: "node_fit F w" and lvs: "life_lvs F base ph (w_fake w)" and a: "in_phase (vm_root F i) Absent w"
    using rel i p by (auto simp: life_rel_def)
  note f = family_facts [OF F i]
  have ready: "vm_ready ?spec w"
    using w i a f by (simp add: vm_ready_def Let_def node_fit_def vm_fresh_def in_phase_def flip: vm_root_def)
  from vm_up_fake [OF this] obtain v where
    v: "vm_up ?spec w = (Inr (vm_root F i), v)" "vm_is_up ?spec w v" "vm_frame ?spec w v"
    by (auto simp: f(4,5) vm_root_def)
  have "only_vm F i w v"
    unfolding only_vm_def
  proof (intro conjI)
    obtain g s where "v = w\<lparr>w_fs := g, w_fake := s\<rparr>" using v(3) by (auto simp: vm_frame_def vm_around_def Let_def)
    then have "v = w\<lparr>w_polls := w_polls w, w_fs := g, w_fake := s\<rparr>" by simp
    then show "\<exists>k g s. v = w\<lparr>w_polls := k, w_fs := g, w_fake := s\<rparr>" by blast
    show "net_kept ?spec (w_fake w) (w_fake v)" using v(3) by (simp add: vm_frame_def vm_around_def Let_def)
    show "\<forall>q. q \<noteq> [] \<longrightarrow> \<not> prefix (vm_root F i) q \<longrightarrow> fs_at q v = fs_at q w \<or> prefix q (vm_root F i) \<and> fs_at q v = Some Dir"
      using v(3) unfolding vm_frame_def vm_around_def Let_def f(4,5) vm_root_def [symmetric] by blast
    show "\<forall>p. p \<noteq> path_str (vp_api_sock (vm_root F i)) \<longrightarrow> f_socks (w_fake v) p = f_socks (w_fake w) p"
      using v(3) by (simp add: vm_frame_def vm_around_def Let_def f(4,5) vm_root_def)
    show "\<forall>k. k \<noteq> (fm_vg F, rootfs_name i) \<longrightarrow> lv_map (w_fake v) k = lv_map (w_fake w) k"
      using v(2) by (simp add: vm_is_up_def Let_def f(4,6))
  qed
  moreover have "in_phase (vm_root F i) Running v"
    using v(2) by (simp add: in_phase_def vm_is_up_def Let_def f(4,5) vm_root_def pid_fine_def parse_int_zero)
  moreover have "lv_map (w_fake w) (fm_vg F, vs_rootfs_origin ?spec) = base (fm_vg F, vs_rootfs_origin ?spec)"
    "vs_rootfs_origin ?spec \<noteq> rootfs_name i"
    using life_lvs_other [OF lvs] f(7) i by auto
  ultimately show ?thesis
    using v(1) life_rel_step [OF rel i, of v Running] v(2)
    by (simp add: bnd_run vm_is_up_def Let_def f(4,6))
qed

lemma stop_step:
  assumes rel: "life_rel F base ph w" and i: "i \<in> fm_ids F" and p: "ph i \<noteq> Absent"
  shows "\<exists>v. life_run F (Stop i) w = (Inr (), v) \<and> life_rel F base (ph(i := Stopped)) v"
proof -
  let ?root = "vm_root F i"
  have w: "on_fake w" and d: "fs_at ?root w = Some Dir" "pid_fine ?root w" and lvs: "life_lvs F base ph (w_fake w)"
    using rel i p by (cases "ph i"; auto simp: life_rel_def node_fit_def in_phase_def)+
  from kill_fake [OF w d(2)] obtain k where k: "kill_run ?root w = (Inr (), halted ?root k w)" by blast
  let ?v = "halted ?root k w"
  have "only_vm F i w ?v"
  proof (rule only_vm_proc)
    show "?v = w\<lparr>w_polls := w_polls ?v, w_fs := w_fs ?v, w_fake := w_fake ?v\<rparr>"
      by (simp add: halted_def set_fake_def fs_drop_def)
  qed (auto simp: vp_pid_file_def)
  moreover have "in_phase ?root Stopped ?v"
    using d halted_stopped [OF w] by (simp add: in_phase_def pid_fine_def vp_pid_file_def)
  ultimately show ?thesis
    using k life_rel_step [OF rel i, of ?v Stopped] lvs i p
    by (simp add: vm_stop_def life_lvs_def flip: vm_root_def)
qed

lemma start_step:
  assumes rel: "life_rel F base ph w" and i: "i \<in> fm_ids F" and p: "ph i \<noteq> Absent"
  shows "\<exists>v. life_run F (Start i) w = (Inr (), v) \<and> life_rel F base (ph(i := Running)) v"
proof -
  let ?root = "vm_root F i"
  have w: "on_fake w" and d: "fs_at ?root w = Some Dir" "pid_fine ?root w" and lvs: "life_lvs F base ph (w_fake w)"
    using rel i p by (cases "ph i"; auto simp: life_rel_def node_fit_def in_phase_def)+
  have "is_dir ?root w" "fs_at (vp_pid_file ?root) w \<noteq> Some Dir" using d by (auto simp: is_dir_def pid_fine_def)
  note k = start_fake [OF w this]
  let ?v = "started ?root w"
  have "only_vm F i w ?v"
  proof (rule only_vm_proc)
    show "?v = w\<lparr>w_polls := w_polls ?v, w_fs := w_fs ?v, w_fake := w_fake ?v\<rparr>"
      by (simp add: started_def set_fake_def fs_put_def)
  qed (auto simp: vp_pid_file_def)
  moreover have "in_phase ?root Running ?v"
    using d started_running [OF w] by (simp add: in_phase_def pid_fine_def vp_pid_file_def parse_int_zero)
  ultimately show ?thesis
    using k life_rel_step [OF rel i, of ?v Running] lvs i p
    by (simp add: vm_start_def Let_def life_lvs_def flip: vm_root_def)
qed

lemma down_step:
  assumes rel: "life_rel F base ph w" and i: "i \<in> fm_ids F" and p: "ph i \<noteq> Absent"
  shows "\<exists>v. life_run F (Down i) w = (Inr (), v) \<and> life_rel F base (ph(i := Absent)) v"
proof -
  let ?root = "vm_root F i"
  have F: "family_ok F" and w: "on_fake w" and d: "fs_at ?root w = Some Dir" "pid_fine ?root w"
    using rel i p by (cases "ph i"; auto simp: life_rel_def node_fit_def in_phase_def)+
  note f = family_facts [OF F i]
  from vm_down_fake [OF w f(1,2) d [unfolded vm_root_def]] obtain v k g s where
    v: "vm_down (fm_vms F) i (fm_vg F) w = (Inr (), v)" "vm_is_gone (fm_vms F) i (fm_vg F) w v"
    "v = w\<lparr>w_polls := k, w_fs := g, w_fake := s\<rparr>" by blast
  have "only_vm F i w v"
    unfolding only_vm_def
    by (intro conjI net_kept_same exI [of _ k] exI [of _ g] exI [of _ s] v(3))
       (use v(2) in \<open>simp_all add: vm_is_gone_def Let_def vm_root_def\<close>)
  moreover have "in_phase ?root Absent v" using v(2) by (simp add: in_phase_def vm_is_gone_def Let_def vm_root_def)
  ultimately show ?thesis
    using v(1,2) life_rel_step [OF rel i, of v Absent] by (simp add: vm_is_gone_def Let_def)
qed

interpretation life: simulation "life_run F" "life_step (fm_ids F)" "life_rel F base" for F base
proof
  fix ph w x ph'
  assume rel: "life_rel F base ph w" and x: "life_step (fm_ids F) x ph = Some ph'"
  then show "\<exists>v. life_run F x w = (Inr (), v) \<and> life_rel F base ph' v"
    by (elim life_step_SomeE)
       (auto split: if_splits simp del: life_run.simps intro: up_step stop_step start_step down_step)
qed

section \<open>Any sequence\<close>

definition phase_status :: "phase \<Rightarrow> string" where
  "phase_status p = (if p = Running then ''running'' else ''stopped'')"

text \<open>C4: the four operations of a VM's life refine the abstract machine of phases. On a node that is
  related to the phases \<open>ph\<close>, every sequence of operations the machine allows, on any of the VMs and
  interleaved in any way, succeeds; afterwards every VM that is there reports the status of its phase
  and has its directory and its thin clone, every absent one has neither, and no other logical
  volume has changed.\<close>

theorem lifecycle_refines:
  assumes "life_rel F base ph w" and "abs_run (life_step (fm_ids F)) xs ph = Some ph'"
  shows "\<exists>v. for_each xs (life_run F) w = (Inr (), v) \<and> life_rel F base ph' v \<and>
    (\<forall>i \<in> fm_ids F. (fs_at (vm_root F i) v = Some Dir \<longleftrightarrow> ph' i \<noteq> Absent) \<and>
       (lv_map (w_fake v) (fm_vg F, rootfs_name i) \<noteq> None \<longleftrightarrow> ph' i \<noteq> Absent) \<and>
       (ph' i \<noteq> Absent \<longrightarrow> fst (status_run (vm_root F i) v) = Inr (phase_status (ph' i)))) \<and>
    (\<forall>k. k \<notin> (\<lambda>i. (fm_vg F, rootfs_name i)) ` fm_ids F \<longrightarrow> lv_map (w_fake v) k = base k)"
proof -
  from life.runs [OF assms] obtain v where v: "for_each xs (life_run F) w = (Inr (), v)" "life_rel F base ph' v" by blast
  have "(fs_at (vm_root F i) v = Some Dir \<longleftrightarrow> ph' i \<noteq> Absent) \<and>
      (ph' i \<noteq> Absent \<longrightarrow> fst (status_run (vm_root F i) v) = Inr (phase_status (ph' i)))" if "i \<in> fm_ids F" for i
    using v(2) that by (cases "ph' i") (auto simp: life_rel_def in_phase_def phase_status_def)
  with v show ?thesis by (auto simp: life_rel_def life_lvs_def intro!: exI [of _ v])
qed

text \<open>Two VMs of one VPC on a fresh node.\<close>

definition two_vms :: vm_family where
  "two_vms = \<lparr>fm_vms = [''srv'', ''node'', ''vms''], fm_vg = ''nyc'', fm_bin = [''fc''], fm_ids = {''a1'', ''b2''},
     fm_spec = (\<lambda>i. spec0\<lparr>vs_vm_id := i\<rparr>)\<rparr>"

lemma two_vms_related: "life_rel two_vms Map.empty (\<lambda>_. Absent) (world0 ())"
proof -
  have gw: "case gateway_cidr (net_str net30) of Inr _ \<Rightarrow> True | Inl _ \<Rightarrow> False"
    by (simp add: gateway_cidr_def net30_facts(1) split_net_str)
  have spec: "vs_cidr (fm_spec two_vms i) = net_str net30" "vs_vm_id (fm_spec two_vms i) = i"
    "vs_vms_dir (fm_spec two_vms i) = fm_vms two_vms" "vs_vg (fm_spec two_vms i) = fm_vg two_vms"
    "vs_rootfs_origin (fm_spec two_vms i) = ''gold-default''" "vs_peer_hosts (fm_spec two_vms i) = []"
    "vs_public_ip (fm_spec two_vms i) = None" for i
    by (simp_all add: two_vms_def spec0_def)
  have "family_ok two_vms"
    unfolding family_ok_def Let_def spec using gw
    by (auto simp: two_vms_def noslash_def rootfs_name_def ROOTFS_def peers_fine_def spec0_def)
  moreover have "node_fit two_vms (world0 ())"
  proof -
    have "tmp_new (world0 ())" by (auto simp: tmp_new_def fs_at_world0 prefix_def)
    moreover have "dirs_ok (vm_root two_vms i) (world0 ())" "\<not> prefix (w_tmp (world0 ())) (vm_root two_vms i)"
      "\<not> prefix (vm_root two_vms i) (w_tmp (world0 ()))" for i
      by (auto simp: dirs_ok_def fs_at_world0 vm_root_def two_vms_def for_vm_def)
    ultimately show ?thesis
      by (simp only: node_fit_def on_fake_world0 world0_sel ipt_ready_reset overlay_ready_def pub_bridge_ok_def spec) simp
  qed
  moreover have "in_phase (vm_root two_vms i) Absent (world0 ())" for i
    by (auto simp: in_phase_def vm_root_def two_vms_def for_vm_def fs_at_world0)
  ultimately show ?thesis
    by (simp add: life_rel_def life_lvs_def lv_map_def reset_state_def)
qed

lemma lifecycle_refines_witness:
  "\<exists>v. for_each [Up ''a1'', Up ''b2'', Stop ''a1'', Down ''b2'', Start ''a1'', Stop ''a1''] (life_run two_vms) (world0 ()) = (Inr (), v) \<and>
    fst (status_run (vm_root two_vms ''a1'') v) = Inr ''stopped'' \<and> lv_map (w_fake v) (''nyc'', rootfs_name ''b2'') = None"
proof -
  have "abs_run (life_step (fm_ids two_vms)) [Up ''a1'', Up ''b2'', Stop ''a1'', Down ''b2'', Start ''a1'', Stop ''a1''] (\<lambda>_. Absent)
      = Some ((\<lambda>_. Absent)(''a1'' := Stopped))"
    by (simp add: two_vms_def) (auto simp: fun_eq_iff)
  from lifecycle_refines [OF two_vms_related this] obtain v where
    v: "for_each [Up ''a1'', Up ''b2'', Stop ''a1'', Down ''b2'', Start ''a1'', Stop ''a1''] (life_run two_vms) (world0 ()) = (Inr (), v)"
    "life_rel two_vms Map.empty ((\<lambda>_. Absent)(''a1'' := Stopped)) v" by blast
  have "''a1'' \<in> fm_ids two_vms" "''b2'' \<in> fm_ids two_vms" "fm_vg two_vms = ''nyc''" by (simp_all add: two_vms_def)
  with v show ?thesis by (fastforce simp: life_rel_def in_phase_def life_lvs_def)
qed

end
