(* ===== verification/Tables.thy ===== *)
theory Tables
  imports VmLife
begin

text \<open>
  The rows of \<open>nyc/tables\<close> and the store they live in. The store is dadar's ORM over rqlite, a
  library outside this repository: a \<open>client\<close> is a record of its operations per table, and
  the locale \<open>table\<close> states what the code relies on: \<open>get\<close> finds a matching row if there is
  one, \<open>get_all\<close> the matching rows, \<open>insert\<close> fills in the SQL defaults and fails with
  \<open>RqliteError\<close> exactly on a repeated PRIMARY KEY or UNIQUE value, \<open>update\<close> and \<open>delete\<close> touch the
  matching rows, and no operation on one table changes another. Lists of rows implement it,
  so the laws can hold. \<open>created_at\<close> and \<open>updated_at\<close> are microseconds of the time the code
  writes in ISO form.
\<close>

section \<open>Rows\<close>

record vpc_row =
  vp_id :: string
  vp_name :: string
  vp_cidr :: string
  vp_created :: int

record volume_row =
  vo_id :: string
  vo_node :: string
  vo_name :: string
  vo_size :: int
  vo_path :: string
  vo_status :: string
  vo_created :: int

text \<open>A column the code leaves out of the row it inserts is \<open>None\<close>, and gets its default.\<close>

record vm_row =
  vm_id :: string
  vm_node :: string
  vm_name :: string
  vm_vpc :: string
  vm_volume :: "string option"
  vm_ip :: string
  vm_ssh :: "string option"
  vm_vcpu :: "int option"
  vm_mem :: "int option"
  vm_status :: string
  vm_created :: int

record snapshot_row =
  sn_id :: string
  sn_node :: string
  sn_name :: string
  sn_role :: string
  sn_disk :: string
  sn_parent :: "string option"
  sn_lv :: string
  sn_size :: int
  sn_created :: int

record pubip_row =
  pi_id :: string
  pi_node :: string
  pi_vm :: "string option"
  pi_address :: string
  pi_gateway :: "string option"
  pi_mac :: string
  pi_prefix :: string
  pi_status :: string
  pi_created :: int

record domain_row =
  do_id :: string
  do_fqdn :: string
  do_vm :: string
  do_port :: int
  do_created :: int

record task_row =
  ta_id :: string
  ta_node :: string
  ta_vm :: string
  ta_type :: string
  ta_params :: "string option"
  ta_status :: string
  ta_result :: "string option"
  ta_created :: int
  ta_updated :: int

record proxy_row =
  px_id :: string
  px_vpc :: string
  px_vm :: string
  px_node :: string
  px_pubip :: "string option"
  px_status :: string
  px_created :: int

text \<open>dadar's own registry of nodes\<close>

record node_row =
  nd_id :: string
  nd_host :: "string option"
  nd_port :: int

record tables =
  t_vpcs :: "vpc_row list"
  t_volumes :: "volume_row list"
  t_vms :: "vm_row list"
  t_snapshots :: "snapshot_row list"
  t_pubips :: "pubip_row list"
  t_domains :: "domain_row list"
  t_tasks :: "task_row list"
  t_proxies :: "proxy_row list"
  t_nodes :: "node_row list"

text \<open>Which stored row keeps a new one out: PRIMARY KEY and UNIQUE columns.\<close>

definition vpc_clash :: "vpc_row \<Rightarrow> vpc_row \<Rightarrow> bool" where
  "vpc_clash r x \<longleftrightarrow> vp_id x = vp_id r \<or> vp_name x = vp_name r"

definition domain_clash :: "domain_row \<Rightarrow> domain_row \<Rightarrow> bool" where
  "domain_clash r x \<longleftrightarrow> do_id x = do_id r \<or> do_fqdn x = do_fqdn r"

definition proxy_clash :: "proxy_row \<Rightarrow> proxy_row \<Rightarrow> bool" where
  "proxy_clash r x \<longleftrightarrow> px_id x = px_id r \<or> px_vpc x = px_vpc r"

definition key_clash :: "('row \<Rightarrow> string) \<Rightarrow> 'row \<Rightarrow> 'row \<Rightarrow> bool" where
  "key_clash k r x \<longleftrightarrow> k x = k r"

definition vm_defaults :: "vm_row \<Rightarrow> vm_row" where
  "vm_defaults r = r\<lparr>vm_vcpu := Some (case vm_vcpu r of None \<Rightarrow> 1 | Some n \<Rightarrow> n),
                     vm_mem := Some (case vm_mem r of None \<Rightarrow> 512 | Some n \<Rightarrow> n)\<rparr>"

section \<open>The store\<close>

record ('db, 'row) docs =
  d_get :: "('row \<Rightarrow> bool) \<Rightarrow> 'db \<Rightarrow> 'row option"
  d_all :: "('row \<Rightarrow> bool) \<Rightarrow> 'db \<Rightarrow> 'row list"
  d_insert :: "'row \<Rightarrow> 'db \<Rightarrow> exn + 'db"
  d_update :: "('row \<Rightarrow> bool) \<Rightarrow> ('row \<Rightarrow> 'row) \<Rightarrow> 'db \<Rightarrow> 'db"
  d_delete :: "('row \<Rightarrow> bool) \<Rightarrow> 'db \<Rightarrow> nat \<times> 'db"

record 'db client =
  c_vpcs :: "('db, vpc_row) docs"
  c_volumes :: "('db, volume_row) docs"
  c_vms :: "('db, vm_row) docs"
  c_snapshots :: "('db, snapshot_row) docs"
  c_pubips :: "('db, pubip_row) docs"
  c_domains :: "('db, domain_row) docs"
  c_tasks :: "('db, task_row) docs"
  c_proxies :: "('db, proxy_row) docs"
  c_nodes :: "('db, node_row) docs"

definition get :: "('db, 'row) docs \<Rightarrow> ('row \<Rightarrow> bool) \<Rightarrow> ('db, 'row option) node_prog" where
  "get t P = gets (\<lambda>w. d_get t P (w_db w))"

definition get_all :: "('db, 'row) docs \<Rightarrow> ('row \<Rightarrow> bool) \<Rightarrow> ('db, 'row list) node_prog" where
  "get_all t P = gets (\<lambda>w. d_all t P (w_db w))"

definition insert_row :: "('db, 'row) docs \<Rightarrow> 'row \<Rightarrow> ('db, unit) node_prog" where
  "insert_row t r = (\<lambda>w. case d_insert t r (w_db w) of
     Inl e \<Rightarrow> (Inl e, w) | Inr d \<Rightarrow> (Inr (), w\<lparr>w_db := d\<rparr>))"

definition update_rows :: "('db, 'row) docs \<Rightarrow> ('row \<Rightarrow> bool) \<Rightarrow> ('row \<Rightarrow> 'row) \<Rightarrow> ('db, unit) node_prog" where
  "update_rows t P f = modify (\<lambda>w. w\<lparr>w_db := d_update t P f (w_db w)\<rparr>)"

definition delete_rows :: "('db, 'row) docs \<Rightarrow> ('row \<Rightarrow> bool) \<Rightarrow> ('db, nat) node_prog" where
  "delete_rows t P = (\<lambda>w. case d_delete t P (w_db w) of (n, d) \<Rightarrow> (Inr n, w\<lparr>w_db := d\<rparr>))"

section \<open>Its laws\<close>

locale table =
  fixes t :: "('db, 'row) docs" and abs :: "'db \<Rightarrow> tables"
    and sel :: "tables \<Rightarrow> 'row list" and upd :: "('row list \<Rightarrow> 'row list) \<Rightarrow> tables \<Rightarrow> tables"
    and clash :: "'row \<Rightarrow> 'row \<Rightarrow> bool" and dflt :: "'row \<Rightarrow> 'row"
  assumes get_None: "d_get t P d = None \<longleftrightarrow> (\<forall>r \<in> set (sel (abs d)). \<not> P r)"
    and get_Some: "d_get t P d = Some r \<Longrightarrow> r \<in> set (sel (abs d)) \<and> P r"
    and all: "d_all t P d = filter P (sel (abs d))"
    and insert_free: "(\<forall>x \<in> set (sel (abs d)). \<not> clash r x) \<Longrightarrow>
      \<exists>d'. d_insert t r d = Inr d' \<and> abs d' = upd (\<lambda>rs. rs @ [dflt r]) (abs d)"
    and insert_clash: "(\<exists>x \<in> set (sel (abs d)). clash r x) \<Longrightarrow> \<exists>m. d_insert t r d = Inl (RqliteError m)"
    and update: "abs (d_update t P f d) = upd (map (\<lambda>r. if P r then f r else r)) (abs d)"
    and delete: "d_delete t P d = (n, d') \<Longrightarrow>
      n = length (filter P (sel (abs d))) \<and> abs d' = upd (filter (\<lambda>r. \<not> P r)) (abs d)"
begin

lemma insert_Inr:
  "d_insert t r d = Inr d' \<Longrightarrow>
   abs d' = upd (\<lambda>rs. rs @ [dflt r]) (abs d) \<and> (\<forall>x \<in> set (sel (abs d)). \<not> clash r x)"
  using insert_free [of d r] insert_clash [of d r] by fastforce

lemma insert_Inl: "d_insert t r d = Inl e \<Longrightarrow> \<exists>m. e = RqliteError m"
  using insert_free [of d r] insert_clash [of d r] by fastforce

lemma insert_run:
  assumes "\<forall>x \<in> set (sel (abs (w_db w))). \<not> clash r x"
  shows "\<exists>d. insert_row t r w = (Inr (), w\<lparr>w_db := d\<rparr>) \<and> abs d = upd (\<lambda>rs. rs @ [dflt r]) (abs (w_db w))"
proof -
  from insert_free [OF assms] obtain d where "d_insert t r (w_db w) = Inr d" "abs d = upd (\<lambda>rs. rs @ [dflt r]) (abs (w_db w))"
    by blast
  then show ?thesis by (intro exI [of _ d]) (simp add: insert_row_def)
qed

lemma get_find:
  assumes "\<And>x y. x \<in> set (sel (abs d)) \<Longrightarrow> y \<in> set (sel (abs d)) \<Longrightarrow> P x \<Longrightarrow> P y \<Longrightarrow> x = y"
  shows "d_get t P d = find P (sel (abs d))"
proof (cases "d_get t P d")
  case None
  then have "find P (sel (abs d)) = None" using get_None [of P d] by (simp add: find_None_iff)
  with None show ?thesis by simp
next
  case (Some r)
  then have "r \<in> set (sel (abs d))" "P r" using get_Some by blast+
  moreover obtain y where "find P (sel (abs d)) = Some y"
    using calculation by (cases "find P (sel (abs d))") (auto simp: find_None_iff)
  then have "find P (sel (abs d)) = Some y" "y \<in> set (sel (abs d))" "P y" by (auto simp: find_Some_iff)
  ultimately show ?thesis using Some assms by auto
qed

lemma get_unique:
  "distinct (map k (sel (abs d))) \<Longrightarrow> r \<in> set (sel (abs d)) \<Longrightarrow> d_get t (\<lambda>x. k x = k r) d = Some r"
proof -
  assume d: "distinct (map k (sel (abs d)))" and r: "r \<in> set (sel (abs d))"
  then obtain x where x: "d_get t (\<lambda>x. k x = k r) d = Some x"
    using get_None [of "\<lambda>x. k x = k r" d] by (cases "d_get t (\<lambda>x. k x = k r) d") auto
  with get_Some have "x \<in> set (sel (abs d))" "k x = k r" by blast+
  with d r have "x = r" by (auto simp: distinct_map dest: inj_onD)
  with x show ?thesis by simp
qed

end

locale dadar =
  vpcs: table "c_vpcs C" abs t_vpcs t_vpcs_update vpc_clash "\<lambda>r. r" +
  volumes: table "c_volumes C" abs t_volumes t_volumes_update "key_clash vo_id" "\<lambda>r. r" +
  vms: table "c_vms C" abs t_vms t_vms_update "key_clash vm_id" vm_defaults +
  snapshots: table "c_snapshots C" abs t_snapshots t_snapshots_update "key_clash sn_id" "\<lambda>r. r" +
  pubips: table "c_pubips C" abs t_pubips t_pubips_update "key_clash pi_id" "\<lambda>r. r" +
  domains: table "c_domains C" abs t_domains t_domains_update domain_clash "\<lambda>r. r" +
  tasks: table "c_tasks C" abs t_tasks t_tasks_update "key_clash ta_id" "\<lambda>r. r" +
  proxies: table "c_proxies C" abs t_proxies t_proxies_update proxy_clash "\<lambda>r. r" +
  nodes: table "c_nodes C" abs t_nodes t_nodes_update "key_clash nd_id" "\<lambda>r. r"
  for C :: "'db client" and abs :: "'db \<Rightarrow> tables"

section \<open>Lists of rows keep the laws\<close>

definition list_docs ::
  "(tables \<Rightarrow> 'row list) \<Rightarrow> (('row list \<Rightarrow> 'row list) \<Rightarrow> tables \<Rightarrow> tables) \<Rightarrow>
   ('row \<Rightarrow> 'row \<Rightarrow> bool) \<Rightarrow> ('row \<Rightarrow> 'row) \<Rightarrow> (tables, 'row) docs" where
  "list_docs sel upd clash dflt =
     \<lparr>d_get = (\<lambda>P d. find P (sel d)),
      d_all = (\<lambda>P d. filter P (sel d)),
      d_insert = (\<lambda>r d. if list_ex (clash r) (sel d) then Inl (RqliteError ''UNIQUE constraint failed'')
                        else Inr (upd (\<lambda>rs. rs @ [dflt r]) d)),
      d_update = (\<lambda>P f. upd (map (\<lambda>r. if P r then f r else r))),
      d_delete = (\<lambda>P d. (length (filter P (sel d)), upd (filter (\<lambda>r. \<not> P r)) d))\<rparr>"

definition list_client :: "tables client" where
  "list_client =
     \<lparr>c_vpcs = list_docs t_vpcs t_vpcs_update vpc_clash (\<lambda>r. r),
      c_volumes = list_docs t_volumes t_volumes_update (key_clash vo_id) (\<lambda>r. r),
      c_vms = list_docs t_vms t_vms_update (key_clash vm_id) vm_defaults,
      c_snapshots = list_docs t_snapshots t_snapshots_update (key_clash sn_id) (\<lambda>r. r),
      c_pubips = list_docs t_pubips t_pubips_update (key_clash pi_id) (\<lambda>r. r),
      c_domains = list_docs t_domains t_domains_update domain_clash (\<lambda>r. r),
      c_tasks = list_docs t_tasks t_tasks_update (key_clash ta_id) (\<lambda>r. r),
      c_proxies = list_docs t_proxies t_proxies_update proxy_clash (\<lambda>r. r),
      c_nodes = list_docs t_nodes t_nodes_update (key_clash nd_id) (\<lambda>r. r)\<rparr>"

definition no_rows :: tables where
  "no_rows = \<lparr>t_vpcs = [], t_volumes = [], t_vms = [], t_snapshots = [], t_pubips = [], t_domains = [],
     t_tasks = [], t_proxies = [], t_nodes = []\<rparr>"

interpretation list_table: table "list_docs sel upd clash dflt" "\<lambda>d. d" sel upd clash dflt
  for sel upd clash dflt
  by unfold_locales
     (auto simp: list_docs_def find_None_iff find_Some_iff list_ex_iff)

interpretation lists: dadar list_client "\<lambda>d. d"
  unfolding dadar_def list_client_def by (simp add: list_table.table_axioms)

end
