(* ===== verification/Routers.thy ===== *)
theory Routers
  imports Tables
begin

text \<open>
  \<open>nyc/routers\<close>, first part: forwarding to the owner node (\<open>_proxy.py\<close>), VPCs, volumes, snapshots
  and images, tasks and domains. A handler takes the store and, where the code asks for it, the
  id of the node it runs on; its error responses are \<open>HTTPException\<close>. A handler that may forward
  returns its own row or the other node's JSON.
\<close>

section \<open>Forwarding\<close>

datatype 'a reply = Local 'a | Remote json

definition base_url :: "'db client \<Rightarrow> string \<Rightarrow> ('db, string) node_prog" where
  "base_url C n =
     bnd (get (c_nodes C) (\<lambda>r. nd_id r = n)) (\<lambda>row. case row of
       None \<Rightarrow> raise (HTTPException 404 (''unknown node '' @ n))
     | Some r \<Rightarrow> ret (''http://'' @ (case nd_host r of None \<Rightarrow> ''None'' | Some h \<Rightarrow> h)
                      @ '':'' @ str_int (nd_port r)))"

text \<open>\<open>httpx.request\<close>, which runs the other node's handler on the shared database\<close>

definition http :: "http_req \<Rightarrow> ('db, http_resp) node_prog" where
  "http rq = (\<lambda>w. case w_http w rq (w_db w) of (r, d) \<Rightarrow> (r, w\<lparr>w_db := d\<rparr>))"

definition forward ::
  "'db client \<Rightarrow> string \<Rightarrow> string \<Rightarrow> string \<Rightarrow> json option \<Rightarrow> (string \<times> string) list \<Rightarrow> ('db, json) node_prog" where
  "forward C n meth path body headers =
     bnd (base_url C n) (\<lambda>base.
     bnd (http \<lparr>rq_method = meth, rq_url = base @ path, rq_json = body, rq_headers = headers\<rparr>) (\<lambda>resp.
       if 400 \<le> rs_status resp then raise (HTTPException (int (rs_status resp)) (rs_text resp))
       else ret (if rs_text resp = [] then JObj [] else rs_json resp)))"

definition forwarded ::
  "'db client \<Rightarrow> string \<Rightarrow> string \<Rightarrow> string \<Rightarrow> json option \<Rightarrow> (string \<times> string) list \<Rightarrow> ('db, 'a reply) node_prog" where
  "forwarded C n meth path body headers = bnd (forward C n meth path body headers) (\<lambda>j. ret (Remote j))"

definition locally :: "('db, 'a) node_prog \<Rightarrow> ('db, 'a reply) node_prog" where
  "locally m = bnd m (\<lambda>x. ret (Local x))"

definition j_opt :: "string option \<Rightarrow> json" where
  "j_opt x = (case x of None \<Rightarrow> JNull | Some s \<Rightarrow> JStr s)"

definition or_404 :: "string \<Rightarrow> 'a option \<Rightarrow> ('db, 'a) node_prog" where
  "or_404 what x = (case x of None \<Rightarrow> raise (HTTPException 404 (what @ '' not found'')) | Some r \<Rightarrow> ret r)"

section \<open>VPCs\<close>

record vpc_in =
  vi_name :: string
  vi_cidr :: string

definition list_vpcs :: "'db client \<Rightarrow> ('db, vpc_row list) node_prog" where
  "list_vpcs C = get_all (c_vpcs C) (\<lambda>_. True)"

definition validate_cidr :: "string \<Rightarrow> ('db, unit) node_prog" where
  "validate_cidr cidr =
     (case ip_network cidr of
        Inl (ValueError m) \<Rightarrow> raise (HTTPException 400 (''invalid cidr: '' @ m))
      | Inl e \<Rightarrow> raise e
      | Inr _ \<Rightarrow> ret ())"

definition create_vpc :: "'db client \<Rightarrow> vpc_in \<Rightarrow> ('db, vpc_row) node_prog" where
  "create_vpc C body =
     andThen (validate_cidr (vi_cidr body))
    (bnd uuid4 (\<lambda>i. bnd now (\<lambda>t.
     let row = \<lparr>vp_id = i, vp_name = vi_name body, vp_cidr = vi_cidr body, vp_created = t\<rparr> in
     andThen (except (insert_row (c_vpcs C) row)
                (\<lambda>e. case e of RqliteError m \<Rightarrow> raise (HTTPException 409 m) | _ \<Rightarrow> raise e))
             (ret row))))"

definition get_vpc :: "'db client \<Rightarrow> string \<Rightarrow> ('db, vpc_row) node_prog" where
  "get_vpc C i = bnd (get (c_vpcs C) (\<lambda>r. vp_id r = i)) (or_404 ''vpc'')"

definition delete_vpc :: "'db client \<Rightarrow> string \<Rightarrow> ('db, unit) node_prog" where
  "delete_vpc C i =
     bnd (get (c_vms C) (\<lambda>r. vm_vpc r = i)) (\<lambda>v.
       if v \<noteq> None then raise (HTTPException 409 ''vpc still has vms'')
       else bnd (delete_rows (c_vpcs C) (\<lambda>r. vp_id r = i)) (\<lambda>n.
         if n = 0 then raise (HTTPException 404 ''vpc not found'') else ret ()))"

section \<open>Volumes\<close>

record volume_in =
  oi_name :: string
  oi_size :: int
  oi_node :: "string option"
  oi_from :: "string option"

definition volume_json :: "volume_in \<Rightarrow> json" where
  "volume_json b = JObj [(''name'', JStr (oi_name b)), (''size_mb'', JInt (oi_size b)),
     (''node_id'', j_opt (oi_node b)), (''from_snapshot'', j_opt (oi_from b))]"

definition list_volumes :: "'db client \<Rightarrow> ('db, volume_row list) node_prog" where
  "list_volumes C = get_all (c_volumes C) (\<lambda>_. True)"

definition provision :: "'db client \<Rightarrow> volume_in \<Rightarrow> string \<Rightarrow> string \<Rightarrow> string \<Rightarrow> ('db, string \<times> int) node_prog" where
  "provision C body vg name n =
     (case truthy_str (oi_from body) of
        None \<Rightarrow> bnd lvm (\<lambda>cfg. bnd (vol_create vg (lc_thinpool cfg) name (oi_size body)) (\<lambda>dev.
                  ret (dev, oi_size body)))
      | Some s \<Rightarrow>
          bnd (get (c_snapshots C) (\<lambda>r. sn_id r = s)) (\<lambda>snap. case snap of
            None \<Rightarrow> raise (HTTPException 400 ''unknown or remote from_snapshot'')
          | Some r \<Rightarrow>
              if sn_node r \<noteq> n then raise (HTTPException 400 ''unknown or remote from_snapshot'')
              else bnd (vol_from_snapshot vg (sn_lv r) name) (\<lambda>dev. ret (dev, sn_size r))))"

definition create_volume_local :: "'db client \<Rightarrow> volume_in \<Rightarrow> string \<Rightarrow> ('db, volume_row) node_prog" where
  "create_volume_local C body n =
     bnd uuid4 (\<lambda>i.
     bnd (volume_vg n) (\<lambda>vg.
     bnd (provision C body vg (data_name i) n) (\<lambda>(dev, size_mb).
     bnd now (\<lambda>t.
     let row = \<lparr>vo_id = i, vo_node = n, vo_name = oi_name body, vo_size = size_mb, vo_path = dev,
                vo_status = ''ready'', vo_created = t\<rparr> in
     andThen (insert_row (c_volumes C) row) (ret row)))))"

definition create_volume :: "'db client \<Rightarrow> string \<Rightarrow> volume_in \<Rightarrow> ('db, volume_row reply) node_prog" where
  "create_volume C me body =
     (let target = (case truthy_str (oi_node body) of Some n \<Rightarrow> n | None \<Rightarrow> me) in
      if target \<noteq> me then forwarded C target ''POST'' ''/volumes'' (Some (volume_json body)) []
      else locally (create_volume_local C body target))"

definition get_volume :: "'db client \<Rightarrow> string \<Rightarrow> ('db, volume_row) node_prog" where
  "get_volume C i = bnd (get (c_volumes C) (\<lambda>r. vo_id r = i)) (or_404 ''volume'')"

definition resize_local :: "'db client \<Rightarrow> volume_row \<Rightarrow> int \<Rightarrow> ('db, volume_row) node_prog" where
  "resize_local C row size_mb =
     bnd (volume_vg (vo_node row)) (\<lambda>vg.
     andThen (lv_extend vg (data_name (vo_id row)) size_mb)
    (andThen (update_rows (c_volumes C) (\<lambda>r. vo_id r = vo_id row) (\<lambda>r. r\<lparr>vo_size := size_mb\<rparr>))
             (ret (row\<lparr>vo_size := size_mb\<rparr>))))"

record resize_in =
  ri_size :: int

definition resize_json :: "resize_in \<Rightarrow> json" where
  "resize_json b = JObj [(''size_mb'', JInt (ri_size b))]"

definition resize_volume :: "'db client \<Rightarrow> string \<Rightarrow> string \<Rightarrow> resize_in \<Rightarrow> ('db, volume_row reply) node_prog" where
  "resize_volume C me i body =
     bnd (bnd (get (c_volumes C) (\<lambda>r. vo_id r = i)) (or_404 ''volume'')) (\<lambda>row.
       if vo_node row \<noteq> me
       then forwarded C (vo_node row) ''PATCH'' (''/volumes/'' @ i) (Some (resize_json body)) []
       else locally (resize_local C row (ri_size body)))"

definition delete_volume_local :: "'db client \<Rightarrow> volume_row \<Rightarrow> ('db, unit) node_prog" where
  "delete_volume_local C row =
     bnd (get (c_vms C) (\<lambda>r. vm_volume r = Some (vo_id row))) (\<lambda>v.
       if v \<noteq> None then raise (HTTPException 409 ''volume attached to a vm'')
       else bnd (volume_vg (vo_node row)) (\<lambda>vg.
         andThen (vol_delete vg (data_name (vo_id row)))
        (bnd (delete_rows (c_volumes C) (\<lambda>r. vo_id r = vo_id row)) (\<lambda>_. ret ()))))"

definition delete_volume :: "'db client \<Rightarrow> string \<Rightarrow> string \<Rightarrow> ('db, unit) node_prog" where
  "delete_volume C me i =
     bnd (bnd (get (c_volumes C) (\<lambda>r. vo_id r = i)) (or_404 ''volume'')) (\<lambda>row.
       if vo_node row \<noteq> me
       then andThen (forward C (vo_node row) ''DELETE'' (''/volumes/'' @ i) None []) (ret ())
       else delete_volume_local C row)"

section \<open>Snapshots and images\<close>

record snapshot_in =
  si_name :: string
  si_volume :: "string option"
  si_vm :: "string option"

record image_in =
  ii_name :: string
  ii_from :: string

record source =
  so_node :: string
  so_parent :: string
  so_lv :: string
  so_size :: int
  so_disk :: string

definition list_snapshots :: "'db client \<Rightarrow> ('db, snapshot_row list) node_prog" where
  "list_snapshots C = get_all (c_snapshots C) (\<lambda>r. sn_role r = ''snapshot'')"

definition list_images :: "'db client \<Rightarrow> ('db, snapshot_row list) node_prog" where
  "list_images C = get_all (c_snapshots C) (\<lambda>r. sn_role r = ''golden'')"

definition resolve_source :: "'db client \<Rightarrow> snapshot_in \<Rightarrow> ('db, source) node_prog" where
  "resolve_source C body =
     (let vol = truthy_str (si_volume body); vm = truthy_str (si_vm body) in
      if (vol \<noteq> None) = (vm \<noteq> None)
      then raise (HTTPException 400 ''give exactly one of volume_id or vm_id'')
      else case vol of
        Some v \<Rightarrow>
          bnd (get (c_volumes C) (\<lambda>r. vo_id r = v)) (\<lambda>row. case row of
            None \<Rightarrow> raise (HTTPException 400 ''unknown volume_id'')
          | Some r \<Rightarrow> ret \<lparr>so_node = vo_node r, so_parent = vo_id r, so_lv = data_name (vo_id r),
                           so_size = vo_size r, so_disk = ''data''\<rparr>)
      | None \<Rightarrow>
          bnd (get (c_vms C) (\<lambda>r. Some (vm_id r) = si_vm body)) (\<lambda>row. case row of
            None \<Rightarrow> raise (HTTPException 400 ''unknown vm_id'')
          | Some r \<Rightarrow> ret \<lparr>so_node = vm_node r, so_parent = vm_id r, so_lv = rootfs_name (vm_id r),
                           so_size = 0, so_disk = ''root''\<rparr>))"

definition create_snapshot_local :: "'db client \<Rightarrow> snapshot_in \<Rightarrow> source \<Rightarrow> ('db, snapshot_row) node_prog" where
  "create_snapshot_local C body src =
     bnd uuid4 (\<lambda>i.
     bnd (volume_vg (so_node src)) (\<lambda>vg.
     bnd (snap_create vg (so_lv src) i) (\<lambda>_.
     bnd now (\<lambda>t.
     let row = \<lparr>sn_id = i, sn_node = so_node src, sn_name = si_name body, sn_role = ''snapshot'',
                sn_disk = so_disk src, sn_parent = Some (so_parent src), sn_lv = snap_name i,
                sn_size = so_size src, sn_created = t\<rparr> in
     andThen (insert_row (c_snapshots C) row) (ret row)))))"

definition create_snapshot :: "'db client \<Rightarrow> string \<Rightarrow> snapshot_in \<Rightarrow> ('db, snapshot_row reply) node_prog" where
  "create_snapshot C me body =
     bnd (resolve_source C body) (\<lambda>src.
       if so_node src \<noteq> me
       then forwarded C (so_node src) ''POST'' ''/snapshots''
              (Some (JObj [(''name'', JStr (si_name body)), (''volume_id'', j_opt (si_volume body)),
                           (''vm_id'', j_opt (si_vm body))])) []
       else locally (create_snapshot_local C body src))"

definition get_or_404 :: "'db client \<Rightarrow> string \<Rightarrow> string \<Rightarrow> ('db, snapshot_row) node_prog" where
  "get_or_404 C i role = bnd (get (c_snapshots C) (\<lambda>r. sn_id r = i \<and> sn_role r = role)) (or_404 role)"

definition get_snapshot :: "'db client \<Rightarrow> string \<Rightarrow> ('db, snapshot_row) node_prog" where
  "get_snapshot C i = get_or_404 C i ''snapshot''"

definition get_image :: "'db client \<Rightarrow> string \<Rightarrow> ('db, snapshot_row) node_prog" where
  "get_image C i = get_or_404 C i ''golden''"

definition delete_role :: "'db client \<Rightarrow> string \<Rightarrow> string \<Rightarrow> string \<Rightarrow> string \<Rightarrow> ('db, unit) node_prog" where
  "delete_role C me i role prefix' =
     bnd (get_or_404 C i role) (\<lambda>row.
       if sn_node row \<noteq> me
       then andThen (forward C (sn_node row) ''DELETE'' (prefix' @ ''/'' @ i) None []) (ret ())
       else bnd (volume_vg (sn_node row)) (\<lambda>vg.
         andThen (snap_remove vg (sn_lv row))
        (bnd (delete_rows (c_snapshots C) (\<lambda>r. sn_id r = i)) (\<lambda>_. ret ()))))"

definition delete_snapshot :: "'db client \<Rightarrow> string \<Rightarrow> string \<Rightarrow> ('db, unit) node_prog" where
  "delete_snapshot C me i = delete_role C me i ''snapshot'' ''/snapshots''"

definition delete_image :: "'db client \<Rightarrow> string \<Rightarrow> string \<Rightarrow> ('db, unit) node_prog" where
  "delete_image C me i = delete_role C me i ''golden'' ''/images''"

definition create_image_local :: "'db client \<Rightarrow> image_in \<Rightarrow> snapshot_row \<Rightarrow> string \<Rightarrow> ('db, snapshot_row) node_prog" where
  "create_image_local C body snap n =
     bnd uuid4 (\<lambda>g.
     bnd (volume_vg n) (\<lambda>vg.
     bnd (snap_golden vg (sn_id snap) g) (\<lambda>_.
     bnd now (\<lambda>t.
     let row = \<lparr>sn_id = g, sn_node = n, sn_name = ii_name body, sn_role = ''golden'',
                sn_disk = sn_disk snap, sn_parent = Some (sn_id snap), sn_lv = gold_name g,
                sn_size = sn_size snap, sn_created = t\<rparr> in
     andThen (insert_row (c_snapshots C) row) (ret row)))))"

definition create_image :: "'db client \<Rightarrow> string \<Rightarrow> image_in \<Rightarrow> ('db, snapshot_row reply) node_prog" where
  "create_image C me body =
     bnd (get (c_snapshots C) (\<lambda>r. sn_id r = ii_from body \<and> sn_role r = ''snapshot'')) (\<lambda>snap. case snap of
       None \<Rightarrow> raise (HTTPException 400 ''unknown from_snapshot'')
     | Some r \<Rightarrow>
         if sn_node r \<noteq> me
         then forwarded C (sn_node r) ''POST'' ''/images''
                (Some (JObj [(''name'', JStr (ii_name body)), (''from_snapshot'', JStr (ii_from body))])) []
         else locally (create_image_local C body r (sn_node r)))"

section \<open>Tasks\<close>

record task_in =
  ti_type :: string
  ti_params :: "json option"

definition list_tasks :: "'db client \<Rightarrow> ('db, task_row list) node_prog" where
  "list_tasks C = get_all (c_tasks C) (\<lambda>_. True)"

definition get_task :: "'db client \<Rightarrow> string \<Rightarrow> ('db, task_row) node_prog" where
  "get_task C i = bnd (get (c_tasks C) (\<lambda>r. ta_id r = i)) (or_404 ''task'')"

text \<open>A new pending task; \<open>_insert_task\<close> of \<open>domains.py\<close> and \<open>_task_row\<close> of \<open>proxy.py\<close> build it alike.\<close>

definition task_row_of :: "string \<Rightarrow> string \<Rightarrow> string \<Rightarrow> string \<Rightarrow> string option \<Rightarrow> int \<Rightarrow> task_row" where
  "task_row_of i vm n ty params t =
     \<lparr>ta_id = i, ta_node = n, ta_vm = vm, ta_type = ty, ta_params = params, ta_status = ''pending'',
      ta_result = None, ta_created = t, ta_updated = t\<rparr>"

definition create_task :: "'db client \<Rightarrow> string \<Rightarrow> task_in \<Rightarrow> ('db, task_row) node_prog" where
  "create_task C vmid body =
     bnd (bnd (get (c_vms C) (\<lambda>r. vm_id r = vmid)) (or_404 ''vm'')) (\<lambda>vm.
     bnd now (\<lambda>t. bnd uuid4 (\<lambda>i.
     let row = task_row_of i vmid (vm_node vm) (ti_type body)
                 (case ti_params body of None \<Rightarrow> None
                  | Some p \<Rightarrow> if p = JObj [] then None else Some (dumps_flat p)) t in
     andThen (insert_row (c_tasks C) row) (ret row))))"

section \<open>Domains\<close>

record domain_in =
  di_vm :: string
  di_port :: int
  di_subdomain :: "string option"
  di_fqdn :: "string option"

definition list_domains :: "'db client \<Rightarrow> ('db, domain_row list) node_prog" where
  "list_domains C = get_all (c_domains C) (\<lambda>_. True)"

definition resolve_fqdn :: "domain_in \<Rightarrow> ('db, string) node_prog" where
  "resolve_fqdn body =
     (case truthy_str (di_fqdn body) of
        Some f \<Rightarrow> ret f
      | None \<Rightarrow>
          (case truthy_str (di_subdomain body) of
             None \<Rightarrow> raise (HTTPException 400 ''supply subdomain or fqdn'')
           | Some s \<Rightarrow>
               bnd cluster_domain (\<lambda>root. case truthy_str root of
                 None \<Rightarrow> raise (HTTPException 400 ''cluster domain not configured; supply fqdn directly'')
               | Some r \<Rightarrow> ret (s @ ''.'' @ r))))"

definition insert_task :: "'db client \<Rightarrow> string \<Rightarrow> string \<Rightarrow> string \<Rightarrow> string option \<Rightarrow> ('db, task_row) node_prog" where
  "insert_task C vm n ty params =
     bnd now (\<lambda>t. bnd uuid4 (\<lambda>i.
     let row = task_row_of i vm n ty params t in
     andThen (insert_row (c_tasks C) row) (ret row)))"

definition enqueue_reload :: "'db client \<Rightarrow> string \<Rightarrow> ('db, unit) node_prog" where
  "enqueue_reload C vmid =
     bnd (get (c_vms C) (\<lambda>r. vm_id r = vmid)) (\<lambda>vm. case vm of
       None \<Rightarrow> ret ()
     | Some v \<Rightarrow>
         bnd (get (c_proxies C) (\<lambda>r. px_vpc r = vm_vpc v)) (\<lambda>proxy. case proxy of
           None \<Rightarrow> ret ()
         | Some p \<Rightarrow> bnd (insert_task C (px_vm p) (px_node p) ''proxy_reload'' None) (\<lambda>_. ret ())))"

definition create_domain :: "'db client \<Rightarrow> domain_in \<Rightarrow> ('db, domain_row) node_prog" where
  "create_domain C body =
     bnd (resolve_fqdn body) (\<lambda>fqdn.
     bnd (bnd (get (c_vms C) (\<lambda>r. vm_id r = di_vm body)) (or_404 ''vm'')) (\<lambda>_.
     bnd uuid4 (\<lambda>i. bnd now (\<lambda>t.
     let row = \<lparr>do_id = i, do_fqdn = fqdn, do_vm = di_vm body, do_port = di_port body, do_created = t\<rparr> in
     andThen (insert_row (c_domains C) row)
    (andThen (enqueue_reload C (di_vm body)) (ret row))))))"

definition delete_domain :: "'db client \<Rightarrow> string \<Rightarrow> ('db, unit) node_prog" where
  "delete_domain C i =
     bnd (bnd (get (c_domains C) (\<lambda>r. do_id r = i)) (or_404 ''domain'')) (\<lambda>row.
     bnd (delete_rows (c_domains C) (\<lambda>r. do_id r = i)) (\<lambda>_.
     enqueue_reload C (do_vm row)))"

end
