(* ===== verification/VmRouters.thy ===== *)
theory VmRouters
  imports Routers
begin

text \<open>
  \<open>nyc/routers\<close>, second part: the default VPC (\<open>defaults.py\<close>), a node's peers (\<open>peers.py\<close>), the
  teardown cascade (\<open>client/vm_deps.py\<close>), VMs, public addresses, and the reverse proxy.
\<close>

section \<open>Defaults, peers, teardown\<close>

definition DEFAULT_VPC_NAME :: string where "DEFAULT_VPC_NAME = ''default''"
definition DEFAULT_VPC_CIDR :: string where "DEFAULT_VPC_CIDR = ''172.16.0.0/16''"

definition ensure_default_vpc :: "'db client \<Rightarrow> ('db, vpc_row) node_prog" where
  "ensure_default_vpc C =
     bnd (get (c_vpcs C) (\<lambda>r. vp_name r = DEFAULT_VPC_NAME)) (\<lambda>existing. case existing of
       Some r \<Rightarrow> ret r
     | None \<Rightarrow>
         bnd uuid4 (\<lambda>i. bnd now (\<lambda>t.
         let row = \<lparr>vp_id = i, vp_name = DEFAULT_VPC_NAME, vp_cidr = DEFAULT_VPC_CIDR, vp_created = t\<rparr> in
         except (andThen (insert_row (c_vpcs C) row) (ret row))
           (\<lambda>e. case e of
              RqliteError _ \<Rightarrow>
                bnd (get (c_vpcs C) (\<lambda>r. vp_name r = DEFAULT_VPC_NAME)) (\<lambda>x. case x of
                  Some r \<Rightarrow> ret r | None \<Rightarrow> raise (TypeError ''None has no __dict__''))
            | _ \<Rightarrow> raise e))))"

definition node_host :: "'db client \<Rightarrow> string \<Rightarrow> ('db, string option) node_prog" where
  "node_host C n =
     bnd (get (c_nodes C) (\<lambda>r. nd_id r = n)) (\<lambda>row.
       ret (case row of None \<Rightarrow> Some ''127.0.0.1'' | Some r \<Rightarrow> nd_host r))"

definition peer_hosts :: "'db client \<Rightarrow> string \<Rightarrow> ('db, string list) node_prog" where
  "peer_hosts C n =
     bnd (get_all (c_nodes C) (\<lambda>_. True)) (\<lambda>rows.
       ret (map (\<lambda>r. the (nd_host r)) (filter (\<lambda>r. nd_id r \<noteq> n \<and> nd_host r \<notin> LOOPBACK) rows)))"

definition deps_public_ip :: "'db client \<Rightarrow> string \<Rightarrow> ('db, unit) node_prog" where
  "deps_public_ip C i =
     bnd (get (c_pubips C) (\<lambda>r. pi_vm r = Some i \<and> pi_status r = ''attached'')) (\<lambda>pip. case pip of
       None \<Rightarrow> ret ()
     | Some p \<Rightarrow> bnd (delete_rows (c_pubips C) (\<lambda>r. pi_id r = pi_id p)) (\<lambda>_. ret ()))"

definition teardown_deps :: "'db client \<Rightarrow> string \<Rightarrow> ('db, unit) node_prog" where
  "teardown_deps C i =
     andThen (deps_public_ip C i)
    (bnd (delete_rows (c_domains C) (\<lambda>r. do_vm r = i)) (\<lambda>_.
     bnd (get (c_proxies C) (\<lambda>r. px_vm r = i)) (\<lambda>proxy. case proxy of
       None \<Rightarrow> ret ()
     | Some _ \<Rightarrow> bnd (delete_rows (c_proxies C) (\<lambda>r. px_vm r = i)) (\<lambda>_. ret ()))))"

section \<open>Requests\<close>

record vm_in =
  mi_name :: string
  mi_vpc :: string
  mi_volume :: "string option"
  mi_node :: "string option"

record spawn_in =
  wi_name :: string
  wi_ssh_key :: string
  wi_size :: int
  wi_vcpu :: int
  wi_mem :: int
  wi_root_image :: "string option"
  wi_data_image :: "string option"

definition vm_in_json :: "vm_in \<Rightarrow> json" where
  "vm_in_json b = JObj [(''name'', JStr (mi_name b)), (''vpc_id'', JStr (mi_vpc b)),
     (''data_volume_id'', j_opt (mi_volume b)), (''node_id'', j_opt (mi_node b))]"

definition spawn_json :: "spawn_in \<Rightarrow> json" where
  "spawn_json b = JObj [(''vm_name'', JStr (wi_name b)), (''ssh_key'', JStr (wi_ssh_key b)),
     (''size_mb'', JInt (wi_size b)), (''vcpu_count'', JInt (wi_vcpu b)), (''mem_mib'', JInt (wi_mem b)),
     (''root_image'', j_opt (wi_root_image b)), (''data_image'', j_opt (wi_data_image b))]"

section \<open>Bringing a VM up from its row\<close>

definition used_ips :: "'db client \<Rightarrow> string \<Rightarrow> ('db, string set) node_prog" where
  "used_ips C vpc = bnd (get_all (c_vms C) (\<lambda>r. vm_vpc r = vpc)) (\<lambda>rows. ret (vm_ip ` set rows))"

definition pubip_spec_of :: "pubip_row \<Rightarrow> pubip_spec" where
  "pubip_spec_of p =
     \<lparr>ps_address = pi_address p,
      ps_prefix = (if pi_prefix p = [] then ''32'' else pi_prefix p),
      ps_gateway = (case pi_gateway p of None \<Rightarrow> [] | Some g \<Rightarrow> g),
      ps_mac = pi_mac p\<rparr>"

definition spec_of ::
  "'db client \<Rightarrow> vm_row \<Rightarrow> string \<Rightarrow> string option \<Rightarrow> string option \<Rightarrow> string \<Rightarrow> ('db, vm_spec) node_prog" where
  "spec_of C row cidr vol_path ssh_pubkey rootfs_origin =
     bnd resolve (\<lambda>paths.
     bnd (get (c_pubips C) (\<lambda>r. pi_vm r = Some (vm_id row) \<and> pi_status r = ''attached'')) (\<lambda>pip.
     bnd (firecracker_bin paths) (\<lambda>bin.
     bnd (volume_vg (vm_node row)) (\<lambda>vg.
     bnd (node_host C (vm_node row)) (\<lambda>host.
     bnd (peer_hosts C (vm_node row)) (\<lambda>peers.
     bnd (environ ''NYC_VM_DNS'') (\<lambda>dns.
     ret \<lparr>vs_vm_id = vm_id row, vs_vm_name = vm_name row, vs_node_id = vm_node row, vs_vpc_id = vm_vpc row,
          vs_ip = vm_ip row, vs_cidr = cidr, vs_data_volume_path = vol_path,
          vs_assets = \<lparr>as_kernel = kernel_path paths, as_ssh_key = ssh_key_path paths\<rparr>,
          vs_vms_dir = vms_dir paths, vs_firecracker_bin = bin, vs_vg = vg, vs_node_host = host,
          vs_peer_hosts = peers, vs_dns = (case dns of None \<Rightarrow> ''1.1.1.1'' | Some d \<Rightarrow> d),
          vs_ssh_pubkey = ssh_pubkey,
          vs_vcpu_count = (case vm_vcpu row of None \<Rightarrow> 1 | Some n \<Rightarrow> n),
          vs_mem_mib = (case vm_mem row of None \<Rightarrow> 512 | Some n \<Rightarrow> n),
          vs_rootfs_origin = rootfs_origin, vs_public_ip = map_option pubip_spec_of pip\<rparr>)))))))"

definition bring_up ::
  "'db client \<Rightarrow> vm_row \<Rightarrow> string \<Rightarrow> string option \<Rightarrow> string option \<Rightarrow> string \<Rightarrow> ('db, vm_row) node_prog" where
  "bring_up C row cidr vol_path ssh_pubkey rootfs_origin =
     bnd (spec_of C row cidr vol_path ssh_pubkey rootfs_origin) (\<lambda>spec.
     bnd (vm_up spec) (\<lambda>_.
     andThen (update_rows (c_vms C) (\<lambda>r. vm_id r = vm_id row) (\<lambda>r. r\<lparr>vm_status := ''running''\<rparr>))
             (ret (row\<lparr>vm_status := ''running''\<rparr>))))"

definition recreate_vm :: "'db client \<Rightarrow> string \<Rightarrow> ('db, unit) node_prog" where
  "recreate_vm C i =
     bnd (get (c_vms C) (\<lambda>r. vm_id r = i)) (\<lambda>row. case row of
       None \<Rightarrow> ret ()
     | Some d \<Rightarrow>
         bnd resolve (\<lambda>paths.
         bnd (volume_vg (vm_node d)) (\<lambda>vg.
         andThen (vm_down (vms_dir paths) i vg)
        (bnd (get (c_vpcs C) (\<lambda>r. vp_id r = vm_vpc d)) (\<lambda>vpc. case vpc of
           None \<Rightarrow> ret ()
         | Some v \<Rightarrow>
             bnd (case truthy_str (vm_volume d) of
                    None \<Rightarrow> ret None
                  | Some k \<Rightarrow> bnd (get (c_volumes C) (\<lambda>r. vo_id r = k)) (\<lambda>x. ret (map_option vo_path x)))
               (\<lambda>vol_path. bnd (bring_up C d (vp_cidr v) vol_path None GOLD_DEFAULT) (\<lambda>_. ret ())))))))"

section \<open>Creating VMs\<close>

definition vpc_or_400 :: "'db client \<Rightarrow> string \<Rightarrow> ('db, vpc_row) node_prog" where
  "vpc_or_400 C i = bnd (get (c_vpcs C) (\<lambda>r. vp_id r = i)) (\<lambda>x. case x of
     None \<Rightarrow> raise (HTTPException 400 ''unknown vpc_id'') | Some r \<Rightarrow> ret r)"

definition volume_path :: "'db client \<Rightarrow> string \<Rightarrow> ('db, string) node_prog" where
  "volume_path C i = bnd (get (c_volumes C) (\<lambda>r. vo_id r = i)) (\<lambda>x. case x of
     None \<Rightarrow> raise (HTTPException 400 ''unknown data_volume_id'') | Some r \<Rightarrow> ret (vo_path r))"

definition row_of :: "vm_in \<Rightarrow> string \<Rightarrow> string \<Rightarrow> ('db, vm_row) node_prog" where
  "row_of body n ip =
     bnd resolve (\<lambda>paths. bnd uuid4 (\<lambda>i. bnd now (\<lambda>t.
     ret \<lparr>vm_id = i, vm_node = n, vm_name = mi_name body, vm_vpc = mi_vpc body, vm_volume = mi_volume body,
          vm_ip = ip, vm_ssh = Some (path_str (ssh_key_path paths) @ ''.pub''), vm_vcpu = None, vm_mem = None,
          vm_status = ''pending'', vm_created = t\<rparr>)))"

definition create_vm_local :: "'db client \<Rightarrow> vm_in \<Rightarrow> string \<Rightarrow> ('db, vm_row) node_prog" where
  "create_vm_local C body n =
     bnd (vpc_or_400 C (mi_vpc body)) (\<lambda>vpc.
     bnd (case truthy_str (mi_volume body) of
            None \<Rightarrow> ret None
          | Some v \<Rightarrow> bnd (volume_path C v) (\<lambda>p. ret (Some p))) (\<lambda>vol_path.
     bnd (used_ips C (mi_vpc body)) (\<lambda>used.
     bnd (of_sum (pick_ip (vp_cidr vpc) used)) (\<lambda>ip.
     bnd (row_of body n ip) (\<lambda>row.
     andThen (insert_row (c_vms C) row)
             (bring_up C row (vp_cidr vpc) vol_path None GOLD_DEFAULT))))))"

definition create_vm :: "'db client \<Rightarrow> string \<Rightarrow> vm_in \<Rightarrow> ('db, vm_row reply) node_prog" where
  "create_vm C me body =
     (let target = (case truthy_str (mi_node body) of Some n \<Rightarrow> n | None \<Rightarrow> me) in
      if target \<noteq> me then forwarded C target ''POST'' ''/vms'' (Some (vm_in_json body)) []
      else locally (create_vm_local C body target))"

definition image_or_400 :: "'db client \<Rightarrow> string \<Rightarrow> ('db, snapshot_row) node_prog" where
  "image_or_400 C i = bnd (get (c_snapshots C) (\<lambda>r. sn_id r = i \<and> sn_role r = ''golden'')) (\<lambda>x. case x of
     None \<Rightarrow> raise (HTTPException 400 ''unknown image'') | Some r \<Rightarrow> ret r)"

definition random_node :: "'db client \<Rightarrow> ('db, string) node_prog" where
  "random_node C = bnd (get_all (c_nodes C) (\<lambda>_. True)) (\<lambda>rows.
     if rows = [] then raise (HTTPException 503 ''no nodes registered'')
     else bnd (choice rows) (\<lambda>r. ret (nd_id r)))"

definition target_node :: "'db client \<Rightarrow> spawn_in \<Rightarrow> ('db, string) node_prog" where
  "target_node C body =
     (let ids = (case truthy_str (wi_root_image body) of None \<Rightarrow> [] | Some i \<Rightarrow> [i])
              @ (case truthy_str (wi_data_image body) of None \<Rightarrow> [] | Some i \<Rightarrow> [i])
      in bnd (map_prog (\<lambda>i. bnd (image_or_400 C i) (\<lambda>r. ret (sn_node r))) ids) (\<lambda>ns.
         let nodes = remdups ns in
         if length nodes > 1
         then raise (HTTPException 409 ''root_image and data_image are on different nodes'')
         else case nodes of n # _ \<Rightarrow> ret n | [] \<Rightarrow> random_node C))"

definition same_node_or_409 :: "snapshot_row \<Rightarrow> string \<Rightarrow> ('db, unit) node_prog" where
  "same_node_or_409 img n =
     (if sn_node img \<noteq> n
      then raise (HTTPException 409 ''image is on another node (cross-node clone not yet supported)'')
      else ret ())"

definition resolve_root_image :: "'db client \<Rightarrow> spawn_in \<Rightarrow> string \<Rightarrow> ('db, string) node_prog" where
  "resolve_root_image C body n =
     (case truthy_str (wi_root_image body) of
        None \<Rightarrow> ret GOLD_DEFAULT
      | Some i \<Rightarrow>
          bnd (image_or_400 C i) (\<lambda>img.
            if sn_disk img \<noteq> ''root''
            then raise (HTTPException 400 ''root_image must be a root-disk image (it boots as the VM's root)'')
            else andThen (same_node_or_409 img n) (ret (sn_lv img))))"

definition provision_data :: "'db client \<Rightarrow> spawn_in \<Rightarrow> string \<Rightarrow> string \<Rightarrow> string \<Rightarrow> ('db, string \<times> int) node_prog" where
  "provision_data C body vg name n =
     (case truthy_str (wi_data_image body) of
        None \<Rightarrow> bnd lvm (\<lambda>cfg. bnd (vol_create vg (lc_thinpool cfg) name (wi_size body)) (\<lambda>dev.
                  ret (dev, wi_size body)))
      | Some i \<Rightarrow>
          bnd (image_or_400 C i) (\<lambda>img.
          andThen (same_node_or_409 img n)
         (bnd (vol_from_snapshot vg (sn_lv img) name) (\<lambda>dev. ret (dev, sn_size img)))))"

definition auto_volume :: "'db client \<Rightarrow> spawn_in \<Rightarrow> string \<Rightarrow> ('db, volume_row) node_prog" where
  "auto_volume C body n =
     bnd uuid4 (\<lambda>i.
     bnd (volume_vg n) (\<lambda>vg.
     bnd (provision_data C body vg (data_name i) n) (\<lambda>(dev, size_mb).
     bnd now (\<lambda>t.
     let row = \<lparr>vo_id = i, vo_node = n, vo_name = wi_name body @ ''-data'', vo_size = size_mb,
                vo_path = dev, vo_status = ''ready'', vo_created = t\<rparr> in
     andThen (insert_row (c_volumes C) row) (ret row)))))"

definition spawn_row :: "spawn_in \<Rightarrow> string \<Rightarrow> string \<Rightarrow> string \<Rightarrow> string \<Rightarrow> ('db, vm_row) node_prog" where
  "spawn_row body n vpc ip vol =
     bnd uuid4 (\<lambda>i. bnd now (\<lambda>t.
     ret \<lparr>vm_id = i, vm_node = n, vm_name = wi_name body, vm_vpc = vpc, vm_volume = Some vol, vm_ip = ip,
          vm_ssh = None, vm_vcpu = Some (wi_vcpu body), vm_mem = Some (wi_mem body),
          vm_status = ''pending'', vm_created = t\<rparr>))"

text \<open>\<open>_spawn_local\<close>, with the caller's hook that runs between the insertion and the bring-up\<close>

definition spawn_local ::
  "'db client \<Rightarrow> spawn_in \<Rightarrow> string \<Rightarrow> (string \<Rightarrow> ('db, unit) node_prog) \<Rightarrow> ('db, vm_row) node_prog" where
  "spawn_local C body n pre_bring_up =
     bnd (ensure_default_vpc C) (\<lambda>vpc.
     bnd (resolve_root_image C body n) (\<lambda>origin.
     bnd (auto_volume C body n) (\<lambda>vol.
     bnd (used_ips C (vp_id vpc)) (\<lambda>used.
     bnd (of_sum (pick_ip (vp_cidr vpc) used)) (\<lambda>ip.
     bnd (spawn_row body n (vp_id vpc) ip (vo_id vol)) (\<lambda>row.
     andThen (insert_row (c_vms C) row)
    (andThen (pre_bring_up (vm_id row))
             (bring_up C row (vp_cidr vpc) (Some (vo_path vol)) (Some (wi_ssh_key body)) origin))))))))"

definition spawn_vm :: "'db client \<Rightarrow> string \<Rightarrow> spawn_in \<Rightarrow> string option \<Rightarrow> ('db, vm_row reply) node_prog" where
  "spawn_vm C me body pin =
     bnd (case truthy_str pin of Some p \<Rightarrow> ret p | None \<Rightarrow> target_node C body) (\<lambda>target.
       if target \<noteq> me
       then forwarded C target ''POST'' ''/vms/spawn'' (Some (spawn_json body)) [(''X-Nyc-Pin'', target)]
       else locally (spawn_local C body me (\<lambda>_. ret ())))"

section \<open>Asking, deleting, stopping, starting\<close>

definition with_status :: "vm_row \<Rightarrow> ('db, vm_row \<times> string) node_prog" where
  "with_status row =
     bnd resolve (\<lambda>paths. bnd (status_run (for_vm (vms_dir paths) (vm_id row))) (\<lambda>live. ret (row, live)))"

definition get_vm :: "'db client \<Rightarrow> string \<Rightarrow> string \<Rightarrow> ('db, (vm_row \<times> string) reply) node_prog" where
  "get_vm C me i =
     bnd (bnd (get (c_vms C) (\<lambda>r. vm_id r = i)) (or_404 ''vm'')) (\<lambda>row.
       if vm_node row \<noteq> me then forwarded C (vm_node row) ''GET'' (''/vms/'' @ i) None []
       else locally (with_status row))"

definition delete_vm_local :: "'db client \<Rightarrow> string \<Rightarrow> string \<Rightarrow> ('db, unit) node_prog" where
  "delete_vm_local C i n =
     andThen (teardown_deps C i)
    (bnd resolve (\<lambda>paths.
     bnd (volume_vg n) (\<lambda>vg.
     andThen (vm_down (vms_dir paths) i vg)
    (bnd (delete_rows (c_vms C) (\<lambda>r. vm_id r = i)) (\<lambda>_. ret ())))))"

definition delete_vm :: "'db client \<Rightarrow> string \<Rightarrow> string \<Rightarrow> ('db, unit) node_prog" where
  "delete_vm C me i =
     bnd (bnd (get (c_vms C) (\<lambda>r. vm_id r = i)) (or_404 ''vm'')) (\<lambda>row.
       if vm_node row \<noteq> me
       then andThen (forward C (vm_node row) ''DELETE'' (''/vms/'' @ i) None []) (ret ())
       else delete_vm_local C i me)"

definition owner_or_404 :: "'db client \<Rightarrow> string \<Rightarrow> ('db, string) node_prog" where
  "owner_or_404 C i = bnd (bnd (get (c_vms C) (\<lambda>r. vm_id r = i)) (or_404 ''vm'')) (\<lambda>row. ret (vm_node row))"

definition set_status :: "'db client \<Rightarrow> string \<Rightarrow> string \<Rightarrow> ('db, vm_row) node_prog" where
  "set_status C i st =
     andThen (update_rows (c_vms C) (\<lambda>r. vm_id r = i) (\<lambda>r. r\<lparr>vm_status := st\<rparr>))
    (bnd (get (c_vms C) (\<lambda>r. vm_id r = i)) (\<lambda>x. case x of
       Some r \<Rightarrow> ret r | None \<Rightarrow> raise (TypeError ''None has no __dict__'')))"

definition stop_local :: "'db client \<Rightarrow> string \<Rightarrow> ('db, vm_row) node_prog" where
  "stop_local C i =
     bnd resolve (\<lambda>paths. andThen (vm_stop (vms_dir paths) i) (set_status C i ''stopped''))"

definition start_local :: "'db client \<Rightarrow> string \<Rightarrow> ('db, vm_row) node_prog" where
  "start_local C i =
     bnd resolve (\<lambda>paths. bnd (firecracker_bin paths) (\<lambda>bin.
     andThen (vm_start (vms_dir paths) i (''vm-'' @ take 8 i) bin) (set_status C i ''running'')))"

definition on_owner ::
  "'db client \<Rightarrow> string \<Rightarrow> string \<Rightarrow> string \<Rightarrow> ('db, vm_row) node_prog \<Rightarrow> ('db, vm_row reply) node_prog" where
  "on_owner C me i verb m =
     bnd (owner_or_404 C i) (\<lambda>owner.
       if owner \<noteq> me then forwarded C owner ''POST'' (''/vms/'' @ i @ ''/'' @ verb) None [] else locally m)"

definition stop_vm :: "'db client \<Rightarrow> string \<Rightarrow> string \<Rightarrow> ('db, vm_row reply) node_prog" where
  "stop_vm C me i = on_owner C me i ''stop'' (stop_local C i)"

definition start_vm :: "'db client \<Rightarrow> string \<Rightarrow> string \<Rightarrow> ('db, vm_row reply) node_prog" where
  "start_vm C me i = on_owner C me i ''start'' (start_local C i)"

definition reboot_vm :: "'db client \<Rightarrow> string \<Rightarrow> string \<Rightarrow> ('db, vm_row reply) node_prog" where
  "reboot_vm C me i = on_owner C me i ''reboot'' (bnd (stop_local C i) (\<lambda>_. start_local C i))"

end
