(* ===== verification/NetRouters.thy ===== *)
theory NetRouters
  imports VmRouters
begin

text \<open>
  \<open>nyc/routers\<close>, third part: listing VMs with the status their owners report, public addresses
  (\<open>public_ips.py\<close>) and the reverse proxy (\<open>proxy.py\<close>).
\<close>

section \<open>Listing VMs\<close>

type_synonym vm_view = "(vm_row \<times> string) reply"

definition j_field :: "string \<Rightarrow> json \<Rightarrow> exn + json" where
  "j_field k j = (case j of
     JObj kvs \<Rightarrow> (case map_of kvs k of None \<Rightarrow> Inl (KeyError k) | Some v \<Rightarrow> Inr v)
   | _ \<Rightarrow> Inl (TypeError k))"

definition remote_entry :: "json \<Rightarrow> exn + (string \<times> vm_view)" where
  "remote_entry rv = (case j_field ''id'' rv of
     Inr (JStr i) \<Rightarrow> Inr (i, Remote rv) | Inr _ \<Rightarrow> Inl (TypeError ''id'') | Inl e \<Rightarrow> Inl e)"

definition ask_owner :: "'db client \<Rightarrow> string \<Rightarrow> ('db, (string \<times> vm_view) list) node_prog" where
  "ask_owner C owner =
     bnd (except (forward C owner ''GET'' ''/vms'' None [(''X-Nyc-Local'', ''1'')])
            (\<lambda>e. case e of HTTPException _ _ \<Rightarrow> ret (JList []) | _ \<Rightarrow> raise e))
       (\<lambda>remote. case remote of
          JList rvs \<Rightarrow> map_prog (\<lambda>rv. of_sum (remote_entry rv)) rvs
        | JObj [] \<Rightarrow> ret []
        | _ \<Rightarrow> raise (TypeError ''remote''))"

definition merge_remote_status :: "'db client \<Rightarrow> string \<Rightarrow> vm_row list \<Rightarrow> ('db, vm_view list) node_prog" where
  "merge_remote_status C me rows =
     bnd (map_prog (\<lambda>r. bnd (with_status r) (\<lambda>x. ret (vm_id r, Local x))) (filter (\<lambda>r. vm_node r = me) rows))
       (\<lambda>mine.
     bnd (map_prog (ask_owner C) (remdups (map vm_node (filter (\<lambda>r. vm_node r \<noteq> me) rows)))) (\<lambda>theirs.
     let by_id = map_of (rev (mine @ concat theirs)) in
     ret (map (\<lambda>r. case by_id (vm_id r) of Some v \<Rightarrow> v | None \<Rightarrow> Local (r, ''unknown'')) rows)))"

definition list_vms :: "'db client \<Rightarrow> string \<Rightarrow> string option \<Rightarrow> ('db, vm_view list) node_prog" where
  "list_vms C me local_only =
     bnd (get_all (c_vms C) (\<lambda>_. True)) (\<lambda>rows.
       case truthy_str local_only of
         Some _ \<Rightarrow> map_prog (\<lambda>r. bnd (with_status r) (\<lambda>x. ret (Local x))) (filter (\<lambda>r. vm_node r = me) rows)
       | None \<Rightarrow> merge_remote_status C me rows)"

section \<open>Public addresses\<close>

definition list_public_ips :: "'db client \<Rightarrow> ('db, pubip_row list) node_prog" where
  "list_public_ips C = get_all (c_pubips C) (\<lambda>_. True)"

definition node_addresses :: "'db client \<Rightarrow> string \<Rightarrow> ('db, string set) node_prog" where
  "node_addresses C n = bnd (get_all (c_pubips C) (\<lambda>r. pi_node r = n)) (\<lambda>rows. ret (pi_address ` set rows))"

definition attach_local :: "'db client \<Rightarrow> vm_row \<Rightarrow> string \<Rightarrow> ('db, pubip_row) node_prog" where
  "attach_local C vm n =
     bnd pubip (\<lambda>cfg.
     bnd (node_addresses C n) (\<lambda>used.
     bnd (of_sum (acquire cfg used)) (\<lambda>(address, gw, mac, prefix').
     bnd uuid4 (\<lambda>i. bnd now (\<lambda>t.
     let row = \<lparr>pi_id = i, pi_node = n, pi_vm = Some (vm_id vm), pi_address = address, pi_gateway = Some gw,
                pi_mac = mac, pi_prefix = prefix', pi_status = ''attached'', pi_created = t\<rparr> in
     andThen (insert_row (c_pubips C) row)
    (andThen (recreate_vm C (vm_id vm)) (ret row)))))))"

definition detach_local :: "'db client \<Rightarrow> string \<Rightarrow> ('db, unit) node_prog" where
  "detach_local C i =
     bnd (get (c_pubips C) (\<lambda>r. pi_vm r = Some i \<and> pi_status r = ''attached'')) (\<lambda>pip. case pip of
       None \<Rightarrow> ret ()
     | Some p \<Rightarrow> bnd (delete_rows (c_pubips C) (\<lambda>r. pi_id r = pi_id p)) (\<lambda>_. recreate_vm C i))"

definition vm_or_404 :: "'db client \<Rightarrow> string \<Rightarrow> ('db, vm_row) node_prog" where
  "vm_or_404 C i = bnd (get (c_vms C) (\<lambda>r. vm_id r = i)) (or_404 ''vm'')"

definition attach_public_ip :: "'db client \<Rightarrow> string \<Rightarrow> string \<Rightarrow> ('db, pubip_row reply) node_prog" where
  "attach_public_ip C me i =
     bnd (vm_or_404 C i) (\<lambda>vm.
       if vm_node vm \<noteq> me then forwarded C (vm_node vm) ''POST'' (''/vms/'' @ i @ ''/public-ip'') None []
       else locally (attach_local C vm me))"

definition detach_public_ip :: "'db client \<Rightarrow> string \<Rightarrow> string \<Rightarrow> ('db, unit) node_prog" where
  "detach_public_ip C me i =
     bnd (vm_or_404 C i) (\<lambda>vm.
       if vm_node vm \<noteq> me
       then andThen (forward C (vm_node vm) ''DELETE'' (''/vms/'' @ i @ ''/public-ip'') None []) (ret ())
       else detach_local C i)"

section \<open>The reverse proxy\<close>

record proxy_in =
  xi_name :: "string option"
  xi_vcpu :: int
  xi_mem :: int

record proxy_out =
  po_vm :: vm_row
  po_pubip :: pubip_row
  po_proxy :: proxy_row
  po_task :: string

definition proxy_in_json :: "proxy_in \<Rightarrow> json" where
  "proxy_in_json b =
     JObj [(''name'', j_opt (xi_name b)), (''vcpu_count'', JInt (xi_vcpu b)), (''mem_mib'', JInt (xi_mem b))]"

definition get_proxy :: "'db client \<Rightarrow> ('db, proxy_row \<times> pubip_row option \<times> nat) node_prog" where
  "get_proxy C =
     bnd (ensure_default_vpc C) (\<lambda>vpc.
     bnd (get (c_proxies C) (\<lambda>r. px_vpc r = vp_id vpc)) (\<lambda>proxy. case proxy of
       None \<Rightarrow> raise (HTTPException 404 ''no proxy for default VPC'')
     | Some d \<Rightarrow>
         bnd (case truthy_str (px_pubip d) of
                None \<Rightarrow> ret None
              | Some k \<Rightarrow> get (c_pubips C) (\<lambda>r. pi_id r = k)) (\<lambda>pip.
         bnd (get_all (c_domains C) (\<lambda>_. True)) (\<lambda>ds. ret (d, pip, length ds)))))"

definition node_with_free_ip :: "'db client \<Rightarrow> string \<Rightarrow> ('db, string) node_prog" where
  "node_with_free_ip C dflt =
     bnd pubip (\<lambda>cfg.
     bnd (get_all (c_pubips C) (\<lambda>_. True)) (\<lambda>rows.
     let free = filter (\<lambda>e. pe_address e \<notin> pi_address ` set rows) (pc_ips cfg) in
     if free \<noteq> [] then ret dflt
     else bnd (get_all (c_nodes C) (\<lambda>_. True)) (\<lambda>nodes.
       if nodes = [] then raise (HTTPException 503 ''no nodes registered'')
       else raise (HTTPException 503 ''no nodes have free public IPs''))))"

definition proxy_spawn :: "proxy_in \<Rightarrow> spawn_in" where
  "proxy_spawn body =
     \<lparr>wi_name = (case truthy_str (xi_name body) of None \<Rightarrow> ''proxy'' | Some n \<Rightarrow> n), wi_ssh_key = [],
      wi_size = 1024, wi_vcpu = xi_vcpu body, wi_mem = xi_mem body, wi_root_image = None, wi_data_image = None\<rparr>"

definition proxy_task_row ::
  "string \<Rightarrow> string \<Rightarrow> string \<Rightarrow> string option \<Rightarrow> int \<Rightarrow> ('db, task_row) node_prog" where
  "proxy_task_row vm n typ params t =
     bnd uuid4 (\<lambda>k. ret \<lparr>ta_id = k, ta_node = n, ta_vm = vm, ta_type = typ, ta_params = params,
       ta_status = ''pending'', ta_result = None, ta_created = t, ta_updated = t\<rparr>)"

definition create_proxy_local ::
  "'db client \<Rightarrow> proxy_in \<Rightarrow> vpc_row \<Rightarrow> string \<Rightarrow> ('db, proxy_out) node_prog" where
  "create_proxy_local C body vpc n =
     bnd pubip (\<lambda>cfg.
     bnd (node_addresses C n) (\<lambda>used.
     bnd (of_sum (acquire cfg used)) (\<lambda>(address, gw, mac, prefix').
     bnd now (\<lambda>t. bnd uuid4 (\<lambda>pip_id.
     let pip_row = (\<lambda>vm. \<lparr>pi_id = pip_id, pi_node = n, pi_vm = Some vm, pi_address = address,
           pi_gateway = Some gw, pi_mac = mac, pi_prefix = prefix', pi_status = ''attached'', pi_created = t\<rparr>) in
     bnd (spawn_local C (proxy_spawn body) n (\<lambda>vm. insert_row (c_pubips C) (pip_row vm))) (\<lambda>vm.
     bnd uuid4 (\<lambda>i.
     let proxy_row = \<lparr>px_id = i, px_vpc = vp_id vpc, px_vm = vm_id vm, px_node = n, px_pubip = Some pip_id,
                      px_status = ''pending'', px_created = t\<rparr> in
     andThen (insert_row (c_proxies C) proxy_row)
    (bnd (proxy_task_row (vm_id vm) n ''reverse_proxy_setup''
            (Some (dumps_flat (JObj [(''vm_ip'', JStr (vm_ip vm)), (''public_ip'', JStr address)]))) t) (\<lambda>setup.
     bnd (proxy_task_row (vm_id vm) n ''proxy_reload'' None t) (\<lambda>reload.
     andThen (insert_row (c_tasks C) setup)
    (andThen (insert_row (c_tasks C) reload)
     (ret \<lparr>po_vm = vm, po_pubip = pip_row (vm_id vm), po_proxy = proxy_row, po_task = ta_id setup\<rparr>))))))))))))"

definition create_proxy :: "'db client \<Rightarrow> string \<Rightarrow> proxy_in \<Rightarrow> ('db, proxy_out reply) node_prog" where
  "create_proxy C me body =
     bnd (ensure_default_vpc C) (\<lambda>vpc.
     bnd (get (c_proxies C) (\<lambda>r. px_vpc r = vp_id vpc)) (\<lambda>p.
       if p \<noteq> None then raise (HTTPException 409 ''proxy already exists for this VPC'')
       else bnd (node_with_free_ip C me) (\<lambda>target.
         if target \<noteq> me
         then forwarded C target ''POST'' ''/proxy'' (Some (proxy_in_json body)) [(''X-Nyc-Pin'', target)]
         else locally (create_proxy_local C body vpc me))))"

end
