(* ===== verification/Reconciler.thy ===== *)
theory Reconciler
  imports NetRouters
begin

text \<open>
  \<open>nyc/reconciler\<close>, the passes: VMs past their time to live, VM directories and rootfs clones
  without a row, orphan data volumes, orphan snapshots and images, and the peer lists of the
  tunnels; \<open>pass_once.py\<close> runs them in that order. A set the code iterates over is a list
  without repetitions, in the order of its first occurrences. A report's lists are the code's;
  the database time is in microseconds, so a time to live of \<open>m\<close> minutes is \<open>m\<close> times
  60,000,000.
\<close>

section \<open>Passes\<close>

text \<open>\<open>float(os.environ.get("NYC_VM_TTL_MINUTES", "0") or "0")\<close> for a whole number of minutes; any
  other text is left to the \<open>ValueError\<close> of \<open>float\<close>, though \<open>float\<close> also takes fractions.\<close>

definition ttl_minutes :: "('db, int) node_prog" where
  "ttl_minutes = bnd (environ ''NYC_VM_TTL_MINUTES'') (\<lambda>v.
     of_sum (parse_int (case truthy_str v of None \<Rightarrow> ''0'' | Some s \<Rightarrow> strip s)))"

definition expired :: "int \<Rightarrow> vm_row \<Rightarrow> bool" where
  "expired cutoff r \<longleftrightarrow> vm_created r < cutoff"

definition reap :: "'db client \<Rightarrow> path \<Rightarrow> string \<Rightarrow> string \<Rightarrow> ('db, unit) node_prog" where
  "reap C vms vg i = andThen (vm_down vms i vg) (bnd (delete_rows (c_vms C) (\<lambda>r. vm_id r = i)) (\<lambda>_. ret ()))"

definition ttl_pass :: "'db client \<Rightarrow> string \<Rightarrow> ('db, string list) node_prog" where
  "ttl_pass C n =
     bnd ttl_minutes (\<lambda>ttl.
       if ttl \<le> 0 then ret []
       else
         bnd resolve (\<lambda>paths.
         bnd (volume_vg n) (\<lambda>vg.
         bnd now (\<lambda>t.
         bnd (get_all (c_vms C) (\<lambda>r. vm_node r = n)) (\<lambda>rows.
         let ids = map vm_id (filter (expired (t - ttl * 60000000)) rows) in
         andThen (for_each ids (reap C (vms_dir paths) vg)) (ret (sort ids)))))))"

definition orphans_of :: "string list \<Rightarrow> string set \<Rightarrow> string list" where
  "orphans_of on_disk expected = filter (\<lambda>x. x \<notin> expected) (remdups on_disk)"

definition prune_rootfs_lvs :: "string \<Rightarrow> string set \<Rightarrow> ('db, unit) node_prog" where
  "prune_rootfs_lvs vg expected =
     bnd (list_lvs vg) (\<lambda>entries.
     for_each entries (\<lambda>e. bnd (of_sum (column ''lv_name'' e)) (\<lambda>name.
       if startswith name ROOTFS \<and> drop (length ROOTFS) name \<notin> expected then lv_remove vg name else ret ())))"

record report =
  rp_expected :: nat
  rp_on_disk :: nat
  rp_gone :: "string list"

definition vms_pass :: "'db client \<Rightarrow> string \<Rightarrow> ('db, report) node_prog" where
  "vms_pass C n =
     bnd resolve (\<lambda>paths.
     bnd (volume_vg n) (\<lambda>vg.
     bnd (get_all (c_vms C) (\<lambda>r. vm_node r = n)) (\<lambda>rows.
     bnd (list_dirs (vms_dir paths)) (\<lambda>on_disk.
     let expected = vm_id ` set rows; orphans = orphans_of on_disk expected in
     andThen (for_each orphans (\<lambda>i. andThen (teardown_deps C i) (vm_down (vms_dir paths) i vg)))
    (andThen (prune_rootfs_lvs vg expected)
     (ret \<lparr>rp_expected = card expected, rp_on_disk = card (set on_disk), rp_gone = sort orphans\<rparr>))))))"

definition volumes_pass :: "'db client \<Rightarrow> string \<Rightarrow> ('db, report) node_prog" where
  "volumes_pass C n =
     bnd (volume_vg n) (\<lambda>vg.
     bnd (get_all (c_volumes C) (\<lambda>r. vo_node r = n)) (\<lambda>rows.
     bnd (lv_names vg) (\<lambda>names.
     let expected = (\<lambda>r. data_name (vo_id r)) ` set rows;
         on_disk = filter (\<lambda>l. startswith l DATA) names;
         orphans = orphans_of on_disk expected in
     andThen (for_each orphans (vol_delete vg))
     (ret \<lparr>rp_expected = card expected, rp_on_disk = card (set on_disk), rp_gone = sort orphans\<rparr>))))"

definition snapshots_pass :: "'db client \<Rightarrow> string \<Rightarrow> ('db, report) node_prog" where
  "snapshots_pass C n =
     bnd (volume_vg n) (\<lambda>vg.
     bnd (get_all (c_snapshots C) (\<lambda>r. sn_node r = n)) (\<lambda>rows.
     bnd (lv_names vg) (\<lambda>names.
     let expected = insert GOLD_DEFAULT (sn_lv ` set rows);
         on_disk = filter (\<lambda>l. startswith l SNAP \<or> startswith l GOLD) names;
         orphans = orphans_of on_disk expected in
     andThen (for_each orphans (snap_remove vg))
     (ret \<lparr>rp_expected = card expected, rp_on_disk = card (set on_disk), rp_gone = sort orphans\<rparr>))))"

definition sync_vpc :: "string \<Rightarrow> string list \<Rightarrow> string \<Rightarrow> ('db, bool) node_prog" where
  "sync_vpc n plist v =
     (let name = vxlan_name n v in
      bnd (vxlan_exists name) (\<lambda>b. if \<not> b then ret False else andThen (set_fdb name plist) (ret True)))"

definition local_vpcs :: "'db client \<Rightarrow> string \<Rightarrow> ('db, string list) node_prog" where
  "local_vpcs C n = bnd (get_all (c_vms C) (\<lambda>r. vm_node r = n)) (\<lambda>rows. ret (remdups (map vm_vpc rows)))"

definition overlay_pass :: "'db client \<Rightarrow> string \<Rightarrow> ('db, string list) node_prog" where
  "overlay_pass C n =
     bnd (node_host C n) (\<lambda>host.
       if host \<in> LOOPBACK then ret []
       else
         bnd (peer_hosts C n) (\<lambda>plist.
         bnd (local_vpcs C n) (\<lambda>vpcs.
         bnd (map_prog (\<lambda>v. bnd (sync_vpc n plist v) (\<lambda>b. ret (v, b))) vpcs) (\<lambda>done.
         ret (sort (map fst (filter snd done)))))))"

record pass_report =
  pr_ttl :: "string list"
  pr_vms :: report
  pr_volumes :: report
  pr_snapshots :: report
  pr_overlay :: "string list"

definition pass_once :: "'db client \<Rightarrow> string \<Rightarrow> ('db, pass_report) node_prog" where
  "pass_once C n =
     bnd (ttl_pass C n) (\<lambda>ttl.
     bnd (vms_pass C n) (\<lambda>vms.
     bnd (volumes_pass C n) (\<lambda>vols.
     bnd (snapshots_pass C n) (\<lambda>snaps.
     bnd (overlay_pass C n) (\<lambda>overlay.
     ret \<lparr>pr_ttl = ttl, pr_vms = vms, pr_volumes = vols, pr_snapshots = snaps, pr_overlay = overlay\<rparr>)))))"

definition reconcile_now :: "'db client \<Rightarrow> string \<Rightarrow> ('db, string \<times> pass_report) node_prog" where
  "reconcile_now C n = bnd (pass_once C n) (\<lambda>r. ret (n, r))"

text \<open>\<open>app.py\<close>: what a node does before its loops start\<close>

definition on_startup :: "string \<Rightarrow> ('db, string) node_prog" where
  "on_startup n = bnd lvm (\<lambda>cfg. bnd resolve (\<lambda>paths. pool_ensure n cfg (rootfs_path paths)))"

end
