(* ===== verification/Executor.thy ===== *)
theory Executor
  imports Reconciler
begin

text \<open>
  Background work: the Caddyfile (\<open>client/proxy\<close>), running a task (\<open>task_runner.py\<close>), claiming
  one (\<open>executor.py\<close>), and the life of the two background loops (\<open>loop.py\<close>, \<open>executor.py\<close>): at
  most one of each is alive, an instance of the locale \<open>single_flight\<close>.
\<close>

section \<open>The proxy's configuration\<close>

definition tab :: char where "tab = CHR 0x09"

definition caddy_block :: "string \<times> string \<times> int \<Rightarrow> string" where
  "caddy_block r = (case r of (fqdn, ip, port) \<Rightarrow>
     fqdn @ '' {'' @ [newline, tab] @ ''reverse_proxy '' @ ip @ '':'' @ str_int port @ [newline] @ ''}'')"

definition caddy_render :: "(string \<times> string \<times> int) list \<Rightarrow> string" where
  "caddy_render routes =
     (if routes = [] then [] else join [newline, newline] (map caddy_block routes) @ [newline])"

definition push_setup :: "string \<Rightarrow> string \<Rightarrow> ('db, stdout) node_prog" where
  "push_setup ip key =
     bnd (gets (\<lambda>w. w_pkg_root w @ [''nyc'', ''client'', ''proxy'', ''setup.sh''])) (\<lambda>p.
     bnd (read_text p) (\<lambda>sh. guest_run ip key sh))"

definition push_reload :: "string \<Rightarrow> string \<Rightarrow> string \<Rightarrow> ('db, stdout) node_prog" where
  "push_reload ip key text' =
     guest_run ip key
       (text_lines [''mkdir -p /etc/caddy'', ''cat > /etc/caddy/Caddyfile << '' @ [CHR 0x27] @ ''NYCEOF'' @ [CHR 0x27]]
        @ text' @ text_lines [''NYCEOF'', ''caddy reload --config /etc/caddy/Caddyfile''])"

section \<open>Running a task\<close>

definition vm_or_fail :: "'db client \<Rightarrow> string \<Rightarrow> ('db, vm_row) node_prog" where
  "vm_or_fail C i = bnd (get (c_vms C) (\<lambda>r. vm_id r = i)) (\<lambda>x. case x of
     None \<Rightarrow> raise (RuntimeError (''vm '' @ i @ '' not found'')) | Some r \<Rightarrow> ret r)"

definition or_ok :: "stdout \<Rightarrow> string" where
  "or_ok o' = (if text_of o' = [] then ''ok'' else text_of o')"

definition run_setup :: "'db client \<Rightarrow> task_row \<Rightarrow> ('db, string) node_prog" where
  "run_setup C task =
     bnd (vm_or_fail C (ta_vm task)) (\<lambda>vm.
     bnd resolve (\<lambda>paths.
     bnd (push_setup (vm_ip vm) (path_str (ssh_key_path paths))) (\<lambda>out.
     andThen (update_rows (c_proxies C) (\<lambda>r. px_vm r = ta_vm task) (\<lambda>r. r\<lparr>px_status := ''ready''\<rparr>))
             (ret (or_ok out)))))"

definition build_routes :: "'db client \<Rightarrow> ('db, (string \<times> string \<times> int) list) node_prog" where
  "build_routes C =
     bnd (get_all (c_domains C) (\<lambda>_. True)) (\<lambda>ds.
     bnd (map_prog (\<lambda>d. bnd (get (c_vms C) (\<lambda>r. vm_id r = do_vm d)) (\<lambda>vm.
            ret (case vm of None \<Rightarrow> [] | Some v \<Rightarrow> [(do_fqdn d, vm_ip v, do_port d)]))) ds) (\<lambda>rs.
     ret (concat rs)))"

definition run_reload :: "'db client \<Rightarrow> task_row \<Rightarrow> string \<Rightarrow> ('db, string) node_prog" where
  "run_reload C task n =
     bnd (get (c_proxies C) (\<lambda>r. px_node r = n)) (\<lambda>proxy. case proxy of
       None \<Rightarrow> ret ''no proxy on this node''
     | Some p \<Rightarrow>
         bnd (vm_or_fail C (px_vm p)) (\<lambda>vm.
         bnd (build_routes C) (\<lambda>routes.
         bnd resolve (\<lambda>paths.
         bnd (push_reload (vm_ip vm) (path_str (ssh_key_path paths)) (caddy_render routes)) (\<lambda>out.
         ret (or_ok out))))))"

definition dispatch :: "'db client \<Rightarrow> task_row \<Rightarrow> string \<Rightarrow> ('db, string) node_prog" where
  "dispatch C task n =
     (if ta_type task = ''reverse_proxy_setup'' then run_setup C task
      else if ta_type task = ''proxy_reload'' then run_reload C task n
      else raise (ValueError (''unknown task type: '' @ ta_type task)))"

definition finish :: "'db client \<Rightarrow> string \<Rightarrow> string \<Rightarrow> string \<Rightarrow> ('db, unit) node_prog" where
  "finish C i st result =
     bnd now (\<lambda>t. update_rows (c_tasks C) (\<lambda>r. ta_id r = i)
       (\<lambda>r. r\<lparr>ta_status := st, ta_result := Some result, ta_updated := t\<rparr>))"

definition run_task :: "'db client \<Rightarrow> task_row \<Rightarrow> string \<Rightarrow> ('db, unit) node_prog" where
  "run_task C task n =
     except (bnd (dispatch C task n) (\<lambda>result. finish C (ta_id task) ''succeeded'' result))
       (\<lambda>e. finish C (ta_id task) ''failed'' (exn_str e))"

section \<open>Claiming a task\<close>

definition claim :: "'db client \<Rightarrow> task_row \<Rightarrow> ('db, bool) node_prog" where
  "claim C d =
     bnd now (\<lambda>t.
     andThen (update_rows (c_tasks C) (\<lambda>r. ta_id r = ta_id d \<and> ta_status r = ''pending'')
                (\<lambda>r. r\<lparr>ta_status := ''running'', ta_updated := t\<rparr>))
    (bnd (get (c_tasks C) (\<lambda>r. ta_id r = ta_id d \<and> ta_status r = ''running'')) (\<lambda>x. ret (x \<noteq> None))))"

fun tick_loop :: "'db client \<Rightarrow> string \<Rightarrow> task_row list \<Rightarrow> ('db, unit) node_prog" where
  "tick_loop C n [] = ret ()"
| "tick_loop C n (d # ds) = bnd (claim C d) (\<lambda>won. if won then run_task C d n else tick_loop C n ds)"

definition tick :: "'db client \<Rightarrow> string \<Rightarrow> ('db, unit) node_prog" where
  "tick C n = bnd (get_all (c_tasks C) (\<lambda>r. ta_node r = n \<and> ta_status r = ''pending'')) (tick_loop C n)"

section \<open>The background loops\<close>

text \<open>The body of both \<open>while\<close> loops, run as often as the stop event lets it: an exception of the
  pass or the tick is swallowed, and the wait for the stop event only passes time.\<close>

primrec loop_body :: "nat \<Rightarrow> ('s, unit) prog \<Rightarrow> ('s, unit) prog" where
  "loop_body 0 m = ret ()"
| "loop_body (Suc k) m = andThen (except m (\<lambda>_. ret ())) (loop_body k m)"

text \<open>\<open>interval\<close> of the two modules: the seconds between two rounds, read once before the first one, so a
  value that is no number ends the loop there. As with the time to live, only whole numbers are read;
  any other text is left to the \<open>ValueError\<close> of \<open>float\<close>.\<close>

definition seconds :: "string \<Rightarrow> ('db, int) node_prog" where
  "seconds env = bnd (environ env) (\<lambda>v. of_sum (parse_int (strip (case v of None \<Rightarrow> ''5'' | Some s \<Rightarrow> s))))"

definition loop_interval :: "('db, int) node_prog" where
  "loop_interval = seconds ''NYC_RECONCILE_INTERVAL''"

definition exec_interval :: "('db, int) node_prog" where
  "exec_interval = seconds ''NYC_EXECUTOR_INTERVAL''"

definition loop_reconcile :: "nat \<Rightarrow> 'db client \<Rightarrow> string \<Rightarrow> ('db, unit) node_prog" where
  "loop_reconcile k C n = bnd loop_interval (\<lambda>_. loop_body k (bnd (pass_once C n) (\<lambda>_. ret ())))"

definition loop_executor :: "nat \<Rightarrow> 'db client \<Rightarrow> string \<Rightarrow> ('db, unit) node_prog" where
  "loop_executor k C n = bnd exec_interval (\<lambda>_. loop_body k (tick C n))"

text \<open>The module's globals \<open>_TASK\<close> and \<open>_STOP\<close>, and the tasks that asyncio has created and that
  have not ended. A stopped loop ends when it is awaited.\<close>

record bg =
  bg_task :: "nat option"
  bg_stop :: "bool option"
  bg_alive :: "nat set"
  bg_next :: nat

definition bg_init :: bg where
  "bg_init = \<lparr>bg_task = None, bg_stop = None, bg_alive = {}, bg_next = 0\<rparr>"

definition loop_start :: "bg \<Rightarrow> bg" where
  "loop_start s =
     (if bg_task s \<noteq> None then s
      else s\<lparr>bg_stop := Some False, bg_task := Some (bg_next s),
             bg_alive := insert (bg_next s) (bg_alive s), bg_next := Suc (bg_next s)\<rparr>)"

definition loop_stop :: "bg \<Rightarrow> bg" where
  "loop_stop s =
     (let s1 = s\<lparr>bg_stop := map_option (\<lambda>_. True) (bg_stop s)\<rparr>;
          s2 = (case bg_task s1 of None \<Rightarrow> s1 | Some k \<Rightarrow> s1\<lparr>bg_alive := bg_alive s1 - {k}\<rparr>)
      in s2\<lparr>bg_task := None, bg_stop := None\<rparr>)"

definition exec_start :: "bg \<Rightarrow> bg" where
  "exec_start s =
     (if bg_task s \<noteq> None then s
      else s\<lparr>bg_stop := Some False, bg_task := Some (bg_next s),
             bg_alive := insert (bg_next s) (bg_alive s), bg_next := Suc (bg_next s)\<rparr>)"

definition exec_stop :: "bg \<Rightarrow> bg" where
  "exec_stop s =
     (let s1 = s\<lparr>bg_stop := map_option (\<lambda>_. True) (bg_stop s)\<rparr>;
          s2 = (case bg_task s1 of None \<Rightarrow> s1 | Some k \<Rightarrow> s1\<lparr>bg_alive := bg_alive s1 - {k}\<rparr>)
      in s2\<lparr>bg_task := None, bg_stop := None\<rparr>)"

locale single_flight =
  fixes start stop :: "'s \<Rightarrow> 's" and slot :: "'s \<Rightarrow> 'k option" and alive :: "'s \<Rightarrow> 'k set"
  assumes start_idle: "slot s = None \<Longrightarrow> \<exists>k. slot (start s) = Some k \<and> alive (start s) = insert k (alive s)"
    and start_busy: "slot s \<noteq> None \<Longrightarrow> start s = s"
    and stop_slot: "slot (stop s) = None"
    and stop_alive: "alive (stop s) = alive s - set_option (slot s)"
begin

lemma start_one: "alive s = set_option (slot s) \<Longrightarrow> alive (start s) = set_option (slot (start s))"
  using start_idle [of s] start_busy [of s] by (cases "slot s") auto

lemma stop_one: "alive s = set_option (slot s) \<Longrightarrow> alive (stop s) = set_option (slot (stop s))"
  by (simp add: stop_slot stop_alive)

lemma stop_none: "alive s = set_option (slot s) \<Longrightarrow> alive (stop s) = {}"
  by (simp add: stop_alive)

lemma start_card: "alive s = set_option (slot s) \<Longrightarrow> card (alive (start s)) = 1"
  using start_idle [of s] start_busy [of s] by (cases "slot s") auto

lemma one_card: "alive s = set_option (slot s) \<Longrightarrow> card (alive s) \<le> 1"
  by (cases "slot s") simp_all

end

interpretation loop_bg: single_flight loop_start loop_stop bg_task bg_alive
  by unfold_locales (auto simp: loop_start_def loop_stop_def Let_def split: option.splits)

interpretation exec_bg: single_flight exec_start exec_stop bg_task bg_alive
  by unfold_locales (auto simp: exec_start_def exec_stop_def Let_def split: option.splits)

text \<open>The states the two modules can be in: any sequence of starts and stops of each.\<close>

inductive bg_reach :: "bg \<Rightarrow> bg \<Rightarrow> bool" where
  init: "bg_reach bg_init bg_init"
| start_loop: "bg_reach a b \<Longrightarrow> bg_reach (loop_start a) b"
| stop_loop: "bg_reach a b \<Longrightarrow> bg_reach (loop_stop a) b"
| start_exec: "bg_reach a b \<Longrightarrow> bg_reach a (exec_start b)"
| stop_exec: "bg_reach a b \<Longrightarrow> bg_reach a (exec_stop b)"

lemma bg_reach_one:
  "bg_reach a b \<Longrightarrow> bg_alive a = set_option (bg_task a) \<and> bg_alive b = set_option (bg_task b)"
  by (induction rule: bg_reach.induct)
     (auto simp: bg_init_def loop_bg.start_one loop_bg.stop_one exec_bg.start_one exec_bg.stop_one)

lemma loop_body_total: "\<exists>v. loop_body k m w = (Inr (), v)"
proof (induction k arbitrary: w)
  case 0
  then show ?case by simp
next
  case (Suc k)
  obtain u v where "except m (\<lambda>_. ret ()) w = (Inr u, v)"
    by (cases "m w"; cases "fst (m w)") (auto simp: except_run)
  with Suc [of v] show ?case by (auto simp: andThen_run)
qed

end
