(* ===== verification/App.thy ===== *)
theory App
  imports Executor
begin

text \<open>
  The application: the requests its routers serve (\<open>routers/__init__.py\<close>), and its start-up and
  shutdown (\<open>app.py\<close>). Registering the routers and the tables and calling the hooks is the
  framework's work; \<open>serve\<close> is the table of routes it is given.
\<close>

section \<open>Routes\<close>

text \<open>A request of the API by its route, with what its handler takes from path, body and headers; and the
  two pieces of background work, a pass of the reconciler and a tick of the executor.\<close>

datatype request =
    ListVpcs | CreateVpc vpc_in | GetVpc string | DeleteVpc string
  | ListVolumes | CreateVolume volume_in | GetVolume string | ResizeVolume string resize_in | DeleteVolume string
  | ListVms "string option" | CreateVm vm_in | SpawnVm spawn_in "string option" | GetVm string | DeleteVm string
  | StopVm string | StartVm string | RebootVm string
  | ReconcileNow
  | ListSnapshots | CreateSnapshot snapshot_in | GetSnapshot string | DeleteSnapshot string
  | ListImages | CreateImage image_in | GetImage string | DeleteImage string
  | ListDomains | CreateDomain domain_in | DeleteDomain string
  | ListPublicIps | AttachIp string | DetachIp string
  | ListTasks | GetTask string | CreateTask string task_in
  | GetProxy | CreateProxy proxy_in
  | Reconcile | Tick

definition no_reply :: "('s, 'a) prog \<Rightarrow> ('s, unit) prog" where
  "no_reply m = bnd m (\<lambda>_. ret ())"

text \<open>The effect of a request, whatever its answer.\<close>

fun serve :: "'db client \<Rightarrow> string \<Rightarrow> request \<Rightarrow> ('db, unit) node_prog" where
  "serve C me ListVpcs = no_reply (list_vpcs C)"
| "serve C me (CreateVpc b) = no_reply (create_vpc C b)"
| "serve C me (GetVpc i) = no_reply (get_vpc C i)"
| "serve C me (DeleteVpc i) = delete_vpc C i"
| "serve C me ListVolumes = no_reply (list_volumes C)"
| "serve C me (CreateVolume b) = no_reply (create_volume C me b)"
| "serve C me (GetVolume i) = no_reply (get_volume C i)"
| "serve C me (ResizeVolume i b) = no_reply (resize_volume C me i b)"
| "serve C me (DeleteVolume i) = delete_volume C me i"
| "serve C me (ListVms lo) = no_reply (list_vms C me lo)"
| "serve C me (CreateVm b) = no_reply (create_vm C me b)"
| "serve C me (SpawnVm b pin) = no_reply (spawn_vm C me b pin)"
| "serve C me (GetVm i) = no_reply (get_vm C me i)"
| "serve C me (DeleteVm i) = delete_vm C me i"
| "serve C me (StopVm i) = no_reply (stop_vm C me i)"
| "serve C me (StartVm i) = no_reply (start_vm C me i)"
| "serve C me (RebootVm i) = no_reply (reboot_vm C me i)"
| "serve C me ReconcileNow = no_reply (reconcile_now C me)"
| "serve C me ListSnapshots = no_reply (list_snapshots C)"
| "serve C me (CreateSnapshot b) = no_reply (create_snapshot C me b)"
| "serve C me (GetSnapshot i) = no_reply (get_snapshot C i)"
| "serve C me (DeleteSnapshot i) = delete_snapshot C me i"
| "serve C me ListImages = no_reply (list_images C)"
| "serve C me (CreateImage b) = no_reply (create_image C me b)"
| "serve C me (GetImage i) = no_reply (get_image C i)"
| "serve C me (DeleteImage i) = delete_image C me i"
| "serve C me ListDomains = no_reply (list_domains C)"
| "serve C me (CreateDomain b) = no_reply (create_domain C b)"
| "serve C me (DeleteDomain i) = delete_domain C i"
| "serve C me ListPublicIps = no_reply (list_public_ips C)"
| "serve C me (AttachIp i) = no_reply (attach_public_ip C me i)"
| "serve C me (DetachIp i) = detach_public_ip C me i"
| "serve C me ListTasks = no_reply (list_tasks C)"
| "serve C me (GetTask i) = no_reply (get_task C i)"
| "serve C me (CreateTask i b) = no_reply (create_task C i b)"
| "serve C me GetProxy = no_reply (get_proxy C)"
| "serve C me (CreateProxy b) = no_reply (create_proxy C me b)"
| "serve C me Reconcile = no_reply (pass_once C me)"
| "serve C me Tick = tick C me"

section \<open>Start-up and shutdown\<close>

text \<open>The node's process, its two loop modules, and its start-up and shutdown hooks. The
  process starts with both modules as they are imported.\<close>

record 'db app =
  ap_world :: "'db world"
  ap_loop :: bg
  ap_exec :: bg

definition app_startup :: "string \<Rightarrow> ('db app, unit) prog" where
  "app_startup node_id =
     bnd (zoom ap_world ap_world_update (on_startup node_id)) (\<lambda>_.
     andThen (modify (ap_loop_update loop_start)) (modify (ap_exec_update exec_start)))"

definition app_shutdown :: "('db app, unit) prog" where
  "app_shutdown = andThen (modify (ap_loop_update loop_stop)) (modify (ap_exec_update exec_stop))"

definition app_boot :: "'db world \<Rightarrow> 'db app" where
  "app_boot w = \<lparr>ap_world = w, ap_loop = bg_init, ap_exec = bg_init\<rparr>"

text \<open>The states an application can be in: started and shut down any number of times, start-ups that
  raise included, with its node's world changing freely in between.\<close>

inductive app_reach :: "string \<Rightarrow> 'db app \<Rightarrow> bool" for n where
  boot: "app_reach n (app_boot w)"
| startup: "app_reach n a \<Longrightarrow> app_startup n a = (r, b) \<Longrightarrow> app_reach n b"
| shutdown: "app_reach n a \<Longrightarrow> app_shutdown a = (r, b) \<Longrightarrow> app_reach n b"
| work: "app_reach n a \<Longrightarrow> app_reach n (a\<lparr>ap_world := w\<rparr>)"

lemma app_startup_run:
  "app_startup n a = (case on_startup n (ap_world a) of
     (Inl e, v) \<Rightarrow> (Inl e, a\<lparr>ap_world := v\<rparr>)
   | (Inr _, v) \<Rightarrow> (Inr (), a\<lparr>ap_world := v, ap_loop := loop_start (ap_loop a), ap_exec := exec_start (ap_exec a)\<rparr>))"
  by (simp add: app_startup_def bnd_run andThen_run zoom_run split: prod.splits sum.splits)

lemma app_shutdown_run:
  "app_shutdown a = (Inr (), a\<lparr>ap_loop := loop_stop (ap_loop a), ap_exec := exec_stop (ap_exec a)\<rparr>)"
  by (simp add: app_shutdown_def andThen_run)

lemma app_reach_bg: "app_reach n a \<Longrightarrow> bg_reach (ap_loop a) (ap_exec a)"
proof (induction rule: app_reach.induct)
  case (boot w)
  show ?case by (simp add: app_boot_def bg_reach.init)
next
  case (startup a r b)
  then show ?case
    by (auto simp: app_startup_run intro!: bg_reach.start_loop bg_reach.start_exec split: prod.splits sum.splits)
next
  case (shutdown a r b)
  then show ?case by (auto simp: app_shutdown_run intro!: bg_reach.stop_loop bg_reach.stop_exec)
next
  case (work a w)
  then show ?case by simp
qed

end
