(* ===== verification/DbLogic.thy ===== *)
theory DbLogic
  imports App
begin

text \<open>
  Reasoning about what the handlers and the background work do to the database. A piece of code
  that only runs commands or touches files is \<open>quiet\<close>: it leaves the database and the other nodes
  as they are. \<open>db_ok I P m Q\<close> says of a program that it keeps the invariant \<open>I\<close> of the database on
  every exit, provided the other nodes do, and that after a normal return \<open>Q\<close> holds of the result;
  its rules follow the control structure.
\<close>

section \<open>Quiet code\<close>

definition dbv :: "'db world \<Rightarrow> (http_req \<Rightarrow> 'db \<Rightarrow> (exn + http_resp) \<times> 'db) \<times> 'db" where
  "dbv w = (w_http w, w_db w)"

lemma dbv_upd [simp]:
  "dbv (w\<lparr>w_log := l\<rparr>) = dbv w" "dbv (w\<lparr>w_fake := s\<rparr>) = dbv w" "dbv (w\<lparr>w_fs := f\<rparr>) = dbv w"
  "dbv (w\<lparr>w_nuuid := n\<rparr>) = dbv w" "dbv (w\<lparr>w_tick := n\<rparr>) = dbv w" "dbv (w\<lparr>w_nrand := n\<rparr>) = dbv w"
  "dbv (w\<lparr>w_polls := n\<rparr>) = dbv w" "dbv (w_fake_update g w) = dbv w" "dbv (fs_put p k w) = dbv w"
  by (simp_all add: dbv_def fs_put_def)

abbreviation quiet :: "('db, 'a) node_prog \<Rightarrow> bool" where
  "quiet m \<equiv> keeps dbv m"

named_theorems quiet_rules \<open>code that leaves the database alone\<close>

lemmas [quiet_rules] = keeps_ret keeps_raise keeps_gets keeps_of_sum keeps_bnd keeps_andThen keeps_except
  keeps_if keeps_option keeps_prod keeps_for_each keeps_map_prog keeps_environ keeps_setting keeps_config
  keeps_lvm keeps_readers keeps_pubip keeps_load_report keeps_probe

lemma quiet_base [quiet_rules]:
  "quiet (run argv inp)" "quiet (priv argv)" "quiet uuid4" "quiet now" "quiet (choice xs)"
  "quiet (write_text p t)" "quiet (symlink_to p src)" "quiet (unlink p)" "quiet (unlink_missing_ok p)"
  "quiet (mkdir_p p)" "quiet (rmtree p)"
  by (intro keeps_rules; simp)+

lemma quiet_finally [quiet_rules]: "quiet m \<Longrightarrow> quiet c \<Longrightarrow> quiet (finally_do m c)"
  unfolding keeps_def finally_do_def by (auto split: prod.splits sum.splits) (metis snd_conv)+

lemma quiet_exn [quiet_rules]:
  "(\<And>m. e = OSError m \<Longrightarrow> quiet (f m)) \<Longrightarrow> (\<And>m. e \<noteq> OSError m \<Longrightarrow> quiet g) \<Longrightarrow>
   quiet (case e of OSError m \<Rightarrow> f m | _ \<Rightarrow> g)"
  "(\<And>m. e = PrivopsError m \<Longrightarrow> quiet (f' m)) \<Longrightarrow> (\<And>m. e \<noteq> PrivopsError m \<Longrightarrow> quiet g') \<Longrightarrow>
   quiet (case e of PrivopsError m \<Rightarrow> f' m | _ \<Rightarrow> g')"
  by (cases e; simp)+

lemma quiet_query [quiet_rules]: "quiet (query kind argv)"
  unfolding query_def by (intro quiet_rules)

lemma quiet_list_lvs [quiet_rules]: "quiet (list_lvs vg)" "quiet (lv_names vg)" "quiet (lv_exists vg n)"
  unfolding list_lvs_def lv_names_def lv_exists_def by (intro quiet_rules)+

lemma quiet_lv [quiet_rules]:
  "quiet (lv_remove vg n)" "quiet (lv_extend vg n k)" "quiet (lv_create_thin vg p n k)"
  "quiet (lv_snapshot vg og n ro)" "quiet (lv_clone vg og n)" "quiet (format_ext4 dev)"
  unfolding lv_remove_def lv_extend_def lv_create_thin_def lv_snapshot_def lv_clone_def format_ext4_def
  by (intro quiet_rules)+

lemma quiet_volume [quiet_rules]:
  "quiet (vol_create vg p n k)" "quiet (vol_from_snapshot vg s n)" "quiet (vol_delete vg n)"
  "quiet (snap_create vg s n)" "quiet (snap_golden vg s g)" "quiet (snap_remove vg l)"
  unfolding vol_create_def vol_from_snapshot_def vol_delete_def snap_create_def snap_golden_def snap_remove_def
  by (intro quiet_rules)+

lemma quiet_links [quiet_rules]:
  "quiet (netns_create n)" "quiet (netns_delete n)" "quiet (veth_create_pair a b)" "quiet (veth_place_in_ns a b)"
  "quiet (veth_up a)" "quiet (veth_delete a)" "quiet (bridge_exists b)" "quiet (bridge_attach b v)"
  "quiet (tap_create ns n)" "quiet (ns_bridge_create ns n)" "quiet (ns_bridge_attach ns l n)" "quiet (vxlan_exists n)"
  unfolding netns_create_def netns_delete_def veth_create_pair_def veth_place_in_ns_def veth_up_def veth_delete_def
    bridge_exists_def bridge_attach_def tap_create_def ns_bridge_create_def ns_bridge_attach_def vxlan_exists_def
  by (intro quiet_rules)+

lemma quiet_net [quiet_rules]:
  "quiet (bridge_ensure b h m)" "quiet (ensure_chain t c)" "quiet (ensure_rule t c a)"
  "quiet (vxlan_ensure n v l b)" "quiet (fdb_peers n)"
  unfolding bridge_ensure_def ensure_chain_def chain_exists_def ensure_rule_def rule_exists_def vxlan_ensure_def fdb_peers_def
  by (intro quiet_rules)+

lemma quiet_fdb [quiet_rules]: "quiet (nat_ensure c)" "quiet (set_fdb n ps)"
  unfolding nat_ensure_def set_fdb_def by (intro quiet_rules)+

lemma quiet_modify_dbv [quiet_rules]: "(\<And>w. dbv (f w) = dbv w) \<Longrightarrow> quiet (modify f)"
  by (simp add: keeps_modify)

lemma quiet_env [quiet_rules]:
  "quiet (symlink t s)" "quiet (env_setup vms i a vg og)" "quiet (attach_run d p)" "quiet (env_teardown d vg)"
  "quiet (list_dirs vms)"
  unfolding symlink_def env_setup_def attach_run_def env_teardown_def list_dirs_def env_list_dirs_def Let_def by (intro quiet_rules)+

lemma quiet_inject [quiet_rules]: "quiet (inject_run root k dns data p)"
  unfolding inject_run_def with_tmp_def inject_lines_def inject_ssh_def inject_resolv_def inject_fstab_def
    inject_home_mount_def inject_pubip_def Let_def
  by (intro quiet_rules; simp)

lemma quiet_popen [quiet_rules]: "quiet (popen argv)" "quiet (poll_alive pid)"
  by (simp_all add: keeps_def popen_def poll_alive_def)

lemma quiet_wait [quiet_rules]: "quiet (wait_gone n pid)"
proof (induction n)
  case 0
  show ?case unfolding wait_gone.simps by (intro quiet_rules)
next
  case (Suc n)
  then show ?case unfolding wait_gone.simps by (intro quiet_rules)
qed

lemma quiet_fnode [quiet_rules]:
  "(\<And>t. x = Some (File t) \<Longrightarrow> quiet (f t)) \<Longrightarrow> quiet g \<Longrightarrow>
   quiet (case x of Some (File t) \<Rightarrow> f t | _ \<Rightarrow> g)"
  by (auto split: option.splits fnode.splits)

lemma quiet_proc [quiet_rules]:
  "quiet (config_build root cfg)" "quiet (create_run root i ns bin)" "quiet (boot_run root)" "quiet (sock_cleanup root)"
  "quiet (read_text p)" "quiet (read_pid root)" "quiet (open_append p)"
  unfolding config_build_def create_run_def create_real_def create_fake_def boot_run_def sock_cleanup_def read_text_def
    read_pid_def open_append_def
  by (intro quiet_rules; simp)+

lemma quiet_life [quiet_rules]: "quiet (terminate pid)" "quiet (status_run root)" "quiet (guest_run ip key sc)"
  unfolding terminate_def status_run_def real_status_def fake_status_def guest_run_def by (intro quiet_rules)+

lemma quiet_kill [quiet_rules]: "quiet (kill_run root)"
  unfolding kill_run_def by (intro quiet_rules)

lemma quiet_vm [quiet_rules]:
  "quiet (vm_up spec)" "quiet (vm_down vms i vg)" "quiet (vm_stop vms i)" "quiet (vm_start vms i ns bin)"
  unfolding vm_up_def vm_network_def overlay_up_def wire_veth_def wire_tap_def wire_public_def vm_spawn_def
    vm_down_def network_down_def safe_def vm_stop_def vm_start_def Let_def
  by (intro quiet_rules)+

lemma quiet_misc [quiet_rules]:
  "quiet ttl_minutes" "quiet (sync_vpc n pl v)" "quiet (prune_rootfs_lvs vg ex)" "quiet (with_status row)"
  "quiet (push_setup ip key)" "quiet (push_reload ip key t)" "quiet (resolve_fqdn body)" "quiet (row_of b n ip)"
  "quiet (spawn_row sb n v ip vol)" "quiet (pool_ensure n cfg src)" "quiet (on_startup n)"
  unfolding ttl_minutes_def sync_vpc_def prune_rootfs_lvs_def with_status_def push_setup_def push_reload_def
    resolve_fqdn_def row_of_def spawn_row_def on_startup_def pool_ensure_def ensure_pv_def ensure_pvcreate_def
    ensure_loopback_def loop_dev_def vg_exists_def ensure_pool_def ensure_default_golden_def pv_exists_def Let_def
  by (intro quiet_rules)+

section \<open>Triples over the database\<close>

definition peers_keep :: "('db \<Rightarrow> bool) \<Rightarrow> 'db world \<Rightarrow> bool" where
  "peers_keep I w \<longleftrightarrow> (\<forall>rq d. I d \<longrightarrow> I (snd (w_http w rq d)))"

definition db_ok ::
  "('db \<Rightarrow> bool) \<Rightarrow> ('db \<Rightarrow> bool) \<Rightarrow> ('db, 'a) node_prog \<Rightarrow> ('a \<Rightarrow> 'db \<Rightarrow> bool) \<Rightarrow> bool" where
  "db_ok I P m Q \<longleftrightarrow>
     (\<forall>w r v. peers_keep I w \<and> I (w_db w) \<and> P (w_db w) \<and> m w = (r, v) \<longrightarrow>
        w_http v = w_http w \<and> I (w_db v) \<and> (\<forall>x. r = Inr x \<longrightarrow> Q x (w_db v)))"

lemma db_okI:
  "(\<And>w r v. peers_keep I w \<Longrightarrow> I (w_db w) \<Longrightarrow> P (w_db w) \<Longrightarrow> m w = (r, v) \<Longrightarrow>
      w_http v = w_http w \<and> I (w_db v) \<and> (\<forall>x. r = Inr x \<longrightarrow> Q x (w_db v))) \<Longrightarrow> db_ok I P m Q"
  unfolding db_ok_def by blast

lemma db_okD:
  "db_ok I P m Q \<Longrightarrow> m w = (r, v) \<Longrightarrow> peers_keep I w \<Longrightarrow> I (w_db w) \<Longrightarrow> P (w_db w) \<Longrightarrow>
   w_http v = w_http w \<and> I (w_db v) \<and> (\<forall>x. r = Inr x \<longrightarrow> Q x (w_db v))"
  unfolding db_ok_def by blast

lemma peers_keep_http: "w_http v = w_http w \<Longrightarrow> peers_keep I v = peers_keep I w"
  by (simp add: peers_keep_def)

lemma ok_bnd:
  assumes "db_ok I P m R" "\<And>x. db_ok I (R x) (f x) Q"
  shows "db_ok I P (bnd m f) Q"
proof (rule db_okI)
  fix w r v
  assume w: "peers_keep I w" "I (w_db w)" "P (w_db w)" and run: "bnd m f w = (r, v)"
  obtain r' u where u: "m w = (r', u)" by fastforce
  note m = db_okD [OF assms(1) u w]
  show "w_http v = w_http w \<and> I (w_db v) \<and> (\<forall>x. r = Inr x \<longrightarrow> Q x (w_db v))"
  proof (cases r')
    case (Inl e)
    then show ?thesis using run u m by (auto simp: bnd_run)
  next
    case (Inr x)
    then have "f x u = (r, v)" "peers_keep I u" "I (w_db u)" "R x (w_db u)"
      using run u m w(1) peers_keep_http [of u w] by (simp_all add: bnd_run)
    with db_okD [OF assms(2) this] m show ?thesis by simp
  qed
qed

lemma ok_andThen: "db_ok I P m (\<lambda>_. R) \<Longrightarrow> db_ok I R n Q \<Longrightarrow> db_ok I P (andThen m n) Q"
  unfolding andThen_def by (rule ok_bnd)

lemma ok_except:
  assumes "db_ok I P m Q" "\<And>e. db_ok I (\<lambda>_. True) (h e) Q"
  shows "db_ok I P (except m h) Q"
proof (rule db_okI)
  fix w r v
  assume w: "peers_keep I w" "I (w_db w)" "P (w_db w)" and run: "except m h w = (r, v)"
  obtain r' u where u: "m w = (r', u)" by fastforce
  note m = db_okD [OF assms(1) u w]
  show "w_http v = w_http w \<and> I (w_db v) \<and> (\<forall>x. r = Inr x \<longrightarrow> Q x (w_db v))"
  proof (cases r')
    case (Inl e)
    then have "h e u = (r, v)" "peers_keep I u" "I (w_db u)"
      using run u m w(1) peers_keep_http [of u w] by (simp_all add: except_run)
    with db_okD [OF assms(2) this] m show ?thesis by simp
  next
    case (Inr x)
    then show ?thesis using run u m by (simp add: except_run)
  qed
qed

lemma ok_quiet: "quiet m \<Longrightarrow> db_ok I P m (\<lambda>_. P)"
  by (rule db_okI) (auto dest: keepsD simp: dbv_def)

lemma ok_weaken: "db_ok I P m Q \<Longrightarrow> (\<And>d. I d \<Longrightarrow> P' d \<Longrightarrow> P d) \<Longrightarrow> (\<And>x d. Q x d \<Longrightarrow> Q' x d) \<Longrightarrow> db_ok I P' m Q'"
  unfolding db_ok_def by blast

lemma ok_ret: "(\<And>d. I d \<Longrightarrow> P d \<Longrightarrow> Q x d) \<Longrightarrow> db_ok I P (ret x) Q"
  by (rule db_okI) auto

lemma ok_raise: "db_ok I P (raise e) Q"
  by (rule db_okI) auto

lemma ok_of_sum: "db_ok I P (of_sum s) (\<lambda>x d. P d \<and> s = Inr x)"
  by (rule db_okI) auto

lemma ok_get: "db_ok I P (get t F) (\<lambda>x d. P d \<and> d_get t F d = x)"
  by (rule db_okI) (auto simp: get_def)

lemma ok_get_all: "db_ok I P (get_all t F) (\<lambda>x d. P d \<and> d_all t F d = x)"
  by (rule db_okI) (auto simp: get_all_def)

lemma ok_insert:
  "(\<And>d d'. I d \<Longrightarrow> P d \<Longrightarrow> d_insert t r d = Inr d' \<Longrightarrow> I d' \<and> Q d') \<Longrightarrow> db_ok I P (insert_row t r) (\<lambda>_. Q)"
  by (rule db_okI) (auto simp: insert_row_def split: sum.splits)

lemma ok_update:
  "(\<And>d. I d \<Longrightarrow> P d \<Longrightarrow> I (d_update t F f d) \<and> Q (d_update t F f d)) \<Longrightarrow> db_ok I P (update_rows t F f) (\<lambda>_. Q)"
  by (rule db_okI) (auto simp: update_rows_def)

lemma ok_delete:
  "(\<And>d n d'. I d \<Longrightarrow> P d \<Longrightarrow> d_delete t F d = (n, d') \<Longrightarrow> I d' \<and> Q n d') \<Longrightarrow> db_ok I P (delete_rows t F) Q"
  by (rule db_okI) (auto simp: delete_rows_def split: prod.splits)

lemma ok_http: "db_ok I P (http rq) (\<lambda>_ _. True)"
  by (rule db_okI, clarsimp simp: http_def peers_keep_def split: prod.splits) (metis snd_conv)

lemma ok_if: "(b \<Longrightarrow> db_ok I P m Q) \<Longrightarrow> (\<not> b \<Longrightarrow> db_ok I P n Q) \<Longrightarrow> db_ok I P (if b then m else n) Q"
  by simp

lemma ok_option:
  "(x = None \<Longrightarrow> db_ok I P m Q) \<Longrightarrow> (\<And>y. x = Some y \<Longrightarrow> db_ok I P (f y) Q) \<Longrightarrow>
   db_ok I P (case x of None \<Rightarrow> m | Some y \<Rightarrow> f y) Q"
  by (cases x) auto

lemma ok_for_each:
  assumes "\<And>x. x \<in> set xs \<Longrightarrow> db_ok I P (f x) (\<lambda>_. P)"
  shows "db_ok I P (for_each xs f) (\<lambda>_. P)"
  using assms by (induction xs) (auto intro: ok_ret ok_andThen)

lemma ok_map_prog:
  assumes "\<And>x. db_ok I P (f x) (\<lambda>_. P)"
  shows "db_ok I P (map_prog f xs) (\<lambda>_. P)"
proof (induction xs)
  case Nil
  show ?case unfolding map_prog.simps by (rule ok_ret)
next
  case (Cons x xs)
  show ?case unfolding map_prog.simps
    by (rule ok_bnd [OF assms], rule ok_bnd [OF Cons], rule ok_ret)
qed

text \<open>Code that keeps the invariant, with nothing said of its result.\<close>

abbreviation db_safe :: "('db \<Rightarrow> bool) \<Rightarrow> ('db, 'a) node_prog \<Rightarrow> bool" where
  "db_safe I m \<equiv> db_ok I (\<lambda>_. True) m (\<lambda>_ _. True)"

named_theorems safe_rules \<open>code that keeps the invariant\<close>

lemma safe_ret [safe_rules]: "db_safe I (ret x)"
  by (rule ok_ret) simp

lemma safe_raise [safe_rules]: "db_safe I (raise e)"
  by (rule ok_raise)

lemma safe_bnd [safe_rules]: "db_safe I m \<Longrightarrow> (\<And>x. db_safe I (f x)) \<Longrightarrow> db_safe I (bnd m f)"
  by (rule ok_bnd)

lemma safe_andThen [safe_rules]: "db_safe I m \<Longrightarrow> db_safe I n \<Longrightarrow> db_safe I (andThen m n)"
  by (rule ok_andThen)

lemma safe_except [safe_rules]: "db_safe I m \<Longrightarrow> (\<And>e. db_safe I (h e)) \<Longrightarrow> db_safe I (except m h)"
  by (rule ok_except)

lemma safe_if [safe_rules]: "(b \<Longrightarrow> db_safe I m) \<Longrightarrow> (\<not> b \<Longrightarrow> db_safe I n) \<Longrightarrow> db_safe I (if b then m else n)"
  by simp

lemma safe_option [safe_rules]:
  "(x = None \<Longrightarrow> db_safe I m) \<Longrightarrow> (\<And>y. x = Some y \<Longrightarrow> db_safe I (f y)) \<Longrightarrow>
   db_safe I (case x of None \<Rightarrow> m | Some y \<Rightarrow> f y)"
  by (cases x) auto

lemma safe_prod [safe_rules]: "(\<And>a b. p = (a, b) \<Longrightarrow> db_safe I (f a b)) \<Longrightarrow> db_safe I (case p of (a, b) \<Rightarrow> f a b)"
  by (cases p) auto

lemma safe_for_each [safe_rules]: "(\<And>x. db_safe I (f x)) \<Longrightarrow> db_safe I (for_each xs f)"
  by (rule ok_weaken [OF ok_for_each]) auto

lemma safe_map_prog [safe_rules]: "(\<And>x. db_safe I (f x)) \<Longrightarrow> db_safe I (map_prog f xs)"
  by (rule ok_weaken [OF ok_map_prog]) auto

lemma safe_get [safe_rules]: "db_safe I (get t F)" "db_safe I (get_all t G)" "db_safe I (gets h)"
  by (rule ok_weaken [OF ok_get] ok_weaken [OF ok_get_all] db_okI; auto)+

lemma safe_of_sum [safe_rules]: "db_safe I (of_sum s)"
  by (rule ok_weaken [OF ok_of_sum]) auto

lemma safe_quiet: "quiet m \<Longrightarrow> db_safe I m"
  by (rule ok_weaken [OF ok_quiet]) auto

lemma safe_http [safe_rules]: "db_safe I (http rq)"
  by (rule ok_http)

lemma safe_forward [safe_rules]: "db_safe I (forward C n meth path body hs)" "db_safe I (forwarded C n meth path body hs)"
  unfolding forward_def base_url_def forwarded_def by (intro safe_rules)+

lemma safe_locally [safe_rules]: "db_safe I m \<Longrightarrow> db_safe I (locally m)"
  unfolding locally_def by (intro safe_rules)

lemma safe_or_404 [safe_rules]: "db_safe I (or_404 s x)"
  unfolding or_404_def by (intro safe_rules)

end
