(* ===== verification/DbInvariant.thy ===== *)
theory DbInvariant
  imports DbLogic
begin

text \<open>
  The invariant of the cluster's database and the proof that every handler and every piece of
  background work keeps it. It is stated over the tables, so it holds for any store that obeys the
  laws of the locale \<open>dadar\<close>.
\<close>

section \<open>The invariant\<close>

text \<open>
  Keys are unique; no two VMs of a VPC share an address and no address of a node is handed out
  twice; a VM's VPC exists and its address is one that VPC gives to VMs (in its network, not its
  gateway); and a VM's data volume exists.
\<close>

definition keys_unique :: "tables \<Rightarrow> bool" where
  "keys_unique T \<longleftrightarrow>
     distinct (map vm_id (t_vms T)) \<and> distinct (map vp_id (t_vpcs T)) \<and> distinct (map vp_name (t_vpcs T)) \<and>
     distinct (map vo_id (t_volumes T)) \<and> distinct (map do_fqdn (t_domains T)) \<and> distinct (map px_vpc (t_proxies T))"

definition addresses_unique :: "tables \<Rightarrow> bool" where
  "addresses_unique T \<longleftrightarrow>
     distinct (map (\<lambda>r. (vm_vpc r, vm_ip r)) (t_vms T)) \<and> distinct (map (\<lambda>r. (pi_node r, pi_address r)) (t_pubips T))"

definition vm_placed :: "tables \<Rightarrow> vm_row \<Rightarrow> bool" where
  "vm_placed T r \<longleftrightarrow>
     (\<exists>p \<in> set (t_vpcs T). vp_id p = vm_vpc r \<and> vm_ip r \<in> set (vm_hosts (vp_cidr p))) \<and>
     (\<forall>v. truthy_str (vm_volume r) = Some v \<longrightarrow> v \<in> vo_id ` set (t_volumes T))"

definition db_inv :: "tables \<Rightarrow> bool" where
  "db_inv T \<longleftrightarrow> keys_unique T \<and> addresses_unique T \<and> (\<forall>r \<in> set (t_vms T). vm_placed T r)"

lemmas inv_defs = db_inv_def keys_unique_def addresses_unique_def vm_placed_def

lemma db_inv_empty: "db_inv no_rows"
  by (simp add: inv_defs no_rows_def)

section \<open>Deleting rows\<close>

lemma db_inv_del:
  assumes "db_inv T"
  shows "db_inv (t_vms_update (filter F) T)" "db_inv (t_pubips_update (filter G) T)"
    "db_inv (t_domains_update (filter H) T)" "db_inv (t_proxies_update (filter J) T)"
    "db_inv (t_snapshots_update g T)" "db_inv (t_tasks_update h T)"
  using assms by (auto simp: inv_defs distinct_map_filter)

lemma db_inv_del_vpc:
  assumes "db_inv T" "\<forall>r \<in> set (t_vms T). vm_vpc r \<noteq> i"
  shows "db_inv (t_vpcs_update (filter (\<lambda>r. vp_id r \<noteq> i)) T)"
  using assms by (fastforce simp: inv_defs distinct_map_filter)

lemma truthy_SomeD: "truthy_str x = Some v \<Longrightarrow> x = Some v"
  by (auto simp: truthy_str_def split: option.splits if_splits)

lemma db_inv_del_volume:
  assumes "db_inv T" "\<forall>r \<in> set (t_vms T). vm_volume r \<noteq> Some i"
  shows "db_inv (t_volumes_update (filter (\<lambda>r. vo_id r \<noteq> i)) T)"
proof -
  have "v \<noteq> i" if "r \<in> set (t_vms T)" "truthy_str (vm_volume r) = Some v" for r v
    using that assms(2) truthy_SomeD by blast
  with assms(1) show ?thesis by (fastforce simp: inv_defs distinct_map_filter)
qed

section \<open>Changing and inserting rows\<close>

lemma map_cond: "(\<And>r. k (f r) = k r) \<Longrightarrow> map k (map (\<lambda>r. if P r then f r else r) xs) = map k xs"
  by (induction xs) auto

lemma db_inv_status:
  assumes "db_inv T"
  shows "db_inv (t_vms_update (map (\<lambda>r. if P r then r\<lparr>vm_status := st\<rparr> else r)) T)"
    and "db_inv (t_volumes_update (map (\<lambda>r. if Q r then r\<lparr>vo_size := n\<rparr> else r)) T)"
    and "db_inv (t_proxies_update (map (\<lambda>r. if S r then r\<lparr>px_status := st\<rparr> else r)) T)"
proof -
  show "db_inv (t_vms_update (map (\<lambda>r. if P r then r\<lparr>vm_status := st\<rparr> else r)) T)"
    using assms by (auto simp: inv_defs map_cond simp del: map_map)
  have "map vo_id (map (\<lambda>r. if Q r then r\<lparr>vo_size := n\<rparr> else r) xs) = map vo_id xs" for xs
    by (rule map_cond) simp
  from arg_cong [OF this, of set]
  have "vo_id ` set (map (\<lambda>r. if Q r then r\<lparr>vo_size := n\<rparr> else r) xs) = vo_id ` set xs" for xs
    by (simp only: set_map)
  then show "db_inv (t_volumes_update (map (\<lambda>r. if Q r then r\<lparr>vo_size := n\<rparr> else r)) T)"
    using assms by (simp add: inv_defs map_cond del: map_map list.set_map)
  show "db_inv (t_proxies_update (map (\<lambda>r. if S r then r\<lparr>px_status := st\<rparr> else r)) T)"
    using assms by (simp add: inv_defs map_cond del: map_map)
qed

lemma db_inv_add:
  assumes "db_inv T"
  shows "\<forall>x \<in> set (t_vpcs T). \<not> vpc_clash p x \<Longrightarrow> db_inv (t_vpcs_update (\<lambda>rs. rs @ [p]) T)"
    and "\<forall>x \<in> set (t_volumes T). \<not> key_clash vo_id v x \<Longrightarrow> db_inv (t_volumes_update (\<lambda>rs. rs @ [v]) T)"
    and "\<forall>x \<in> set (t_domains T). \<not> domain_clash d x \<Longrightarrow> db_inv (t_domains_update (\<lambda>rs. rs @ [d]) T)"
    and "\<forall>x \<in> set (t_proxies T). \<not> proxy_clash q x \<Longrightarrow> db_inv (t_proxies_update (\<lambda>rs. rs @ [q]) T)"
  using assms
  by (auto simp: inv_defs vpc_clash_def key_clash_def domain_clash_def proxy_clash_def)

text \<open>A new VM must be placed, at an address free in its VPC; a new public address free on its node.\<close>

definition ip_free :: "vm_row \<Rightarrow> tables \<Rightarrow> bool" where
  "ip_free r T \<longleftrightarrow> (\<forall>x \<in> set (t_vms T). vm_vpc x = vm_vpc r \<longrightarrow> vm_ip x \<noteq> vm_ip r)"

definition address_free :: "string \<Rightarrow> string \<Rightarrow> tables \<Rightarrow> bool" where
  "address_free n a T \<longleftrightarrow> (\<forall>x \<in> set (t_pubips T). pi_node x = n \<longrightarrow> pi_address x \<noteq> a)"

lemma vm_defaults_sel [simp]:
  "vm_id (vm_defaults r) = vm_id r" "vm_vpc (vm_defaults r) = vm_vpc r" "vm_ip (vm_defaults r) = vm_ip r"
  "vm_volume (vm_defaults r) = vm_volume r" "vm_node (vm_defaults r) = vm_node r"
  by (simp_all add: vm_defaults_def)

lemma db_inv_add_vm:
  assumes "db_inv T" "\<forall>x \<in> set (t_vms T). \<not> key_clash vm_id r x" "vm_placed T r" "ip_free r T"
  shows "db_inv (t_vms_update (\<lambda>rs. rs @ [vm_defaults r]) T)"
  using assms by (auto simp: inv_defs key_clash_def ip_free_def)

lemma db_inv_add_pubip:
  assumes "db_inv T" "address_free (pi_node r) (pi_address r) T"
  shows "db_inv (t_pubips_update (\<lambda>rs. rs @ [r]) T)"
  using assms by (auto simp: inv_defs address_free_def)

section \<open>Database operations\<close>

abbreviation inv_on :: "('db \<Rightarrow> tables) \<Rightarrow> 'db \<Rightarrow> bool" where
  "inv_on view \<equiv> (\<lambda>d. db_inv (view d))"

lemmas safe_atoms = quiet_base [THEN safe_quiet] quiet_lv [THEN safe_quiet] quiet_volume [THEN safe_quiet]
  quiet_list_lvs [THEN safe_quiet] quiet_vm [THEN safe_quiet] quiet_misc [THEN safe_quiet] quiet_life [THEN safe_quiet]
  quiet_env [THEN safe_quiet] keeps_environ [THEN safe_quiet] keeps_config [THEN safe_quiet]
  keeps_lvm [THEN safe_quiet] keeps_readers [THEN safe_quiet] keeps_pubip [THEN safe_quiet]

lemma safe_exn [safe_rules]:
  "(\<And>m. e = RqliteError m \<Longrightarrow> db_safe I (f m)) \<Longrightarrow> (\<And>m. e \<noteq> RqliteError m \<Longrightarrow> db_safe I g) \<Longrightarrow>
   db_safe I (case e of RqliteError m \<Rightarrow> f m | _ \<Rightarrow> g)"
  "(\<And>c m. e = HTTPException c m \<Longrightarrow> db_safe I (f' c m)) \<Longrightarrow> (\<And>c m. e \<noteq> HTTPException c m \<Longrightarrow> db_safe I g') \<Longrightarrow>
   db_safe I (case e of HTTPException c m \<Rightarrow> f' c m | _ \<Rightarrow> g')"
  by (cases e; simp)+

lemma safe_sum [safe_rules]:
  "(\<And>e. x = Inl e \<Longrightarrow> db_safe I (f e)) \<Longrightarrow> (\<And>y. x = Inr y \<Longrightarrow> db_safe I (g y)) \<Longrightarrow>
   db_safe I (case x of Inl e \<Rightarrow> f e | Inr y \<Rightarrow> g y)"
  by (cases x) auto

lemma safe_validate [safe_rules]: "db_safe I (validate_cidr c)"
  by (auto simp: validate_cidr_def intro!: safe_rules split: sum.splits exn.splits)

lemma safe_json [safe_rules]:
  "(\<And>xs. j = JList xs \<Longrightarrow> db_safe I (f xs)) \<Longrightarrow> db_safe I m \<Longrightarrow> db_safe I g \<Longrightarrow>
   db_safe I (case j of JList xs \<Rightarrow> f xs | JObj [] \<Rightarrow> m | _ \<Rightarrow> g)"
  by (auto split: json.splits list.splits)

context dadar
begin

lemma safe_del [safe_rules]:
  "db_safe (inv_on abs) (delete_rows (c_vms C) F)"
  "db_safe (inv_on abs) (delete_rows (c_pubips C) G)"
  "db_safe (inv_on abs) (delete_rows (c_domains C) H)"
  "db_safe (inv_on abs) (delete_rows (c_proxies C) J)"
  "db_safe (inv_on abs) (delete_rows (c_snapshots C) K)"
  by (rule ok_delete, drule vms.delete pubips.delete domains.delete proxies.delete snapshots.delete,
      simp add: db_inv_del)+

lemma safe_upd [safe_rules]:
  "db_safe (inv_on abs) (update_rows (c_vms C) P (\<lambda>r. r\<lparr>vm_status := st\<rparr>))"
  "db_safe (inv_on abs) (update_rows (c_volumes C) Q (\<lambda>r. r\<lparr>vo_size := n\<rparr>))"
  "db_safe (inv_on abs) (update_rows (c_proxies C) S (\<lambda>r. r\<lparr>px_status := st\<rparr>))"
  "db_safe (inv_on abs) (update_rows (c_tasks C) T f)"
  by (rule ok_update, simp add: vms.update volumes.update proxies.update tasks.update db_inv_status db_inv_del)+

lemma safe_ins [safe_rules]:
  "db_safe (inv_on abs) (insert_row (c_vpcs C) p)"
  "db_safe (inv_on abs) (insert_row (c_volumes C) v)"
  "db_safe (inv_on abs) (insert_row (c_domains C) e)"
  "db_safe (inv_on abs) (insert_row (c_proxies C) q)"
  "db_safe (inv_on abs) (insert_row (c_snapshots C) s)"
  "db_safe (inv_on abs) (insert_row (c_tasks C) k)"
  by (rule ok_insert,
      drule vpcs.insert_Inr volumes.insert_Inr domains.insert_Inr proxies.insert_Inr snapshots.insert_Inr tasks.insert_Inr,
      simp add: db_inv_add db_inv_del)+

section \<open>Handlers that need no facts\<close>

lemma safe_vpcs [safe_rules]:
  "db_safe (inv_on abs) (list_vpcs C)" "db_safe (inv_on abs) (create_vpc C body)" "db_safe (inv_on abs) (get_vpc C i)"
  unfolding list_vpcs_def create_vpc_def get_vpc_def Let_def by (intro safe_rules safe_atoms)+

lemma safe_volumes [safe_rules]:
  "db_safe (inv_on abs) (create_volume_local C body n)" "db_safe (inv_on abs) (create_volume C me body)"
  "db_safe (inv_on abs) (resize_local C row k)" "db_safe (inv_on abs) (resize_volume C me i b)"
  unfolding create_volume_def create_volume_local_def provision_def resize_volume_def resize_local_def Let_def
  by (intro safe_rules safe_atoms)+

lemma safe_snapshots [safe_rules]:
  "db_safe (inv_on abs) (create_snapshot C me sb)" "db_safe (inv_on abs) (create_image C me ib)"
  "db_safe (inv_on abs) (delete_snapshot C me i)" "db_safe (inv_on abs) (delete_image C me i)"
  unfolding create_snapshot_def create_snapshot_local_def resolve_source_def create_image_def create_image_local_def
    delete_snapshot_def delete_image_def delete_role_def get_or_404_def Let_def
  by (intro safe_rules safe_atoms)+

lemma safe_tasks [safe_rules]:
  "db_safe (inv_on abs) (create_task C i tb)" "db_safe (inv_on abs) (insert_task C v n ty ps)"
  unfolding create_task_def insert_task_def Let_def by (intro safe_rules safe_atoms)+

lemma safe_domains [safe_rules]:
  "db_safe (inv_on abs) (create_domain C db)" "db_safe (inv_on abs) (delete_domain C i)"
  unfolding create_domain_def delete_domain_def enqueue_reload_def Let_def by (intro safe_rules safe_atoms)+

lemma safe_default [safe_rules]: "db_safe (inv_on abs) (ensure_default_vpc C)" "db_safe (inv_on abs) (teardown_deps C i)"
  unfolding ensure_default_vpc_def teardown_deps_def deps_public_ip_def Let_def by (intro safe_rules safe_atoms)+

lemma safe_bring_up [safe_rules]: "db_safe (inv_on abs) (bring_up C row c v k og)"
  unfolding bring_up_def spec_of_def node_host_def peer_hosts_def by (intro safe_rules safe_atoms)

lemma safe_recreate [safe_rules]: "db_safe (inv_on abs) (recreate_vm C i)"
  unfolding recreate_vm_def by (intro safe_rules safe_atoms)

lemma safe_vm_ops [safe_rules]:
  "db_safe (inv_on abs) (get_vm C me i)" "db_safe (inv_on abs) (delete_vm C me i)" "db_safe (inv_on abs) (stop_vm C me i)"
  "db_safe (inv_on abs) (start_vm C me i)" "db_safe (inv_on abs) (reboot_vm C me i)"
  unfolding get_vm_def delete_vm_def delete_vm_local_def stop_vm_def start_vm_def reboot_vm_def on_owner_def
    owner_or_404_def stop_local_def start_local_def set_status_def
  by (intro safe_rules safe_atoms)+

lemma safe_lists [safe_rules]: "db_safe (inv_on abs) (list_vms C me lo)" "db_safe (inv_on abs) (detach_public_ip C me i)"
  unfolding list_vms_def merge_remote_status_def ask_owner_def detach_public_ip_def vm_or_404_def detach_local_def Let_def
  by (intro safe_rules safe_atoms)+

lemma safe_passes [safe_rules]:
  "db_safe (inv_on abs) (ttl_pass C n)" "db_safe (inv_on abs) (vms_pass C n)" "db_safe (inv_on abs) (volumes_pass C n)"
  "db_safe (inv_on abs) (snapshots_pass C n)" "db_safe (inv_on abs) (overlay_pass C n)"
  unfolding ttl_pass_def reap_def vms_pass_def volumes_pass_def snapshots_pass_def overlay_pass_def local_vpcs_def node_host_def
    peer_hosts_def Let_def
  by (intro safe_rules safe_atoms)+

lemma safe_once [safe_rules]: "db_safe (inv_on abs) (pass_once C n)"
  unfolding pass_once_def by (intro safe_rules)

section \<open>Deleting what others need\<close>

lemma safe_delete_vpc [safe_rules]: "db_safe (inv_on abs) (delete_vpc C i)"
  unfolding delete_vpc_def
proof (rule ok_bnd [where R = "\<lambda>v d. v = None \<longrightarrow> (\<forall>r \<in> set (t_vms (abs d)). vm_vpc r \<noteq> i)"])
  show "db_ok (inv_on abs) (\<lambda>_. True) (get (c_vms C) (\<lambda>r. vm_vpc r = i))
     (\<lambda>v d. v = None \<longrightarrow> (\<forall>r \<in> set (t_vms (abs d)). vm_vpc r \<noteq> i))"
    by (rule ok_weaken [OF ok_get]) (use vms.get_None in auto)
  show "db_ok (inv_on abs) (\<lambda>d. v = None \<longrightarrow> (\<forall>r \<in> set (t_vms (abs d)). vm_vpc r \<noteq> i))
     (if v \<noteq> None then raise (HTTPException 409 ''vpc still has vms'')
      else bnd (delete_rows (c_vpcs C) (\<lambda>r. vp_id r = i)) (\<lambda>n.
        if n = 0 then raise (HTTPException 404 ''vpc not found'') else ret ())) (\<lambda>_ _. True)" for v
  proof (intro ok_if ok_raise)
    assume "\<not> v \<noteq> None"
    then show "db_ok (inv_on abs) (\<lambda>d. v = None \<longrightarrow> (\<forall>r \<in> set (t_vms (abs d)). vm_vpc r \<noteq> i))
      (bnd (delete_rows (c_vpcs C) (\<lambda>r. vp_id r = i)) (\<lambda>n.
        if n = 0 then raise (HTTPException 404 ''vpc not found'') else ret ())) (\<lambda>_ _. True)"
      by (intro ok_bnd [OF ok_delete [where Q = "\<lambda>_ _. True"]] safe_rules)
         (auto dest!: vpcs.delete intro: db_inv_del_vpc)
  qed
qed

lemma safe_delete_volume_local [safe_rules]: "db_safe (inv_on abs) (delete_volume_local C row)"
  unfolding delete_volume_local_def
proof (rule ok_bnd [where R = "\<lambda>v d. v = None \<longrightarrow> (\<forall>r \<in> set (t_vms (abs d)). vm_volume r \<noteq> Some (vo_id row))"])
  let ?free = "\<lambda>d. \<forall>r \<in> set (t_vms (abs d)). vm_volume r \<noteq> Some (vo_id row)"
  show "db_ok (inv_on abs) (\<lambda>_. True) (get (c_vms C) (\<lambda>r. vm_volume r = Some (vo_id row))) (\<lambda>v d. v = None \<longrightarrow> ?free d)"
    by (rule ok_weaken [OF ok_get]) (use vms.get_None in auto)
  have "db_ok (inv_on abs) ?free (bnd (volume_vg (vo_node row)) (\<lambda>vg.
         andThen (vol_delete vg (data_name (vo_id row)))
        (bnd (delete_rows (c_volumes C) (\<lambda>r. vo_id r = vo_id row)) (\<lambda>_. ret ())))) (\<lambda>_ _. True)"
    by (intro ok_bnd [OF ok_quiet] ok_andThen [OF ok_quiet] quiet_rules
          ok_bnd [OF ok_delete [where Q = "\<lambda>_ _. True"]] safe_rules)
       (auto dest!: volumes.delete intro: db_inv_del_volume)
  then show "db_ok (inv_on abs) (\<lambda>d. v = None \<longrightarrow> ?free d)
      (if v \<noteq> None then raise (HTTPException 409 ''volume attached to a vm'')
       else bnd (volume_vg (vo_node row)) (\<lambda>vg.
         andThen (vol_delete vg (data_name (vo_id row)))
        (bnd (delete_rows (c_volumes C) (\<lambda>r. vo_id r = vo_id row)) (\<lambda>_. ret ())))) (\<lambda>_ _. True)" for v
    by (intro ok_if ok_raise) (auto elim: ok_weaken)
qed

lemma safe_delete_volume [safe_rules]: "db_safe (inv_on abs) (delete_volume C me i)"
  unfolding delete_volume_def by (intro safe_rules)

section \<open>Placing VMs\<close>

lemma quiet_get [quiet_rules]: "quiet (get t F)" "quiet (get_all t G)"
  by (simp_all add: get_def get_all_def quiet_rules)

lemma quiet_result:
  assumes "quiet m" and "\<And>w x v. P (w_db w) \<Longrightarrow> I (w_db w) \<Longrightarrow> m w = (Inr x, v) \<Longrightarrow> R x (w_db w)"
  shows "db_ok I P m (\<lambda>x d. P d \<and> R x d)"
  by (rule db_okI) (use assms in \<open>auto dest: keepsD simp: dbv_def\<close>)

lemma ok_insert_vm:
  assumes "\<And>d d'. t_pubips (abs d') = t_pubips (abs d) \<Longrightarrow> P d \<Longrightarrow> P d'"
  shows "db_ok (inv_on abs) (\<lambda>d. P d \<and> vm_placed (abs d) r \<and> ip_free r (abs d)) (insert_row (c_vms C) r) (\<lambda>_. P)"
proof (rule ok_insert)
  fix d d'
  assume d: "db_inv (abs d)" "P d \<and> vm_placed (abs d) r \<and> ip_free r (abs d)" "d_insert (c_vms C) r d = Inr d'"
  note i = vms.insert_Inr [OF d(3)]
  then have "t_pubips (abs d') = t_pubips (abs d)" by simp
  with assms d(2) have "P d'" by blast
  then show "db_inv (abs d') \<and> P d'" using i d(1,2) db_inv_add_vm by auto
qed

lemma quiet_reads [quiet_rules]:
  "quiet (vpc_or_400 C i)" "quiet (volume_path C k)" "quiet (used_ips C v)" "quiet (image_or_400 C j)"
  "quiet (node_addresses C n)" "quiet (same_node_or_409 img n)" "quiet (resolve_root_image C body n)"
  "quiet (provision_data C body vg nm n)" "quiet (random_node C)" "quiet (target_node C body)"
  "quiet (node_with_free_ip C n)"
  unfolding vpc_or_400_def volume_path_def used_ips_def image_or_400_def node_addresses_def same_node_or_409_def
    resolve_root_image_def provision_data_def random_node_def target_node_def node_with_free_ip_def Let_def
  by (intro quiet_rules; auto intro!: quiet_rules split: list.splits)+

lemma vpc_or_400_Inr:
  "vpc_or_400 C i w = (Inr x, v) \<Longrightarrow> x \<in> set (t_vpcs (abs (w_db w))) \<and> vp_id x = i"
  by (auto simp: vpc_or_400_def bnd_run get_def split: option.splits dest: vpcs.get_Some)

lemma volume_path_Inr:
  "volume_path C k w = (Inr x, v) \<Longrightarrow> k \<in> vo_id ` set (t_volumes (abs (w_db w)))"
  by (auto simp: volume_path_def bnd_run get_def split: option.splits dest!: volumes.get_Some)

lemma used_ips_Inr:
  "used_ips C i w = (Inr x, v) \<Longrightarrow> x = vm_ip ` {r \<in> set (t_vms (abs (w_db w))). vm_vpc r = i}"
  by (auto simp: used_ips_def bnd_run get_all_def vms.all)

lemma picked_free:
  assumes "pick_ip (vp_cidr p) (vm_ip ` {r \<in> set (t_vms T). vm_vpc r = vp_id p}) = Inr (vm_ip r)"
    and "p \<in> set (t_vpcs T)" "vm_vpc r = vp_id p"
    and "\<And>v. truthy_str (vm_volume r) = Some v \<Longrightarrow> v \<in> vo_id ` set (t_volumes T)"
  shows "vm_placed T r \<and> ip_free r T"
  using ipam.alloc_free [OF assms(1)] assms(2-4) by (auto simp: vm_placed_def ip_free_def image_iff)

lemma row_of_Inr:
  "row_of body n ip w = (Inr r, v) \<Longrightarrow> vm_vpc r = mi_vpc body \<and> vm_ip r = ip \<and> vm_volume r = mi_volume body"
  by (auto simp: row_of_def bnd_run split: prod.splits sum.splits)

lemma safe_create_vm_local [safe_rules]: "db_safe (inv_on abs) (create_vm_local C body n)"
proof -
  let ?v = "\<lambda>p d. True \<and> p \<in> set (t_vpcs (abs d)) \<and> vp_id p = mi_vpc body"
  let ?k = "\<lambda>d. \<forall>k. truthy_str (mi_volume body) = Some k \<longrightarrow> k \<in> vo_id ` set (t_volumes (abs d))"
  let ?u = "\<lambda>u d. u = vm_ip ` {r \<in> set (t_vms (abs d)). vm_vpc r = mi_vpc body}"
  have 1: "db_ok (inv_on abs) (\<lambda>_. True) (vpc_or_400 C (mi_vpc body)) ?v"
    by (rule quiet_result) (auto intro: quiet_rules dest: vpc_or_400_Inr)
  have 2: "db_ok (inv_on abs) (?v p) (case truthy_str (mi_volume body) of None \<Rightarrow> ret None
      | Some v \<Rightarrow> bnd (volume_path C v) (\<lambda>x. ret (Some x))) (\<lambda>_ d. ?v p d \<and> ?k d)" for p
    by (rule quiet_result)
       (auto intro!: quiet_rules simp: bnd_run split: option.splits prod.splits sum.splits dest!: volume_path_Inr)
  have 3: "db_ok (inv_on abs) (\<lambda>d. ?v p d \<and> ?k d) (used_ips C (mi_vpc body)) (\<lambda>u d. (?v p d \<and> ?k d) \<and> ?u u d)" for p
    by (rule quiet_result) (auto intro: quiet_rules dest!: used_ips_Inr)
  have 4: "db_ok (inv_on abs) (\<lambda>d. ((?v p d \<and> ?k d) \<and> ?u u d) \<and> pick_ip (vp_cidr p) u = Inr ip) (row_of body n ip)
      (\<lambda>r d. (((?v p d \<and> ?k d) \<and> ?u u d) \<and> pick_ip (vp_cidr p) u = Inr ip) \<and>
         vm_vpc r = mi_vpc body \<and> vm_ip r = ip \<and> vm_volume r = mi_volume body)" for p u ip
    by (rule quiet_result) (auto intro: quiet_rules dest: row_of_Inr)
  have 5: "db_ok (inv_on abs) (\<lambda>d. (((?v p d \<and> ?k d) \<and> ?u u d) \<and> pick_ip (vp_cidr p) u = Inr ip) \<and>
         vm_vpc r = mi_vpc body \<and> vm_ip r = ip \<and> vm_volume r = mi_volume body) (insert_row (c_vms C) r) (\<lambda>_ _. True)"
    for p u ip r
    by (rule ok_weaken [OF ok_insert_vm [where P = "\<lambda>_. True"]]) (use picked_free [of p _ r] in auto)
  show ?thesis
    unfolding create_vm_local_def
    by (intro ok_bnd [OF 1] ok_bnd [OF 2] ok_bnd [OF 3] ok_bnd [OF ok_of_sum] ok_bnd [OF 4] ok_andThen [OF 5] safe_rules)
qed

lemma safe_create_vm [safe_rules]: "db_safe (inv_on abs) (create_vm C me body)"
  unfolding create_vm_def Let_def by (intro safe_rules)

section \<open>Spawning\<close>

text \<open>The spawn of a VM keeps anything that is said of the public addresses alone, so that the
  proxy's address is still free when its row is inserted in the middle of it.\<close>

lemma ok_prod: "(\<And>a b. p = (a, b) \<Longrightarrow> db_ok I P (f a b) Q) \<Longrightarrow> db_ok I P (case p of (a, b) \<Rightarrow> f a b) Q"
  by (cases p) auto

lemma ok_insert_or:
  assumes "\<And>d d'. I d \<Longrightarrow> P d \<Longrightarrow> d_insert t r d = Inr d' \<Longrightarrow> I d' \<and> Q r d'" and "\<And>e. db_ok I P (h e) Q"
  shows "db_ok I P (except (andThen (insert_row t r) (ret r)) h) Q"
proof (rule db_okI)
  fix w x v
  assume w: "peers_keep I w" "I (w_db w)" "P (w_db w)" and run: "except (andThen (insert_row t r) (ret r)) h w = (x, v)"
  show "w_http v = w_http w \<and> I (w_db v) \<and> (\<forall>y. x = Inr y \<longrightarrow> Q y (w_db v))"
  proof (cases "d_insert t r (w_db w)")
    case (Inl e)
    then have "h e w = (x, v)" using run by (simp add: except_run andThen_run insert_row_def)
    from db_okD [OF assms(2) this w] show ?thesis .
  next
    case (Inr d)
    then show ?thesis using run assms(1) [OF w(2,3) Inr] by (auto simp: except_run andThen_run insert_row_def)
  qed
qed

lemma ok_ensure_default:
  assumes st: "\<And>d d'. t_pubips (abs d') = t_pubips (abs d) \<Longrightarrow> P d \<Longrightarrow> P d'"
  shows "db_ok (inv_on abs) P (ensure_default_vpc C) (\<lambda>v d. P d \<and> v \<in> set (t_vpcs (abs d)))"
proof -
  let ?Q = "\<lambda>v d. P d \<and> v \<in> set (t_vpcs (abs d))"
  let ?g = "get (c_vpcs C) (\<lambda>r. vp_name r = DEFAULT_VPC_NAME)"
  have g: "db_ok (inv_on abs) P ?g (\<lambda>x d. P d \<and> (\<forall>r. x = Some r \<longrightarrow> r \<in> set (t_vpcs (abs d))))"
    by (rule quiet_result) (auto intro: quiet_rules simp: get_def dest!: vpcs.get_Some)
  have again: "db_ok (inv_on abs) P (case e of RqliteError _ \<Rightarrow>
        bnd ?g (\<lambda>x. case x of Some r \<Rightarrow> ret r | None \<Rightarrow> raise (TypeError ''None has no __dict__''))
      | _ \<Rightarrow> raise e) ?Q" for e
    by (cases e; simp) (intro ok_raise ok_bnd [OF g] ok_option ok_ret; simp)+
  have "db_ok (inv_on abs) P (except (andThen (insert_row (c_vpcs C) r) (ret r)) (\<lambda>e. case e of
      RqliteError _ \<Rightarrow> bnd ?g (\<lambda>x. case x of Some r \<Rightarrow> ret r | None \<Rightarrow> raise (TypeError ''None has no __dict__''))
    | _ \<Rightarrow> raise e)) ?Q" for r
  proof (rule ok_insert_or [OF _ again])
    fix d d'
    assume d: "db_inv (abs d)" "P d" "d_insert (c_vpcs C) r d = Inr d'"
    note i = vpcs.insert_Inr [OF d(3)]
    then have "P d'" using st [of d' d] d(2) by simp
    then show "db_inv (abs d') \<and> P d' \<and> r \<in> set (t_vpcs (abs d'))" using i d(1) db_inv_add(1) by auto
  qed
  then show ?thesis
    unfolding ensure_default_vpc_def Let_def
    by (intro ok_bnd [OF g] ok_option ok_bnd [OF ok_quiet] quiet_rules ok_ret)
       (auto elim: ok_weaken)
qed

lemma ok_auto_volume:
  assumes st: "\<And>d d'. t_pubips (abs d') = t_pubips (abs d) \<Longrightarrow> t_vpcs (abs d') = t_vpcs (abs d) \<Longrightarrow> P d \<Longrightarrow> P d'"
  shows "db_ok (inv_on abs) P (auto_volume C body n) (\<lambda>v d. P d \<and> vo_id v \<in> vo_id ` set (t_volumes (abs d)))"
proof -
  have ins: "db_ok (inv_on abs) P (insert_row (c_volumes C) r) (\<lambda>_ d. P d \<and> vo_id r \<in> vo_id ` set (t_volumes (abs d)))" for r
  proof (rule ok_insert)
    fix d d'
    assume d: "db_inv (abs d)" "P d" "d_insert (c_volumes C) r d = Inr d'"
    note i = volumes.insert_Inr [OF d(3)]
    then have "P d'" using st [of d' d] d(2) by simp
    then show "db_inv (abs d') \<and> P d' \<and> vo_id r \<in> vo_id ` set (t_volumes (abs d'))"
      using i d(1) db_inv_add(2) by auto
  qed
  show ?thesis
    unfolding auto_volume_def Let_def
    by (intro ok_bnd [OF ok_quiet] quiet_rules ok_prod ok_andThen [OF ins] ok_ret) simp
qed

lemma spawn_row_Inr:
  "spawn_row body n vpc ip vol w = (Inr r, v) \<Longrightarrow> vm_vpc r = vpc \<and> vm_ip r = ip \<and> vm_volume r = Some vol"
  by (auto simp: spawn_row_def bnd_run split: prod.splits sum.splits)

lemma ok_spawn_local:
  assumes st: "\<And>d d'. t_pubips (abs d') = t_pubips (abs d) \<Longrightarrow> P d \<Longrightarrow> P d'"
    and hook: "\<And>i. db_ok (inv_on abs) P (hook i) (\<lambda>_ _. True)"
  shows "db_ok (inv_on abs) P (spawn_local C body n hook) (\<lambda>_ _. True)"
proof -
  let ?v = "\<lambda>p d. P d \<and> p \<in> set (t_vpcs (abs d))"
  let ?k = "\<lambda>vol d. vo_id vol \<in> vo_id ` set (t_volumes (abs d))"
  let ?u = "\<lambda>p u d. u = vm_ip ` {r \<in> set (t_vms (abs d)). vm_vpc r = vp_id p}"
  have 1: "db_ok (inv_on abs) P (ensure_default_vpc C) ?v" using st by (rule ok_ensure_default)
  have 2: "db_ok (inv_on abs) (?v p) (auto_volume C body n) (\<lambda>vol d. ?v p d \<and> ?k vol d)" for p
    by (rule ok_auto_volume) (use st in auto)
  have 3: "db_ok (inv_on abs) (\<lambda>d. ?v p d \<and> ?k vol d) (used_ips C (vp_id p)) (\<lambda>u d. (?v p d \<and> ?k vol d) \<and> ?u p u d)" for p vol
    by (rule quiet_result) (auto intro: quiet_rules dest!: used_ips_Inr)
  let ?pre = "\<lambda>p vol u ip d. ((?v p d \<and> ?k vol d) \<and> ?u p u d) \<and> pick_ip (vp_cidr p) u = Inr ip"
  let ?row = "\<lambda>p vol ip r. vm_vpc r = vp_id p \<and> vm_ip r = ip \<and> vm_volume r = Some (vo_id vol)"
  have 4: "db_ok (inv_on abs) (?pre p vol u ip) (spawn_row body n (vp_id p) ip (vo_id vol))
      (\<lambda>r d. ?pre p vol u ip d \<and> ?row p vol ip r)" for p vol u ip
    by (rule quiet_result) (auto intro: quiet_rules dest: spawn_row_Inr)
  have 5: "db_ok (inv_on abs) (\<lambda>d. ?pre p vol u ip d \<and> ?row p vol ip r) (insert_row (c_vms C) r) (\<lambda>_. P)" for p vol u ip r
    by (rule ok_weaken [OF ok_insert_vm [where P = P, OF st]]) (use picked_free [of p _ r] in \<open>auto dest!: truthy_SomeD\<close>)
  show ?thesis
    unfolding spawn_local_def
    by (intro ok_bnd [OF 1] ok_bnd [OF ok_quiet] quiet_rules ok_bnd [OF 2] ok_bnd [OF 3] ok_bnd [OF ok_of_sum] ok_bnd [OF 4]
          ok_andThen [OF 5] ok_andThen [OF hook] safe_bring_up)
qed

lemma safe_spawn [safe_rules]: "db_safe (inv_on abs) (spawn_vm C me body pin)"
proof -
  have "db_safe (inv_on abs) (spawn_local C body me (\<lambda>_. ret ()))"
    by (rule ok_spawn_local) (auto intro: safe_rules)
  then show ?thesis
    unfolding spawn_vm_def by (intro safe_rules safe_quiet [OF quiet_reads(10)])
qed

section \<open>Public addresses\<close>

lemma node_addresses_Inr:
  "node_addresses C n w = (Inr x, v) \<Longrightarrow> x = pi_address ` {r \<in> set (t_pubips (abs (w_db w))). pi_node r = n}"
  by (auto simp: node_addresses_def bnd_run get_all_def pubips.all)

lemma acquired_free:
  "acquire cfg (pi_address ` {r \<in> set (t_pubips T). pi_node r = n}) = Inr (a, gw, m, p) \<Longrightarrow> address_free n a T"
  by (auto simp: address_free_def image_iff dest!: pubpool.alloc_free)

lemma ok_acquire:
  "db_ok (inv_on abs) (\<lambda>_. True) (bnd (node_addresses C n) (\<lambda>used. of_sum (acquire cfg used)))
     (\<lambda>r d. address_free n (fst r) (abs d))"
proof -
  have "db_ok (inv_on abs) (\<lambda>_. True) (node_addresses C n)
      (\<lambda>u d. True \<and> u = pi_address ` {r \<in> set (t_pubips (abs d)). pi_node r = n})"
    by (rule quiet_result) (auto intro: quiet_rules dest: node_addresses_Inr)
  moreover have "db_ok (inv_on abs) (\<lambda>d. True \<and> u = pi_address ` {r \<in> set (t_pubips (abs d)). pi_node r = n})
      (of_sum (acquire cfg u)) (\<lambda>r d. address_free n (fst r) (abs d))" for u
    by (rule ok_weaken [OF ok_of_sum [where P = "\<lambda>d. u = pi_address ` {r \<in> set (t_pubips (abs d)). pi_node r = n}"]])
       (auto dest: acquired_free)
  ultimately show ?thesis by (rule ok_bnd)
qed

lemma ok_insert_pubip:
  "db_ok (inv_on abs) (\<lambda>d. address_free (pi_node r) (pi_address r) (abs d)) (insert_row (c_pubips C) r) (\<lambda>_ _. True)"
  by (rule ok_insert) (auto dest!: pubips.insert_Inr intro: db_inv_add_pubip)

lemma ok_pubip_row:
  assumes "pi_node r = n" "pi_address r = a" "db_safe (inv_on abs) m"
  shows "db_ok (inv_on abs) (\<lambda>d. address_free n a (abs d)) (andThen (insert_row (c_pubips C) r) m) (\<lambda>_ _. True)"
  using ok_andThen [OF ok_insert_pubip [of r]] assms by simp

lemma ok_acquired:
  assumes "\<And>a gw m p. db_ok (inv_on abs) (\<lambda>d. address_free n a (abs d)) (f a gw m p) Q"
  shows "db_ok (inv_on abs) (\<lambda>_. True)
    (bnd (node_addresses C n) (\<lambda>used. bnd (of_sum (acquire cfg used)) (\<lambda>(a, gw, m, p). f a gw m p))) Q"
  unfolding bnd_assoc [symmetric, of "node_addresses C n"]
  by (rule ok_bnd [OF ok_acquire]) (use assms in \<open>auto split: prod.splits\<close>)

lemma safe_attach [safe_rules]: "db_safe (inv_on abs) (attach_public_ip C me i)"
proof -
  have "db_safe (inv_on abs) (attach_local C vm n)" for vm n
    unfolding attach_local_def Let_def
    by (rule safe_bnd [OF safe_quiet [OF keeps_pubip]], rule ok_acquired, rule ok_bnd [OF ok_quiet [OF quiet_base(3)]],
        rule ok_bnd [OF ok_quiet [OF quiet_base(4)]], rule ok_pubip_row) (simp_all, intro safe_rules)
  then show ?thesis unfolding attach_public_ip_def vm_or_404_def by (intro safe_rules)
qed

lemma safe_proxy [safe_rules]: "db_safe (inv_on abs) (create_proxy C me body)"
proof -
  have st: "address_free n a (abs d')" if "t_pubips (abs d') = t_pubips (abs d)" "address_free n a (abs d)" for n a d d'
    using that by (simp add: address_free_def)
  have spawn: "db_ok (inv_on abs) (\<lambda>d. address_free n a (abs d)) (spawn_local C b n (\<lambda>vm. insert_row (c_pubips C) (r vm))) (\<lambda>_ _. True)"
    if "\<And>vm. pi_node (r vm) = n \<and> pi_address (r vm) = a" for n a b r
    by (rule ok_spawn_local [where P = "\<lambda>d. address_free n a (abs d)", OF st])
       (use ok_insert_pubip [of "r i" for i] that in auto)
  have "db_safe (inv_on abs) (create_proxy_local C body vpc n)" for vpc n
    unfolding create_proxy_local_def proxy_task_row_def Let_def
    by (rule safe_bnd [OF safe_quiet [OF keeps_pubip]], rule ok_acquired, rule ok_bnd [OF ok_quiet [OF quiet_base(4)]],
        rule ok_bnd [OF ok_quiet [OF quiet_base(3)]], rule ok_bnd [OF spawn]) (simp, intro safe_rules safe_atoms)
  then show ?thesis
    unfolding create_proxy_def by (intro safe_rules safe_quiet [OF quiet_reads(11)])
qed

section \<open>Tasks\<close>

lemma safe_finish [safe_rules]: "db_safe (inv_on abs) (finish C i st res)"
  unfolding finish_def by (intro safe_rules safe_atoms)

lemma safe_run_task [safe_rules]: "db_safe (inv_on abs) (run_task C task n)"
  unfolding run_task_def dispatch_def run_setup_def run_reload_def vm_or_fail_def build_routes_def
  by (intro safe_rules safe_atoms)

lemma safe_claim [safe_rules]: "db_safe (inv_on abs) (claim C d)"
  unfolding claim_def by (intro safe_rules safe_atoms)

lemma safe_tick [safe_rules]: "db_safe (inv_on abs) (tick C n)"
proof -
  have "db_safe (inv_on abs) (tick_loop C n ds)" for ds
    by (induction ds) (unfold tick_loop.simps, intro safe_rules, intro safe_rules)
  then show ?thesis unfolding tick_def by (intro safe_rules)
qed

end

section \<open>A node and its cluster\<close>

text \<open>What can happen to a node's database: a request it serves, a pass of its reconciler, a tick of
  its executor, and whatever another node does in answer to a request. Each step runs to its end
  before the next begins.\<close>

inductive node_reach :: "'db client \<Rightarrow> string \<Rightarrow> 'db world \<Rightarrow> 'db world \<Rightarrow> bool" for C me w where
  start: "node_reach C me w w"
| own: "node_reach C me w v \<Longrightarrow> serve C me rq v = (r, u) \<Longrightarrow> node_reach C me w u"
| other: "node_reach C me w v \<Longrightarrow> w_http v hr (w_db v) = (r, d) \<Longrightarrow> node_reach C me w (v\<lparr>w_db := d\<rparr>)"

context dadar
begin

lemma safe_read [safe_rules]:
  "db_safe (inv_on abs) (list_volumes C)" "db_safe (inv_on abs) (get_volume C i)"
  "db_safe (inv_on abs) (list_snapshots C)" "db_safe (inv_on abs) (get_snapshot C i)"
  "db_safe (inv_on abs) (list_images C)" "db_safe (inv_on abs) (get_image C i)"
  "db_safe (inv_on abs) (list_tasks C)" "db_safe (inv_on abs) (get_task C i)"
  "db_safe (inv_on abs) (list_domains C)" "db_safe (inv_on abs) (list_public_ips C)"
  "db_safe (inv_on abs) (get_proxy C)" "db_safe (inv_on abs) (reconcile_now C n)"
  unfolding list_volumes_def get_volume_def list_snapshots_def get_snapshot_def get_or_404_def list_images_def
    get_image_def list_tasks_def get_task_def list_domains_def list_public_ips_def get_proxy_def reconcile_now_def
  by (intro safe_rules)+

lemma safe_serve: "db_safe (inv_on abs) (serve C me rq)"
  by (cases rq; simp only: serve.simps no_reply_def; intro safe_rules)

lemma reach_inv:
  assumes "node_reach C me w v" "peers_keep (inv_on abs) w" "db_inv (abs (w_db w))"
  shows "w_http v = w_http w \<and> db_inv (abs (w_db v))"
  using assms(1)
proof induction
  case start
  then show ?case using assms(3) by simp
next
  case (own v rq r u)
  then have "peers_keep (inv_on abs) v" using assms(2) peers_keep_http [of v w] by simp
  with db_okD [OF safe_serve own(2) this] own(3) show ?case by simp
next
  case (other v hr r d)
  then have "peers_keep (inv_on abs) v" using assms(2) peers_keep_http [of v w] by simp
  then have "inv_on abs (snd (w_http v hr (w_db v)))" using other(3) unfolding peers_keep_def by blast
  with other(2,3) show ?case by simp
qed

end

section \<open>Properties\<close>

text \<open>C1: the invariant of the database is kept by everything a node does. From a state that satisfies
  it, and as long as the other nodes keep it too, every state a node reaches by serving any requests,
  running reconciler passes and executor ticks, in any order and with the other nodes' changes between
  them, satisfies it: keys and addresses are unique, and every VM's VPC and data volume exist.\<close>

theorem reachable_db_inv:
  assumes "dadar C view" "peers_keep (inv_on view) w" "db_inv (view (w_db w))" "node_reach C me w v"
  shows "db_inv (view (w_db v))"
  using dadar.reach_inv [OF assms(1,4,2,3)] by simp

definition demo_step :: "tables world" where
  "demo_step = snd (serve list_client ''n1'' (CreateVpc \<lparr>vi_name = ''prod'', vi_cidr = net_str net30\<rparr>) (world0 no_rows))"

lemma demo_reach: "node_reach list_client ''n1'' (world0 no_rows) demo_step"
  unfolding demo_step_def by (rule node_reach.own [OF node_reach.start]) (rule surjective_pairing)

lemma demo_peers: "peers_keep I (world0 d)"
  by (simp add: peers_keep_def world0_def)

lemma reachable_db_inv_witness: "db_inv (w_db demo_step) \<and> node_reach list_client ''n1'' (world0 no_rows) demo_step"
  using reachable_db_inv [of list_client "\<lambda>d. d", OF lists.dadar_axioms demo_peers _ demo_reach] db_inv_empty demo_reach
  by simp


definition one_vm :: tables where
  "one_vm = no_rows\<lparr>
     t_vpcs := [\<lparr>vp_id = ''v1'', vp_name = ''prod'', vp_cidr = net_str net30, vp_created = 0\<rparr>],
     t_vms := [\<lparr>vm_id = ''a1'', vm_node = ''n1'', vm_name = ''web'', vm_vpc = ''v1'', vm_volume = None,
                vm_ip = ip_str 167837698, vm_ssh = None, vm_vcpu = Some 1, vm_mem = Some 512,
                vm_status = ''running'', vm_created = 0\<rparr>]\<rparr>"

lemma one_vm_inv: "db_inv one_vm"
  by (simp add: inv_defs one_vm_def no_rows_def net30_facts(2) truthy_str_def)


end
