(* ===== verification/RouterProps.thy ===== *)
theory RouterProps
  imports DbInvariant
begin

text \<open>
  What the request handlers answer and do, error answers included: the guards of deletion, the
  validation of a VPC, and the deletion of volumes.
\<close>

section \<open>Running the store\<close>

lemma get_run [prog_simps]: "get t P w = (Inr (d_get t P (w_db w)), w)"
  by (simp add: get_def)

lemma get_all_run [prog_simps]: "get_all t P w = (Inr (d_all t P (w_db w)), w)"
  by (simp add: get_all_def)

lemma or_404_run [prog_simps]:
  "or_404 s x w = (case x of None \<Rightarrow> (Inl (HTTPException 404 (s @ '' not found'')), w) | Some r \<Rightarrow> (Inr r, w))"
  by (simp add: or_404_def split: option.splits)

context dadar
begin

lemma vms_get: "(d_get (c_vms C) P d \<noteq> None) = (\<exists>r \<in> set (t_vms (abs d)). P r)"
  by (simp only: vms.get_None) blast

lemma delete_vpc_cases:
  "if \<exists>r \<in> set (t_vms (abs (w_db w))). vm_vpc r = i
   then delete_vpc C i w = (Inl (HTTPException 409 ''vpc still has vms''), w)
   else \<exists>d. delete_vpc C i w =
       (if \<exists>p \<in> set (t_vpcs (abs (w_db w))). vp_id p = i then Inr () else Inl (HTTPException 404 ''vpc not found''),
        w\<lparr>w_db := d\<rparr>) \<and> abs d = t_vpcs_update (filter (\<lambda>p. vp_id p \<noteq> i)) (abs (w_db w))"
proof (cases "\<exists>r \<in> set (t_vms (abs (w_db w))). vm_vpc r = i")
  case True
  then have "d_get (c_vms C) (\<lambda>r. vm_vpc r = i) (w_db w) \<noteq> None" by (simp only: vms_get)
  with True show ?thesis by (simp add: delete_vpc_def bnd_run get_run)
next
  case False
  then have n: "d_get (c_vms C) (\<lambda>r. vm_vpc r = i) (w_db w) = None" using vms_get by blast
  obtain k d where d: "d_delete (c_vpcs C) (\<lambda>r. vp_id r = i) (w_db w) = (k, d)" by fastforce
  note l = vpcs.delete [OF d]
  have "(k = 0) = (\<not> (\<exists>p \<in> set (t_vpcs (abs (w_db w))). vp_id p = i))"
    using l by (auto simp: filter_empty_conv)
  with False l n d show ?thesis
    by (auto simp: delete_vpc_def bnd_run get_run delete_rows_def)
qed

end

text \<open>A VPC with VMs cannot be deleted: the answer is 409 and nothing at all changes. Otherwise its
  row goes, and no other; deleting a VPC that is not there answers 404.\<close>

theorem delete_vpc_guarded:
  assumes "dadar C view"
  shows "if \<exists>r \<in> set (t_vms (view (w_db w))). vm_vpc r = i
   then delete_vpc C i w = (Inl (HTTPException 409 ''vpc still has vms''), w)
   else \<exists>d. delete_vpc C i w =
       (if \<exists>p \<in> set (t_vpcs (view (w_db w))). vp_id p = i then Inr () else Inl (HTTPException 404 ''vpc not found''),
        w\<lparr>w_db := d\<rparr>) \<and> view d = t_vpcs_update (filter (\<lambda>p. vp_id p \<noteq> i)) (view (w_db w))"
  by (rule dadar.delete_vpc_cases [OF assms])

lemma delete_vpc_guarded_witness:
  "delete_vpc list_client ''v1'' (world0 one_vm) = (Inl (HTTPException 409 ''vpc still has vms''), world0 one_vm)"
  using delete_vpc_guarded [OF lists.dadar_axioms, of "world0 one_vm" "''v1''"] by (simp add: one_vm_def)

section \<open>Validating a VPC\<close>

lemma validate_run: "validate_cidr cidr w =
  ((case ip_network cidr of Inl (ValueError m) \<Rightarrow> Inl (HTTPException 400 (''invalid cidr: '' @ m))
    | Inl e \<Rightarrow> Inl e | Inr _ \<Rightarrow> Inr ()), w)"
  by (auto simp: validate_cidr_def split: sum.splits exn.splits)

context dadar
begin

lemma create_vpc_cases:
  "case ip_network (vi_cidr body) of
     Inl _ \<Rightarrow> \<exists>m. create_vpc C body w = (Inl (HTTPException 400 m), w)
   | Inr _ \<Rightarrow>
       if \<exists>p \<in> set (t_vpcs (abs (w_db w))). vp_name p = vi_name body \<or> vp_id p = w_uuid w (w_nuuid w)
       then \<exists>m v. create_vpc C body w = (Inl (HTTPException 409 m), v) \<and> w_db v = w_db w
       else \<exists>p v. create_vpc C body w = (Inr p, v) \<and> vp_name p = vi_name body \<and> vp_cidr p = vi_cidr body \<and>
              abs (w_db v) = t_vpcs_update (\<lambda>ps. ps @ [p]) (abs (w_db w))"
proof (cases "ip_network (vi_cidr body)")
  case (Inl e)
  then obtain m where "e = ValueError m" using ip_network_ValueError by blast
  with Inl show ?thesis by (simp add: create_vpc_def andThen_run validate_run)
next
  case (Inr net)
  let ?p = "\<lparr>vp_id = w_uuid w (w_nuuid w), vp_name = vi_name body, vp_cidr = vi_cidr body, vp_created = w_time w (w_tick w)\<rparr>"
  let ?clash = "\<exists>p \<in> set (t_vpcs (abs (w_db w))). vpc_clash ?p p"
  have cl: "?clash = (\<exists>p \<in> set (t_vpcs (abs (w_db w))). vp_name p = vi_name body \<or> vp_id p = w_uuid w (w_nuuid w))"
    by (auto simp: vpc_clash_def)
  note run = create_vpc_def andThen_run validate_run Inr bnd_run uuid4_def now_def Let_def except_run insert_row_def
  show ?thesis
  proof (cases ?clash)
    case True
    then obtain m where "d_insert (c_vpcs C) ?p (w_db w) = Inl (RqliteError m)" using vpcs.insert_clash by blast
    with True show ?thesis unfolding cl by (simp add: run)
  next
    case False
    then obtain d where "d_insert (c_vpcs C) ?p (w_db w) = Inr d" "abs d = t_vpcs_update (\<lambda>ps. ps @ [?p]) (abs (w_db w))"
      using vpcs.insert_free [of "w_db w" ?p] by auto
    with False show ?thesis unfolding cl by (simp add: run)
  qed
qed

end

text \<open>Creating a VPC answers 400 and changes nothing when its CIDR does not parse, answers 409 and
  leaves the database alone when its name is taken, and otherwise inserts exactly the row it returns,
  with the name and CIDR asked for.\<close>

theorem create_vpc_outcomes:
  assumes "dadar C view"
  shows "case ip_network (vi_cidr body) of
     Inl _ \<Rightarrow> \<exists>m. create_vpc C body w = (Inl (HTTPException 400 m), w)
   | Inr _ \<Rightarrow>
       if \<exists>p \<in> set (t_vpcs (view (w_db w))). vp_name p = vi_name body \<or> vp_id p = w_uuid w (w_nuuid w)
       then \<exists>m v. create_vpc C body w = (Inl (HTTPException 409 m), v) \<and> w_db v = w_db w
       else \<exists>p v. create_vpc C body w = (Inr p, v) \<and> vp_name p = vi_name body \<and> vp_cidr p = vi_cidr body \<and>
              view (w_db v) = t_vpcs_update (\<lambda>ps. ps @ [p]) (view (w_db w))"
  by (rule dadar.create_vpc_cases [OF assms])

lemma create_vpc_outcomes_witness:
  "\<exists>p v. create_vpc list_client \<lparr>vi_name = ''prod'', vi_cidr = net_str net30\<rparr> (world0 no_rows) = (Inr p, v) \<and>
     t_vpcs (w_db v) = [p]"
proof -
  have "ip_network (net_str net30) = Inr net30" by (rule ip_network_net_str) (simp add: net30_def net_ok_def)
  then show ?thesis
    using create_vpc_outcomes [OF lists.dadar_axioms, of "\<lparr>vi_name = ''prod'', vi_cidr = net_str net30\<rparr>" "world0 no_rows"]
    by (auto simp: no_rows_def)
qed

text \<open>A single-address network passes the validation of a new VPC, but no VM can ever be created in
  the VPC: the gateway of such a network raises \<open>TypeError\<close>, and with it every \<open>POST /vms\<close>.\<close>

theorem single_address_vpc_unusable:
  assumes "dadar C view" "distinct (map vp_id (t_vpcs (view (w_db w))))" "p \<in> set (t_vpcs (view (w_db w)))"
    and "ip_network (vp_cidr p) = Inr net" "net_plen net = 32"
    and "mi_vpc body = vp_id p" "truthy_str (mi_volume body) = None"
  shows "validate_cidr (vp_cidr p) w = (Inr (), w) \<and>
    create_vm_local C body n w = (Inl (TypeError ''list object is not an iterator''), w)"
proof -
  have lo: "host_lo net < host_hi net" using assms(4) by (simp add: host_lo_lt_hi ip_network_ok)
  have "d_get (c_vpcs C) (\<lambda>r. vp_id r = vp_id p) (w_db w) = Some p"
    by (rule table.get_unique [OF dadar.axioms(1) [OF assms(1)] assms(2,3)])
  moreover have "pick_ip (vp_cidr p) used = Inl (TypeError ''list object is not an iterator'')" for used
    using assms(4,5) lo by (simp add: pick_ip_def pick_loop.simps gateway_net)
  ultimately show ?thesis
    using assms(4,6,7) by (simp add: validate_run create_vm_local_def vpc_or_400_def used_ips_def bnd_run get_run get_all_run)
qed

definition net32 :: ipnet where
  "net32 = \<lparr>net_int = 167837696, net_plen = 32\<rparr>"

definition vpc32 :: tables where
  "vpc32 = no_rows\<lparr>t_vpcs := [\<lparr>vp_id = ''v1'', vp_name = ''one'', vp_cidr = net_str net32, vp_created = 0\<rparr>]\<rparr>"

lemma single_address_vpc_unusable_witness:
  "create_vm_local list_client \<lparr>mi_name = ''a'', mi_vpc = ''v1'', mi_volume = None, mi_node = None\<rparr> ''n1'' (world0 vpc32)
     = (Inl (TypeError ''list object is not an iterator''), world0 vpc32)"
proof -
  have "ip_network (net_str net32) = Inr net32" by (rule ip_network_net_str) (simp add: net32_def net_ok_def)
  then show ?thesis
    using single_address_vpc_unusable [OF lists.dadar_axioms, of "world0 vpc32" _ net32
        "\<lparr>mi_name = ''a'', mi_vpc = ''v1'', mi_volume = None, mi_node = None\<rparr>" "''n1''"]
    by (simp add: vpc32_def net32_def truthy_str_def)
qed

section \<open>Volumes and sources\<close>

lemma delete_rows_run:
  "delete_rows t P w = (Inr (fst (d_delete t P (w_db w))), w\<lparr>w_db := snd (d_delete t P (w_db w))\<rparr>)"
  by (simp add: delete_rows_def case_prod_beta)

lemma update_rows_run: "update_rows t P f w = (Inr (), w\<lparr>w_db := d_update t P f (w_db w)\<rparr>)"
  by (simp add: update_rows_def)

context dadar
begin

lemma delete_volume_cases:
  assumes row: "d_get (c_volumes C) (\<lambda>r. vo_id r = i) (w_db w) = Some r" "vo_node r = me"
    and w: "on_fake w" "settings_ok w" "noslash (vg_of w me)" "noslash i"
  shows "if \<exists>x \<in> set (t_vms (abs (w_db w))). vm_volume x = Some i
    then delete_volume C me i w = (Inl (HTTPException 409 ''volume attached to a vm''), w)
    else \<exists>v. delete_volume C me i w = (Inr (), v) \<and>
      abs (w_db v) = t_volumes_update (filter (\<lambda>x. vo_id x \<noteq> i)) (abs (w_db w)) \<and>
      lv_map (w_fake v) = (lv_map (w_fake w))((vg_of w me, data_name i) := None)"
proof -
  have i: "vo_id r = i" using volumes.get_Some [OF row(1)] by simp
  have lv: "lv_remove (vg_of w me) (data_name i) w = (Inr (), set_fake (lv_drop (vg_of w me, data_name i)) w)"
    using lv_remove_fake [OF w(1,3)] w(4) by (simp add: noslash_def name_defs)
  note run = delete_volume_def delete_volume_local_def bnd_run get_run or_404_run row i andThen_run vol_delete_def
    volume_vg_run [OF w(2)] lv
  show ?thesis
  proof (cases "\<exists>x \<in> set (t_vms (abs (w_db w))). vm_volume x = Some i")
    case True
    then have "d_get (c_vms C) (\<lambda>r. vm_volume r = Some i) (w_db w) \<noteq> None" by (simp only: vms_get)
    with True show ?thesis by (simp add: run)
  next
    case False
    then have n: "d_get (c_vms C) (\<lambda>r. vm_volume r = Some i) (w_db w) = None" using vms_get by blast
    note l = volumes.delete [of "\<lambda>r. vo_id r = i" "w_db w", OF surjective_pairing]
    have "abs (snd (d_delete (c_volumes C) (\<lambda>r. vo_id r = i) (w_db w)))
        = t_volumes_update (filter (\<lambda>x. vo_id x \<noteq> i)) (abs (w_db w))" using l by simp
    with False n show ?thesis by (simp add: run delete_rows_run)
  qed
qed

end

text \<open>Deleting a volume of this node: while a VM has it attached the answer is 409 and nothing
  changes; otherwise exactly its row and exactly its logical volume go.\<close>

theorem delete_volume_guarded:
  assumes "dadar C view" "d_get (c_volumes C) (\<lambda>r. vo_id r = i) (w_db w) = Some r" "vo_node r = me"
    and "on_fake w" "settings_ok w" "noslash (vg_of w me)" "noslash i"
  shows "if \<exists>x \<in> set (t_vms (view (w_db w))). vm_volume x = Some i
    then delete_volume C me i w = (Inl (HTTPException 409 ''volume attached to a vm''), w)
    else \<exists>v. delete_volume C me i w = (Inr (), v) \<and>
      view (w_db v) = t_volumes_update (filter (\<lambda>x. vo_id x \<noteq> i)) (view (w_db w)) \<and>
      lv_map (w_fake v) = (lv_map (w_fake w))((vg_of w me, data_name i) := None)"
  by (rule dadar.delete_volume_cases [OF assms])

definition one_volume :: tables where
  "one_volume = no_rows\<lparr>t_volumes := [\<lparr>vo_id = ''d1'', vo_node = ''n1'', vo_name = ''data'', vo_size = 64,
     vo_path = ''/dev/nyc-n1/data-d1'', vo_status = ''ready'', vo_created = 0\<rparr>]\<rparr>"

lemma world0_vg: "settings_ok (world0 d)" "vg_of (world0 d) ''n1'' = ''nyc-n1''"
  by (simp_all add: settings_ok_def vg_of_def volume_vg_def lvm_def str_setting_def int_setting_def setting_def
      truthy_str_def world0_def bnd_run vg_for_def)

lemma delete_volume_guarded_witness:
  "\<exists>v. delete_volume list_client ''n1'' ''d1'' (world0 one_volume) = (Inr (), v) \<and> t_volumes (w_db v) = []"
proof -
  have "\<exists>r. d_get (c_volumes list_client) (\<lambda>r. vo_id r = ''d1'') (w_db (world0 one_volume)) = Some r \<and> vo_node r = ''n1''"
    by (simp add: list_client_def list_docs_def one_volume_def)
  then show ?thesis
    using delete_volume_guarded [OF lists.dadar_axioms, of "''d1''" "world0 one_volume" _ "''n1''"]
    by (auto simp: world0_vg noslash_def one_volume_def no_rows_def)
qed

end
