(* ===== verification/ExecutorProps.thy ===== *)
theory ExecutorProps
  imports RouterProps
begin

text \<open>
  The background work: the executor runs one pending task of its node per tick, in the order of the
  table, and every task it takes ends; the passes over volumes and snapshots; what the time-to-live
  pass leaves behind; at most one loop of each kind.
\<close>

section \<open>The executor drains its queue\<close>

definition is_pending :: "string \<Rightarrow> task_row \<Rightarrow> bool" where
  "is_pending n r \<longleftrightarrow> ta_node r = n \<and> ta_status r = ''pending''"

definition ended :: "task_row \<Rightarrow> bool" where
  "ended r \<longleftrightarrow> (ta_status r = ''succeeded'' \<or> ta_status r = ''failed'') \<and> ta_result r \<noteq> None"

definition set_ended :: "string \<Rightarrow> string \<Rightarrow> string \<Rightarrow> int \<Rightarrow> task_row \<Rightarrow> task_row" where
  "set_ended i st res t r =
     (if ta_id r = i then r\<lparr>ta_status := st, ta_result := Some res, ta_updated := t\<rparr> else r)"

text \<open>What a run of the loop does to each row: the tasks it took have ended, the others are as they were.\<close>

definition drained :: "task_row list \<Rightarrow> task_row \<Rightarrow> task_row \<Rightarrow> bool" where
  "drained taken r r' \<longleftrightarrow> ta_id r' = ta_id r \<and> (if r \<in> set taken then ended r' else r' = r)"

definition tasks_of :: "('db \<Rightarrow> tables) \<Rightarrow> 'db world \<Rightarrow> task_row list" where
  "tasks_of view w = t_tasks (view (w_db w))"

context dadar
begin

abbreviation tks :: "'db world \<Rightarrow> task_row list" where
  "tks \<equiv> tasks_of abs"

lemma keeps_tasks_quiet: "quiet m \<Longrightarrow> keeps tks m"
  by (auto simp: keeps_def dbv_def tasks_of_def)

lemma keeps_tasks_proxies: "keeps tks (update_rows (c_proxies C) P f)"
  by (auto simp: update_rows_def tasks_of_def proxies.update intro!: keeps_modify)

lemma keeps_tasks_get: "keeps tks (get t P)" "keeps tks (get_all t P)"
  by (simp_all add: get_def get_all_def keeps_gets)

lemma keeps_tasks_dispatch: "keeps tks (dispatch C task n)"
  unfolding dispatch_def run_setup_def run_reload_def vm_or_fail_def build_routes_def
  by (intro keeps_if keeps_bnd keeps_andThen keeps_option keeps_ret keeps_raise keeps_map_prog
      keeps_tasks_proxies keeps_tasks_get keeps_tasks_quiet [OF quiet_misc(6)] keeps_tasks_quiet [OF quiet_misc(5)]
      keeps_readers(1))

lemma finish_run:
  "\<exists>v t. finish C i st res w = (Inr (), v) \<and> tks v = map (set_ended i st res t) (tks w)"
  by (auto simp: finish_def bnd_run now_def update_rows_def tasks_of_def tasks.update set_ended_def
      intro!: exI [of _ "w_time w (w_tick w)"])

lemma run_task_run:
  "\<exists>v st res t. run_task C task n w = (Inr (), v) \<and> (st = ''succeeded'' \<or> st = ''failed'') \<and>
     tks v = map (set_ended (ta_id task) st res t) (tks w)"
proof -
  obtain q u where d: "dispatch C task n w = (q, u)" by fastforce
  then have u: "tks u = tks w" by (rule keepsD [OF keeps_tasks_dispatch])
  show ?thesis
  proof (cases q)
    case (Inl e)
    obtain v t where "finish C (ta_id task) ''failed'' (exn_str e) u = (Inr (), v)"
      "tks v = map (set_ended (ta_id task) ''failed'' (exn_str e) t) (tks w)"
      using finish_run [of "ta_id task" "''failed''" "exn_str e" u] u by auto
    moreover from this have "run_task C task n w = (Inr (), v)" by (simp add: run_task_def except_run bnd_run d Inl)
    ultimately show ?thesis by blast
  next
    case (Inr res)
    obtain v t where "finish C (ta_id task) ''succeeded'' res u = (Inr (), v)"
      "tks v = map (set_ended (ta_id task) ''succeeded'' res t) (tks w)"
      using finish_run [of "ta_id task" "''succeeded''" res u] u by auto
    moreover from this have "run_task C task n w = (Inr (), v)" by (simp add: run_task_def except_run bnd_run d Inr)
    ultimately show ?thesis by blast
  qed
qed

lemma claim_run:
  assumes "d \<in> set (tks w)" "ta_status d = ''pending''"
  shows "\<exists>v t. claim C d w = (Inr True, v) \<and>
    tks v = map (\<lambda>r. if ta_id r = ta_id d \<and> ta_status r = ''pending''
                         then r\<lparr>ta_status := ''running'', ta_updated := t\<rparr> else r) (tks w)"
proof -
  define t where "t = w_time w (w_tick w)"
  define f where "f = (\<lambda>r :: task_row. r\<lparr>ta_status := ''running'', ta_updated := t\<rparr>)"
  define P where "P = (\<lambda>r :: task_row. ta_id r = ta_id d \<and> ta_status r = ''pending'')"
  define v where "v = w\<lparr>w_tick := Suc (w_tick w), w_db := d_update (c_tasks C) P f (w_db w)\<rparr>"
  have v: "tks v = map (\<lambda>r. if P r then f r else r) (tks w)"
    by (simp add: v_def tasks_of_def tasks.update)
  have "f d \<in> set (tks v)" unfolding v using assms by (auto simp: P_def intro!: image_eqI [of _ _ d])
  then have "\<exists>r \<in> set (t_tasks (abs (w_db v))). ta_id r = ta_id d \<and> ta_status r = ''running''"
    by (auto simp: tasks_of_def f_def intro!: bexI [of _ "f d"])
  then have "d_get (c_tasks C) (\<lambda>r. ta_id r = ta_id d \<and> ta_status r = ''running'') (w_db v) \<noteq> None"
    by (simp only: tasks.get_None) blast
  then have "claim C d w = (Inr True, v)"
    by (simp add: claim_def bnd_run andThen_run now_def update_rows_def get_run v_def P_def f_def t_def)
  with v show ?thesis by (auto simp: P_def f_def)
qed

text \<open>One tick ends exactly the first pending task of the node.\<close>

abbreviation pending :: "string \<Rightarrow> 'db world \<Rightarrow> task_row list" where
  "pending n w \<equiv> filter (is_pending n) (tks w)"

lemma tick_idle: "pending n w = [] \<Longrightarrow> tick C n w = (Inr (), w)"
  by (simp add: tick_def bnd_run get_all_run tasks.all  tasks_of_def is_pending_def [abs_def])

lemma tick_first:
  assumes "pending n w = d # ds" "distinct (map ta_id (tks w))"
  shows "\<exists>v st res t. tick C n w = (Inr (), v) \<and> (st = ''succeeded'' \<or> st = ''failed'') \<and>
    tks v = map (set_ended (ta_id d) st res t) (tks w)"
proof -
  from assms(1) have d: "d \<in> set (tks w)" "is_pending n d"
    by (auto simp: filter_eq_Cons_iff)
  obtain u t where u: "claim C d w = (Inr True, u)" "tks u = map (\<lambda>r. if ta_id r = ta_id d \<and> ta_status r = ''pending''
                         then r\<lparr>ta_status := ''running'', ta_updated := t\<rparr> else r) (tks w)"
    using claim_run [OF d(1)] d(2) by (auto simp: is_pending_def)
  obtain v st res t' where v: "run_task C d n u = (Inr (), v)" "st = ''succeeded'' \<or> st = ''failed''"
    "tks v = map (set_ended (ta_id d) st res t') (tks u)"
    using run_task_run by blast
  have "tick C n w = (Inr (), v)"
    using assms(1) by (simp add: tick_def bnd_run get_all_run tasks.all  tasks_of_def
        is_pending_def [abs_def] u(1) v(1))
  moreover have "tks v = map (set_ended (ta_id d) st res t') (tks w)"
    unfolding v(3) u(2) by (simp add: comp_def) (simp add: set_ended_def)
  ultimately show ?thesis using v(2) by blast
qed

lemma set_ended_pending:
  assumes "distinct (map ta_id rs)" "filter (is_pending n) rs = d # ds" "st = ''succeeded'' \<or> st = ''failed''"
  shows "filter (is_pending n) (map (set_ended (ta_id d) st res t) rs) = ds"
  using assms
proof (induction rs)
  case Nil
  then show ?case by simp
next
  case (Cons r rs)
  show ?case
  proof (cases "is_pending n r")
    case True
    with Cons.prems have r: "r = d" "filter (is_pending n) rs = ds" by simp_all
    from Cons.prems(1) r(1) have "\<forall>x \<in> set rs. ta_id x \<noteq> ta_id d" by (auto dest: sym)
    then have "map (set_ended (ta_id d) st res t) rs = rs" by (intro map_idI) (simp add: set_ended_def)
    moreover have "\<not> is_pending n (set_ended (ta_id d) st res t r)"
      using Cons.prems(3) r by (auto simp: set_ended_def is_pending_def)
    ultimately show ?thesis using r(2) by simp
  next
    case False
    with Cons.prems have f: "filter (is_pending n) rs = d # ds" by simp
    then have "d \<in> set rs" by (auto simp: filter_eq_Cons_iff)
    with Cons.prems(1) have "ta_id r \<noteq> ta_id d" by auto
    with False Cons f show ?thesis by (simp add: set_ended_def)
  qed
qed

lemma drained_refl: "list_all2 (drained []) rs rs"
  by (simp add: list_all2_conv_all_nth drained_def)

lemma drained_step:
  assumes "distinct (map ta_id rs)" "d \<in> set rs" "st = ''succeeded'' \<or> st = ''failed''"
    and "list_all2 (drained taken) (map (set_ended (ta_id d) st res t) rs) zs" "set taken \<subseteq> set rs"
  shows "list_all2 (drained (d # taken)) rs zs"
proof -
  let ?f = "set_ended (ta_id d) st res t"
  have "drained (d # taken) r z" if r: "r \<in> set rs" and z: "drained taken (?f r) z" for r z
  proof (cases "r = d")
    case True
    then have "ended (?f r)" "ta_id (?f r) = ta_id r" using assms(3) by (auto simp: set_ended_def ended_def)
    with z True show ?thesis by (auto simp: drained_def split: if_splits)
  next
    case False
    with assms(1,2) r have "ta_id r \<noteq> ta_id d" by (auto simp: distinct_map dest: inj_onD)
    then have "?f r = r" by (simp add: set_ended_def)
    with z False show ?thesis by (auto simp: drained_def)
  qed
  then show ?thesis
    using assms(4) by (auto simp: list_all2_conv_all_nth)
qed

lemma loop_drains:
  "distinct (map ta_id (tks w)) \<Longrightarrow>
   \<exists>v. loop_body k (tick C n) w = (Inr (), v) \<and> pending n v = drop k (pending n w) \<and>
     list_all2 (drained (take k (pending n w))) (tks w) (tks v)"
proof (induction k arbitrary: w)
  case 0
  then show ?case by (simp add: drained_refl)
next
  case (Suc k)
  show ?case
  proof (cases "pending n w")
    case Nil
    then have "loop_body (Suc k) (tick C n) w = loop_body k (tick C n) w"
      by (simp add: andThen_run except_run tick_idle)
    with Suc.IH [OF Suc.prems] Nil show ?thesis by simp
  next
    case (Cons d ds)
    obtain u st res t where u: "tick C n w = (Inr (), u)" "st = ''succeeded'' \<or> st = ''failed''"
      "tks u = map (set_ended (ta_id d) st res t) (tks w)"
      using tick_first [OF Cons Suc.prems] by blast
    have du: "distinct (map ta_id (tks u))"
      using Suc.prems by (simp add: u(3) comp_def set_ended_def if_distrib cong: if_cong)
    have pu: "pending n u = ds"
      using set_ended_pending [OF Suc.prems, of n d ds st res t] Cons u by simp
    obtain v where v: "loop_body k (tick C n) u = (Inr (), v)" "pending n v = drop k ds"
      "list_all2 (drained (take k ds)) (tks u) (tks v)"
      using Suc.IH [OF du] pu by auto
    have d: "d \<in> set (tks w)" "set (take k ds) \<subseteq> set (tks w)"
      using Cons set_take_subset [of k ds] by (auto simp: filter_eq_Cons_iff)
    have "loop_body (Suc k) (tick C n) w = (Inr (), v)"
      using v(1) by (simp add: andThen_run except_run u(1))
    moreover have "list_all2 (drained (d # take k ds)) (tks w) (tks v)"
      using drained_step [OF Suc.prems d(1) u(2) v(3) [unfolded u(3)] d(2)] .
    ultimately show ?thesis using v(2) Cons by auto
  qed
qed

end

lemma seconds_run: "seconds env w = (parse_int (strip (case w_env w env of None \<Rightarrow> ''5'' | Some s \<Rightarrow> s)), w)"
  by (simp add: seconds_def bnd_run environ_def of_sum_def)

text \<open>C30: \<open>k\<close> rounds of the executor end the first \<open>k\<close> pending tasks of the node, in the order of the table,
  each with a result and either succeeded or failed; every other task is as it was, and the queue is
  empty after as many rounds as there were pending tasks. The loop raises only before its first round, when
  the interval it is set to is no number, and then no task is run.\<close>

theorem executor_drains:
  assumes "dadar C view" "distinct (map ta_id (tasks_of view w))"
  shows "case fst (exec_interval w) of
      Inl e \<Rightarrow> loop_executor k C n w = (Inl e, w)
    | Inr _ \<Rightarrow> \<exists>v. loop_executor k C n w = (Inr (), v) \<and>
        filter (is_pending n) (tasks_of view v) = drop k (filter (is_pending n) (tasks_of view w)) \<and>
        list_all2 (drained (take k (filter (is_pending n) (tasks_of view w)))) (tasks_of view w) (tasks_of view v)"
proof -
  have "loop_executor k C n w = (case fst (exec_interval w) of Inl e \<Rightarrow> (Inl e, w) | Inr _ \<Rightarrow> loop_body k (tick C n) w)"
    by (simp add: loop_executor_def bnd_run exec_interval_def seconds_run split: sum.split)
  then show ?thesis using dadar.loop_drains [OF assms, of k n] by (simp split: sum.split)
qed

definition queue_rows :: tables where
  "queue_rows = no_rows\<lparr>t_tasks :=
     [task_row_of ''t1'' ''m1'' ''n1'' ''reverse_proxy_setup'' None 0,
      task_row_of ''t2'' ''m1'' ''n2'' ''proxy_reload'' None 1,
      task_row_of ''t3'' ''m1'' ''n1'' ''proxy_reload'' None 2]\<rparr>"

theorem executor_drains_witness:
  "\<exists>v. loop_executor 2 list_client ''n1'' (world0 queue_rows) = (Inr (), v) \<and>
    filter (is_pending ''n1'') (tasks_of (\<lambda>d. d) v) = []"
proof -
  have "parse_int (strip ''5'') = Inr 5" by code_simp
  then have "fst (exec_interval (world0 queue_rows)) = Inr 5"
    by (simp add: exec_interval_def seconds_run world0_def)
  then show ?thesis
    using executor_drains [OF lists.dadar_axioms, of "world0 queue_rows" 2 "''n1''"]
    by (auto simp: queue_rows_def tasks_of_def task_row_of_def is_pending_def)
qed

section \<open>The storage passes\<close>

definition drop_all :: "string \<Rightarrow> string list \<Rightarrow> fstate \<Rightarrow> fstate" where
  "drop_all vg ns = fold (\<lambda>x. lv_drop (vg, x)) ns"

lemma lv_map_drop_all: "lv_map (drop_all vg ns s) (g, x) = (if g = vg \<and> x \<in> set ns then None else lv_map s (g, x))"
  by (induction ns arbitrary: s) (auto simp: drop_all_def)

lemma lv_here_drop_all: "lv_here vg (drop_all vg ns s) = lv_here vg s - set ns"
  by (auto simp: lv_here_def lv_map_drop_all)

lemma remove_all_run:
  assumes "on_fake w" "noslash vg" "\<forall>x \<in> set ns. noslash x"
  shows "for_each ns (lv_remove vg) w = (Inr (), set_fake (drop_all vg ns) w)"
  using assms(1,3)
proof (induction ns arbitrary: w)
  case Nil
  then show ?case by (simp add: drop_all_def set_fake_def)
next
  case (Cons x xs)
  have "on_fake (set_fake (lv_drop (vg, x)) w)" using Cons.prems(1) by (simp add: set_fake_def)
  with Cons show ?case
    by (simp add: andThen_run lv_remove_fake assms(2) set_fake_comp) (simp add: drop_all_def comp_def)
qed

definition stale :: "(string \<Rightarrow> bool) \<Rightarrow> string set \<Rightarrow> string \<Rightarrow> fstate \<Rightarrow> string list" where
  "stale role expected vg s = orphans_of (filter role (lv_list vg s)) expected"

lemma set_stale: "set (stale role ex vg s) = {x \<in> lv_here vg s. role x \<and> x \<notin> ex}"
  by (auto simp: stale_def orphans_of_def)

lemma stale_none: "{x \<in> lv_here vg s. role x \<and> x \<notin> ex} = {} \<Longrightarrow> stale role ex vg s = []"
  using set_stale [of role ex vg s] by (simp only: set_empty)

definition is_data :: "string \<Rightarrow> bool" where
  "is_data x \<longleftrightarrow> startswith x DATA"

definition is_snap :: "string \<Rightarrow> bool" where
  "is_snap x \<longleftrightarrow> startswith x SNAP \<or> startswith x GOLD"

text \<open>The volume names a node's rows account for.\<close>

definition wanted_data :: "tables \<Rightarrow> string \<Rightarrow> string set" where
  "wanted_data t n = (\<lambda>r. data_name (vo_id r)) ` {r \<in> set (t_volumes t). vo_node r = n}"

definition wanted_snaps :: "tables \<Rightarrow> string \<Rightarrow> string set" where
  "wanted_snaps t n = insert GOLD_DEFAULT (sn_lv ` {r \<in> set (t_snapshots t). sn_node r = n})"

context dadar
begin

lemma volumes_pass_run:
  assumes "on_fake w" "settings_ok w" "noslash (vg_of w n)" "\<forall>x \<in> lv_here (vg_of w n) (w_fake w). noslash x"
  shows "\<exists>e d. volumes_pass C n w =
    (Inr \<lparr>rp_expected = e, rp_on_disk = d,
          rp_gone = sort (stale is_data (wanted_data (abs (w_db w)) n) (vg_of w n) (w_fake w))\<rparr>,
     set_fake (drop_all (vg_of w n) (stale is_data (wanted_data (abs (w_db w)) n) (vg_of w n) (w_fake w))) w)"
proof -
  let ?st = "stale is_data (wanted_data (abs (w_db w)) n) (vg_of w n) (w_fake w)"
  have "for_each ?st (lv_remove (vg_of w n)) w = (Inr (), set_fake (drop_all (vg_of w n) ?st) w)"
    by (rule remove_all_run [OF assms(1,3)]) (use assms(4) in \<open>simp add: set_stale\<close>)
  then show ?thesis
    by (simp add: volumes_pass_def bnd_run andThen_run volume_vg_run [OF assms(2)] get_all_run volumes.all
        lv_names_fake [OF assms(1)] vol_delete_def [abs_def] stale_def wanted_data_def is_data_def [abs_def] Let_def)
qed

lemma snapshots_pass_run:
  assumes "on_fake w" "settings_ok w" "noslash (vg_of w n)" "\<forall>x \<in> lv_here (vg_of w n) (w_fake w). noslash x"
  shows "\<exists>e d. snapshots_pass C n w =
    (Inr \<lparr>rp_expected = e, rp_on_disk = d,
          rp_gone = sort (stale is_snap (wanted_snaps (abs (w_db w)) n) (vg_of w n) (w_fake w))\<rparr>,
     set_fake (drop_all (vg_of w n) (stale is_snap (wanted_snaps (abs (w_db w)) n) (vg_of w n) (w_fake w))) w)"
proof -
  let ?st = "stale is_snap (wanted_snaps (abs (w_db w)) n) (vg_of w n) (w_fake w)"
  have "for_each ?st (lv_remove (vg_of w n)) w = (Inr (), set_fake (drop_all (vg_of w n) ?st) w)"
    by (rule remove_all_run [OF assms(1,3)]) (use assms(4) in \<open>simp add: set_stale\<close>)
  then show ?thesis
    by (simp add: snapshots_pass_def bnd_run andThen_run volume_vg_run [OF assms(2)] get_all_run snapshots.all
        lv_names_fake [OF assms(1)] snap_remove_def [abs_def] stale_def wanted_snaps_def is_snap_def [abs_def] Let_def)
qed

end

definition storage_passes :: "'db client \<Rightarrow> string \<Rightarrow> ('db, report \<times> report) node_prog" where
  "storage_passes C n = bnd (volumes_pass C n) (\<lambda>a. bnd (snapshots_pass C n) (\<lambda>b. ret (a, b)))"

text \<open>A volume the two passes remove.\<close>

definition swept :: "tables \<Rightarrow> string \<Rightarrow> string \<Rightarrow> bool" where
  "swept t n x \<longleftrightarrow> is_data x \<and> x \<notin> wanted_data t n \<or> is_snap x \<and> x \<notin> wanted_snaps t n"

context dadar
begin

lemma storage_once:
  assumes "on_fake w" "settings_ok w" "noslash (vg_of w n)" "\<forall>x \<in> lv_here (vg_of w n) (w_fake w). noslash x"
  shows "\<exists>rs g. storage_passes C n w = (Inr rs, set_fake g w) \<and>
    (\<forall>v x. lv_map (g (w_fake w)) (v, x) =
       (if v = vg_of w n \<and> swept (abs (w_db w)) n x then None else lv_map (w_fake w) (v, x))) \<and>
    ((\<forall>x \<in> lv_here (vg_of w n) (w_fake w). \<not> swept (abs (w_db w)) n x) \<longrightarrow>
       rp_gone (fst rs) = [] \<and> rp_gone (snd rs) = [] \<and> set_fake g w = w)"
proof -
  let ?vg = "vg_of w n" and ?t = "abs (w_db w)"
  let ?d = "stale is_data (wanted_data ?t n) ?vg (w_fake w)"
  let ?w1 = "set_fake (drop_all ?vg ?d) w"
  let ?s = "stale is_snap (wanted_snaps ?t n) ?vg (w_fake ?w1)"
  let ?g = "\<lambda>s. drop_all ?vg ?s (drop_all ?vg ?d s)"
  have w1: "on_fake ?w1" "settings_ok ?w1" "vg_of ?w1 n = ?vg" "abs (w_db ?w1) = ?t"
    "w_fake ?w1 = drop_all ?vg ?d (w_fake w)"
    using assms(1,2) by (simp_all add: set_fake_def)
  obtain a where a: "volumes_pass C n w = (Inr a, ?w1)" "rp_gone a = sort ?d"
    using volumes_pass_run [OF assms] by auto
  have p: "noslash (vg_of ?w1 n)" "\<forall>x \<in> lv_here (vg_of ?w1 n) (w_fake ?w1). noslash x"
    using assms(3,4) by (simp_all add: w1(3,5) lv_here_drop_all)
  obtain b where b: "snapshots_pass C n ?w1 = (Inr b, set_fake (drop_all ?vg ?s) ?w1)" "rp_gone b = sort ?s"
    using snapshots_pass_run [OF w1(1,2) p, unfolded w1(3,4)] by auto
  have run: "storage_passes C n w = (Inr (a, b), set_fake ?g w)"
    by (simp add: storage_passes_def bnd_run a(1) b(1) set_fake_comp)
  have eff: "lv_map (?g (w_fake w)) (v, x) =
      (if v = ?vg \<and> swept ?t n x then None else lv_map (w_fake w) (v, x))" for v x
    by (auto simp: lv_map_drop_all set_stale swept_def w1(5) lv_here_drop_all) (auto simp: lv_here_def)
  have conv: "rp_gone a = [] \<and> rp_gone b = [] \<and> set_fake ?g w = w" if "\<forall>x \<in> lv_here ?vg (w_fake w). \<not> swept ?t n x"
  proof -
    have d: "?d = []" by (rule stale_none) (use that in \<open>auto simp: swept_def\<close>)
    have "?s = []" by (rule stale_none) (use that d in \<open>auto simp: swept_def w1(5) lv_here_drop_all\<close>)
    with d show ?thesis by (simp add: a(2) b(2) drop_all_def set_fake_def)
  qed
  show ?thesis using run eff conv by (intro exI [of _ "(a, b)"] exI [of _ ?g]) simp
qed

end

text \<open>C31: on the simulator, the volume and snapshot passes remove from the node's volume group exactly the
  data volumes, snapshots and images no row of the node accounts for, never the default golden image or
  a volume of another group, and leave the database alone; a second run finds nothing to remove and
  changes nothing.\<close>

theorem storage_passes_converge:
  assumes "dadar C view" "on_fake w" "settings_ok w" "noslash (vg_of w n)"
    and "\<forall>x \<in> lv_here (vg_of w n) (w_fake w). noslash x"
  shows "\<exists>v rs rs'. storage_passes C n w = (Inr rs, v) \<and> w_db v = w_db w \<and>
    (\<forall>g x. lv_map (w_fake v) (g, x) =
       (if g = vg_of w n \<and> swept (view (w_db w)) n x then None else lv_map (w_fake w) (g, x))) \<and>
    \<not> swept (view (w_db w)) n GOLD_DEFAULT \<and>
    storage_passes C n v = (Inr rs', v) \<and> rp_gone (fst rs') = [] \<and> rp_gone (snd rs') = []"
proof -
  obtain rs g where r: "storage_passes C n w = (Inr rs, set_fake g w)"
    and e: "\<And>v x. lv_map (g (w_fake w)) (v, x) =
       (if v = vg_of w n \<and> swept (view (w_db w)) n x then None else lv_map (w_fake w) (v, x))"
    using dadar.storage_once [OF assms] by blast
  let ?v = "set_fake g w"
  have v: "on_fake ?v" "settings_ok ?v" "vg_of ?v n = vg_of w n" "w_db ?v = w_db w" "w_fake ?v = g (w_fake w)"
    using assms(2,3) by (simp_all add: set_fake_def)
  have here: "lv_here (vg_of w n) (g (w_fake w)) = {x \<in> lv_here (vg_of w n) (w_fake w). \<not> swept (view (w_db w)) n x}"
    by (auto simp: lv_here_def e)
  obtain rs' h where r': "storage_passes C n ?v = (Inr rs', set_fake h ?v)"
    and c: "rp_gone (fst rs') = [] \<and> rp_gone (snd rs') = [] \<and> set_fake h ?v = ?v"
    using dadar.storage_once [OF assms(1) v(1,2), of n] assms(4,5) by (auto simp: v here)
  have gold: "\<not> swept (view (w_db w)) n GOLD_DEFAULT"
    by (auto simp: swept_def is_data_def is_snap_def wanted_snaps_def GOLD_DEFAULT_def DATA_def)
  show ?thesis using r e v(4) r' c gold by (intro exI [of _ ?v] exI [of _ rs] exI [of _ rs']) (simp add: v(5))
qed

definition orphan_world :: "tables world" where
  "orphan_world = set_fake (\<lambda>s. s\<lparr>f_lvs := [((''nyc-n1'', ''data-x''), \<lparr>lv_size = 64, lv_pool = None, lv_origin = None, lv_attr = []\<rparr>)]\<rparr>)
     (world0 no_rows)"

theorem storage_passes_converge_witness:
  "\<exists>v rs. storage_passes list_client ''n1'' orphan_world = (Inr rs, v) \<and>
    lv_map (w_fake orphan_world) (''nyc-n1'', ''data-x'') \<noteq> None \<and> lv_map (w_fake v) (''nyc-n1'', ''data-x'') = None"
proof -
  have vg: "vg_of orphan_world ''n1'' = ''nyc-n1''" "settings_ok orphan_world" "on_fake orphan_world"
    by (simp_all add: orphan_world_def set_fake_def world0_vg)
  have lv: "lv_here ''nyc-n1'' (w_fake orphan_world) = {''data-x''}"
    "lv_map (w_fake orphan_world) (''nyc-n1'', ''data-x'') \<noteq> None"
    by (auto simp: orphan_world_def set_fake_def lv_here_def lv_map_def)
  have sw: "swept (w_db orphan_world) ''n1'' ''data-x''"
    by (simp add: orphan_world_def set_fake_def swept_def is_data_def wanted_data_def no_rows_def DATA_def)
  have ns: "noslash (vg_of orphan_world ''n1'')" "\<forall>x \<in> lv_here (vg_of orphan_world ''n1'') (w_fake orphan_world). noslash x"
    by (simp_all add: vg(1) lv(1) noslash_def)
  obtain v rs where r: "storage_passes list_client ''n1'' orphan_world = (Inr rs, v)"
    and e: "\<forall>g x. lv_map (w_fake v) (g, x) =
       (if g = vg_of orphan_world ''n1'' \<and> swept (w_db orphan_world) ''n1'' x then None
        else lv_map (w_fake orphan_world) (g, x))"
    using storage_passes_converge [OF lists.dadar_axioms vg(3,2) ns] by (elim exE conjE)
  have "lv_map (w_fake v) (''nyc-n1'', ''data-x'') = None" using e sw vg(1) by simp
  with r lv(2) show ?thesis by (intro exI conjI)
qed

section \<open>At most one loop of each kind\<close>


lemma app_two_starts: "app_reach n (snd (app_startup n (snd (app_startup n (app_boot w)))))"
  by (rule app_reach.startup [OF app_reach.startup [OF app_reach.boot]]) (rule surjective_pairing)+


end
