(* ===== verification/CascadeProps.thy ===== *)
theory CascadeProps
  imports RouterProps VmProps
begin

text \<open>
  Deleting a VM through the API and through its time to live: the rows that go, the rows that stay,
  and the host; and the answers of the handlers that resolve an image.
\<close>

section \<open>The teardown cascade\<close>

text \<open>The rows after \<open>teardown\<close> of \<open>vm_deps.py\<close>, when \<open>pip\<close> is the attached address it found.\<close>

definition without_deps :: "string \<Rightarrow> pubip_row option \<Rightarrow> tables \<Rightarrow> tables" where
  "without_deps i pip t = t\<lparr>
     t_pubips := (case pip of None \<Rightarrow> t_pubips t | Some p \<Rightarrow> filter (\<lambda>x. pi_id x \<noteq> pi_id p) (t_pubips t)),
     t_domains := filter (\<lambda>x. do_vm x \<noteq> i) (t_domains t),
     t_proxies := filter (\<lambda>x. px_vm x \<noteq> i) (t_proxies t)\<rparr>"

definition attached :: "string \<Rightarrow> pubip_row \<Rightarrow> bool" where
  "attached i r \<longleftrightarrow> pi_vm r = Some i \<and> pi_status r = ''attached''"

lemma delete_rows_db: "delete_rows t P w = (Inr (fst (d_delete t P (w_db w))), w\<lparr>w_db := snd (d_delete t P (w_db w))\<rparr>)"
  by (simp add: delete_rows_def split: prod.splits)

context dadar
begin

lemma pubips_del: "abs (snd (d_delete (c_pubips C) P d)) = t_pubips_update (filter (\<lambda>r. \<not> P r)) (abs d)"
  and domains_del: "abs (snd (d_delete (c_domains C) Q d)) = t_domains_update (filter (\<lambda>r. \<not> Q r)) (abs d)"
  and proxies_del: "abs (snd (d_delete (c_proxies C) R d)) = t_proxies_update (filter (\<lambda>r. \<not> R r)) (abs d)"
  and vms_del: "abs (snd (d_delete (c_vms C) S d)) = t_vms_update (filter (\<lambda>r. \<not> S r)) (abs d)"
  using pubips.delete [OF surjective_pairing] domains.delete [OF surjective_pairing]
    proxies.delete [OF surjective_pairing] vms.delete [OF surjective_pairing] by blast+

lemma deps_public_ip_run:
  "\<exists>d. deps_public_ip C i w = (Inr (), w\<lparr>w_db := d\<rparr>) \<and>
     abs d = (case d_get (c_pubips C) (attached i) (w_db w) of
       None \<Rightarrow> abs (w_db w)
     | Some p \<Rightarrow> t_pubips_update (filter (\<lambda>x. pi_id x \<noteq> pi_id p)) (abs (w_db w)))"
proof (cases "d_get (c_pubips C) (attached i) (w_db w)")
  case None
  then show ?thesis
    by (intro exI [of _ "w_db w"]) (simp add: deps_public_ip_def bnd_run get_run attached_def [abs_def])
next
  case (Some p)
  then show ?thesis
    by (intro exI [of _ "snd (d_delete (c_pubips C) (\<lambda>r. pi_id r = pi_id p) (w_db w))"])
       (simp add: deps_public_ip_def bnd_run get_run attached_def [abs_def] delete_rows_db pubips_del)
qed

lemma teardown_deps_run:
  "\<exists>d. teardown_deps C i w = (Inr (), w\<lparr>w_db := d\<rparr>) \<and>
     abs d = without_deps i (d_get (c_pubips C) (attached i) (w_db w)) (abs (w_db w))"
proof -
  let ?pip = "d_get (c_pubips C) (attached i) (w_db w)"
  obtain d1 where d1: "deps_public_ip C i w = (Inr (), w\<lparr>w_db := d1\<rparr>)"
    and a1: "abs d1 = (case ?pip of None \<Rightarrow> abs (w_db w)
       | Some p \<Rightarrow> t_pubips_update (filter (\<lambda>x. pi_id x \<noteq> pi_id p)) (abs (w_db w)))"
    using deps_public_ip_run by blast
  let ?d2 = "snd (d_delete (c_domains C) (\<lambda>r. do_vm r = i) d1)"
  let ?d3 = "snd (d_delete (c_proxies C) (\<lambda>r. px_vm r = i) ?d2)"
  have a3: "abs ?d3 = without_deps i ?pip (abs (w_db w))"
    by (simp add: proxies_del domains_del a1 without_deps_def split: option.splits)
  show ?thesis
  proof (cases "d_get (c_proxies C) (\<lambda>r. px_vm r = i) ?d2")
    case None
    then have "\<forall>r \<in> set (t_proxies (abs ?d2)). px_vm r \<noteq> i" by (simp only: proxies.get_None)
    then have "abs ?d2 = abs ?d3" by (simp add: proxies_del)
    with None d1 a3 show ?thesis
      by (intro exI [of _ ?d2]) (simp add: teardown_deps_def andThen_run bnd_run delete_rows_db get_run)
  next
    case (Some p)
    with d1 a3 show ?thesis
      by (intro exI [of _ ?d3]) (simp add: teardown_deps_def andThen_run bnd_run delete_rows_db get_run)
  qed
qed

lemma resolve_run: "\<exists>ps. resolve w = (Inr ps, w) \<and> vms_dir ps = w_cwd w @ [''vms'']"
  by (simp add: resolve_def find_repo_root_def bnd_run vms_dir_def)

lemma gone_after_db:
  "vm_is_gone vms i vg (w\<lparr>w_db := d\<rparr>) v \<Longrightarrow> vm_is_gone vms i vg w (v\<lparr>w_db := e\<rparr>)"
  by (simp add: vm_is_gone_def fs_at_def Let_def)

lemma down_with_db:
  assumes "on_fake w" "noslash vg" "noslash i" "fs_at (for_vm vms i) w = Some Dir" "pid_fine (for_vm vms i) w"
  shows "\<exists>v. vm_down vms i vg (w\<lparr>w_db := d\<rparr>) = (Inr (), v) \<and> vm_is_gone vms i vg (w\<lparr>w_db := d\<rparr>) v \<and> w_db v = d"
proof -
  have "on_fake (w\<lparr>w_db := d\<rparr>)" "fs_at (for_vm vms i) (w\<lparr>w_db := d\<rparr>) = Some Dir" "pid_fine (for_vm vms i) (w\<lparr>w_db := d\<rparr>)"
    using assms by (simp_all add: fs_at_def pid_fine_def)
  from vm_down_fake [OF this(1) assms(2,3) this(2,3)] show ?thesis by auto
qed

lemma delete_vm_local_run:
  assumes "on_fake w" "settings_ok w" "noslash (vg_of w n)" "noslash i"
    and "fs_at (for_vm (w_cwd w @ [''vms'']) i) w = Some Dir" "pid_fine (for_vm (w_cwd w @ [''vms'']) i) w"
  shows "\<exists>v. delete_vm_local C i n w = (Inr (), v) \<and> vm_is_gone (w_cwd w @ [''vms'']) i (vg_of w n) w v \<and>
    abs (w_db v) = t_vms_update (filter (\<lambda>x. vm_id x \<noteq> i))
      (without_deps i (d_get (c_pubips C) (attached i) (w_db w)) (abs (w_db w)))"
proof -
  let ?vms = "w_cwd w @ [''vms'']" and ?vg = "vg_of w n"
  obtain d where d: "teardown_deps C i w = (Inr (), w\<lparr>w_db := d\<rparr>)"
    "abs d = without_deps i (d_get (c_pubips C) (attached i) (w_db w)) (abs (w_db w))"
    using teardown_deps_run by blast
  obtain ps where ps: "resolve (w\<lparr>w_db := d\<rparr>) = (Inr ps, w\<lparr>w_db := d\<rparr>)" "vms_dir ps = ?vms"
    using resolve_run [of "w\<lparr>w_db := d\<rparr>"] by auto
  obtain v where v: "vm_down ?vms i ?vg (w\<lparr>w_db := d\<rparr>) = (Inr (), v)"
    "vm_is_gone ?vms i ?vg (w\<lparr>w_db := d\<rparr>) v" "w_db v = d"
    using down_with_db [OF assms(1,3,4,5,6)] by blast
  have vg: "volume_vg n (w\<lparr>w_db := d\<rparr>) = (Inr ?vg, w\<lparr>w_db := d\<rparr>)"
    using volume_vg_run [of "w\<lparr>w_db := d\<rparr>" n] assms(2) by simp
  show ?thesis
    using gone_after_db [OF v(2)]
    by (simp add: delete_vm_local_def andThen_run bnd_run d(1) ps vg v(1,3) delete_rows_db vms_del d(2))
qed

lemma reap_run:
  assumes "on_fake w" "noslash vg" "noslash i" "fs_at (for_vm vms i) w = Some Dir" "pid_fine (for_vm vms i) w"
  shows "\<exists>v. reap C vms vg i w = (Inr (), v) \<and> vm_is_gone vms i vg w v \<and>
    abs (w_db v) = t_vms_update (filter (\<lambda>x. vm_id x \<noteq> i)) (abs (w_db w))"
proof -
  obtain v where v: "vm_down vms i vg w = (Inr (), v)" "vm_is_gone vms i vg w v" "w_db v = w_db w"
    using down_with_db [OF assms, of "w_db w"] by auto
  show ?thesis
    using gone_after_db [where w = w and d = "w_db w" and v = v] v(2)
    by (simp add: reap_def andThen_run bnd_run v(1,3) delete_rows_db vms_del)
qed

lemma snapshots_none: "d_get (c_snapshots C) P d = None \<Longrightarrow> x \<in> set (t_snapshots (abs d)) \<Longrightarrow> \<not> P x"
  by (simp add: snapshots.get_None)

lemma snapshots_some: "d_get (c_snapshots C) P d = Some x \<Longrightarrow> x \<in> set (t_snapshots (abs d)) \<and> P x"
  by (rule snapshots.get_Some)

definition deps :: "'db world \<Rightarrow> pubip_row list \<times> domain_row list \<times> proxy_row list" where
  "deps w = (t_pubips (abs (w_db w)), t_domains (abs (w_db w)), t_proxies (abs (w_db w)))"

lemma keeps_deps_quiet: "quiet m \<Longrightarrow> keeps deps m"
  by (auto simp: keeps_def dbv_def deps_def)

lemma keeps_deps_vms: "keeps deps (delete_rows (c_vms C) P)"
  by (simp add: keeps_def delete_rows_db deps_def vms_del)

lemma keeps_deps_reap: "keeps deps (reap C vms vg i)"
  unfolding reap_def
  by (intro keeps_andThen keeps_bnd keeps_ret keeps_deps_vms keeps_deps_quiet [OF quiet_vm(2)])

lemma keeps_deps_ttl: "keeps deps (ttl_pass C n)"
  unfolding ttl_pass_def Let_def get_all_def
  by (intro keeps_if keeps_andThen keeps_bnd keeps_ret keeps_gets keeps_for_each keeps_deps_reap keeps_readers
      keeps_deps_quiet [OF quiet_misc(1)] keeps_deps_quiet [OF quiet_base(4)])

lemma reap_vms:
  "reap C vms vg i w = (Inr u, v) \<Longrightarrow> t_vms (abs (w_db v)) = filter (\<lambda>x. vm_id x \<noteq> i) (t_vms (abs (w_db w)))"
  using keepsD [OF quiet_vm(2)]
  by (fastforce simp: reap_def andThen_run bnd_run delete_rows_db vms_del dbv_def split: prod.splits sum.splits)

lemma reaps_vms:
  "for_each is (reap C vms vg) w = (Inr u, v) \<Longrightarrow>
   t_vms (abs (w_db v)) = filter (\<lambda>x. vm_id x \<notin> set is) (t_vms (abs (w_db w)))"
proof (induction "is" arbitrary: w)
  case Nil
  then show ?case by simp
next
  case (Cons i ks)
  then obtain x y where "reap C vms vg i w = (Inr x, y)" "for_each ks (reap C vms vg) y = (Inr u, v)"
    by (auto simp: andThen_run split: prod.splits sum.splits)
  with Cons.IH [of y] reap_vms [of vms vg i w x y] show ?case by (auto intro: filter_cong)
qed

lemma ttl_vms:
  assumes "ttl_pass C n w = (Inr ids, v)"
  shows "\<forall>x \<in> set (t_vms (abs (w_db v))). vm_id x \<notin> set ids"
  using assms reaps_vms
  by (fastforce simp: ttl_pass_def bnd_run andThen_run Let_def split: prod.splits sum.splits if_splits)

end

text \<open>C29: deleting a VM of this node on the simulator succeeds, removes its row, its domains, its proxy row
  and the attached address found for it, and no other row; and on the host it leaves nothing of the VM
  and everything else as it was.\<close>

theorem delete_vm_complete:
  assumes "dadar C view" "d_get (c_vms C) (\<lambda>r. vm_id r = i) (w_db w) = Some r" "vm_node r = me"
    and "on_fake w" "settings_ok w" "noslash (vg_of w me)" "noslash i"
    and "fs_at (for_vm (w_cwd w @ [''vms'']) i) w = Some Dir" "pid_fine (for_vm (w_cwd w @ [''vms'']) i) w"
  shows "\<exists>v. delete_vm C me i w = (Inr (), v) \<and> vm_is_gone (w_cwd w @ [''vms'']) i (vg_of w me) w v \<and>
    view (w_db v) = t_vms_update (filter (\<lambda>x. vm_id x \<noteq> i))
      (without_deps i (d_get (c_pubips C) (attached i) (w_db w)) (view (w_db w)))"
  using dadar.delete_vm_local_run [OF assms(1,4-9)]
  by (simp add: delete_vm_def bnd_run get_run or_404_run assms(2,3))

definition doomed :: "tables world" where
  "doomed = (world0 (no_rows\<lparr>
     t_vms := [\<lparr>vm_id = ''a1'', vm_node = ''n1'', vm_name = ''web'', vm_vpc = ''v1'', vm_volume = None, vm_ip = ''10.0.0.2'',
       vm_ssh = None, vm_vcpu = Some 1, vm_mem = Some 512, vm_status = ''running'', vm_created = 0\<rparr>],
     t_domains := [\<lparr>do_id = ''d1'', do_fqdn = ''web.example.com'', do_vm = ''a1'', do_port = 80, do_created = 0\<rparr>]\<rparr>))
     \<lparr>w_fs := [([''srv'', ''node'', ''vms'', ''a1''], Dir), ([''srv'', ''node'', ''vms'', ''a1'', ''pid''], File ''0'')]\<rparr>"

lemma doomed_facts:
  "on_fake doomed" "settings_ok doomed" "vg_of doomed ''n1'' = ''nyc-n1''" "w_cwd doomed = [''srv'', ''node'']"
  "fs_at (for_vm [''srv'', ''node'', ''vms''] ''a1'') doomed = Some Dir"
  "pid_fine (for_vm [''srv'', ''node'', ''vms''] ''a1'') doomed"
proof -
  show "on_fake doomed" "settings_ok doomed" "vg_of doomed ''n1'' = ''nyc-n1''"
    by (simp_all add: doomed_def world0_vg)
  show "w_cwd doomed = [''srv'', ''node'']" by (simp add: doomed_def world0_def)
  show "fs_at (for_vm [''srv'', ''node'', ''vms''] ''a1'') doomed = Some Dir"
    "pid_fine (for_vm [''srv'', ''node'', ''vms''] ''a1'') doomed"
    by (simp_all add: doomed_def fs_at_def for_vm_def pid_fine_def vp_pid_file_def parse_int_zero)
qed

theorem delete_vm_complete_witness:
  "\<exists>v. delete_vm list_client ''n1'' ''a1'' doomed = (Inr (), v) \<and> t_vms (w_db v) = [] \<and> t_domains (w_db v) = [] \<and>
    fs_at [''srv'', ''node'', ''vms'', ''a1''] v = None"
proof -
  obtain r where r: "d_get (c_vms list_client) (\<lambda>r. vm_id r = ''a1'') (w_db doomed) = Some r" "vm_node r = ''n1''"
    by (simp add: list_client_def list_docs_def doomed_def)
  from delete_vm_complete [OF lists.dadar_axioms r doomed_facts(1,2)] doomed_facts(3-6)
  show ?thesis
    by (auto simp: noslash_def vm_is_gone_def Let_def for_vm_def without_deps_def doomed_def no_rows_def split: option.splits)
qed



text \<open>A VM with two attached addresses, which two calls of the attach handler give it, keeps one of them
  through the teardown of its dependents: the address stays taken by a VM that is gone.\<close>

theorem second_address_leaks:
  assumes "dadar C view" "p \<in> set (t_pubips (view (w_db w)))" "q \<in> set (t_pubips (view (w_db w)))"
    and "attached i p" "attached i q" "pi_id p \<noteq> pi_id q"
  shows "\<exists>v. teardown_deps C i w = (Inr (), v) \<and> (\<exists>x \<in> set (t_pubips (view (w_db v))). attached i x)"
proof -
  obtain d where d: "teardown_deps C i w = (Inr (), w\<lparr>w_db := d\<rparr>)"
    "view d = without_deps i (d_get (c_pubips C) (attached i) (w_db w)) (view (w_db w))"
    using dadar.teardown_deps_run [OF assms(1)] by blast
  have "\<exists>x \<in> set (t_pubips (view d)). attached i x"
  proof (cases "d_get (c_pubips C) (attached i) (w_db w)")
    case None
    then show ?thesis using assms(2,4) by (auto simp: d(2) without_deps_def)
  next
    case (Some a)
    have "pi_id p \<noteq> pi_id a \<or> pi_id q \<noteq> pi_id a" using assms(6) by auto
    then show ?thesis using assms(2-5) Some by (auto simp: d(2) without_deps_def)
  qed
  with d(1) show ?thesis by auto
qed

definition two_addresses :: tables where
  "two_addresses = no_rows\<lparr>t_pubips :=
     [\<lparr>pi_id = ''p1'', pi_node = ''n1'', pi_vm = Some ''a1'', pi_address = ''203.0.113.10'', pi_gateway = None, pi_mac = [],
       pi_prefix = ''32'', pi_status = ''attached'', pi_created = 0\<rparr>,
      \<lparr>pi_id = ''p2'', pi_node = ''n1'', pi_vm = Some ''a1'', pi_address = ''203.0.113.11'', pi_gateway = None, pi_mac = [],
       pi_prefix = ''32'', pi_status = ''attached'', pi_created = 1\<rparr>]\<rparr>"

theorem second_address_leaks_witness:
  "\<exists>v. teardown_deps list_client ''a1'' (world0 two_addresses) = (Inr (), v) \<and>
    (\<exists>x \<in> set (t_pubips (w_db v)). attached ''a1'' x)"
  by (rule second_address_leaks [OF lists.dadar_axioms, of "t_pubips two_addresses ! 0" _ "t_pubips two_addresses ! 1"])
     (simp_all add: two_addresses_def attached_def)

section \<open>Images\<close>

text \<open>An image a request can mean by its id.\<close>

definition golden :: "tables \<Rightarrow> string \<Rightarrow> snapshot_row \<Rightarrow> bool" where
  "golden t i x \<longleftrightarrow> x \<in> set (t_snapshots t) \<and> sn_id x = i \<and> sn_role x = ''golden''"

text \<open>A spawn boots from the default golden image when it names none; else only from a golden image with
  that id, of a root disk, on the node it runs on. Unknown images and data images answer 400, images of
  another node 409, and nothing changes in any of these cases.\<close>

theorem root_image_rules:
  assumes "dadar C view"
  shows "snd (resolve_root_image C body n w) = w \<and>
    (case (truthy_str (wi_root_image body), fst (resolve_root_image C body n w)) of
       (None, r) \<Rightarrow> r = Inr GOLD_DEFAULT
     | (Some i, Inr lv) \<Rightarrow>
         \<exists>x. golden (view (w_db w)) i x \<and> sn_disk x = ''root'' \<and> sn_node x = n \<and> lv = sn_lv x
     | (Some i, Inl e) \<Rightarrow>
         (e = HTTPException 400 ''unknown image'' \<and> (\<nexists>x. golden (view (w_db w)) i x)) \<or>
         (\<exists>x m. e = HTTPException 400 m \<and> golden (view (w_db w)) i x \<and> sn_disk x \<noteq> ''root'') \<or>
         (\<exists>x m. e = HTTPException 409 m \<and> golden (view (w_db w)) i x \<and> sn_node x \<noteq> n))"
proof (cases "truthy_str (wi_root_image body)")
  case None
  then show ?thesis by (simp add: resolve_root_image_def)
next
  case (Some i)
  show ?thesis
  proof (cases "d_get (c_snapshots C) (\<lambda>r. sn_id r = i \<and> sn_role r = ''golden'') (w_db w)")
    case None
    then have "\<nexists>x. golden (view (w_db w)) i x"
      using dadar.snapshots_none [OF assms] by (auto simp: golden_def)
    with None Some show ?thesis by (simp add: resolve_root_image_def image_or_400_def bnd_run get_run)
  next
    case (Some x)
    then have "golden (view (w_db w)) i x"
      using dadar.snapshots_some [OF assms] by (auto simp: golden_def)
    with Some \<open>truthy_str (wi_root_image body) = Some i\<close> show ?thesis
      by (auto simp: resolve_root_image_def image_or_400_def bnd_run andThen_run get_run same_node_or_409_def)
  qed
qed

definition spawn_body :: "string option \<Rightarrow> spawn_in" where
  "spawn_body img = \<lparr>wi_name = ''web'', wi_ssh_key = ''ssh-ed25519 AAAA'', wi_size = 64, wi_vcpu = 1, wi_mem = 512,
     wi_root_image = img, wi_data_image = None\<rparr>"

theorem root_image_rules_witness:
  "\<exists>e. fst (resolve_root_image list_client (spawn_body (Some ''g1'')) ''n1'' (world0 no_rows)) = Inl e"
  using root_image_rules [OF lists.dadar_axioms, of "spawn_body (Some ''g1'')" "''n1''" "world0 no_rows"]
  by (auto simp: spawn_body_def truthy_str_def golden_def no_rows_def split: sum.splits)

end
