(* ===== verification/PyVal.thy ===== *)
theory PyVal
  imports World
begin

text \<open>
  Decoded documents as the operator scripts handle them. A parsed TOML or JSON text is a value of
  \<open>json\<close>: \<open>None\<close>, a truth value, a string, a number, a list, or a dictionary with distinct keys.
  Indexing, \<open>get\<close>, truth, iteration and formatting follow Python, the exceptions included.
\<close>

section \<open>Truth, access, iteration\<close>

fun truthy :: "json \<Rightarrow> bool" where
  "truthy JNull = False"
| "truthy (JBool b) = b"
| "truthy (JStr s) = (s \<noteq> [])"
| "truthy (JInt i) = (i \<noteq> 0)"
| "truthy (JList xs) = (xs \<noteq> [])"
| "truthy (JObj kvs) = (kvs \<noteq> [])"

text \<open>\<open>v[k]\<close> and \<open>v.get(k)\<close> with a string key; \<open>opt\<close> is \<open>v.get(k)\<close> with \<open>None\<close> for a missing key.\<close>

definition item :: "string \<Rightarrow> json \<Rightarrow> ('s, json) prog" where
  "item k v = (case v of
     JObj kvs \<Rightarrow> (case map_of kvs k of None \<Rightarrow> raise (KeyError k) | Some x \<Rightarrow> ret x)
   | _ \<Rightarrow> raise (TypeError k))"

definition getd :: "string \<Rightarrow> json \<Rightarrow> json \<Rightarrow> ('s, json) prog" where
  "getd k d v = (case v of
     JObj kvs \<Rightarrow> ret (case map_of kvs k of None \<Rightarrow> d | Some x \<Rightarrow> x)
   | _ \<Rightarrow> raise (AttributeError ''get''))"

abbreviation opt :: "string \<Rightarrow> json \<Rightarrow> ('s, json) prog" where
  "opt k \<equiv> getd k JNull"

text \<open>\<open>for x in v\<close>: the elements of a list, the keys of a dictionary, the characters of a string.\<close>

definition elems :: "json \<Rightarrow> ('s, json list) prog" where
  "elems v = (case v of
     JList xs \<Rightarrow> ret xs
   | JObj kvs \<Rightarrow> ret (map (JStr \<circ> fst) kvs)
   | JStr s \<Rightarrow> ret (map (\<lambda>c. JStr [c]) s)
   | _ \<Rightarrow> raise (TypeError ''not iterable''))"

definition length_of :: "json \<Rightarrow> ('s, nat) prog" where
  "length_of v = bnd (elems v) (\<lambda>xs. ret (length xs))"

text \<open>\<open>a or b\<close>, whose right side runs only when the left is falsy\<close>

definition py_or :: "('s, json) prog \<Rightarrow> ('s, json) prog \<Rightarrow> ('s, json) prog" where
  "py_or m n = bnd m (\<lambda>x. if truthy x then ret x else n)"

primrec filter_prog :: "('x \<Rightarrow> ('s, bool) prog) \<Rightarrow> 'x list \<Rightarrow> ('s, 'x list) prog" where
  "filter_prog p [] = ret []"
| "filter_prog p (x # xs) = bnd (p x) (\<lambda>b. bnd (filter_prog p xs) (\<lambda>ys. ret (if b then x # ys else ys)))"

text \<open>\<open>next(x for x in xs if p x)\<close>, which stops at the first match, and \<open>any(...)\<close>\<close>

primrec next_prog :: "('x \<Rightarrow> ('s, bool) prog) \<Rightarrow> 'x list \<Rightarrow> ('s, 'x) prog" where
  "next_prog p [] = raise StopIteration"
| "next_prog p (x # xs) = bnd (p x) (\<lambda>b. if b then ret x else next_prog p xs)"

primrec any_prog :: "('x \<Rightarrow> ('s, bool) prog) \<Rightarrow> 'x list \<Rightarrow> ('s, bool) prog" where
  "any_prog p [] = ret False"
| "any_prog p (x # xs) = bnd (p x) (\<lambda>b. if b then ret True else any_prog p xs)"

section \<open>Formatting\<close>

text \<open>\<open>repr\<close> of a string without quotes, backslashes and control characters.\<close>

definition repr_str :: "string \<Rightarrow> string" where
  "repr_str s = [CHR 0x27] @ s @ [CHR 0x27]"

definition repr_strs :: "string list \<Rightarrow> string" where
  "repr_strs xs = ''['' @ join '', '' (map repr_str xs) @ '']''"

fun repr :: "json \<Rightarrow> string" where
  "repr JNull = ''None''"
| "repr (JBool b) = (if b then ''True'' else ''False'')"
| "repr (JStr s) = repr_str s"
| "repr (JInt i) = str_int i"
| "repr (JList xs) = ''['' @ join '', '' (map repr xs) @ '']''"
| "repr (JObj kvs) = ''{'' @ join '', '' (map (\<lambda>kv. repr_str (fst kv) @ '': '' @ repr (snd kv)) kvs) @ ''}''"

text \<open>\<open>str(v)\<close>, as an f-string prints \<open>v\<close>\<close>

definition show_val :: "json \<Rightarrow> string" where
  "show_val v = (case v of JStr s \<Rightarrow> s | _ \<Rightarrow> repr v)"

text \<open>\<open>f"{s:<n}"\<close>\<close>

definition pad_right :: "nat \<Rightarrow> string \<Rightarrow> string" where
  "pad_right n s = s @ replicate (n - length s) (CHR '' '')"

text \<open>The em dash in UTF-8.\<close>

definition em_dash :: string where
  "em_dash = [CHR 0xE2, CHR 0x80, CHR 0x94]"

text \<open>Shell text is written with a backtick for the double quote and an exclamation mark for the
  backslash, neither of which the scripts use themselves.\<close>

definition sh :: "string \<Rightarrow> string" where
  "sh = map (\<lambda>c. if c = CHR 0x60 then CHR 0x22 else if c = CHR ''!'' then CHR 0x5C else c)"

text \<open>\<open>shlex.join\<close>, for ASCII text\<close>

definition shell_safe :: "char \<Rightarrow> bool" where
  "shell_safe c =
     (let code = of_char c :: nat
      in is_digit c \<or> 65 \<le> code \<and> code < 91 \<or> 97 \<le> code \<and> code < 123 \<or> c \<in> set ''_@%+=:,./-'')"

definition shell_quote :: "string \<Rightarrow> string" where
  "shell_quote s =
     (if s = [] then [CHR 0x27, CHR 0x27]
      else if list_all shell_safe s then s
      else [CHR 0x27] @
        concat (map (\<lambda>c. if c = CHR 0x27 then [CHR 0x27, CHR 0x22, CHR 0x27, CHR 0x22, CHR 0x27] else [c]) s) @ [CHR 0x27])"

definition shell_join :: "string list \<Rightarrow> string" where
  "shell_join xs = join '' '' (map shell_quote xs)"

section \<open>Facts\<close>

lemma show_JStr [simp]: "show_val (JStr s) = s"
  by (simp add: show_val_def)

lemma item_run [prog_simps]:
  "item k v s = (case v of
     JObj kvs \<Rightarrow> (case map_of kvs k of None \<Rightarrow> Inl (KeyError k) | Some x \<Rightarrow> Inr x)
   | _ \<Rightarrow> Inl (TypeError k), s)"
  by (simp add: item_def split: json.splits option.splits)

lemma getd_run [prog_simps]:
  "getd k d v s = (case v of
     JObj kvs \<Rightarrow> Inr (case map_of kvs k of None \<Rightarrow> d | Some x \<Rightarrow> x)
   | _ \<Rightarrow> Inl (AttributeError ''get''), s)"
  by (simp add: getd_def split: json.splits option.splits)

text \<open>The fields of dictionaries, for statements: a missing key reads as a default.\<close>

definition field_or :: "string \<Rightarrow> json \<Rightarrow> json \<Rightarrow> json" where
  "field_or k d v = (case v of JObj kvs \<Rightarrow> (case map_of kvs k of None \<Rightarrow> d | Some x \<Rightarrow> x) | _ \<Rightarrow> d)"

abbreviation field :: "string \<Rightarrow> json \<Rightarrow> json" where
  "field k \<equiv> field_or k JNull"

definition is_obj :: "json \<Rightarrow> bool" where
  "is_obj v \<longleftrightarrow> (\<exists>kvs. v = JObj kvs)"

definition has :: "string \<Rightarrow> json \<Rightarrow> bool" where
  "has k v \<longleftrightarrow> (\<exists>kvs. v = JObj kvs \<and> k \<in> fst ` set kvs)"

lemma has_is_obj: "has k v \<Longrightarrow> is_obj v"
  by (auto simp: has_def is_obj_def)

lemma getd_field [prog_simps]: "is_obj v \<Longrightarrow> getd k d v s = (Inr (field_or k d v), s)"
  by (auto simp: is_obj_def field_or_def getd_run)

lemma item_field [prog_simps]: "has k v \<Longrightarrow> item k v s = (Inr (field k v), s)"
proof -
  assume "has k v"
  then obtain kvs where v: "v = JObj kvs" "k \<in> fst ` set kvs" by (auto simp: has_def)
  then obtain x where "map_of kvs k = Some x"
    using map_of_eq_None_iff [of kvs k] by (cases "map_of kvs k") simp_all
  with v(1) show ?thesis by (simp add: field_or_def item_run)
qed

lemma pure_run: "keeps (\<lambda>s. s) m \<Longrightarrow> m s = (fst (m s), s)"
  by (simp add: keeps_def prod_eq_iff)

lemma keeps_item [keeps_rules]: "keeps f (item k v)"
  and keeps_getd [keeps_rules]: "keeps f (getd k d v)"
  by (simp_all add: keeps_def item_run getd_run)

lemma elems_JObj [prog_simps]: "elems (JObj kvs) s = (Inr (map (JStr \<circ> fst) kvs), s)"
  and elems_JList [prog_simps]: "elems (JList xs) s = (Inr xs, s)"
  by (simp_all add: elems_def)

lemma keeps_elems [keeps_rules]: "keeps f (elems v)"
  by (auto simp: elems_def split: json.splits intro!: keeps_rules)

lemma keeps_length_of [keeps_rules]: "keeps f (length_of v)"
  by (auto simp: length_of_def split: json.splits intro!: keeps_rules)

lemma keeps_py_or [keeps_rules]: "keeps f m \<Longrightarrow> keeps f n \<Longrightarrow> keeps f (py_or m n)"
  by (auto simp: py_or_def intro!: keeps_rules)

lemma keeps_filter_prog [keeps_rules]: "(\<And>x. keeps f (p x)) \<Longrightarrow> keeps f (filter_prog p xs)"
  and keeps_next_prog [keeps_rules]: "(\<And>x. keeps f (p x)) \<Longrightarrow> keeps f (next_prog p xs)"
  and keeps_any_prog [keeps_rules]: "(\<And>x. keeps f (p x)) \<Longrightarrow> keeps f (any_prog p xs)"
  by (induction xs) (auto intro!: keeps_rules)

text \<open>Loops whose body always returns without effect are the list functions.\<close>

lemma filter_prog_run:
  "(\<And>x. x \<in> set xs \<Longrightarrow> p x s = (Inr (q x), s)) \<Longrightarrow> filter_prog p xs s = (Inr (filter q xs), s)"
  by (induction xs) (auto simp: bnd_run)

lemma next_prog_run:
  "(\<And>x. x \<in> set xs \<Longrightarrow> p x s = (Inr (q x), s)) \<Longrightarrow>
   next_prog p xs s = (case find q xs of None \<Rightarrow> Inl StopIteration | Some x \<Rightarrow> Inr x, s)"
  by (induction xs) (auto simp: bnd_run)

lemma any_prog_run:
  "(\<And>x. x \<in> set xs \<Longrightarrow> p x s = (Inr (q x), s)) \<Longrightarrow> any_prog p xs s = (Inr (\<exists>x \<in> set xs. q x), s)"
  by (induction xs) (auto simp: bnd_run)

lemma map_prog_run:
  "(\<And>x. x \<in> set xs \<Longrightarrow> f x s = (Inr (g x), s)) \<Longrightarrow> map_prog f xs s = (Inr (map g xs), s)"
  by (induction xs) (auto simp: bnd_run)

end
