(* ===== verification/Operator.thy ===== *)
theory Operator
  imports PyVal
begin

text \<open>
  The machine the operator scripts of \<open>scripts/\<close> run on: environment, files, the two parsers as
  functions from text to documents, the commands run (each answers as a function of those before it
  and may change files), the monotonic clock, and what was printed.
\<close>

section \<open>State\<close>

record op_call =
  oc_argv :: "string list"
  oc_input :: "string option"
  oc_env :: "(string \<times> string) list"
  oc_cwd :: "path option"
  oc_timeout :: "int option"

type_synonym files = "(path \<times> fnode) list"

record op_world =
  ow_env :: "string \<Rightarrow> string option"
  ow_cwd :: path
  ow_here :: path
  ow_fs :: files
  ow_toml :: "string \<Rightarrow> exn + json"
  ow_json :: "string \<Rightarrow> exn + json"
  ow_exec :: "op_call list \<Rightarrow> op_call \<Rightarrow> files \<Rightarrow> (exn + int \<times> string \<times> string) \<times> files"
  ow_calls :: "op_call list"
  ow_now :: int
  ow_drift :: "nat \<Rightarrow> nat"
  ow_reads :: nat
  ow_out :: "string list"
  ow_sha :: "string \<Rightarrow> nat list"

type_synonym 'a op_prog = "(op_world, 'a) prog"

definition call_of :: "string list \<Rightarrow> op_call" where
  "call_of argv = \<lparr>oc_argv = argv, oc_input = None, oc_env = [], oc_cwd = None, oc_timeout = None\<rparr>"

text \<open>\<open>subprocess.run(...)\<close>: exit code, standard output and standard error.\<close>

definition subprocess :: "op_call \<Rightarrow> (int \<times> string \<times> string) op_prog" where
  "subprocess c = (\<lambda>w. case ow_exec w (ow_calls w) c (ow_fs w) of (r, f) \<Rightarrow>
     (r, w\<lparr>ow_calls := ow_calls w @ [c], ow_fs := f\<rparr>))"

text \<open>\<open>except Exception\<close>, which lets \<open>sys.exit\<close> through\<close>

definition guarded :: "('s, 'a) prog \<Rightarrow> (exn \<Rightarrow> ('s, 'a) prog) \<Rightarrow> ('s, 'a) prog" where
  "guarded m h = except m (\<lambda>e. case e of SystemExit _ \<Rightarrow> raise e | _ \<Rightarrow> h e)"

definition say :: "string \<Rightarrow> unit op_prog" where
  "say s = modify (\<lambda>w. w\<lparr>ow_out := ow_out w @ [s]\<rparr>)"

text \<open>\<open>time.monotonic()\<close>, in microseconds, and \<open>time.sleep\<close>, which never wakes early. Each reading of
  the clock and each sleep takes an amount of extra time the world chooses.\<close>

definition pass_time :: "nat \<Rightarrow> op_world \<Rightarrow> op_world" where
  "pass_time d w = w\<lparr>ow_now := ow_now w + int d + int (ow_drift w (ow_reads w)), ow_reads := Suc (ow_reads w)\<rparr>"

definition monotonic :: "int op_prog" where
  "monotonic = (\<lambda>w. (Inr (ow_now (pass_time 0 w)), pass_time 0 w))"

definition op_read :: "path \<Rightarrow> string op_prog" where
  "op_read p = bnd (gets (\<lambda>w. map_of (ow_fs w) p)) (\<lambda>n. case n of
     Some (File s) \<Rightarrow> ret s | _ \<Rightarrow> raise (OSError (path_str p)))"

text \<open>\<open>d.mkdir(exist_ok=True)\<close>, without parents\<close>

definition op_mkdir :: "path \<Rightarrow> unit op_prog" where
  "op_mkdir p = bnd (gets (\<lambda>w. (map_of (ow_fs w) p, map_of (ow_fs w) (butlast p)))) (\<lambda>(n, m). case n of
     Some Dir \<Rightarrow> ret ()
   | Some _ \<Rightarrow> raise (OSError (path_str p))
   | None \<Rightarrow> if m = Some Dir \<or> butlast p = [] then modify (\<lambda>w. w\<lparr>ow_fs := (p, Dir) # ow_fs w\<rparr>)
             else raise (OSError (path_str p)))"

text \<open>\<open>Path(s).resolve()\<close>, for text without \<open>..\<close> and symbolic links\<close>

definition abs_path :: "op_world \<Rightarrow> string \<Rightarrow> path" where
  "abs_path w s =
     (let p = filter (\<lambda>c. c \<noteq> [] \<and> c \<noteq> ''.'') (split_on (CHR ''/'') s)
      in if startswith s ''/'' then p else ow_cwd w @ p)"

text \<open>\<open>tomllib.loads(Path(s).read_text())\<close>\<close>

definition read_toml :: "string \<Rightarrow> json op_prog" where
  "read_toml s = bnd (gets (\<lambda>w. abs_path w s)) (\<lambda>p. bnd (op_read p) (\<lambda>t. bnd (gets ow_toml) (\<lambda>f. of_sum (f t))))"

section \<open>Frames\<close>

lemma subprocess_run [prog_simps]:
  "subprocess c w = (case ow_exec w (ow_calls w) c (ow_fs w) of (r, f) \<Rightarrow>
     (r, w\<lparr>ow_calls := ow_calls w @ [c], ow_fs := f\<rparr>))"
  by (simp add: subprocess_def)

lemma say_run [prog_simps]: "say s w = (Inr (), w\<lparr>ow_out := ow_out w @ [s]\<rparr>)"
  by (simp add: say_def)

lemma monotonic_run [prog_simps]: "monotonic w = (Inr (ow_now (pass_time 0 w)), pass_time 0 w)"
  by (simp add: monotonic_def)

lemma pass_time_now: "ow_now w + int d \<le> ow_now (pass_time d w)"
  by (simp add: pass_time_def)

text \<open>What each primitive can change.\<close>

lemma keeps_subprocess [keeps_rules]:
  assumes "\<And>w l. f (w\<lparr>ow_calls := l\<rparr>) = f w" and "\<And>w s. f (w\<lparr>ow_fs := s\<rparr>) = f w"
  shows "keeps f (subprocess c)"
proof -
  have "f (w\<lparr>ow_calls := l, ow_fs := s\<rparr>) = f w" for w l s
    using assms(2) [of s "w\<lparr>ow_calls := l\<rparr>"] assms(1) [of l w] by simp
  then show ?thesis by (auto simp: keeps_def subprocess_run split: prod.splits)
qed

lemma keeps_guarded [keeps_rules]: "keeps f m \<Longrightarrow> (\<And>e. keeps f (h e)) \<Longrightarrow> keeps f (guarded m h)"
  unfolding guarded_def by (auto intro!: keeps_rules split: exn.splits)

lemma guarded_run [prog_simps]:
  "guarded m h w = (case m w of
     (Inr x, v) \<Rightarrow> (Inr x, v)
   | (Inl (SystemExit s), v) \<Rightarrow> (Inl (SystemExit s), v)
   | (Inl e, v) \<Rightarrow> h e v)"
  by (auto simp: guarded_def except_run split: prod.splits sum.splits exn.splits)

lemma keeps_say [keeps_rules]: "(\<And>w l. f (w\<lparr>ow_out := l\<rparr>) = f w) \<Longrightarrow> keeps f (say s)"
  by (simp add: keeps_def say_run)

lemma keeps_monotonic [keeps_rules]: "(\<And>w. f (pass_time 0 w) = f w) \<Longrightarrow> keeps f monotonic"
  by (simp add: keeps_def monotonic_run)

lemma keeps_op_read [keeps_rules]: "keeps f (op_read p)"
  unfolding op_read_def by (auto intro!: keeps_rules split: option.splits fnode.splits)

lemma keeps_op_mkdir [keeps_rules]:
  "(\<And>w s. f (w\<lparr>ow_fs := s\<rparr>) = f w) \<Longrightarrow> keeps f (op_mkdir p)"
  unfolding op_mkdir_def by (auto intro!: keeps_rules keeps_modify split: option.splits fnode.splits)

lemma keeps_read_toml [keeps_rules]: "keeps f (read_toml s)"
  unfolding read_toml_def by (intro keeps_rules)

section \<open>A machine to try things on\<close>

text \<open>A control machine with an inventory file of the given document, on which every command
  succeeds without output.\<close>

definition op0 :: "json \<Rightarrow> op_world" where
  "op0 doc = \<lparr>ow_env = Map.empty, ow_cwd = [''ops''], ow_here = [''ops'', ''scripts''],
     ow_fs = [([''ops''], Dir), ([''ops'', ''cluster.toml''], File ''toml'')],
     ow_toml = (\<lambda>_. Inr doc), ow_json = (\<lambda>_. Inr (JObj [])), ow_exec = (\<lambda>_ _ f. (Inr (0, [], []), f)),
     ow_calls = [], ow_now = 0, ow_drift = (\<lambda>_. 0), ow_reads = 0, ow_out = [], ow_sha = (\<lambda>_. replicate 32 7)\<rparr>"

end
