(* ===== verification/Inventory.thy ===== *)
theory Inventory
  imports Operator
begin

text \<open>
  \<open>scripts/inventory.py\<close>: a cluster description becomes one entry per node, its name and the
  data the pyinfra deploys read.
\<close>

section \<open>Hosts\<close>

record host_data =
  hd_ssh_hostname :: json
  hd_ssh_user :: json
  hd_forward_agent :: bool
  hd_strict :: string
  hd_repo_url :: json
  hd_ref :: json
  hd_remote_dir :: json
  hd_node_host :: json
  hd_public_host :: json
  hd_domain :: json
  hd_http_port :: json
  hd_rqlite_http :: json
  hd_rqlite_raft :: json
  hd_dns :: json
  hd_role :: string
  hd_join_target :: string
  hd_ttl :: json
  hd_lvm_device :: json
  hd_lvm_vg :: json
  hd_lvm_thinpool :: json
  hd_vm_key :: string
  hd_vm_pub :: string
  hd_cluster_domain :: json
  hd_public_iface :: json
  hd_public_ips :: json
  hd_pubip_gateway :: json
  hd_public_bridge :: json
  hd_public_host_cidr :: json

definition is_boot :: "json \<Rightarrow> ('s, bool) prog" where
  "is_boot n = bnd (opt ''bootstrap'' n) (\<lambda>v. ret (truthy v))"

text \<open>\<open>node.get("public_host") or node.get("domain") or node["host"]\<close>\<close>

definition reach_host :: "json \<Rightarrow> ('s, json) prog" where
  "reach_host n = py_or (opt ''public_host'' n) (py_or (opt ''domain'' n) (item ''host'' n))"

definition host_entry :: "json \<Rightarrow> json \<Rightarrow> path \<Rightarrow> json \<Rightarrow> ('s, json \<times> host_data) prog" where
  "host_entry cluster boot keydir node =
     bnd (getd ''rqlite_raft_port'' (JInt 4002) cluster) (\<lambda>raft.
     bnd (item ''name'' node) (\<lambda>name.
     bnd (reach_host node) (\<lambda>ssh_hostname.
     bnd (getd ''ssh_user'' (JStr ''ubuntu'') cluster) (\<lambda>ssh_user.
     bnd (item ''repo_url'' cluster) (\<lambda>repo_url.
     bnd (getd ''ref'' (JStr ''main'') cluster) (\<lambda>ref.
     bnd (getd ''remote_dir'' (JStr ''~/equator'') cluster) (\<lambda>remote_dir.
     bnd (item ''host'' node) (\<lambda>node_host.
     bnd (getd ''public_host'' (JStr []) node) (\<lambda>public_host.
     bnd (getd ''domain'' (JStr []) node) (\<lambda>domain.
     bnd (getd ''http_port'' (JInt 8000) cluster) (\<lambda>http_port.
     bnd (getd ''rqlite_http_port'' (JInt 4001) cluster) (\<lambda>rqlite_http.
     bnd (getd ''dns'' (JStr ''1.1.1.1'') cluster) (\<lambda>dns.
     bnd (is_boot node) (\<lambda>b.
     bnd (item ''host'' boot) (\<lambda>boot_host.
     bnd (getd ''vm_ttl_minutes'' (JInt 0) cluster) (\<lambda>ttl.
     bnd (getd ''lvm_device'' (JStr []) cluster) (\<lambda>dev0.
     bnd (getd ''lvm_device'' dev0 node) (\<lambda>dev.
     bnd (getd ''lvm_vg'' (JStr ''nyc'') cluster) (\<lambda>vg.
     bnd (getd ''lvm_thinpool'' (JStr ''pool'') cluster) (\<lambda>tp.
     bnd (getd ''vm_domain'' (JStr []) cluster) (\<lambda>vm_domain.
     bnd (getd ''public_iface'' (JStr []) node) (\<lambda>iface.
     bnd (getd ''public_ips'' (JList []) node) (\<lambda>ips.
     bnd (getd ''pubip_gateway'' (JStr []) node) (\<lambda>gw.
     bnd (getd ''public_bridge'' (JStr ''pub0'') cluster) (\<lambda>br0.
     bnd (getd ''public_bridge'' br0 node) (\<lambda>br.
     bnd (getd ''public_host_cidr'' (JStr []) node) (\<lambda>cidr.
     ret (name,
       \<lparr>hd_ssh_hostname = ssh_hostname, hd_ssh_user = ssh_user, hd_forward_agent = True,
        hd_strict = ''accept-new'', hd_repo_url = repo_url, hd_ref = ref, hd_remote_dir = remote_dir,
        hd_node_host = node_host, hd_public_host = public_host, hd_domain = domain,
        hd_http_port = http_port, hd_rqlite_http = rqlite_http, hd_rqlite_raft = raft, hd_dns = dns,
        hd_role = (if b then ''bootstrap'' else ''join''),
        hd_join_target = show_val boot_host @ '':'' @ show_val raft, hd_ttl = ttl, hd_lvm_device = dev,
        hd_lvm_vg = vg, hd_lvm_thinpool = tp, hd_vm_key = path_str (keydir @ [''id_ed25519'']),
        hd_vm_pub = path_str (keydir @ [''id_ed25519.pub'']), hd_cluster_domain = vm_domain,
        hd_public_iface = iface, hd_public_ips = ips, hd_pubip_gateway = gw, hd_public_bridge = br,
        hd_public_host_cidr = cidr\<rparr>))))))))))))))))))))))))))))"

text \<open>The module: \<open>NYC_CLUSTER\<close> names the file; the list \<open>nyc\<close> is what pyinfra reads.\<close>

definition inv_hosts :: "path \<Rightarrow> json \<Rightarrow> ('s, (json \<times> host_data) list) prog" where
  "inv_hosts p data =
     bnd (getd ''cluster'' (JObj []) data) (\<lambda>cluster.
     bnd (item ''nodes'' data) (\<lambda>ns.
     bnd (elems ns) (\<lambda>nodes.
     bnd (next_prog is_boot nodes) (\<lambda>boot.
     map_prog (host_entry cluster boot (butlast p @ [''.nyc-deploy''])) nodes))))"

definition inventory :: "(json \<times> host_data) list op_prog" where
  "inventory =
     bnd (gets (\<lambda>w. case ow_env w ''NYC_CLUSTER'' of None \<Rightarrow> ''cluster.toml'' | Some s \<Rightarrow> s)) (\<lambda>s.
     bnd (gets (\<lambda>w. abs_path w s)) (\<lambda>p.
     bnd (read_toml s) (\<lambda>data. inv_hosts p data)))"

section \<open>Well-formed clusters\<close>

text \<open>A cluster description with the keys the scripts index: dictionaries, every node named and
  with an underlay address, the repository given.\<close>

definition node_ok :: "json \<Rightarrow> bool" where
  "node_ok n \<longleftrightarrow> has ''name'' n \<and> has ''host'' n"

definition boot_flag :: "json \<Rightarrow> bool" where
  "boot_flag n \<longleftrightarrow> truthy (field ''bootstrap'' n)"

definition target_of :: "json \<Rightarrow> json" where
  "target_of n = (if truthy (field ''public_host'' n) then field ''public_host'' n
     else if truthy (field ''domain'' n) then field ''domain'' n else field ''host'' n)"

lemma node_ok_obj: "node_ok n \<Longrightarrow> is_obj n"
  by (auto simp: node_ok_def dest: has_is_obj)

lemma is_boot_run [prog_simps]: "is_obj n \<Longrightarrow> is_boot n s = (Inr (boot_flag n), s)"
  by (simp add: is_boot_def boot_flag_def bnd_run getd_field)

lemma reach_host_run [prog_simps]: "node_ok n \<Longrightarrow> reach_host n s = (Inr (target_of n), s)"
  by (simp add: reach_host_def py_or_def bnd_run getd_field node_ok_obj item_field node_ok_def target_of_def
      has_is_obj)

lemma boot_next:
  assumes "\<forall>n \<in> set nodes. node_ok n"
  shows "next_prog is_boot nodes s = (case find boot_flag nodes of None \<Rightarrow> Inl StopIteration | Some n \<Rightarrow> Inr n, s)"
  by (rule next_prog_run) (use assms in \<open>simp add: is_boot_run node_ok_obj\<close>)

definition cluster_ok :: "json \<Rightarrow> bool" where
  "cluster_ok c \<longleftrightarrow> has ''repo_url'' c"

definition raft_of :: "json \<Rightarrow> json" where
  "raft_of c = field_or ''rqlite_raft_port'' (JInt 4002) c"

lemma host_entry_run:
  assumes "node_ok node" "node_ok boot" "cluster_ok cluster"
  shows "\<exists>h. host_entry cluster boot kd node s = (Inr (field ''name'' node, h), s) \<and>
    hd_ssh_hostname h = target_of node \<and> hd_ssh_user h = field_or ''ssh_user'' (JStr ''ubuntu'') cluster \<and>
    hd_node_host h = field ''host'' node \<and> hd_role h = (if boot_flag node then ''bootstrap'' else ''join'') \<and>
    hd_join_target h = show_val (field ''host'' boot) @ '':'' @ show_val (raft_of cluster) \<and>
    hd_vm_pub h = path_str (kd @ [''id_ed25519.pub'']) \<and> hd_public_ips h = field_or ''public_ips'' (JList []) node \<and>
    hd_lvm_vg h = field_or ''lvm_vg'' (JStr ''nyc'') cluster \<and>
    hd_lvm_device h = field_or ''lvm_device'' (field_or ''lvm_device'' (JStr []) cluster) node"
proof -
  have "has ''name'' node" "has ''host'' node" "has ''host'' boot" "has ''repo_url'' cluster"
    "is_obj node" "is_obj cluster"
    using assms by (auto simp: node_ok_def cluster_ok_def dest: has_is_obj)
  then show ?thesis
    by (simp add: host_entry_def bnd_run getd_field item_field is_boot_run reach_host_run assms(1) raft_of_def)
qed

lemma keeps_is_boot [keeps_rules]: "keeps f (is_boot n)"
  and keeps_reach_host [keeps_rules]: "keeps f (reach_host n)"
  by (auto simp: is_boot_def reach_host_def intro!: keeps_rules)

lemma keeps_host_entry [keeps_rules]: "keeps f (host_entry c b k n)"
  unfolding host_entry_def by (intro keeps_rules)

end
