(* ===== verification/Deploy.thy ===== *)
theory Deploy
  imports Inventory VmProc
begin

text \<open>
  \<open>scripts/deploy.py\<close>: the orchestrator. It validates the inventory, drives pyinfra, talks to the
  nodes' HTTP API with curl over ssh, waits for health, runs the smoke test, and audits the overlay.
  Argument parsing is argparse's: a run starts from its result.
\<close>

section \<open>Constants\<close>

definition op_ssh :: "string list" where
  "op_ssh = [''ssh'', ''-A'', ''-o'', ''StrictHostKeyChecking=accept-new'',
     ''-o'', ''BatchMode=yes'', ''-o'', ''ConnectTimeout=10'']"

definition op_loopback :: "json list" where
  "op_loopback = [JNull, JStr [], JStr ''127.0.0.1'', JStr ''localhost'']"

definition overlay_script :: string where
  "overlay_script = concat (map (\<lambda>l. sh l @ [newline]) [
     [],
     ''BR=`$1`; VX=`$2`'',
     ''ex=no; ip link show `$VX` >/dev/null 2>&1 && ex=yes'',
     ''vni=$(ip -d link show `$VX` 2>/dev/null | grep -o 'vxlan id [0-9]*' | awk '{print $3}')'',
     ''local=$(ip -d link show `$VX` 2>/dev/null | grep -o 'local [0-9.]*' | awk '{print $2}')'',
     ''master=$(ip link show `$VX` 2>/dev/null | grep -o 'master [^ ]*' | awk '{print $2}')'',
     ''fdb=$(bridge fdb show dev `$VX` 2>/dev/null | awk '/00:00:00:00:00:00/{for(i=1;i<=NF;i++) if($i==`dst`) print $(i+1)}' | sort -u | paste -sd, -)'',
     ''braddr=$(ip -o -4 addr show `$BR` 2>/dev/null | awk '{print $4}')'',
     ''brmac=$(cat /sys/class/net/`$BR`/address 2>/dev/null)'',
     ''ipfwd=$(cat /proc/sys/net/ipv4/ip_forward 2>/dev/null)'',
     ''printf 'ex=%s!nvni=%s!nlocal=%s!nmaster=%s!nfdb=%s!nbraddr=%s!nbrmac=%s!nipfwd=%s!n' !'',
     ''  `$ex` `$vni` `$local` `$master` `$fdb` `$braddr` `$brmac` `$ipfwd`''])"

section \<open>Overlay names\<close>

definition dep_vni_for :: "(string \<Rightarrow> nat list) \<Rightarrow> string \<Rightarrow> int" where
  "dep_vni_for sha256 vpc_id = int_from_bytes (take 4 (sha256 vpc_id)) mod (2 ^ 24 - 1) + 1"

definition dep_anycast_mac :: "(string \<Rightarrow> nat list) \<Rightarrow> string \<Rightarrow> string" where
  "dep_anycast_mac sha256 vpc_id =
     (let b = sha256 vpc_id in ''02:'' @ join '':'' (map hex2 (take 5 b)))"

definition overlay_names :: "string \<Rightarrow> string \<Rightarrow> string \<times> string" where
  "overlay_names node_id vpc_id =
     (''br-'' @ take 4 node_id @ ''-'' @ take 4 vpc_id, ''vx-'' @ take 4 node_id @ ''-'' @ take 4 vpc_id)"

section \<open>Inventory\<close>

definition dep_load :: "string \<Rightarrow> (json \<times> json list) op_prog" where
  "dep_load p =
     bnd (read_toml p) (\<lambda>data.
     bnd (opt ''nodes'' data) (\<lambda>ns.
     if \<not> truthy ns then raise (SystemExit ''inventory has no [[nodes]]'')
     else bnd (getd ''cluster'' (JObj []) data) (\<lambda>c. bnd (elems ns) (\<lambda>nodes. ret (c, nodes)))))"

definition ip_address :: "string \<Rightarrow> ('s, nat) prog" where
  "ip_address s = (case ip_of_string s of
     None \<Rightarrow> raise (ValueError (s @ '' does not appear to be an IPv4 or IPv6 address''))
   | Some a \<Rightarrow> ret a)"

text \<open>The underlay addresses inside the VPC range, and the range; \<open>preflight.py\<close> computes the same.\<close>

definition cidr_clashes :: "json \<Rightarrow> json list \<Rightarrow> ('s, string \<times> json list) prog" where
  "cidr_clashes cluster nodes =
     bnd (getd ''vpc_cidr'' (JStr ''172.16.0.0/16'') cluster) (\<lambda>cidr.
     bnd (of_sum (ip_network (show_val cidr))) (\<lambda>net.
     bnd (filter_prog (\<lambda>n. bnd (item ''host'' n) (\<lambda>h.
            bnd (ip_address (show_val h)) (\<lambda>a. ret (in_net a net)))) nodes) (\<lambda>cs.
     bnd (map_prog (item ''host'') cs) (\<lambda>clash. ret (show_val cidr, clash)))))"

definition validate :: "json \<Rightarrow> json list \<Rightarrow> ('s, unit) prog" where
  "validate cluster nodes =
     bnd (filter_prog is_boot nodes) (\<lambda>boots.
     if length boots \<noteq> 1
     then raise (SystemExit (''exactly one node must have bootstrap=true (found '' @ dec (length boots) @ '')''))
     else bnd (cidr_clashes cluster nodes) (\<lambda>(cidr, clash).
       if clash \<noteq> []
       then raise (SystemExit (''vpc_cidr '' @ cidr @ '' overlaps node underlay IPs '' @ repr (JList clash)))
       else ret ()))"

definition bootstrap_of :: "json list \<Rightarrow> ('s, json) prog" where
  "bootstrap_of nodes = next_prog is_boot nodes"

definition ssh_target :: "json \<Rightarrow> json \<Rightarrow> ('s, string) prog" where
  "ssh_target cluster node =
     bnd (reach_host node) (\<lambda>host.
     bnd (getd ''ssh_user'' (JStr ''ubuntu'') cluster) (\<lambda>u. ret (show_val u @ ''@'' @ show_val host)))"

definition keydir :: "op_world \<Rightarrow> string \<Rightarrow> path" where
  "keydir w cfg = butlast (abs_path w cfg) @ [''.nyc-deploy'']"

definition ensure_keypair :: "string \<Rightarrow> unit op_prog" where
  "ensure_keypair cfg =
     bnd (gets (\<lambda>w. keydir w cfg)) (\<lambda>d.
     andThen (op_mkdir d)
     (bnd (gets (\<lambda>w. map_of (ow_fs w) (d @ [''id_ed25519'']) \<noteq> None)) (\<lambda>e.
     if e then ret ()
     else bnd (subprocess (call_of [''ssh-keygen'', ''-t'', ''ed25519'', ''-N'', [], ''-f'',
                 path_str (d @ [''id_ed25519'']), ''-q''])) (\<lambda>(rc, _, _).
       if rc \<noteq> 0 then raise (SubprocessError ''ssh-keygen'') else ret ()))))"

section \<open>pyinfra and curl\<close>

definition pyinfra :: "string \<Rightarrow> string \<Rightarrow> json list \<Rightarrow> bool \<Rightarrow> unit op_prog" where
  "pyinfra script cfg limit purge =
     bnd (gets (\<lambda>w. path_str (abs_path w cfg))) (\<lambda>p.
     bnd (gets ow_here) (\<lambda>here.
     let names = join '','' (map show_val limit);
         env = (''NYC_CLUSTER'', p) # (if purge then [(''NYC_PURGE'', ''1'')] else []);
         cmd = [''pyinfra'', ''inventory.py'', script] @ (if limit = [] then [] else [''--limit'', names])
     in andThen (say (''--> pyinfra '' @ script @ '' ('' @ (if limit = [] then ''all'' else names) @ '')''))
       (bnd (subprocess ((call_of cmd)\<lparr>oc_env := env, oc_cwd := Some here\<rparr>)) (\<lambda>(rc, _, _).
        if rc \<noteq> 0 then raise (RuntimeError (''pyinfra '' @ script @ '' failed'')) else ret ()))))"

definition remote_curl :: "json \<Rightarrow> json \<Rightarrow> string \<Rightarrow> string \<Rightarrow> json option \<Rightarrow> json op_prog" where
  "remote_curl cluster node meth p body =
     bnd (item ''host'' node) (\<lambda>host.
     bnd (getd ''http_port'' (JInt 8000) cluster) (\<lambda>port.
     let url = ''http://'' @ show_val host @ '':'' @ show_val port @ p;
         inner = [''curl'', ''-fsS'', ''-X'', meth, url] @
           (case body of None \<Rightarrow> [] | Some b \<Rightarrow> [''-H'', ''Content-Type: application/json'', ''-d'', dumps_flat b])
     in bnd (ssh_target cluster node) (\<lambda>target.
        bnd (subprocess ((call_of (op_ssh @ [target, shell_join inner]))\<lparr>oc_timeout := Some 60\<rparr>)) (\<lambda>(_, out0, _).
        let out = strip out0
        in if out = [] then ret (JObj []) else bnd (gets ow_json) (\<lambda>loads. of_sum (loads out))))))"

section \<open>Waiting for health\<close>

text \<open>One round of the loop: \<open>None\<close> when the node answered, else the error remembered.\<close>

definition health_try :: "json \<Rightarrow> json \<Rightarrow> string option op_prog" where
  "health_try cluster node =
     guarded
       (bnd (remote_curl cluster node ''GET'' ''/health'' None) (\<lambda>h.
        if truthy h
        then bnd (item ''name'' node) (\<lambda>n. andThen (say (''    '' @ show_val n @ '' healthy'')) (ret None))
        else ret (Some ''empty response'')))
       (\<lambda>e. ret (Some (exn_str e)))"

lemma keeps_remote_curl [keeps_rules]:
  assumes "\<And>w l. f (w\<lparr>ow_calls := l\<rparr>) = f w" and "\<And>w s. f (w\<lparr>ow_fs := s\<rparr>) = f w"
  shows "keeps f (remote_curl c n meth p b)"
  by (auto simp: remote_curl_def ssh_target_def Let_def intro!: keeps_rules assms)

lemma health_try_now: "health_try c n w = (r, v) \<Longrightarrow> ow_now v = ow_now w"
proof (erule keepsD [rotated])
  show "keeps ow_now (health_try c n)"
    unfolding health_try_def by (intro keeps_rules) simp_all
qed

lemma health_round:
  assumes "(Inr t, w1) = monotonic w" "t < d" "(Inr (Some err), w2) = health_try c n w1"
  shows "ow_now w < d \<and> ow_now w < ow_now (pass_time 2000000 w2)"
  using assms(1,2) pass_time_now [of w 0] pass_time_now [of w2 2000000] health_try_now [OF assms(3) [symmetric]]
  by (auto simp: monotonic_run)

function health_loop :: "json \<Rightarrow> json \<Rightarrow> int \<Rightarrow> string \<Rightarrow> unit op_prog" where
  "health_loop cluster node deadline last_err w =
     (case monotonic w of
        (Inl e, w1) \<Rightarrow> (Inl e, w1)
      | (Inr t, w1) \<Rightarrow>
          if t < deadline
          then (case health_try cluster node w1 of
                  (Inl e, w2) \<Rightarrow> (Inl e, w2)
                | (Inr None, w2) \<Rightarrow> (Inr (), w2)
                | (Inr (Some err), w2) \<Rightarrow> health_loop cluster node deadline err (pass_time 2000000 w2))
          else bnd (item ''name'' node) (\<lambda>n.
                 raise (RuntimeError (show_val n @ '' never became healthy (last error: '' @ last_err @ '')''))) w1)"
  by pat_completeness auto

termination
  by (relation "measure (\<lambda>(c, n, d, e, w). nat (d - ow_now w))") (use health_round in auto)

declare health_loop.simps [simp del]

definition wait_health :: "json \<Rightarrow> json \<Rightarrow> unit op_prog" where
  "wait_health cluster node =
     bnd monotonic (\<lambda>t. health_loop cluster node (t + 120000000) [])"

section \<open>Default VPC and smoke test\<close>

definition op_default_vpc :: "json \<Rightarrow> json \<Rightarrow> unit op_prog" where
  "op_default_vpc cluster boot =
     bnd (getd ''vpc_cidr'' (JStr ''172.16.0.0/16'') cluster) (\<lambda>cidr.
     bnd (remote_curl cluster boot ''GET'' ''/vpcs'' None) (\<lambda>r.
     bnd (elems r) (\<lambda>vs.
     bnd (any_prog (\<lambda>v. bnd (opt ''name'' v) (\<lambda>n. ret (n = JStr ''default''))) vs) (\<lambda>found.
     if found then say ''    default VPC already exists''
     else bnd (remote_curl cluster boot ''POST'' ''/vpcs''
                 (Some (JObj [(''name'', JStr ''default''), (''cidr'', cidr)]))) (\<lambda>_.
       say (''    created default VPC '' @ show_val cidr))))))"

definition smoke :: "json \<Rightarrow> json \<Rightarrow> string \<Rightarrow> unit op_prog" where
  "smoke cluster boot cfg =
     bnd (gets (\<lambda>w. keydir w cfg)) (\<lambda>d.
     bnd (op_read (d @ [''id_ed25519.pub''])) (\<lambda>pub.
     bnd (remote_curl cluster boot ''POST'' ''/vms/spawn''
            (Some (JObj [(''vm_name'', JStr ''deploy-smoke''), (''ssh_key'', JStr (strip pub))]))) (\<lambda>vm.
     bnd (opt ''status'' vm) (\<lambda>st.
     bnd (opt ''id'' vm) (\<lambda>i.
     andThen (say (''    smoke spawn: '' @ show_val i @ '' status='' @ show_val st))
     (bnd (item ''id'' vm) (\<lambda>vid.
     bnd (remote_curl cluster boot ''DELETE'' (''/vms/'' @ show_val vid) None) (\<lambda>_.
     bnd (opt ''data_volume_id'' vm) (\<lambda>dv.
     andThen
       (if truthy dv
        then andThen (remote_curl cluster boot ''DELETE'' (''/volumes/'' @ show_val dv) None) (ret ())
        else ret ())
       (if st = JStr ''running'' then ret ()
        else raise (RuntimeError ''smoke test VM did not reach running'')))))))))))"

section \<open>up, down, status, ssh\<close>

definition cmd_up :: "json \<Rightarrow> json list \<Rightarrow> string \<Rightarrow> int op_prog" where
  "cmd_up cluster nodes cfg =
     andThen (validate cluster nodes)
     (andThen (ensure_keypair cfg)
     (bnd (bootstrap_of nodes) (\<lambda>boot.
      bnd (item ''name'' boot) (\<lambda>bname.
      andThen (pyinfra ''provision.py'' cfg [bname] False)
     (andThen (wait_health cluster boot)
     (bnd (filter_prog (\<lambda>n. bnd (is_boot n) (\<lambda>b. ret (\<not> b))) nodes) (\<lambda>joiners.
      andThen
        (if joiners = [] then ret ()
         else bnd (map_prog (item ''name'') joiners) (\<lambda>names.
              andThen (pyinfra ''provision.py'' cfg names False)
                      (for_each joiners (wait_health cluster))))
     (andThen (op_default_vpc cluster boot)
     (andThen (smoke cluster boot cfg)
     (andThen (say (newline # ''UP: '' @ dec (length nodes) @ '' node(s) provisioned.''))
      (ret 0)))))))))))"

definition delete_all_vms :: "json \<Rightarrow> json list \<Rightarrow> unit op_prog" where
  "delete_all_vms cluster nodes =
     bnd (bootstrap_of nodes) (\<lambda>boot.
     bnd (guarded (bnd (remote_curl cluster boot ''GET'' ''/vms'' None) (\<lambda>v. ret (Some v)))
            (\<lambda>_. andThen (say (''    cluster unreachable '' @ em_dash @ '' skipping API VM cleanup'')) (ret None))) (\<lambda>r.
     case r of
       None \<Rightarrow> ret ()
     | Some vs \<Rightarrow> bnd (elems vs) (\<lambda>vms.
         for_each vms (\<lambda>vm. guarded
           (bnd (item ''id'' vm) (\<lambda>i.
            andThen (remote_curl cluster boot ''DELETE'' (''/vms/'' @ show_val i) None) (ret ())))
           (\<lambda>_. ret ())))))"

definition cmd_down :: "json \<Rightarrow> json list \<Rightarrow> string \<Rightarrow> bool \<Rightarrow> int op_prog" where
  "cmd_down cluster nodes cfg purge =
     andThen (delete_all_vms cluster nodes)
     (andThen (pyinfra ''teardown.py'' cfg [] purge)
     (andThen (say (newline # ''DOWN: '' @ dec (length nodes) @ '' node(s) torn down''
               @ (if purge then '' (purged)'' else []) @ ''.''))
      (ret 0)))"

definition node_label :: "json \<Rightarrow> (string \<Rightarrow> string \<Rightarrow> 'a op_prog) \<Rightarrow> 'a op_prog" where
  "node_label n f = bnd (item ''name'' n) (\<lambda>a. bnd (item ''host'' n) (\<lambda>h. f (show_val a) (show_val h)))"

definition status_line :: "json \<Rightarrow> json \<Rightarrow> unit op_prog" where
  "status_line cluster n =
     guarded
       (bnd (remote_curl cluster n ''GET'' ''/health'' None) (\<lambda>h.
          node_label n (\<lambda>a u. say (''  [up]   '' @ a @ '' ('' @ u @ '') '' @ show_val h))))
       (\<lambda>e. node_label n (\<lambda>a u. say (''  [down] '' @ a @ '' ('' @ u @ '') '' @ exn_str e)))"

definition cmd_status :: "json \<Rightarrow> json list \<Rightarrow> int op_prog" where
  "cmd_status cluster nodes =
     bnd (bootstrap_of nodes) (\<lambda>boot.
     andThen
       (for_each nodes (status_line cluster))
     (andThen
       (guarded
          (bnd (remote_curl cluster boot ''GET'' ''/nodes'' None) (\<lambda>r. bnd (length_of r) (\<lambda>k.
             say (newline # ''cluster sees '' @ dec k @ '' / '' @ dec (length nodes) @ '' nodes''))))
          (\<lambda>e. say (newline # ''could not read /nodes from bootstrap: '' @ exn_str e)))
       (ret 0)))"

definition cmd_ssh :: "json \<Rightarrow> json list \<Rightarrow> string \<Rightarrow> string \<Rightarrow> int op_prog" where
  "cmd_ssh cluster nodes cfg target =
     bnd (bootstrap_of nodes) (\<lambda>boot.
     bnd (remote_curl cluster boot ''GET'' (''/vms/'' @ target) None) (\<lambda>vm.
     bnd (remote_curl cluster boot ''GET'' ''/nodes'' None) (\<lambda>r.
     bnd (elems r) (\<lambda>rows.
     bnd (map_prog (\<lambda>n. bnd (item ''node_id'' n) (\<lambda>i. ret (i, n))) rows) (\<lambda>by_id.
     bnd (item ''node_id'' vm) (\<lambda>owner.
     case map_of (rev by_id) owner of
       Some host_node \<Rightarrow>
         if \<not> truthy host_node then raise (SystemExit (''could not resolve hosting node for vm '' @ target))
         else bnd (ssh_target cluster host_node) (\<lambda>jump.
              bnd (gets (\<lambda>w. keydir w cfg)) (\<lambda>d.
              bnd (item ''ip'' vm) (\<lambda>ip.
              let argv = [''ssh'', ''-J'', jump, ''-i'', path_str (d @ [''id_ed25519'']),
                          ''-o'', ''StrictHostKeyChecking=accept-new'', ''root@'' @ show_val ip]
              in andThen (say (''--> '' @ join '' '' argv))
                   (bnd (subprocess (call_of argv)) (\<lambda>(rc, _, _). ret rc)))))
     | None \<Rightarrow> raise (SystemExit (''could not resolve hosting node for vm '' @ target))))))))"

section \<open>The overlay audit\<close>

type_synonym probe_dict = "(string \<times> string) list"

type_synonym audit_row = "string \<times> bool \<times> string"

definition split_eq :: "string \<Rightarrow> string \<times> string" where
  "split_eq line = (takeWhile (\<lambda>c. c \<noteq> CHR ''='') line, drop 1 (dropWhile (\<lambda>c. c \<noteq> CHR ''='') line))"

text \<open>\<open>dict(line.split("=", 1) for ...)\<close>: a repeated key keeps its last value.\<close>

definition probe_dict_of :: "string \<Rightarrow> probe_dict" where
  "probe_dict_of out = rev (map split_eq (filter (\<lambda>l. CHR ''='' \<in> set l) (splitlines out)))"

definition overlay_probe :: "json \<Rightarrow> json \<Rightarrow> string \<Rightarrow> string \<Rightarrow> probe_dict op_prog" where
  "overlay_probe cluster reg br vx =
     bnd (ssh_target cluster reg) (\<lambda>target.
     bnd (subprocess ((call_of (op_ssh @ [target, ''bash'', ''-s'', ''--'', br, vx]))
            \<lparr>oc_input := Some overlay_script, oc_timeout := Some 30\<rparr>)) (\<lambda>(_, out, _).
     ret (probe_dict_of out)))"

definition opt_text :: "string option \<Rightarrow> string" where
  "opt_text x = (case x of None \<Rightarrow> ''None'' | Some s \<Rightarrow> s)"

definition fdb_have :: "probe_dict \<Rightarrow> string list" where
  "fdb_have d = sort (filter (\<lambda>p. p \<noteq> [])
     (split_on (CHR '','') (case map_of d ''fdb'' of None \<Rightarrow> [] | Some s \<Rightarrow> s)))"

definition eval_overlay ::
  "probe_dict \<Rightarrow> json \<Rightarrow> int \<Rightarrow> string \<Rightarrow> string \<Rightarrow> string \<Rightarrow> string list \<Rightarrow> bool \<Rightarrow> audit_row list" where
  "eval_overlay d host vni mac br vx peers expect =
     (let g = map_of d; want = (\<lambda>k s. opt_text (g k) @ '' (want '' @ s @ '')'');
          ex = (g ''ex'' = Some ''yes'') in
      if \<not> expect
      then [(''overlay'', \<not> ex, if ex then ''STALE: '' @ vx @ '' present but no VM in VPC''
                              else ''no VM in this VPC on node (overlay not expected)'')]
      else [(''overlay dev'', ex, if ex then vx else vx @ '' MISSING''),
            (''vni'', g ''vni'' = Some (str_int vni), want ''vni'' (str_int vni)),
            (''local ip'', map_option JStr (g ''local'') = Some host \<or> g ''local'' = None \<and> host = JNull,
               want ''local'' (show_val host)),
            (''bridge master'', g ''master'' = Some br, want ''master'' br),
            (''fdb peers'', fdb_have d = peers,
               ''have '' @ repr_strs (fdb_have d) @ '' want '' @ repr_strs peers),
            (''bridge mac'', g ''brmac'' = Some mac, want ''brmac'' mac),
            (''bridge gw ip'', truthy_str (g ''braddr'') \<noteq> None,
               case truthy_str (g ''braddr'') of None \<Rightarrow> ''MISSING'' | Some s \<Rightarrow> s),
            (''ip_forward'', g ''ipfwd'' = Some ''1'',
               case truthy_str (g ''ipfwd'') of None \<Rightarrow> ''?'' | Some s \<Rightarrow> s)])"

definition text_val :: "json \<Rightarrow> ('s, string) prog" where
  "text_val v = (case v of JStr s \<Rightarrow> ret s | _ \<Rightarrow> raise (TypeError ''not a string''))"

definition render_overlay :: "json \<Rightarrow> audit_row list \<Rightarrow> bool op_prog" where
  "render_overlay reg rows =
     bnd (py_or (opt ''domain'' reg) (py_or (opt ''public_host'' reg) (item ''host'' reg))) (\<lambda>tgt.
     bnd (item ''host'' reg) (\<lambda>host.
     bnd (item ''node_id'' reg) (\<lambda>nid.
     bnd (text_val nid) (\<lambda>n.
     andThen (say (newline # ''=== '' @ show_val tgt @ '' ('' @ show_val host @ '') node='' @ take 8 n @ '' ===''))
     (andThen (for_each rows (\<lambda>(label, good, detail).
        say (''  ['' @ (if good then ''OK '' else ''BAD'') @ ''] '' @ pad_right 14 label @ '' '' @ detail)))
      (ret (list_all (\<lambda>(_, good, _). good) rows)))))))"

definition audit_node ::
  "json \<Rightarrow> json \<Rightarrow> string \<Rightarrow> string \<Rightarrow> int \<Rightarrow> string \<Rightarrow> string list \<Rightarrow> bool \<Rightarrow> bool op_prog" where
  "audit_node cluster reg br vx vni mac peers expect =
     bnd (guarded (bnd (overlay_probe cluster reg br vx) (\<lambda>d. ret (Some d)))
            (\<lambda>e. bnd (item ''host'' reg) (\<lambda>h. andThen
               (say (newline # ''=== '' @ show_val h @ '' === '' @ newline # ''  [ERR] probe failed: '' @ exn_str e))
               (ret None)))) (\<lambda>r.
     case r of
       None \<Rightarrow> ret False
     | Some d \<Rightarrow> bnd (item ''host'' reg) (\<lambda>h.
         render_overlay reg (eval_overlay d h vni mac br vx peers expect)))"

text \<open>\<open>sorted(set(hosts) - {r["host"]})\<close>\<close>

definition audit_peers :: "string list \<Rightarrow> json \<Rightarrow> string list" where
  "audit_peers hosts own = sort (remdups (filter (\<lambda>x. JStr x \<noteq> own) hosts))"

text \<open>\<open>[r["host"] for r in registry if r["host"] not in LOOPBACK]\<close>\<close>

definition audit_hosts :: "json list \<Rightarrow> ('s, string list) prog" where
  "audit_hosts registry =
     bnd (map_prog (item ''host'') registry) (\<lambda>all_hosts.
     map_prog text_val (filter (\<lambda>h. h \<notin> set op_loopback) all_hosts))"

definition audit_rows ::
  "json \<Rightarrow> string \<Rightarrow> int \<Rightarrow> string \<Rightarrow> string list \<Rightarrow> json list \<Rightarrow> json list \<Rightarrow> bool list op_prog" where
  "audit_rows cluster target vni mac hosts with_vm registry =
     map_prog (\<lambda>r.
       bnd (item ''node_id'' r) (\<lambda>nid.
       bnd (text_val nid) (\<lambda>n.
       bnd (item ''host'' r) (\<lambda>h.
       let (br, vx) = overlay_names n target
       in audit_node cluster r br vx vni mac (audit_peers hosts h) (nid \<in> set with_vm))))) registry"

definition cmd_overlay_check :: "json \<Rightarrow> json list \<Rightarrow> string \<Rightarrow> int op_prog" where
  "cmd_overlay_check cluster nodes target =
     bnd (bootstrap_of nodes) (\<lambda>boot.
     bnd (bnd (remote_curl cluster boot ''GET'' ''/nodes'' None) elems) (\<lambda>registry.
     bnd (bnd (remote_curl cluster boot ''GET'' ''/vms'' None) elems) (\<lambda>vms.
     bnd (filter_prog (\<lambda>v. bnd (opt ''vpc_id'' v) (\<lambda>x. ret (x = JStr target))) vms) (\<lambda>mine.
     bnd (map_prog (item ''node_id'') mine) (\<lambda>with_vm.
     bnd (audit_hosts registry) (\<lambda>hosts.
     bnd (gets ow_sha) (\<lambda>sha.
     let vni = dep_vni_for sha target; mac = dep_anycast_mac sha target in
     bnd (audit_rows cluster target vni mac hosts with_vm registry) (\<lambda>oks.
     let all_ok = list_all (\<lambda>b. b) oks in
     andThen (say (newline # ''vpc '' @ target @ '': vni='' @ str_int vni @ '' anycast_mac='' @ mac
               @ '' (peers expected per node = the other underlay IPs)''))
     (andThen (say (if all_ok then ''OVERLAY OK''
                    else ''OVERLAY ISSUES '' @ em_dash @ '' investigate [BAD] rows (see the diagnostic ladder)''))
      (ret (if all_ok then 0 else 1)))))))))))"

section \<open>Entry point\<close>

record deploy_args =
  da_action :: string
  da_inventory :: string
  da_target :: "string option"
  da_purge :: bool

definition deploy_main :: "deploy_args \<Rightarrow> int op_prog" where
  "deploy_main a =
     bnd (dep_load (da_inventory a)) (\<lambda>(cluster, nodes).
     if da_action a = ''up'' then cmd_up cluster nodes (da_inventory a)
     else if da_action a = ''down'' then cmd_down cluster nodes (da_inventory a) (da_purge a)
     else if da_action a = ''ssh'' then
       (case truthy_str (da_target a) of
          None \<Rightarrow> raise (SystemExit ''ssh requires a vm_id'')
        | Some t \<Rightarrow> cmd_ssh cluster nodes (da_inventory a) t)
     else if da_action a = ''overlay-check'' then
       (case truthy_str (da_target a) of
          None \<Rightarrow> raise (SystemExit ''overlay-check requires a vpc_id'')
        | Some t \<Rightarrow> cmd_overlay_check cluster nodes t)
     else cmd_status cluster nodes)"

end
