(* ===== verification/Preflight.thy ===== *)
theory Preflight
  imports Deploy
begin

text \<open>
  \<open>scripts/preflight.py\<close>: a read-only probe of every node, its rows parsed, sorted and printed, and
  the check of the VPC range against the underlay. The probes of a thread pool run here one after
  another: each is a read-only command on its own node, and the results keep the order of the nodes.
\<close>

section \<open>The probe script\<close>

definition remote_check :: string where
  "remote_check = concat (map (\<lambda>l. sh l @ [newline]) [
     [],
     ''REPO_URL=`$1`; HTTP=`$2`; RQHTTP=`$3`; RQRAFT=`$4`; DOMAIN=`$5`; PUBLIC_HOST=`$6`; shift 6; PEERS=(`$@`)'',
     ''emit(){ printf '%s|%s|%s!n' `$1` `$2` `$3`; }'',
     [],
     ''if [ -r /etc/os-release ]; then . /etc/os-release'',
     ''  major=${VERSION_ID%%.*}'',
     ''  if [ `$ID` = ubuntu ] && [ `${major:-0}` -ge 24 ] 2>/dev/null; then emit os PASS `$PRETTY_NAME`'',
     ''  elif [ `$ID` = ubuntu ]; then emit os WARN `ubuntu $VERSION_ID (want >= 24.04)`'',
     ''  else emit os FAIL `${PRETTY_NAME:-unknown} (expected Ubuntu >= 24.04)`; fi'',
     ''else emit os FAIL `no /etc/os-release`; fi'',
     [],
     ''a=$(uname -m); [ `$a` = x86_64 ] && emit arch PASS `$a` || emit arch FAIL `$a (need x86_64)`'',
     [],
     ''if [ -e /dev/kvm ]; then'',
     ''  { [ -r /dev/kvm ] && [ -w /dev/kvm ]; } && emit kvm PASS `/dev/kvm rw` || emit kvm WARN `/dev/kvm not rw for $(id -un) (ok: fc runs via sudo; deploy adds kvm group)`'',
     ''else emit kvm FAIL `no /dev/kvm (need KVM)`; fi'',
     ''grep -Eq '(vmx|svm)' /proc/cpuinfo && emit virt PASS `hw virt flag` || emit virt WARN `no vmx/svm in cpuinfo`'',
     [],
     ''sudo -n true 2>/dev/null && emit sudo PASS `passwordless sudo` || emit sudo FAIL `sudo -n failed`'',
     [],
     ''if timeout 6 curl -fsS -o /dev/null https://1.1.1.1 2>/dev/null; then emit internet PASS `https egress ok`'',
     ''elif getent hosts github.com >/dev/null 2>&1; then emit internet WARN `dns ok but https blocked`'',
     ''else emit internet FAIL `no internet egress (VMs+apt+git need it)`; fi'',
     ''getent hosts github.com >/dev/null 2>&1 && emit dns PASS `resolves names` || emit dns FAIL `no DNS resolution`'',
     [],
     ''if [ -n `$REPO_URL` ]; then'',
     ''  if GIT_SSH_COMMAND='ssh -o StrictHostKeyChecking=accept-new -o BatchMode=yes -o ConnectTimeout=8' !'',
     ''      timeout 25 git ls-remote `$REPO_URL` HEAD >/dev/null 2>&1; then emit git PASS `repo reachable via forwarded agent`'',
     ''  else emit git FAIL `git ls-remote failed (agent fwd / repo access)`; fi'',
     ''fi'',
     [],
     ''for p in `${PEERS[@]}`; do'',
     ''  if timeout 3 bash -c `exec 3<>/dev/tcp/$p/22` 2>/dev/null; then emit `peer:$p` PASS `tcp/22 reachable`'',
     ''  else emit `peer:$p` FAIL `unreachable on private net`; fi'',
     ''done'',
     [],
     ''listening=$(ss -ltnH 2>/dev/null | awk '{print $4}')'',
     ''for pp in `$HTTP` `$RQHTTP` `$RQRAFT`; do'',
     ''  echo `$listening` | grep -qE `[:.]$pp!$` && emit `port:$pp` WARN `already in use` || emit `port:$pp` PASS `free`'',
     ''done'',
     [],
     ''if [ -n `$DOMAIN` ]; then'',
     ''  ips=$(getent hosts `$DOMAIN` | awk '{print $1}')'',
     ''  if echo `$ips` | grep -qx `$PUBLIC_HOST`; then emit domain PASS `$DOMAIN -> $PUBLIC_HOST`'',
     ''  elif [ -n `$ips` ]; then emit domain WARN `$DOMAIN -> $ips (expected $PUBLIC_HOST; ACME may fail)`'',
     ''  else emit domain WARN `$DOMAIN does not resolve (Caddy ACME will fail)`; fi'',
     ''fi'',
     [],
     ''[ `$(timedatectl show -p NTPSynchronized --value 2>/dev/null)` = yes ] && emit clock PASS `ntp synced` || emit clock WARN `ntp not synced (raft prefers low skew)`'',
     [],
     ''miss=``'',
     ''for c in git curl mkfs.ext4 debugfs iptables caddy uv; do'',
     ''  command -v `$c` >/dev/null 2>&1 || miss=`$miss $c`'',
     ''done'',
     ''[ -n `$miss` ] && emit tools INFO `deploy will install:$miss` || emit tools PASS `all tools present`''])"

section \<open>Probing\<close>

definition severity :: "string \<Rightarrow> nat" where
  "severity s = (case map_of [(''FAIL'', 0), (''WARN'', 1), (''INFO'', 2), (''PASS'', 3)] s of None \<Rightarrow> 9 | Some n \<Rightarrow> n)"

definition pre_load :: "string \<Rightarrow> json op_prog" where
  "pre_load p =
     bnd (read_toml p) (\<lambda>data.
     bnd (opt ''nodes'' data) (\<lambda>ns.
     if \<not> truthy ns then raise (SystemExit ''inventory has no [[nodes]]'') else ret data))"

definition pre_ssh_target :: "json \<Rightarrow> ('s, json) prog" where
  "pre_ssh_target node = py_or (opt ''public_host'' node) (py_or (opt ''domain'' node) (item ''host'' node))"

definition pre_args :: "json \<Rightarrow> json \<Rightarrow> json list \<Rightarrow> ('s, string list) prog" where
  "pre_args cluster node nodes =
     bnd (filter_prog (\<lambda>n. bnd (item ''name'' n) (\<lambda>a. bnd (item ''name'' node) (\<lambda>b. ret (a \<noteq> b)))) nodes) (\<lambda>others.
     bnd (map_prog (item ''host'') others) (\<lambda>peers.
     bnd (getd ''repo_url'' (JStr []) cluster) (\<lambda>repo.
     bnd (getd ''http_port'' (JInt 8000) cluster) (\<lambda>hp.
     bnd (getd ''rqlite_http_port'' (JInt 4001) cluster) (\<lambda>rh.
     bnd (getd ''rqlite_raft_port'' (JInt 4002) cluster) (\<lambda>rr.
     bnd (getd ''domain'' (JStr []) node) (\<lambda>dm.
     bnd (getd ''public_host'' (JStr []) node) (\<lambda>ph.
     ret (map show_val ([repo, hp, rh, rr, dm, ph] @ peers))))))))))"

definition pre_probe :: "json \<Rightarrow> json \<Rightarrow> json list \<Rightarrow> bool \<Rightarrow> string op_prog" where
  "pre_probe cluster node nodes local =
     bnd (pre_args cluster node nodes) (\<lambda>args.
     bnd (if local then ret ([''bash'', ''-s'', ''--''] @ args)
          else bnd (getd ''ssh_user'' (JStr ''ubuntu'') cluster) (\<lambda>u. bnd (pre_ssh_target node) (\<lambda>t.
               ret ([''ssh'', ''-A'', ''-o'', ''StrictHostKeyChecking=accept-new'', ''-o'', ''BatchMode=yes'',
                     ''-o'', ''ConnectTimeout=8'', show_val u @ ''@'' @ show_val t,
                     ''bash'', ''-s'', ''--''] @ args)))) (\<lambda>cmd.
     guarded
       (bnd (subprocess ((call_of cmd)\<lparr>oc_input := Some remote_check, oc_timeout := Some 90\<rparr>)) (\<lambda>(rc, out, err).
        ret (out @ (if rc \<noteq> 0 \<and> out = [] then newline # ''_ssh|FAIL|'' @ strip err else []))))
       (\<lambda>e. case e of
          SubprocessError _ \<Rightarrow> ret ''_ssh|FAIL|probe timed out''
        | _ \<Rightarrow> ret (''_ssh|FAIL|'' @ exn_str e))))"

section \<open>Rows\<close>

type_synonym probe_row = "string \<times> string \<times> string"

text \<open>\<open>line.split("|", 2)\<close> of a line with two bars or more\<close>

definition row_of_line :: "string \<Rightarrow> probe_row" where
  "row_of_line line =
     (let bar = (\<lambda>c. c \<noteq> CHR ''|''); rest = drop 1 (dropWhile bar line)
      in (takeWhile bar line, takeWhile bar rest, drop 1 (dropWhile bar rest)))"

definition pre_parse :: "string \<Rightarrow> probe_row list" where
  "pre_parse out =
     map row_of_line (filter (\<lambda>l. 2 \<le> length (filter (\<lambda>c. c = CHR ''|'') l)) (splitlines out))"

definition pre_render :: "json \<Rightarrow> probe_row list \<Rightarrow> bool op_prog" where
  "pre_render node rows =
     bnd (item ''name'' node) (\<lambda>n.
     bnd (pre_ssh_target node) (\<lambda>t.
     andThen (say (newline # ''=== '' @ show_val n @ '' ('' @ show_val t @ '') ===''))
     (if rows = [] then andThen (say ''  [FAIL] no output from probe'') (ret False)
      else andThen (for_each (sort_key (\<lambda>(_, s, _). severity s) rows) (\<lambda>(name, status, detail).
             say (''  ['' @ pad_right 4 status @ ''] '' @ pad_right 14 name @ '' '' @ detail)))
           (ret (list_all (\<lambda>(_, s, _). s \<noteq> ''FAIL'') rows)))))"

definition check_cidr :: "json \<Rightarrow> json list \<Rightarrow> unit op_prog" where
  "check_cidr cluster nodes =
     bnd (cidr_clashes cluster nodes) (\<lambda>(cidr, clashes).
     if clashes \<noteq> []
     then say (''[FAIL] vpc_cidr '' @ cidr @ '' overlaps node underlay IPs '' @ repr (JList clashes)
               @ '' '' @ em_dash @ '' pick a non-overlapping range'')
     else say (''[ok] vpc_cidr '' @ cidr @ '' does not overlap any node underlay IP''))"

section \<open>Entry point\<close>

record pre_arguments =
  pa_inventory :: "string option"
  pa_local :: bool
  pa_print :: bool

definition pre_main :: "pre_arguments \<Rightarrow> int op_prog" where
  "pre_main a =
     (if pa_print a then andThen (say remote_check) (ret 0)
      else case truthy_str (pa_inventory a) of
        None \<Rightarrow> raise (SystemExit ''inventory file required (or use --print-script)'')
      | Some p \<Rightarrow>
          bnd (pre_load p) (\<lambda>data.
          bnd (getd ''cluster'' (JObj []) data) (\<lambda>cluster.
          bnd (bnd (item ''nodes'' data) elems) (\<lambda>nodes.
          andThen (check_cidr cluster nodes)
          (bnd (map_prog (\<lambda>n. bnd (pre_probe cluster n nodes (pa_local a)) (\<lambda>out. ret (n, pre_parse out))) nodes) (\<lambda>results.
           bnd (map_prog (\<lambda>(n, rows). pre_render n rows) results) (\<lambda>oks.
           let all_ok = list_all (\<lambda>b. b) oks in
           andThen (say (newline # (if all_ok then ''ALL NODES READY''
                      else ''PREFLIGHT FAILED '' @ em_dash @ '' fix FAILs above before deploy'')))
             (ret (if all_ok then 0 else 1)))))))))"

end
