(* ===== verification/Provision.thy ===== *)
theory Provision
  imports Inventory Config
begin

text \<open>
  \<open>scripts/provision.py\<close> and \<open>scripts/teardown.py\<close>: the operations pyinfra is given for one host,
  in order, as functions of the host's data and facts. pyinfra and the shell that run them are
  outside the program; \<open>changed\<close> says which templates pyinfra found changed.
\<close>

section \<open>Operations\<close>

text \<open>
  \<open>server.shell\<close>, \<open>apt.packages\<close> (update, sudo), \<open>files.put\<close>, \<open>server.sysctl\<close> (persist, file, sudo),
  \<open>files.template\<close> (mode, variables, sudo), \<open>systemd.service\<close> (running, enabled, daemon-reload,
  restarted, sudo), and \<open>files.file\<close> (sudo) and \<open>files.directory\<close> with \<open>present=False\<close>. The first string is
  the operation's name; a template's source is given relative to \<open>scripts\<close>.
\<close>

datatype operation =
    Shell string "string list"
  | Packages string "string list" bool bool
  | Put string string string "string option"
  | Sysctl string string int bool string bool
  | Template string string string "string option" "(string \<times> string) list" bool
  | Service string string bool bool bool bool bool
  | NoFile string string bool
  | NoDirectory string string

section \<open>Paths on the host\<close>

text \<open>\<open>s.replace("~", home)\<close>\<close>

definition expand_home :: "string \<Rightarrow> string \<Rightarrow> string" where
  "expand_home home s = concat (map (\<lambda>c. if c = CHR ''~'' then home else [c]) s)"

definition remote_dir :: "string \<Rightarrow> host_data \<Rightarrow> string" where
  "remote_dir h d = expand_home h (show_val (hd_remote_dir d))"

definition nyc_dir :: "string \<Rightarrow> host_data \<Rightarrow> string" where
  "nyc_dir h d = remote_dir h d @ ''/nyc''"

definition dadar_dir :: "string \<Rightarrow> host_data \<Rightarrow> string" where
  "dadar_dir h d = remote_dir h d @ ''/dadar''"

definition node_folder :: "string \<Rightarrow> host_data \<Rightarrow> string" where
  "node_folder h d = nyc_dir h d @ ''/node''"

definition config_file :: "string \<Rightarrow> host_data \<Rightarrow> string" where
  "config_file h d = node_folder h d @ ''/config.toml''"

definition state_dir :: "string \<Rightarrow> string" where
  "state_dir h = h @ ''/.nyc''"

definition uv_path :: "string option \<Rightarrow> string \<Rightarrow> string" where
  "uv_path which h = (case truthy_str which of None \<Rightarrow> h @ ''/.local/bin/uv'' | Some p \<Rightarrow> p)"

definition uv_expr :: string where
  "uv_expr = sh ''`$(command -v uv || echo `$HOME/.local/bin/uv`)`''"

definition templates :: "string \<Rightarrow> string" where
  "templates f = ''templates/'' @ f"

section \<open>Writing the node's configuration\<close>

definition bake_cmd :: "string \<Rightarrow> host_data \<Rightarrow> string" where
  "bake_cmd h d = sh ''pub=`$(cat '' @ nyc_dir h d @ sh ''/assets/id_ed25519.pub)`; cmds=`$(mktemp)`; ak=`$(mktemp)`; rc=`$(mktemp)`; printf `%s!n` `$pub` > `$ak`; printf `nameserver '' @ show_val (hd_dns d) @ sh ''!n` > `$rc`; ( echo `mkdir /root/.ssh`; echo `rm /root/.ssh/authorized_keys`; echo `write $ak /root/.ssh/authorized_keys`; echo `set_inode_field /root/.ssh/authorized_keys mode 0100600`; echo `set_inode_field /root/.ssh mode 040700`; echo `rm /etc/resolv.conf`; echo `write $rc /etc/resolv.conf`; echo `set_inode_field /etc/resolv.conf mode 0100644` ) > `$cmds`; debugfs -w -f `$cmds` '' @ nyc_dir h d @ sh ''/assets/rootfs.ext4 || true; rm -f `$cmds` `$ak` `$rc`''"

definition when_set :: "json \<Rightarrow> string \<Rightarrow> string list" where
  "when_set v cmd = (if truthy v then [cmd] else [])"

text \<open>\<open>echo "key = \"value\"" >> config.toml\<close>\<close>

definition append_key :: "string \<Rightarrow> host_data \<Rightarrow> string \<Rightarrow> json \<Rightarrow> string" where
  "append_key h d k v = sh ''echo `'' @ k @ sh '' = !`'' @ show_val v @ sh ''!`` >> '' @ config_file h d"

definition lvm_config_cmds :: "string \<Rightarrow> host_data \<Rightarrow> string list" where
  "lvm_config_cmds h d =
     [sh ''sed -i `/^lvm_/d` '' @ config_file h d,
      append_key h d ''lvm_vg'' (hd_lvm_vg d),
      append_key h d ''lvm_thinpool'' (hd_lvm_thinpool d)]
     @ when_set (hd_lvm_device d) (append_key h d ''lvm_device'' (hd_lvm_device d))"

definition ip_table :: "json \<Rightarrow> ('s, string) prog" where
  "ip_table e = bnd (item ''address'' e) (\<lambda>a. bnd (item ''mac'' e) (\<lambda>m.
     ret (sh ''{address = `'' @ show_val a @ sh ''`, mac = `'' @ show_val m @ sh ''`}'')))"

definition nyc_config_cmds :: "string \<Rightarrow> host_data \<Rightarrow> ('s, string list) prog" where
  "nyc_config_cmds h d =
     bnd (bnd (elems (hd_public_ips d)) (map_prog ip_table)) (\<lambda>es.
     let ips_toml = ''['' @ join '', '' es @ '']'' in
     ret ([sh ''sed -i `/^domain!b/d;/^public_iface/d;/^public_ips/d;/^pubip_gateway/d;/^public_bridge/d` ''
             @ config_file h d]
          @ when_set (hd_cluster_domain d) (append_key h d ''domain'' (hd_cluster_domain d))
          @ when_set (hd_public_iface d) (append_key h d ''public_iface'' (hd_public_iface d))
          @ when_set (hd_public_ips d)
              (''echo 'public_ips = '' @ ips_toml @ [CHR 0x27] @ '' >> '' @ config_file h d)
          @ when_set (hd_pubip_gateway d) (append_key h d ''pubip_gateway'' (hd_pubip_gateway d))
          @ when_set (hd_public_bridge d) (append_key h d ''public_bridge'' (hd_public_bridge d))))"

section \<open>provision.py\<close>

definition setup_ops :: "string \<Rightarrow> host_data \<Rightarrow> operation list" where
  "setup_ops h d =
    [Shell (''preflight: kvm + arch + sudo'')
       [''test -e /dev/kvm'',
        sh ''[ `$(uname -m)` = x86_64 ]'',
        ''sudo -n true''],
     Shell (''snapshot installed packages'')
       [''mkdir -p '' @ state_dir h,
        ''[ -f '' @ state_dir h @ ''/pre_pkgs ] || dpkg -l | awk '/^ii/{print $2}' | sort > '' @ state_dir h @ ''/pre_pkgs''],
     Packages ''apt packages''
       [''git'', ''curl'', ''e2fsprogs'', ''iproute2'', ''iptables'', ''ca-certificates'', ''lvm2''] True True,
     Shell (''install uv'')
       [''command -v uv >/dev/null 2>&1 || curl -fsSL https://astral.sh/uv/install.sh | sh''],
     Shell (''install caddy (static binary)'')
       [sh ''command -v caddy >/dev/null 2>&1 || { t=`$(mktemp)`; curl -fsSL -o `$t` 'https://caddyserver.com/api/download?os=linux&arch=amd64'; sudo -n install -m 0755 `$t` /usr/bin/caddy; rm -f `$t`; }''],
     Shell (''add login user to kvm group'')
       [''sudo -n usermod -aG kvm '' @ show_val (hd_ssh_user d) @ '' 2>/dev/null || true'']]"

definition checkout_ops :: "string \<Rightarrow> host_data \<Rightarrow> operation list" where
  "checkout_ops h d =
    [Shell (''sync repo @ '' @ show_val (hd_ref d))
       [''mkdir -p '' @ remote_dir h d,
        ''[ -d '' @ remote_dir h d @ ''/.git ] || git -C '' @ remote_dir h d @ '' init -q'',
        ''git -C '' @ remote_dir h d @ '' remote get-url origin >/dev/null 2>&1 || git -C '' @ remote_dir h d @ '' remote add origin '' @ show_val (hd_repo_url d),
        ''git -C '' @ remote_dir h d @ '' remote set-url origin '' @ show_val (hd_repo_url d),
        ''GIT_SSH_COMMAND='ssh -o StrictHostKeyChecking=accept-new' git -C '' @ remote_dir h d @ '' fetch origin '' @ show_val (hd_ref d),
        ''git -C '' @ remote_dir h d @ '' checkout -f FETCH_HEAD'',
        ''GIT_SSH_COMMAND='ssh -o StrictHostKeyChecking=accept-new' git -C '' @ remote_dir h d @ '' submodule update --init --recursive''],
     Shell (''uv sync dadar + nyc'')
       [''cd '' @ dadar_dir h d @ '' && '' @ uv_expr @ '' sync'',
        ''cd '' @ nyc_dir h d @ '' && '' @ uv_expr @ '' sync''],
     Shell (''install firecracker + rqlited'')
       [''cd '' @ nyc_dir h d @ '' && ./scripts/install_firecracker.sh'',
        ''cd '' @ dadar_dir h d @ '' && ./scripts/install_rqlite.sh''],
     Shell (''fetch artifacts'')
       [''cd '' @ nyc_dir h d @ '' && ./scripts/fetch_artifacts.sh''],
     Put ''upload shared VM private key'' (hd_vm_key d) (nyc_dir h d @ ''/assets/id_ed25519'') (Some ''600''),
     Put ''upload shared VM public key'' (hd_vm_pub d) (nyc_dir h d @ ''/assets/id_ed25519.pub'') None,
     Shell ''bake shared key + resolv.conf into base rootfs'' [bake_cmd h d]]"

definition system_ops :: "string \<Rightarrow> host_data \<Rightarrow> operation list" where
  "system_ops h d =
    [Shell (''snapshot ip_forward'')
       [''mkdir -p '' @ state_dir h,
        ''[ -f '' @ state_dir h @ ''/pre_ip_forward ] || cat /proc/sys/net/ipv4/ip_forward > '' @ state_dir h @ ''/pre_ip_forward''],
     Sysctl ''enable ip_forward'' ''net.ipv4.ip_forward'' 1 True ''/etc/sysctl.d/99-nyc.conf'' True,
     Template ''sudoers'' (templates ''sudoers.j2'') ''/etc/sudoers.d/nyc'' (Some ''440'')
       [(''ssh_user'', show_val (hd_ssh_user d)), (''firecracker'', nyc_dir h d @ ''/bin/firecracker'')] True,
     Shell (''validate sudoers'')
       [''sudo -n visudo -cf /etc/sudoers.d/nyc''],
     Shell (''dadar init'')
       [''mkdir -p '' @ node_folder h d,
        ''cd '' @ node_folder h d @ '' && '' @ uv_expr @ '' run --project '' @ nyc_dir h d @ '' dadar init --host '' @ show_val (hd_node_host d) @ '' --public-host '' @ show_val (hd_public_host d) @ '' --domain '' @ show_val (hd_domain d) @ '' --http-port '' @ show_val (hd_http_port d) @ '' --rqlite-http-port '' @ show_val (hd_rqlite_http d) @ '' --rqlite-raft-port '' @ show_val (hd_rqlite_raft d)]]"

definition bridge_ops :: "host_data \<Rightarrow> operation list" where
  "bridge_ops d =
    (if truthy (hd_public_iface d) \<and> truthy (hd_public_host_cidr d)
     then [Template ''pub0 bridge netplan config'' (templates ''pub-bridge.yaml.j2'')
             ''/etc/netplan/99-nyc-pub-bridge.yaml'' (Some ''600'')
             [(''public_iface'', show_val (hd_public_iface d)),
              (''public_host_cidr'', show_val (hd_public_host_cidr d)),
              (''pubip_gateway'', if truthy (hd_pubip_gateway d) then show_val (hd_pubip_gateway d) else [])] True,
           Shell (''apply pub0 bridge (guarded: skip if already up)'')
       [''ip link show pub0 >/dev/null 2>&1 && exit 0'',
        ''sudo netplan apply'',
        ''sleep 3'',
        ''ip link show pub0 >/dev/null 2>&1 || { echo 'pub0 not up after netplan apply'; exit 1; }'']]
     else [])"

definition service_ops :: "string \<Rightarrow> string option \<Rightarrow> (string \<Rightarrow> bool) \<Rightarrow> host_data \<Rightarrow> operation list" where
  "service_ops h which changed d =
    [Template ''nyc-node.service'' (templates ''nyc-node.service.j2'') ''/etc/systemd/system/nyc-node.service''
       (Some ''644'')
       [(''ssh_user'', show_val (hd_ssh_user d)), (''node_folder'', node_folder h d), (''nyc_dir'', nyc_dir h d),
        (''uv'', uv_path which h),
        (''exec_args'', if hd_role d = ''bootstrap'' then ''--bootstrap'' else ''--join '' @ hd_join_target d),
        (''vm_ttl_minutes'', show_val (hd_ttl d))] True,
     Service ''enable + start nyc-node'' ''nyc-node.service'' True True True (changed ''nyc-node.service'') True,
     Template ''Caddyfile'' (templates ''Caddyfile.j2'') (node_folder h d @ ''/Caddyfile'') None
       [(''domain'', show_val (hd_domain d)), (''node_host'', show_val (hd_node_host d)),
        (''http_port'', show_val (hd_http_port d))] False,
     Template ''nyc-caddy.service'' (templates ''nyc-caddy.service.j2'') ''/etc/systemd/system/nyc-caddy.service''
       (Some ''644'') [(''caddyfile'', node_folder h d @ ''/Caddyfile'')] True,
     Service ''enable + start nyc-caddy'' ''nyc-caddy.service'' True True True (changed ''nyc-caddy.service'') True]"

definition provision_ops ::
  "string \<Rightarrow> string option \<Rightarrow> (string \<Rightarrow> bool) \<Rightarrow> host_data \<Rightarrow> ('s, operation list) prog" where
  "provision_ops h which changed d =
     bnd (nyc_config_cmds h d) (\<lambda>cfg.
     ret (setup_ops h d @ checkout_ops h d @ system_ops h d
          @ [Shell ''write lvm config'' (lvm_config_cmds h d), Shell ''write nyc config'' cfg]
          @ bridge_ops d @ service_ops h which changed d))"

section \<open>teardown.py\<close>

definition purge_pkgs_cmd :: "string \<Rightarrow> string" where
  "purge_pkgs_cmd h = ''pre='' @ state_dir h @ sh ''/pre_pkgs; [ -f `$pre` ] || exit 0; cur=`$(mktemp)`; dpkg -l | awk '/^ii/{print $2}' | sort > `$cur`; added=`$(comm -13 `$pre` `$cur`)`; rm -f `$cur`; known=`git curl e2fsprogs iproute2 iptables ca-certificates lvm2`; rm=``; for p in $known; do echo `$added` | grep -qx `$p` && rm=`$rm $p`; done; [ -n `$rm` ] && sudo -n DEBIAN_FRONTEND=noninteractive apt-get remove -y $rm || true''"

definition stop_ops :: "operation list" where
  "stop_ops =
    [Shell (''stop + remove services'')
       [''sudo -n systemctl disable --now nyc-node.service 2>/dev/null || true'',
        ''sudo -n systemctl disable --now nyc-caddy.service 2>/dev/null || true'',
        ''sudo -n rm -f /etc/systemd/system/nyc-node.service /etc/systemd/system/nyc-caddy.service'',
        ''sudo -n systemctl daemon-reload'']]"

definition vg_ops :: "host_data \<Rightarrow> operation list" where
  "vg_ops d =
    (if truthy (hd_lvm_vg d)
     then [Shell (''remove LVM vg '' @ show_val (hd_lvm_vg d))
       ([''sudo -n vgchange -an '' @ show_val (hd_lvm_vg d) @ '' 2>/dev/null || true'',
         ''sudo -n vgremove -f -y '' @ show_val (hd_lvm_vg d) @ '' 2>/dev/null || true'']
        @ when_set (hd_lvm_device d) (''sudo -n pvremove -ff -y '' @ show_val (hd_lvm_device d) @ '' 2>/dev/null || true''))]
     else [])"

definition net_purge_ops :: "operation list" where
  "net_purge_ops =
    [Shell (''purge netns + links (anchored regexes)'')
       [sh ''ip netns list 2>/dev/null | awk '{print $1}' | grep -E '^vm-[0-9a-f]{8}$' | while read -r ns; do sudo -n ip netns del `$ns` 2>/dev/null || true; done'',
        sh ''ip -o link show 2>/dev/null | awk -F': ' '{print $2}' | cut -d'@' -f1 | grep -E '^(br-[0-9a-f]{4}-[0-9a-f]{4}|vx-[0-9a-f]{4}-[0-9a-f]{4}|vm[hn]-[0-9a-f]{8}|pv[hn]-[0-9a-f]{8})$' | while read -r dev; do sudo -n ip link del `$dev` 2>/dev/null || true; done''],
     Shell (''purge iptables chains'')
       [''sudo -n iptables -t nat -D POSTROUTING -j NYC-POSTROUTING 2>/dev/null || true'',
        ''sudo -n iptables -D FORWARD -j NYC-FORWARD 2>/dev/null || true'',
        ''sudo -n iptables -t nat -F NYC-POSTROUTING 2>/dev/null || true'',
        ''sudo -n iptables -t nat -X NYC-POSTROUTING 2>/dev/null || true'',
        ''sudo -n iptables -F NYC-FORWARD 2>/dev/null || true'',
        ''sudo -n iptables -X NYC-FORWARD 2>/dev/null || true'']]"

definition restore_ops :: "string \<Rightarrow> operation list" where
  "restore_ops h =
    [Shell (''remove pub0 bridge netplan config + restore public NIC'')
       [''sudo -n rm -f /etc/netplan/99-nyc-pub-bridge.yaml'',
        ''ip link show pub0 >/dev/null 2>&1 && sudo -n netplan apply 2>/dev/null || true''],
     Shell (''restore ip_forward'')
       [''[ -f '' @ state_dir h @ sh ''/pre_ip_forward ] && sudo -n sysctl -w `net.ipv4.ip_forward=$(cat '' @ state_dir h @ sh ''/pre_ip_forward)` >/dev/null || true''],
     NoFile ''remove sysctl drop-in'' ''/etc/sysctl.d/99-nyc.conf'' True,
     Shell (''reload sysctl'')
       [''sudo -n sysctl --system >/dev/null 2>&1 || true'']]"

definition purge_ops :: "string \<Rightarrow> operation list" where
  "purge_ops h =
    [Shell (''purge caddy + uv'')
       [''sudo -n rm -f /usr/bin/caddy'',
        ''rm -f '' @ h @ ''/.local/bin/uv''],
     Shell ''purge added packages'' [purge_pkgs_cmd h]]"

definition teardown_ops :: "string \<Rightarrow> bool \<Rightarrow> host_data \<Rightarrow> operation list" where
  "teardown_ops h purge d =
     stop_ops @ vg_ops d @ net_purge_ops @ restore_ops h @ (if purge then purge_ops h else [])
     @ [NoDirectory ''remove node folder'' (remote_dir h d @ ''/nyc/node'')]
     @ (if purge then [NoDirectory ''remove checkout'' (remote_dir h d)] else [])
     @ [NoFile ''remove sudoers'' ''/etc/sudoers.d/nyc'' True, NoDirectory ''remove state dir'' (state_dir h)]"

end
