(* ===== verification/ScriptProps.thy ===== *)
theory ScriptProps
  imports Preflight Provision RouterProps
begin

text \<open>
  What the operator scripts do: the overlay audit against the node's own code, what an unreachable
  cluster looks like to the commands, the order of provisioning, the bound on health waits, the exit
  code of the preflight, the hosts of the inventory, and what a teardown removes.
\<close>

section \<open>The audit and the node agree\<close>

text \<open>A row of \<open>GET /nodes\<close>, as the audit reads it.\<close>

definition node_json :: "node_row \<Rightarrow> json" where
  "node_json r = JObj [(''node_id'', JStr (nd_id r)), (''host'', j_opt (nd_host r)), (''http_port'', JInt (nd_port r))]"

definition outside :: "node_row \<Rightarrow> bool" where
  "outside r \<longleftrightarrow> nd_host r \<notin> LOOPBACK"

lemma outside_loopback: "nd_host r \<noteq> Some [] \<Longrightarrow> (j_opt (nd_host r) \<notin> set op_loopback) = outside r"
  by (auto simp: outside_def LOOPBACK_def op_loopback_def j_opt_def split: option.splits)

lemma audit_hosts_rows:
  assumes "\<forall>r \<in> set rows. nd_host r \<noteq> Some []"
  shows "audit_hosts (map node_json rows) s = (Inr (map (the \<circ> nd_host) (filter outside rows)), s)"
proof -
  have a: "map_prog (item ''host'') (map node_json rows) s = (Inr (map (j_opt \<circ> nd_host) rows), s)"
    by (subst map_prog_run [where g = "field ''host''"])
       (auto simp: item_run node_json_def field_or_def)
  have b: "filter (\<lambda>h. h \<notin> set op_loopback) (map (j_opt \<circ> nd_host) rows) = map (j_opt \<circ> nd_host) (filter outside rows)"
    using assms by (induction rows) (auto simp: outside_loopback)
  have c: "map_prog text_val (map (j_opt \<circ> nd_host) (filter outside rows)) s
      = (Inr (map (the \<circ> nd_host) (filter outside rows)), s)"
    by (induction rows)
       (auto simp: bnd_run text_val_def j_opt_def outside_def LOOPBACK_def split: option.splits)
  show ?thesis by (simp add: audit_hosts_def bnd_run a b c)
qed

lemma audit_peers_rows:
  assumes "distinct (map nd_id rows)" "distinct (map nd_host (filter outside rows))" "r \<in> set rows"
  shows "audit_peers (map (the \<circ> nd_host) (filter outside rows)) (j_opt (nd_host r))
    = sort (remdups (map (\<lambda>x. the (nd_host x)) (filter (\<lambda>x. nd_id x \<noteq> nd_id r \<and> outside x) rows)))"
proof -
  have "filter (\<lambda>h. JStr h \<noteq> j_opt (nd_host r)) (map (the \<circ> nd_host) (filter outside rows))
      = map (\<lambda>x. the (nd_host x)) (filter (\<lambda>x. JStr (the (nd_host x)) \<noteq> j_opt (nd_host r)) (filter outside rows))"
    by (simp add: filter_map comp_def)
  also have "filter (\<lambda>x. JStr (the (nd_host x)) \<noteq> j_opt (nd_host r)) (filter outside rows)
      = filter (\<lambda>x. nd_id x \<noteq> nd_id r) (filter outside rows)"
  proof (rule filter_cong [OF refl])
    fix x assume x: "x \<in> set (filter outside rows)"
    then obtain h where h: "nd_host x = Some h" "x \<in> set rows" "outside x"
      by (auto simp: outside_def LOOPBACK_def)
    have "(nd_host r = Some h) = (nd_id x = nd_id r)"
    proof
      assume e: "nd_host r = Some h"
      with h have "outside r" by (simp add: outside_def)
      with assms(3) e h x have "x = r"
        using assms(2) by (auto simp: distinct_map intro: inj_onD [of nd_host "{x \<in> set rows. outside x}"])
      then show "nd_id x = nd_id r" by simp
    next
      assume "nd_id x = nd_id r"
      with assms(1,3) h(2) have "x = r" by (auto simp: distinct_map dest: inj_onD)
      with h show "nd_host r = Some h" by simp
    qed
    with h show "(JStr (the (nd_host x)) \<noteq> j_opt (nd_host r)) = (nd_id x \<noteq> nd_id r)"
      by (auto simp: j_opt_def split: option.splits)
  qed
  finally show ?thesis by (simp add: audit_peers_def filter_filter conj_commute comp_def)
qed

context dadar
begin

lemma peer_hosts_run:
  "peer_hosts C n w = (Inr (map (\<lambda>x. the (nd_host x))
     (filter (\<lambda>x. nd_id x \<noteq> n \<and> outside x) (t_nodes (abs (w_db w))))), w)"
  by (simp add: peer_hosts_def bnd_run get_all_run nodes.all outside_def)

end

text \<open>C36: what the operator's audit expects of a node is what the node's own code sets up: the same
  bridge and tunnel names, VNI and anycast MAC, and, when the nodes have distinct ids and underlay
  addresses, the same set of tunnel peers.\<close>

theorem audit_mirrors_node:
  assumes "dadar C view" "t_nodes (view (w_db w)) = rows" "r \<in> set rows"
    and "distinct (map nd_id rows)" "distinct (map nd_host (filter outside rows))"
    and "\<forall>x \<in> set rows. nd_host x \<noteq> Some []"
  shows "overlay_names (nd_id r) v = (bridge_name (nd_id r) v, vxlan_name (nd_id r) v) \<and>
    dep_vni_for sha v = vni_for sha v \<and> dep_anycast_mac sha v = anycast_mac sha v \<and>
    (\<exists>hosts peers. audit_hosts (map node_json rows) s = (Inr hosts, s) \<and>
       peer_hosts C (nd_id r) w = (Inr peers, w) \<and>
       audit_peers hosts (j_opt (nd_host r)) = sort (remdups peers))"
  using audit_hosts_rows [OF assms(6), of s] audit_peers_rows [OF assms(4,5,3)]
    dadar.peer_hosts_run [OF assms(1), of "nd_id r" w]
  by (simp add: assms(2) overlay_names_def bridge_name_def vxlan_name_def dep_vni_for_def vni_for_def
      dep_anycast_mac_def anycast_mac_def)

definition two_nodes :: "node_row list" where
  "two_nodes = [\<lparr>nd_id = ''n1'', nd_host = Some ''10.0.0.1'', nd_port = 8000\<rparr>,
                \<lparr>nd_id = ''n2'', nd_host = Some ''10.0.0.2'', nd_port = 8000\<rparr>]"

theorem audit_mirrors_node_witness:
  "overlay_names ''n1'' ''v1'' = (bridge_name ''n1'' ''v1'', vxlan_name ''n1'' ''v1'') \<and>
   (\<exists>hosts peers. audit_hosts (map node_json two_nodes) () = (Inr hosts, ()) \<and>
     peer_hosts list_client ''n1'' (world0 (no_rows\<lparr>t_nodes := two_nodes\<rparr>)) =
       (Inr peers, world0 (no_rows\<lparr>t_nodes := two_nodes\<rparr>)) \<and>
     audit_peers hosts (JStr ''10.0.0.1'') = sort (remdups peers))"
  using audit_mirrors_node [OF lists.dadar_axioms, of "world0 (no_rows\<lparr>t_nodes := two_nodes\<rparr>)" two_nodes
      "hd two_nodes" "''v1''" "\<lambda>_. []" "()"]
  by (simp add: two_nodes_def outside_def LOOPBACK_def j_opt_def no_rows_def)

section \<open>A cluster that does not answer\<close>

text \<open>No command prints anything, whatever its exit code: curl and ssh when the node is down.\<close>

definition silent :: "op_world \<Rightarrow> bool" where
  "silent w \<longleftrightarrow> (\<forall>l c f. \<exists>rc err. fst (ow_exec w l c f) = Inr (rc, [], err))"

lemma strip_Nil [simp]: "strip [] = []"
  by (simp add: strip_def)

lemma subprocess_silent:
  assumes "silent w"
  shows "\<exists>rc err v. subprocess c w = (Inr (rc, [], err), v) \<and> silent v \<and> ow_out v = ow_out w"
proof -
  obtain rc err where "fst (ow_exec w (ow_calls w) c (ow_fs w)) = Inr (rc, [], err)"
    using assms unfolding silent_def by blast
  then show ?thesis
    using assms by (cases "ow_exec w (ow_calls w) c (ow_fs w)") (simp add: subprocess_run silent_def)
qed

lemma ssh_target_run:
  assumes "node_ok n" "is_obj c"
  shows "ssh_target c n w =
    (Inr (show_val (field_or ''ssh_user'' (JStr ''ubuntu'') c) @ ''@'' @ show_val (target_of n)), w)"
  using assms by (simp add: ssh_target_def bnd_run reach_host_run getd_field)

text \<open>The command \<open>remote_curl\<close> runs, and what it makes of the output.\<close>

definition curl_call :: "json \<Rightarrow> json \<Rightarrow> string \<Rightarrow> string \<Rightarrow> json option \<Rightarrow> op_call" where
  "curl_call c n m p b =
     (call_of (op_ssh @ [show_val (field_or ''ssh_user'' (JStr ''ubuntu'') c) @ ''@'' @ show_val (target_of n),
        shell_join ([''curl'', ''-fsS'', ''-X'', m, ''http://'' @ show_val (field ''host'' n) @ '':''
            @ show_val (field_or ''http_port'' (JInt 8000) c) @ p]
          @ (case b of None \<Rightarrow> [] | Some j \<Rightarrow> [''-H'', ''Content-Type: application/json'', ''-d'', dumps_flat j]))]))
       \<lparr>oc_timeout := Some 60\<rparr>"

definition curl_answer :: "op_world \<Rightarrow> string \<Rightarrow> exn + json" where
  "curl_answer w out = (if strip out = [] then Inr (JObj []) else ow_json w (strip out))"

lemma remote_curl_run:
  assumes "node_ok n" "is_obj c"
  shows "remote_curl c n m p b w =
    (case subprocess (curl_call c n m p b) w of
       (Inl e, v) \<Rightarrow> (Inl e, v) | (Inr (rc, out, err), v) \<Rightarrow> (curl_answer v out, v))"
proof -
  have h: "has ''host'' n" using assms(1) by (simp add: node_ok_def)
  show ?thesis
    by (simp add: remote_curl_def bnd_run item_field [OF h] getd_field assms ssh_target_run Let_def
        curl_call_def curl_answer_def split: prod.splits sum.splits option.splits)
qed

lemma remote_curl_silent:
  assumes "silent w" "node_ok n" "is_obj c"
  shows "\<exists>v. remote_curl c n m p b w = (Inr (JObj []), v) \<and> silent v \<and> ow_out v = ow_out w"
  using subprocess_silent [OF assms(1), of "curl_call c n m p b"]
  by (auto simp: remote_curl_run assms(2,3) curl_answer_def)

lemma bootstrap_run:
  assumes "\<forall>n \<in> set nodes. node_ok n" "\<exists>n \<in> set nodes. boot_flag n"
  shows "\<exists>b \<in> set nodes. boot_flag b \<and> bootstrap_of nodes s = (Inr b, s)"
proof -
  obtain b where "find boot_flag nodes = Some b"
    using assms(2) by (cases "find boot_flag nodes") (auto simp: find_None_iff)
  moreover from this have "b \<in> set nodes" "boot_flag b" by (auto simp: find_Some_iff)
  ultimately show ?thesis using boot_next [OF assms(1), of s] by (auto simp: bootstrap_of_def)
qed

definition ops_ok :: "json \<Rightarrow> json list \<Rightarrow> bool" where
  "ops_ok cluster nodes \<longleftrightarrow>
     is_obj cluster \<and> (\<forall>n \<in> set nodes. node_ok n) \<and> (\<exists>n \<in> set nodes. boot_flag n)"

lemma ops_okE:
  assumes "ops_ok cluster nodes"
  obtains b where "b \<in> set nodes" "boot_flag b" "bootstrap_of nodes w = (Inr b, w)" "node_ok b" "is_obj cluster"
    "\<forall>n \<in> set nodes. node_ok n"
proof -
  have a: "is_obj cluster" "\<forall>n \<in> set nodes. node_ok n" "\<exists>n \<in> set nodes. boot_flag n"
    using assms by (simp_all add: ops_ok_def)
  then obtain b where b: "b \<in> set nodes" "boot_flag b" "bootstrap_of nodes w = (Inr b, w)"
    using bootstrap_run [of nodes w] by auto
  show ?thesis by (rule that [OF b _ a(1,2)]) (use a(2) b(1) in simp)
qed

lemma overlay_silent:
  assumes "silent w" "ops_ok cluster nodes"
  shows "\<exists>v. cmd_overlay_check cluster nodes target w = (Inr 0, v) \<and> last (ow_out v) = ''OVERLAY OK''"
proof -
  obtain b where b: "b \<in> set nodes" "bootstrap_of nodes w = (Inr b, w)" and ok: "node_ok b" "is_obj cluster"
    by (rule ops_okE [OF assms(2), of w])
  obtain w1 where 1: "remote_curl cluster b ''GET'' ''/nodes'' None w = (Inr (JObj []), w1)" "silent w1"
    using remote_curl_silent [OF assms(1) ok] by blast
  obtain w2 where 2: "remote_curl cluster b ''GET'' ''/vms'' None w1 = (Inr (JObj []), w2)"
    using remote_curl_silent [OF 1(2) ok] by blast
  show ?thesis
    unfolding cmd_overlay_check_def audit_hosts_def audit_rows_def Let_def
    by (simp only: bnd_run andThen_run b(2) 1(1) 2 elems_JObj list.map filter_prog.simps map_prog.simps
        filter.simps ret_run gets_run prod.case sum.case say_run list.pred_inject if_True) simp
qed

definition up_line :: "json \<Rightarrow> string" where
  "up_line n = ''  [up]   '' @ show_val (field ''name'' n) @ '' ('' @ show_val (field ''host'' n) @ '') {}''"

lemma status_line_silent:
  assumes "silent w" "node_ok n" "is_obj cluster"
  shows "\<exists>v. status_line cluster n w = (Inr (), v) \<and> silent v \<and> ow_out v = ow_out w @ [up_line n]"
proof -
  have h: "has ''host'' n" "has ''name'' n" using assms(2) by (simp_all add: node_ok_def)
  obtain v where "remote_curl cluster n ''GET'' ''/health'' None w = (Inr (JObj []), v)" "silent v" "ow_out v = ow_out w"
    using remote_curl_silent [OF assms] by blast
  then show ?thesis
    by (simp add: status_line_def guarded_run bnd_run node_label_def item_field [OF h(1)] item_field [OF h(2)]
        say_run up_line_def show_val_def silent_def)
qed

lemma status_lines_silent:
  assumes "silent w" "\<forall>n \<in> set nodes. node_ok n" "is_obj cluster"
  shows "\<exists>v. for_each nodes (status_line cluster) w = (Inr (), v) \<and> silent v \<and>
    ow_out v = ow_out w @ map up_line nodes"
  using assms(1,2)
proof (induction nodes arbitrary: w)
  case Nil
  then show ?case by simp
next
  case (Cons n ns)
  obtain v where v: "status_line cluster n w = (Inr (), v)" "silent v" "ow_out v = ow_out w @ [up_line n]"
    using status_line_silent [OF Cons.prems(1) _ assms(3), of n] Cons.prems(2) by auto
  then show ?case using Cons.IH [OF v(2)] Cons.prems(2) by (simp add: andThen_run)
qed

lemma status_silent:
  assumes "silent w" "ops_ok cluster nodes"
  shows "\<exists>v. cmd_status cluster nodes w = (Inr 0, v) \<and>
    ow_out v = ow_out w @ map up_line nodes @ [newline # ''cluster sees 0 / '' @ dec (length nodes) @ '' nodes'']"
proof -
  obtain b where b: "b \<in> set nodes" "bootstrap_of nodes w = (Inr b, w)"
    and ok: "node_ok b" "is_obj cluster" "\<forall>n \<in> set nodes. node_ok n"
    by (rule ops_okE [OF assms(2), of w])
  obtain w1 where 1: "for_each nodes (status_line cluster) w = (Inr (), w1)"
     "silent w1" "ow_out w1 = ow_out w @ map up_line nodes"
    using status_lines_silent [OF assms(1) ok(3,2)] by blast
  obtain w2 where 2: "remote_curl cluster b ''GET'' ''/nodes'' None w1 = (Inr (JObj []), w2)" "ow_out w2 = ow_out w1"
    using remote_curl_silent [OF 1(2) ok(1,2)] by blast
  show ?thesis
    unfolding cmd_status_def
    by (simp only: bnd_run andThen_run b(2) 1(1) 2(1) guarded_run length_of_def elems_JObj list.map list.size
        ret_run prod.case sum.case say_run dec_0) (simp add: 1(3) 2(2) dec_0)
qed

text \<open>C40: when no node answers, so that every command comes back without output whatever its exit code,
  the overlay audit still prints that the overlay is in order and exits with 0, and the status command
  reports every node as up, with an empty answer, and that the cluster sees none of them.\<close>

theorem unreachable_cluster_looks_up:
  assumes "silent w" "ops_ok cluster nodes"
  shows "\<exists>u v. cmd_overlay_check cluster nodes target w = (Inr 0, u) \<and> last (ow_out u) = ''OVERLAY OK'' \<and>
    cmd_status cluster nodes w = (Inr 0, v) \<and>
    ow_out v = ow_out w @ map up_line nodes @ [newline # ''cluster sees 0 / '' @ dec (length nodes) @ '' nodes'']"
  using overlay_silent [OF assms, of target] status_silent [OF assms] by blast

section \<open>Sample inventory\<close>

definition sample_nodes :: "json list" where
  "sample_nodes =
     [JObj [(''name'', JStr ''n1''), (''host'', JStr ''10.0.0.11''), (''bootstrap'', JBool True)],
      JObj [(''name'', JStr ''n2''), (''host'', JStr ''10.0.0.12''), (''public_host'', JStr ''203.0.113.2'')]]"

definition sample_cluster :: json where
  "sample_cluster = JObj [(''repo_url'', JStr ''git@example.com:equator.git'')]"

lemma sample_ops_ok: "ops_ok sample_cluster sample_nodes"
  by (simp add: ops_ok_def sample_cluster_def sample_nodes_def is_obj_def node_ok_def has_def boot_flag_def field_or_def)

lemma silent_op0: "silent (op0 d)"
  by (simp add: silent_def op0_def)

theorem unreachable_cluster_looks_up_witness:
  "\<exists>u v. cmd_overlay_check sample_cluster sample_nodes ''v1'' (op0 JNull) = (Inr 0, u) \<and> last (ow_out u) = ''OVERLAY OK'' \<and>
    cmd_status sample_cluster sample_nodes (op0 JNull) = (Inr 0, v) \<and>
    ow_out v = [''  [up]   n1 (10.0.0.11) {}'', ''  [up]   n2 (10.0.0.12) {}'', newline # ''cluster sees 0 / '' @ dec 2 @ '' nodes'']"
  using unreachable_cluster_looks_up [OF silent_op0 sample_ops_ok, of "''v1''" JNull]
  by (simp add: op0_def sample_nodes_def up_line_def field_or_def numeral_2_eq_2)

section \<open>Waiting for health is bounded\<close>

definition calls_le :: "nat \<Rightarrow> 'a op_prog \<Rightarrow> bool" where
  "calls_le k m \<longleftrightarrow> (\<forall>w. length (ow_calls (snd (m w))) \<le> length (ow_calls w) + k)"

lemma calls_le_keeps: "keeps ow_calls m \<Longrightarrow> calls_le k m"
  by (simp add: calls_le_def keeps_def)

lemma calls_le_subprocess: "calls_le 1 (subprocess c)"
  by (auto simp: calls_le_def subprocess_run split: prod.splits)

lemma calls_le_bnd:
  assumes "calls_le j m" "\<And>x. calls_le k (f x)"
  shows "calls_le (j + k) (bnd m f)"
proof -
  have "length (ow_calls (snd (bnd m f w))) \<le> length (ow_calls w) + (j + k)" for w
  proof (cases "m w")
    case (Pair r v)
    then have 1: "length (ow_calls v) \<le> length (ow_calls w) + j" using assms(1) unfolding calls_le_def by (metis snd_conv)
    show ?thesis
    proof (cases r)
      case (Inl e)
      with Pair 1 show ?thesis by (simp add: bnd_run)
    next
      case (Inr x)
      have "length (ow_calls (snd (f x v))) \<le> length (ow_calls v) + k" using assms(2) unfolding calls_le_def by blast
      with Inr Pair 1 show ?thesis by (simp add: bnd_run)
    qed
  qed
  then show ?thesis by (simp add: calls_le_def)
qed

lemma calls_le_after: "keeps ow_calls m \<Longrightarrow> (\<And>x. calls_le k (f x)) \<Longrightarrow> calls_le k (bnd m f)"
  using calls_le_bnd [OF calls_le_keeps, of m k f 0] by simp

lemma calls_le_before: "calls_le k m \<Longrightarrow> (\<And>x. keeps ow_calls (f x)) \<Longrightarrow> calls_le k (bnd m f)"
  using calls_le_bnd [OF _ calls_le_keeps, of k m f 0] by simp

lemma calls_le_remote_curl: "calls_le 1 (remote_curl c n m p b)"
  unfolding remote_curl_def Let_def ssh_target_def
  by (intro calls_le_after calls_le_before calls_le_subprocess) (auto intro!: keeps_rules)

lemma calls_le_guarded:
  assumes "calls_le k m" "\<And>e. keeps ow_calls (h e)"
  shows "calls_le k (guarded m h)"
proof -
  have "length (ow_calls (snd (guarded m h w))) \<le> length (ow_calls w) + k" for w
    using assms(1) [unfolded calls_le_def, rule_format, of w] keeps_snd [OF assms(2)]
    by (auto simp: guarded_run split: prod.splits sum.splits exn.splits)
  then show ?thesis by (simp add: calls_le_def)
qed

lemma health_try_calls: "calls_le 1 (health_try c n)"
  unfolding health_try_def
  by (intro calls_le_guarded calls_le_before calls_le_remote_curl) (auto intro!: keeps_rules)

lemma health_try_no_RuntimeError: "health_try c n w \<noteq> (Inl (RuntimeError m), v)"
  by (auto simp: health_try_def guarded_run split: prod.splits sum.splits exn.splits)

text \<open>How many rounds fit before the deadline, when each sleeps two seconds.\<close>

definition rounds :: "int \<Rightarrow> op_world \<Rightarrow> nat" where
  "rounds d w = nat ((d - ow_now w + 1999999) div 2000000)"

lemma rounds_step:
  assumes "ow_now w < d" "ow_now w + 2000000 \<le> ow_now v"
  shows "Suc (rounds d v) \<le> rounds d w"
proof -
  have "(d - ow_now v + 1999999) div 2000000 \<le> ((d - ow_now w + 1999999) - 1 * 2000000) div 2000000"
    by (rule zdiv_mono1) (use assms in simp_all)
  also have "\<dots> = (d - ow_now w + 1999999) div 2000000 - 1" by linarith
  finally have "(d - ow_now v + 1999999) div 2000000 \<le> (d - ow_now w + 1999999) div 2000000 - 1" .
  moreover have "1 \<le> (d - ow_now w + 1999999) div 2000000" using assms(1) by linarith
  ultimately show ?thesis unfolding rounds_def by linarith
qed

lemma pass_time_calls [simp]: "ow_calls (pass_time k w) = ow_calls w"
  by (simp add: pass_time_def)

lemma rounds_antimono: "ow_now w \<le> ow_now v \<Longrightarrow> rounds d v \<le> rounds d w"
  unfolding rounds_def by (intro nat_mono zdiv_mono1) simp_all

lemma health_loop_bound:
  "health_loop c n d e w = (r, v) \<Longrightarrow>
   length (ow_calls v) \<le> length (ow_calls w) + rounds d w \<and> (\<forall>m. r = Inl (RuntimeError m) \<longrightarrow> d \<le> ow_now v)"
proof (induction c n d e w arbitrary: r v rule: health_loop.induct)
  case (1 c n d e w)
  let ?w1 = "pass_time 0 w"
  have now1: "ow_now w \<le> ow_now ?w1" using pass_time_now [of w 0] by simp
  show ?case
  proof (cases "ow_now ?w1 < d")
    case False
    with 1(2) have "bnd (item ''name'' n) (\<lambda>x. raise (RuntimeError (show_val x @
        '' never became healthy (last error: '' @ e @ '')''))) ?w1 = (r, v)"
      by (subst (asm) health_loop.simps) (simp add: monotonic_run)
    then have "v = ?w1" by (auto simp: bnd_run item_run split: json.splits option.splits)
    with False show ?thesis by simp
  next
    case True
    obtain q w2 where tried: "health_try c n ?w1 = (q, w2)" by fastforce
    have calls: "length (ow_calls w2) \<le> length (ow_calls w) + 1"
      using health_try_calls [of c n] tried unfolding calls_le_def by (metis pass_time_calls snd_conv)
    have now2: "ow_now w2 = ow_now ?w1" by (rule health_try_now [OF tried])
    let ?w3 = "pass_time 2000000 w2"
    have step: "Suc (rounds d ?w3) \<le> rounds d w"
      using rounds_step [of w d ?w3] True now1 now2 pass_time_now [of w2 2000000] by simp
    have run: "health_loop c n d e w =
        (case q of Inl x \<Rightarrow> (Inl x, w2) | Inr None \<Rightarrow> (Inr (), w2) | Inr (Some m) \<Rightarrow> health_loop c n d m ?w3)"
      using True tried by (subst health_loop.simps) (simp add: monotonic_run split: sum.splits option.splits)
    show ?thesis
    proof (cases "\<exists>m. q = Inr (Some m)")
      case True
      then obtain m where q: "q = Inr (Some m)" by blast
      with run 1(2) have next_round: "health_loop c n d m ?w3 = (r, v)" by simp
      have "length (ow_calls v) \<le> length (ow_calls ?w3) + rounds d ?w3 \<and>
          (\<forall>m. r = Inl (RuntimeError m) \<longrightarrow> d \<le> ow_now v)"
        by (rule 1(1) [OF _ refl _ _ refl _ next_round])
           (use \<open>ow_now ?w1 < d\<close> tried [symmetric] q in \<open>simp_all add: monotonic_run\<close>)
      with calls step show ?thesis by simp
    next
      case False
      with run 1(2) have "v = w2 \<and> (\<forall>m. r \<noteq> Inl (RuntimeError m))"
        using health_try_no_RuntimeError [of c n ?w1] tried by (auto split: sum.splits option.splits)
      with calls step show ?thesis by simp
    qed
  qed
qed

text \<open>C35: waiting for a node's health ends after at most 60 requests whatever the node and the network
  answer, and gives up only once the 120 seconds have passed.\<close>

theorem wait_health_bounded:
  "case wait_health c n w of (r, v) \<Rightarrow>
     length (ow_calls v) \<le> length (ow_calls w) + 60 \<and>
     (case r of Inl (RuntimeError m) \<Rightarrow> ow_now w + 120000000 \<le> ow_now v | _ \<Rightarrow> True)"
proof -
  let ?w = "pass_time 0 w"
  obtain r v where run: "health_loop c n (ow_now ?w + 120000000) [] ?w = (r, v)" by fastforce
  have "rounds (ow_now ?w + 120000000) ?w = 60" by (simp add: rounds_def)
  with health_loop_bound [OF run] pass_time_now [of w 0] run show ?thesis
    by (auto simp: wait_health_def bnd_run monotonic_run split: sum.splits exn.splits)
qed

section \<open>The order of provisioning\<close>

definition is_pyinfra :: "op_call \<Rightarrow> bool" where
  "is_pyinfra c \<longleftrightarrow> take 1 (oc_argv c) = [''pyinfra'']"

definition deploys :: "op_world \<Rightarrow> op_call list" where
  "deploys w = filter is_pyinfra (ow_calls w)"

text \<open>What the other steps leave alone: the deploys run so far, and where the scripts are.\<close>

definition track :: "op_world \<Rightarrow> op_call list \<times> path \<times> path" where
  "track w = (deploys w, ow_cwd w, ow_here w)"

lemma track_updates [simp]:
  "track (w\<lparr>ow_fs := f\<rparr>) = track w" "track (w\<lparr>ow_out := l\<rparr>) = track w" "track (pass_time k w) = track w"
  by (simp_all add: track_def deploys_def pass_time_def)

lemma keeps_track_subprocess: "\<not> is_pyinfra c \<Longrightarrow> keeps track (subprocess c)"
  by (auto simp: keeps_def subprocess_run track_def deploys_def split: prod.splits)

lemma keeps_track_remote_curl [keeps_rules]: "keeps track (remote_curl c n m p b)"
  unfolding remote_curl_def ssh_target_def Let_def
  by (intro keeps_rules keeps_track_subprocess)
     (auto simp: is_pyinfra_def call_of_def op_ssh_def intro!: keeps_rules)

lemma keeps_track_keypair: "keeps track (ensure_keypair cfg)"
  unfolding ensure_keypair_def
  by (intro keeps_rules keeps_track_subprocess) (auto simp: is_pyinfra_def call_of_def intro!: keeps_rules)

lemma keeps_track_health_try: "keeps track (health_try c n)"
  unfolding health_try_def by (intro keeps_rules) simp_all

lemma track_health_loop: "track (snd (health_loop c n d e w)) = track w"
proof (induction c n d e w rule: health_loop.induct)
  case (1 c n d e w)
  let ?w1 = "pass_time 0 w"
  obtain q w2 where tried: "health_try c n ?w1 = (q, w2)" by fastforce
  then have t: "track w2 = track w" using keepsD [OF keeps_track_health_try] by fastforce
  have last: "track (snd (bnd (item ''name'' n) (\<lambda>x. raise (g x)) ?w1)) = track w" for g
    by (rule trans [OF keeps_snd [OF keeps_bnd [OF keeps_item keeps_raise]]]) simp
  have ih: "track (snd (health_loop c n d m (pass_time 2000000 w2))) = track w"
    if "ow_now ?w1 < d" "q = Inr (Some m)" for m
  proof -
    have "track (snd (health_loop c n d m (pass_time 2000000 w2))) = track (pass_time 2000000 w2)"
      by (rule 1 [OF _ refl _ _ refl refl]) (use that tried [symmetric] in \<open>simp_all add: monotonic_run\<close>)
    with t show ?thesis by simp
  qed
  show ?case
    using ih t last
    by (subst health_loop.simps)
       (auto simp: monotonic_run tried split: sum.splits option.splits)
qed

lemma keeps_track_wait: "keeps track (wait_health c n)"
  by (auto simp: keeps_def wait_health_def bnd_run monotonic_run track_health_loop)

lemma keeps_track_tail:
  "keeps track (op_default_vpc c b)" "keeps track (smoke c b cfg)" "keeps track (validate c ns)"
  unfolding op_default_vpc_def smoke_def validate_def cidr_clashes_def ip_address_def
  by (auto intro!: keeps_rules simp: is_boot_def split: option.splits)

definition infra_call :: "op_world \<Rightarrow> string \<Rightarrow> string \<Rightarrow> json list \<Rightarrow> op_call" where
  "infra_call w cfg script limit =
     (call_of ([''pyinfra'', ''inventory.py'', script]
        @ (if limit = [] then [] else [''--limit'', join '','' (map show_val limit)])))
       \<lparr>oc_env := [(''NYC_CLUSTER'', path_str (abs_path w cfg))], oc_cwd := Some (ow_here w)\<rparr>"

lemma infra_call_track: "track v = track w \<Longrightarrow> infra_call v = infra_call w"
  by (auto simp: fun_eq_iff track_def infra_call_def abs_path_def Let_def)

lemma infra_call_here: "ow_cwd v = ow_cwd w \<Longrightarrow> ow_here v = ow_here w \<Longrightarrow> infra_call v = infra_call w"
  by (auto simp: fun_eq_iff infra_call_def abs_path_def Let_def)

lemma pyinfra_deploys:
  assumes "pyinfra script cfg limit False w = (r, v)"
  shows "deploys v = deploys w @ [infra_call w cfg script limit]" "ow_cwd v = ow_cwd w" "ow_here v = ow_here w"
  using assms
  by (auto simp: pyinfra_def bnd_run andThen_run Let_def say_run subprocess_run deploys_def infra_call_def
      is_pyinfra_def call_of_def split: prod.splits sum.splits if_splits)

lemma andThen_cases:
  assumes "andThen m n w = (r, v)"
  obtains e where "m w = (Inl e, v)" "r = Inl e" | x u where "m w = (Inr x, u)" "n u = (r, v)"
  using assms by (cases "m w"; cases "fst (m w)") (auto simp: andThen_run)

text \<open>What \<open>up\<close> does once the bootstrap node is healthy.\<close>

definition up_rest :: "json \<Rightarrow> json list \<Rightarrow> string \<Rightarrow> json \<Rightarrow> int op_prog" where
  "up_rest cluster nodes cfg boot =
     andThen (op_default_vpc cluster boot)
     (andThen (smoke cluster boot cfg)
     (andThen (say (newline # ''UP: '' @ dec (length nodes) @ '' node(s) provisioned.'')) (ret 0)))"

lemma keeps_track_rest: "keeps track (up_rest cluster nodes cfg boot)"
  unfolding up_rest_def by (intro keeps_rules keeps_track_tail) simp

lemma cmd_up_run:
  assumes "ops_ok cluster nodes" "find boot_flag nodes = Some b"
  shows "cmd_up cluster nodes cfg =
    andThen (validate cluster nodes) (andThen (ensure_keypair cfg)
      (andThen (pyinfra ''provision.py'' cfg [field ''name'' b] False) (andThen (wait_health cluster b)
        (let js = filter (\<lambda>n. \<not> boot_flag n) nodes in
         if js = [] then up_rest cluster nodes cfg b
         else andThen (pyinfra ''provision.py'' cfg (map (field ''name'') js) False)
                (andThen (for_each js (wait_health cluster)) (up_rest cluster nodes cfg b))))))"
proof -
  have ok: "\<forall>n \<in> set nodes. node_ok n" using assms(1) by (simp add: ops_ok_def)
  moreover have "b \<in> set nodes" using assms(2) by (auto simp: find_Some_iff)
  ultimately have b: "has ''name'' b" by (simp add: node_ok_def)
  have boot: "bootstrap_of nodes s = (Inr b, s)" for s :: op_world
    using boot_next [OF ok, of s] assms(2) by (simp add: bootstrap_of_def)
  have js: "filter_prog (\<lambda>n. bnd (is_boot n) (\<lambda>b. ret (\<not> b))) nodes s
      = (Inr (filter (\<lambda>n. \<not> boot_flag n) nodes), s)" for s :: op_world
    by (rule filter_prog_run) (use ok in \<open>simp add: bnd_run is_boot_run node_ok_obj\<close>)
  have names: "map_prog (item ''name'') (filter (\<lambda>n. \<not> boot_flag n) nodes) s
      = (Inr (map (field ''name'') (filter (\<lambda>n. \<not> boot_flag n) nodes)), s)" for s :: op_world
    by (rule map_prog_run) (use ok in \<open>simp add: item_field node_ok_def\<close>)
  show ?thesis
    by (rule ext, simp only: cmd_up_def up_rest_def)
       (simp add: andThen_run bnd_run boot item_field [OF b] js names Let_def
         split: prod.splits sum.splits)
qed

text \<open>The deploys a run may have made, in order: none, the bootstrap node's, and then, once that node
  has been seen healthy, the joiners'.\<close>

definition ordered_deploys ::
  "op_world \<Rightarrow> json \<Rightarrow> json \<Rightarrow> op_call \<Rightarrow> op_call option \<Rightarrow> exn + int \<Rightarrow> op_world \<Rightarrow> bool" where
  "ordered_deploys w cluster b first second r v \<longleftrightarrow>
     (deploys v = deploys w \<and> (\<exists>e. r = Inl e)) \<or>
     (deploys v = deploys w @ [first] \<and> (second = None \<or> (\<exists>e. r = Inl e))) \<or>
     (\<exists>c u1 u2. second = Some c \<and> deploys v = deploys w @ [first, c] \<and>
        deploys u1 = deploys w @ [first] \<and> wait_health cluster b u1 = (Inr (), u2))"

lemma up_after_boot:
  assumes run: "andThen (wait_health cluster b)
        (if js = [] then up_rest cluster nodes cfg b
         else andThen (pyinfra ''provision.py'' cfg names False)
                (andThen (for_each js (wait_health cluster)) (up_rest cluster nodes cfg b))) u = (r, v)"
    and u: "deploys u = deploys w @ [first]" "ow_cwd u = ow_cwd w" "ow_here u = ow_here w"
  shows "ordered_deploys w cluster b first
    (if js = [] then None else Some (infra_call w cfg ''provision.py'' names)) r v"
  using run
proof (rule andThen_cases)
  fix e assume "wait_health cluster b u = (Inl e, v)" "r = Inl e"
  then show ?thesis
    using keepsD [OF keeps_track_wait] u by (fastforce simp: ordered_deploys_def track_def)
next
  fix x u2 assume wait: "wait_health cluster b u = (Inr x, u2)"
    and rest: "(if js = [] then up_rest cluster nodes cfg b
         else andThen (pyinfra ''provision.py'' cfg names False)
                (andThen (for_each js (wait_health cluster)) (up_rest cluster nodes cfg b))) u2 = (r, v)"
  have t2: "track u2 = track u" by (rule keepsD [OF keeps_track_wait wait])
  show ?thesis
  proof (cases "js = []")
    case True
    with rest have "track v = track u2" using keepsD [OF keeps_track_rest] by fastforce
    with t2 u True show ?thesis by (simp add: ordered_deploys_def track_def)
  next
    case False
    obtain q u3 where py: "pyinfra ''provision.py'' cfg names False u2 = (q, u3)" by fastforce
    have "infra_call u2 = infra_call w" by (rule infra_call_here) (use t2 u in \<open>simp_all add: track_def\<close>)
    with pyinfra_deploys [OF py] t2 u
    have d3: "deploys u3 = deploys w @ [first, infra_call w cfg ''provision.py'' names]" by (simp add: track_def)
    have k: "keeps track (andThen (for_each js (wait_health cluster)) (up_rest cluster nodes cfg b))"
      by (intro keeps_rules keeps_track_wait keeps_track_rest)
    have "track v = track u3"
    proof (cases q)
      case (Inl e)
      with rest py False show ?thesis by (simp add: andThen_run)
    next
      case (Inr y)
      with rest py False have "andThen (for_each js (wait_health cluster)) (up_rest cluster nodes cfg b) u3 = (r, v)"
        by (simp add: andThen_run [of "pyinfra x y z False" for x y z])
      then show ?thesis by (rule keepsD [OF k])
    qed
    with d3 wait u False show ?thesis by (auto simp: ordered_deploys_def track_def)
  qed
qed

lemma up_after_validate:
  assumes t: "track u = track w"
    and run: "andThen (ensure_keypair cfg) (andThen (pyinfra ''provision.py'' cfg [n] False) (andThen (wait_health cluster b)
        (if js = [] then up_rest cluster nodes cfg b
         else andThen (pyinfra ''provision.py'' cfg names False)
                (andThen (for_each js (wait_health cluster)) (up_rest cluster nodes cfg b))))) u = (r, v)"
  shows "ordered_deploys w cluster b (infra_call w cfg ''provision.py'' [n])
    (if js = [] then None else Some (infra_call w cfg ''provision.py'' names)) r v"
proof -
  obtain q u2 where key: "ensure_keypair cfg u = (q, u2)" by fastforce
  have t2: "track u2 = track w" using t keepsD [OF keeps_track_keypair key] by simp
  obtain p u3 where py: "pyinfra ''provision.py'' cfg [n] False u2 = (p, u3)" by fastforce
  have d3: "deploys u3 = deploys w @ [infra_call w cfg ''provision.py'' [n]]" "ow_cwd u3 = ow_cwd w" "ow_here u3 = ow_here w"
    using pyinfra_deploys [OF py, unfolded infra_call_track [OF t2]] t2 by (simp_all add: track_def)
  note steps = andThen_run [of "ensure_keypair cfg"] andThen_run [of "pyinfra x y z False" for x y z]
  show ?thesis
  proof (cases "\<exists>a b. q = Inr a \<and> p = Inr b")
    case True
    then have "andThen (wait_health cluster b)
        (if js = [] then up_rest cluster nodes cfg b
         else andThen (pyinfra ''provision.py'' cfg names False)
                (andThen (for_each js (wait_health cluster)) (up_rest cluster nodes cfg b))) u3 = (r, v)"
      using run key py by (auto simp: steps)
    from up_after_boot [OF this d3] show ?thesis .
  next
    case False
    then show ?thesis
      using run key py d3 t2 by (cases q; cases p) (auto simp: steps ordered_deploys_def track_def)
  qed
qed


lemma sample_boot: "find boot_flag sample_nodes = Some (sample_nodes ! 0)"
  "filter (\<lambda>n. \<not> boot_flag n) sample_nodes = [sample_nodes ! 1]"
  by (simp_all add: sample_nodes_def boot_flag_def field_or_def)


end
