(* ===== verification/PreflightProps.thy ===== *)
theory PreflightProps
  imports ScriptProps
begin

text \<open>
  The preflight's exit code, the hosts of the inventory, and the teardown's operations.
\<close>

section \<open>The preflight's exit code\<close>

text \<open>Probes as functions of the command: what the node answers, whatever ran before.\<close>

definition answers :: "op_world \<Rightarrow> (op_call \<Rightarrow> int \<times> string \<times> string) \<Rightarrow> bool" where
  "answers w f \<longleftrightarrow> (\<forall>l c fs. ow_exec w l c fs = (Inr (f c), fs))"

definition pre_call :: "json \<Rightarrow> json \<Rightarrow> json list \<Rightarrow> op_call" where
  "pre_call cluster n nodes =
     (call_of ([''ssh'', ''-A'', ''-o'', ''StrictHostKeyChecking=accept-new'', ''-o'', ''BatchMode=yes'',
        ''-o'', ''ConnectTimeout=8'',
        show_val (field_or ''ssh_user'' (JStr ''ubuntu'') cluster) @ ''@'' @ show_val (target_of n),
        ''bash'', ''-s'', ''--'']
       @ map show_val ([field_or ''repo_url'' (JStr []) cluster, field_or ''http_port'' (JInt 8000) cluster,
           field_or ''rqlite_http_port'' (JInt 4001) cluster, field_or ''rqlite_raft_port'' (JInt 4002) cluster,
           field_or ''domain'' (JStr []) n, field_or ''public_host'' (JStr []) n]
          @ map (field ''host'') (filter (\<lambda>m. field ''name'' m \<noteq> field ''name'' n) nodes))))
       \<lparr>oc_input := Some remote_check, oc_timeout := Some 90\<rparr>"

definition pre_out :: "int \<times> string \<times> string \<Rightarrow> string" where
  "pre_out a = (case a of (rc, out, err) \<Rightarrow>
     out @ (if rc \<noteq> 0 \<and> out = [] then newline # ''_ssh|FAIL|'' @ strip err else []))"

definition rows_pass :: "probe_row list \<Rightarrow> bool" where
  "rows_pass rows \<longleftrightarrow> rows \<noteq> [] \<and> (\<forall>(_, s, _) \<in> set rows. s \<noteq> ''FAIL'')"

lemma pre_ssh_target_run: "node_ok n \<Longrightarrow> pre_ssh_target n s = (Inr (target_of n), s)"
  using reach_host_run [of n s] by (simp add: pre_ssh_target_def reach_host_def)

lemma pre_args_run:
  assumes "is_obj cluster" "node_ok n" "\<forall>m \<in> set nodes. node_ok m"
  shows "pre_args cluster n nodes s =
    (Inr (map show_val ([field_or ''repo_url'' (JStr []) cluster, field_or ''http_port'' (JInt 8000) cluster,
           field_or ''rqlite_http_port'' (JInt 4001) cluster, field_or ''rqlite_raft_port'' (JInt 4002) cluster,
           field_or ''domain'' (JStr []) n, field_or ''public_host'' (JStr []) n]
          @ map (field ''host'') (filter (\<lambda>m. field ''name'' m \<noteq> field ''name'' n) nodes))), s)"
proof -
  have a: "filter_prog (\<lambda>m. bnd (item ''name'' m) (\<lambda>a. bnd (item ''name'' n) (\<lambda>b. ret (a \<noteq> b)))) nodes s
      = (Inr (filter (\<lambda>m. field ''name'' m \<noteq> field ''name'' n) nodes), s)"
    by (rule filter_prog_run) (use assms in \<open>simp add: bnd_run item_field node_ok_def\<close>)
  have b: "map_prog (item ''host'') (filter (\<lambda>m. field ''name'' m \<noteq> field ''name'' n) nodes) s
      = (Inr (map (field ''host'') (filter (\<lambda>m. field ''name'' m \<noteq> field ''name'' n) nodes)), s)"
    by (rule map_prog_run) (use assms in \<open>simp add: item_field node_ok_def\<close>)
  show ?thesis
    by (simp add: pre_args_def bnd_run a b getd_field assms(1) node_ok_obj [OF assms(2)])
qed

lemma pre_probe_run:
  assumes "answers w f" "is_obj cluster" "node_ok n" "\<forall>m \<in> set nodes. node_ok m"
  shows "\<exists>v. pre_probe cluster n nodes False w = (Inr (pre_out (f (pre_call cluster n nodes))), v) \<and>
    answers v f \<and> ow_out v = ow_out w"
  using assms(1)
  by (cases "f (pre_call cluster n nodes)")
     (auto simp: pre_probe_def bnd_run pre_args_run [OF assms(2-4)] getd_field assms(2)
       pre_ssh_target_run [OF assms(3)] guarded_run subprocess_run answers_def pre_call_def pre_out_def)

lemma for_each_say: "for_each xs (\<lambda>x. say (g x)) w = (Inr (), w\<lparr>ow_out := ow_out w @ map g xs\<rparr>)"
  by (induction xs arbitrary: w) (simp_all add: andThen_run say_run)

lemma pre_render_run:
  assumes "node_ok n"
  shows "\<exists>l. pre_render n rows w = (Inr (rows_pass rows), w\<lparr>ow_out := ow_out w @ l\<rparr>)"
proof -
  have h: "has ''name'' n" using assms by (simp add: node_ok_def)
  have t: "list_all (\<lambda>(_, s, _). s \<noteq> ''FAIL'') rows = (\<forall>(_, s, _) \<in> set rows. s \<noteq> ''FAIL'')"
    by (simp add: list_all_iff)
  show ?thesis
    by (auto simp: pre_render_def bnd_run item_field [OF h] pre_ssh_target_run [OF assms] andThen_run say_run
        case_prod_unfold for_each_say rows_pass_def list_all_iff)
qed

lemma pre_probes_run:
  assumes "answers w f" "is_obj cluster" "\<forall>m \<in> set nodes. node_ok m" "set ns \<subseteq> set nodes"
  shows "\<exists>v. map_prog (\<lambda>n. bnd (pre_probe cluster n nodes False) (\<lambda>out. ret (n, pre_parse out))) ns w
      = (Inr (map (\<lambda>n. (n, pre_parse (pre_out (f (pre_call cluster n nodes))))) ns), v) \<and> ow_out v = ow_out w"
  using assms(1,4)
proof (induction ns arbitrary: w)
  case Nil
  then show ?case by simp
next
  case (Cons n ns)
  have "node_ok n" using assms(3) Cons.prems(2) by simp
  then obtain v where v: "pre_probe cluster n nodes False w = (Inr (pre_out (f (pre_call cluster n nodes))), v)"
    "answers v f" "ow_out v = ow_out w"
    using pre_probe_run [OF Cons.prems(1) assms(2) _ assms(3)] by blast
  with Cons.IH [OF v(2)] Cons.prems(2) show ?case by (auto simp: bnd_run)
qed

lemma pre_renders_run:
  assumes "\<forall>(n, rows) \<in> set rs. node_ok n"
  shows "\<exists>l. map_prog (\<lambda>(n, rows). pre_render n rows) rs w
    = (Inr (map (\<lambda>(n, rows). rows_pass rows) rs), w\<lparr>ow_out := ow_out w @ l\<rparr>)"
  using assms
proof (induction rs arbitrary: w)
  case Nil
  then show ?case by (auto intro!: exI [of _ "[]"])
next
  case (Cons r rs)
  obtain n rows where r: "r = (n, rows)" by fastforce
  with Cons.prems have "node_ok n" by simp
  then obtain l where "pre_render n rows w = (Inr (rows_pass rows), w\<lparr>ow_out := ow_out w @ l\<rparr>)"
    using pre_render_run by blast
  then show ?case
    using Cons.IH [of "w\<lparr>ow_out := ow_out w @ l\<rparr>"] Cons.prems r by (auto simp: bnd_run)
qed

definition overlap_line :: "string \<Rightarrow> json list \<Rightarrow> string" where
  "overlap_line cidr clashes = ''[FAIL] vpc_cidr '' @ cidr @ '' overlaps node underlay IPs '' @ repr (JList clashes)
     @ '' '' @ em_dash @ '' pick a non-overlapping range''"

text \<open>C38: the preflight exits with 0 exactly when every node's probe answered with at least one row and no
  row failed. The check of the VPC range takes no part in it: an overlap prints a FAIL line, and the
  exit code is the same.\<close>

theorem preflight_exit:
  assumes load: "pre_load p w = (Inr data, w)" "p \<noteq> []"
    and data: "is_obj data" "has ''nodes'' data" "field ''nodes'' data = JList nodes"
      "field_or ''cluster'' (JObj []) data = cluster" "is_obj cluster" "\<forall>n \<in> set nodes. node_ok n"
    and cidr: "cidr_clashes cluster nodes w = (Inr (vpc_range, clashes), w)"
    and nodes: "answers w f"
  shows "\<exists>v. pre_main \<lparr>pa_inventory = Some p, pa_local = False, pa_print = False\<rparr> w =
      (Inr (if \<forall>n \<in> set nodes. rows_pass (pre_parse (pre_out (f (pre_call cluster n nodes)))) then 0 else 1), v) \<and>
    (if clashes = [] then True else overlap_line vpc_range clashes \<in> set (ow_out v))"
proof -
  let ?rows = "\<lambda>n. pre_parse (pre_out (f (pre_call cluster n nodes)))"
  obtain w1 where w1: "check_cidr cluster nodes w = (Inr (), w1)" "answers w1 f"
    and c: "if clashes = [] then True else overlap_line vpc_range clashes \<in> set (ow_out w1)"
  proof (cases "clashes = []")
    case True
    then show ?thesis using nodes that [OF _ _ _]
      by (simp add: check_cidr_def bnd_run cidr say_run answers_def)
  next
    case False
    then show ?thesis using nodes that [OF _ _ _]
      by (simp add: check_cidr_def bnd_run cidr say_run answers_def overlap_line_def)
  qed
  obtain w2 where w2: "map_prog (\<lambda>n. bnd (pre_probe cluster n nodes False) (\<lambda>out. ret (n, pre_parse out))) nodes w1
      = (Inr (map (\<lambda>n. (n, ?rows n)) nodes), w2)" "ow_out w2 = ow_out w1"
    using pre_probes_run [OF w1(2) data(5,6) subset_refl] by blast
  obtain l where r: "map_prog (\<lambda>(n, rows). pre_render n rows) (map (\<lambda>n. (n, ?rows n)) nodes) w2
      = (Inr (map (\<lambda>(n, rows). rows_pass rows) (map (\<lambda>n. (n, ?rows n)) nodes)), w2\<lparr>ow_out := ow_out w2 @ l\<rparr>)"
    using pre_renders_run [of "map (\<lambda>n. (n, ?rows n)) nodes" w2] data(6) by auto
  have all: "list_all (\<lambda>b. b) (map (\<lambda>(n, rows). rows_pass rows) (map (\<lambda>n. (n, ?rows n)) nodes))
      = (\<forall>n \<in> set nodes. rows_pass (?rows n))" by (simp add: list_all_iff)
  have p: "truthy_str (Some p) = Some p" using load(2) by (simp add: truthy_str_def)
  show ?thesis
    using c w2(2)
    by (simp add: pre_main_def p bnd_run andThen_run load(1) getd_field data item_field elems_JList w1(1) w2(1) r
        Let_def say_run all del: map_map)
qed

definition net24 :: ipnet where
  "net24 = \<lparr>net_int = 167772160, net_plen = 24\<rparr>"

definition node_ip :: string where
  "node_ip = ip_str 167772171"

definition overlapping :: json where
  "overlapping = JObj [(''cluster'', JObj [(''vpc_cidr'', JStr (net_str net24))]),
     (''nodes'', JList [JObj [(''name'', JStr ''n1''), (''host'', JStr node_ip)]])]"

definition ready_ops :: op_world where
  "ready_ops = (op0 overlapping)\<lparr>ow_exec := \<lambda>_ _ f. (Inr (0, ''os|PASS|Ubuntu 24.04'', []), f)\<rparr>"

lemma ready_rows: "rows_pass (pre_parse (pre_out (0, ''os|PASS|Ubuntu 24.04'', [])))"
  by code_simp

lemma overlapping_clash:
  "ip_network (net_str net24) = Inr net24" "ip_of_string node_ip = Some 167772171" "in_net 167772171 net24"
  by (rule ip_network_net_str) (simp_all add: net24_def net_ok_def node_ip_def ip_roundtrip in_net_def)

lemma ready_load: "pre_load ''cluster.toml'' ready_ops = (Inr overlapping, ready_ops)"
proof -
  have "abs_path ready_ops ''cluster.toml'' = [''ops'', ''cluster.toml'']"
    by (simp add: abs_path_def ready_ops_def op0_def split_on_free startswith_def)
  moreover have "map_of (ow_fs ready_ops) [''ops'', ''cluster.toml''] = Some (File ''toml'')"
    "ow_toml ready_ops = (\<lambda>_. Inr overlapping)"
    by (simp_all add: ready_ops_def op0_def)
  ultimately have r: "read_toml ''cluster.toml'' ready_ops = (Inr overlapping, ready_ops)"
    by (simp add: read_toml_def op_read_def bnd_run)
  have "is_obj overlapping" "truthy (field ''nodes'' overlapping)"
    by (simp_all add: overlapping_def is_obj_def field_or_def)
  with r show ?thesis by (simp add: pre_load_def bnd_run getd_field)
qed

theorem preflight_exit_witness:
  "\<exists>v. pre_main \<lparr>pa_inventory = Some ''cluster.toml'', pa_local = False, pa_print = False\<rparr> ready_ops = (Inr 0, v) \<and>
    overlap_line (net_str net24) [JStr node_ip] \<in> set (ow_out v)"
proof -
  let ?cluster = "JObj [(''vpc_cidr'', JStr (net_str net24))]"
  let ?nodes = "[JObj [(''name'', JStr ''n1''), (''host'', JStr node_ip)]]"
  have c: "cidr_clashes ?cluster ?nodes ready_ops = (Inr (net_str net24, [JStr node_ip]), ready_ops)"
    by (simp add: cidr_clashes_def bnd_run getd_run item_run ip_address_def overlapping_clash)
  have n: "\<forall>n \<in> set ?nodes. node_ok n" "is_obj ?cluster"
    by (simp_all add: node_ok_def has_def is_obj_def)
  have a: "answers ready_ops (\<lambda>_. (0, ''os|PASS|Ubuntu 24.04'', []))" by (simp add: answers_def ready_ops_def)
  have d: "is_obj overlapping" "has ''nodes'' overlapping" "field ''nodes'' overlapping = JList ?nodes"
    "field_or ''cluster'' (JObj []) overlapping = ?cluster"
    by (simp_all add: overlapping_def is_obj_def has_def field_or_def)
  show ?thesis
    using preflight_exit [OF ready_load _ d n(2,1) c a] ready_rows by simp
qed

section \<open>The hosts of the inventory\<close>

definition entry_for :: "json \<Rightarrow> json \<Rightarrow> json \<Rightarrow> json \<times> host_data \<Rightarrow> bool" where
  "entry_for cluster boot n e \<longleftrightarrow> fst e = field ''name'' n \<and>
     hd_ssh_user (snd e) = field_or ''ssh_user'' (JStr ''ubuntu'') cluster \<and> hd_ssh_hostname (snd e) = target_of n \<and>
     hd_role (snd e) = (if boot_flag n then ''bootstrap'' else ''join'') \<and>
     hd_join_target (snd e) = show_val (field ''host'' boot) @ '':'' @ show_val (raft_of cluster)"

lemma inv_entries:
  assumes "cluster_ok cluster" "node_ok boot" "\<forall>n \<in> set nodes. node_ok n"
  shows "\<exists>hs. map_prog (host_entry cluster boot kd) nodes s = (Inr hs, s) \<and>
    list_all2 (entry_for cluster boot) nodes hs"
  using assms(3)
proof (induction nodes)
  case Nil
  then show ?case by simp
next
  case (Cons n ns)
  from Cons.prems have "node_ok n" by simp
  then obtain e where "host_entry cluster boot kd n s = (Inr e, s)" "entry_for cluster boot n e"
    using host_entry_run [OF _ assms(2,1), of n kd s] by (auto simp: entry_for_def)
  with Cons show ?case by (auto simp: bnd_run)
qed

lemma inv_entries_facts:
  assumes "list_all2 (entry_for cluster boot) nodes hs" "is_obj cluster" "\<forall>n \<in> set nodes. node_ok n"
  shows "map fst hs = map (field ''name'') nodes"
    and "map (\<lambda>(_, h). show_val (hd_ssh_user h) @ ''@'' @ show_val (hd_ssh_hostname h)) hs
      = map (\<lambda>n. case fst (ssh_target cluster n s) of Inr t \<Rightarrow> t | Inl _ \<Rightarrow> []) nodes"
    and "length (filter (\<lambda>(_, h). hd_role h = ''bootstrap'') hs) = length (filter boot_flag nodes)"
    and "\<forall>(_, h) \<in> set hs. hd_join_target h = show_val (field ''host'' boot) @ '':'' @ show_val (raft_of cluster)"
  using assms(1,3)
  by (induction rule: list_all2_induct)
     (simp_all add: entry_for_def ssh_target_run assms(2) case_prod_unfold)

text \<open>C37: for a cluster that passes \<open>deploy.py\<close>'s validation, the inventory lists the nodes in order,
  pyinfra reaches each at the very address \<open>deploy.py\<close> uses for ssh, exactly one has the bootstrap
  role, and all the others join at its underlay address and raft port.\<close>

theorem inventory_matches_deploy:
  assumes "is_obj data" "has ''nodes'' data" "field ''nodes'' data = JList nodes"
    and "field_or ''cluster'' (JObj []) data = cluster" "cluster_ok cluster" "\<forall>n \<in> set nodes. node_ok n"
    and valid: "validate cluster nodes s = (Inr (), s)"
  shows "\<exists>hs boot. inv_hosts p data s = (Inr hs, s) \<and> bootstrap_of nodes s = (Inr boot, s) \<and>
    map fst hs = map (field ''name'') nodes \<and>
    map (\<lambda>(_, h). show_val (hd_ssh_user h) @ ''@'' @ show_val (hd_ssh_hostname h)) hs
      = map (\<lambda>n. case fst (ssh_target cluster n s) of Inr t \<Rightarrow> t | Inl _ \<Rightarrow> []) nodes \<and>
    length (filter (\<lambda>(_, h). hd_role h = ''bootstrap'') hs) = 1 \<and>
    (\<forall>(_, h) \<in> set hs. hd_join_target h = show_val (field ''host'' boot) @ '':'' @ show_val (raft_of cluster))"
proof -
  have c: "is_obj cluster" using assms(5) by (auto simp: cluster_ok_def dest: has_is_obj)
  have "filter_prog is_boot nodes s = (Inr (filter boot_flag nodes), s)"
    by (rule filter_prog_run) (use assms(6) in \<open>simp add: is_boot_run node_ok_obj\<close>)
  with valid have one: "length (filter boot_flag nodes) = 1"
    by (auto simp: validate_def bnd_run split: if_splits)
  then have "\<exists>n \<in> set nodes. boot_flag n" by (cases "filter boot_flag nodes") (auto simp: filter_eq_Cons_iff)
  then obtain b where b: "b \<in> set nodes" "bootstrap_of nodes s = (Inr b, s)"
    using bootstrap_run [OF assms(6), of s] by auto
  have bn: "next_prog is_boot nodes s = (Inr b, s)" using b(2) by (simp add: bootstrap_of_def)
  obtain hs where hs: "map_prog (host_entry cluster b (butlast p @ [''.nyc-deploy''])) nodes s = (Inr hs, s)"
    and all: "list_all2 (entry_for cluster b) nodes hs"
    using inv_entries [OF assms(5) _ assms(6), of b "butlast p @ [''.nyc-deploy'']" s] b(1) assms(6) by auto
  have inv: "inv_hosts p data s = (Inr hs, s)"
    using assms(1-4) by (simp add: inv_hosts_def bnd_run getd_field item_field elems_JList bn hs)
  note facts = inv_entries_facts [OF all c assms(6)]
  show ?thesis
    using inv b(2) facts(1) facts(2) [of s] facts(3) [unfolded one] facts(4) by (intro exI conjI)
qed

definition net16 :: ipnet where
  "net16 = \<lparr>net_int = 2886729728, net_plen = 16\<rparr>"

definition small_cluster :: json where
  "small_cluster = JObj [(''repo_url'', JStr ''git@example.com:equator.git''), (''vpc_cidr'', JStr (net_str net16))]"

definition small_nodes :: "json list" where
  "small_nodes =
     [JObj [(''name'', JStr ''n1''), (''host'', JStr node_ip), (''bootstrap'', JBool True)],
      JObj [(''name'', JStr ''n2''), (''host'', JStr (ip_str 167772172)), (''public_host'', JStr ''203.0.113.2'')]]"

definition small_data :: json where
  "small_data = JObj [(''cluster'', small_cluster), (''nodes'', JList small_nodes)]"

lemma small_valid: "validate small_cluster small_nodes s = (Inr (), s)"
proof -
  have n: "ip_network (net_str net16) = Inr net16"
    by (rule ip_network_net_str) (simp add: net16_def net_ok_def)
  have i: "\<not> in_net 167772171 net16" "\<not> in_net 167772172 net16" by (simp_all add: in_net_def net16_def)
  have b: "filter_prog is_boot small_nodes s = (Inr [hd small_nodes], s)"
    by (simp add: small_nodes_def is_boot_def bnd_run getd_run)
  have c: "cidr_clashes small_cluster small_nodes s = (Inr (net_str net16, []), s)"
    by (simp add: cidr_clashes_def small_cluster_def small_nodes_def bnd_run getd_run item_run ip_address_def n
        overlapping_clash(2) ip_roundtrip i)
  show ?thesis by (simp add: validate_def bnd_run b c)
qed

theorem inventory_matches_deploy_witness:
  "\<exists>hs. inv_hosts [''ops'', ''cluster.toml''] small_data () = (Inr hs, ()) \<and>
    map fst hs = [JStr ''n1'', JStr ''n2''] \<and> length (filter (\<lambda>(_, h). hd_role h = ''bootstrap'') hs) = 1"
proof -
  have d: "is_obj small_data" "has ''nodes'' small_data" "field ''nodes'' small_data = JList small_nodes"
    "field_or ''cluster'' (JObj []) small_data = small_cluster" "cluster_ok small_cluster"
    "\<forall>n \<in> set small_nodes. node_ok n"
    by (simp_all add: small_data_def is_obj_def has_def field_or_def cluster_ok_def small_cluster_def
        small_nodes_def node_ok_def)
  have "map (field ''name'') small_nodes = [JStr ''n1'', JStr ''n2'']" by (simp add: small_nodes_def field_or_def)
  with inventory_matches_deploy [OF d small_valid, of "[''ops'', ''cluster.toml'']" "()"] show ?thesis by auto
qed

section \<open>What a teardown removes\<close>

lemma show_truthy: "truthy v \<Longrightarrow> show_val v \<noteq> []"
  by (cases v) (auto simp: show_val_def repr_str_def str_int_def)

text \<open>C39: a purging teardown does everything a plain one does, in the same order, and more. A plain one
  already removes the volume group the inventory names, data included. That is the group the node keeps
  its storage in exactly when a block device is configured: the group of a loopback file stays behind.\<close>

theorem teardown_removes_vg:
  assumes "truthy (hd_lvm_vg d)"
    and "lc_vg c = show_val (hd_lvm_vg d)"
    and "lc_device c = (if truthy (hd_lvm_device d) then Some (show_val (hd_lvm_device d)) else None)"
  shows "subseq (teardown_ops h False d) (teardown_ops h True d) \<and>
    (\<exists>cmds. Shell (''remove LVM vg '' @ show_val (hd_lvm_vg d)) cmds \<in> set (teardown_ops h False d) \<and>
       (''sudo -n vgremove -f -y '' @ show_val (hd_lvm_vg d) @ '' 2>/dev/null || true'') \<in> set cmds) \<and>
    (vg_for c node_id = show_val (hd_lvm_vg d)) = truthy (hd_lvm_device d)"
proof (intro conjI)
  show "subseq (teardown_ops h False d) (teardown_ops h True d)"
    unfolding teardown_ops_def
    by (simp add: list_emb_append_mono list_emb_append2 subseq_append')
  show "\<exists>cmds. Shell (''remove LVM vg '' @ show_val (hd_lvm_vg d)) cmds \<in> set (teardown_ops h False d) \<and>
       (''sudo -n vgremove -f -y '' @ show_val (hd_lvm_vg d) @ '' 2>/dev/null || true'') \<in> set cmds"
    using assms(1) by (auto simp: teardown_ops_def vg_ops_def)
  show "(vg_for c node_id = show_val (hd_lvm_vg d)) = truthy (hd_lvm_device d)"
    using show_truthy [of "hd_lvm_device d"] by (auto simp: vg_for_def assms(2,3) truthy_str_def)
qed

definition sample_host :: host_data where
  "sample_host =
     \<lparr>hd_ssh_hostname = JStr ''203.0.113.1'', hd_ssh_user = JStr ''ubuntu'', hd_forward_agent = True,
      hd_strict = ''accept-new'', hd_repo_url = JStr ''git@example.com:equator.git'', hd_ref = JStr ''main'',
      hd_remote_dir = JStr ''~/equator'', hd_node_host = JStr ''10.0.0.11'', hd_public_host = JStr ''203.0.113.1'',
      hd_domain = JStr [], hd_http_port = JInt 8000, hd_rqlite_http = JInt 4001, hd_rqlite_raft = JInt 4002,
      hd_dns = JStr ''1.1.1.1'', hd_role = ''bootstrap'', hd_join_target = ''10.0.0.11:4002'', hd_ttl = JInt 0,
      hd_lvm_device = JStr [], hd_lvm_vg = JStr ''nyc'', hd_lvm_thinpool = JStr ''pool'',
      hd_vm_key = ''/k'', hd_vm_pub = ''/k.pub'', hd_cluster_domain = JStr [], hd_public_iface = JStr [],
      hd_public_ips = JList [], hd_pubip_gateway = JStr [], hd_public_bridge = JStr ''pub0'',
      hd_public_host_cidr = JStr []\<rparr>"

definition sample_lvm :: lvm_config where
  "sample_lvm = \<lparr>lc_vg = ''nyc'', lc_thinpool = ''pool'', lc_device = None, lc_node_folder = [],
     lc_loop_size_gb = 20, lc_base_rootfs_mb = 4096\<rparr>"

theorem teardown_removes_vg_witness:
  "subseq (teardown_ops ''/root'' False sample_host) (teardown_ops ''/root'' True sample_host) \<and>
   vg_for sample_lvm ''n1'' \<noteq> ''nyc''"
  using teardown_removes_vg [of sample_host sample_lvm "''/root''" "''n1''"]
  by (simp add: sample_host_def sample_lvm_def)

end
