(* ===== verification/VmRequests.thy ===== *)
theory VmRequests
  imports CascadeProps LifeProps
begin

text \<open>
  VM requests from end to end: the router, the database, the allocator, the lifecycle programs and the
  simulator together. What a request for a new VM leaves in the tables and on the host, what the later
  requests about that VM answer, and that deleting it undoes all of it.
\<close>

section \<open>The specification a row stands for\<close>

definition paths_of :: "'db world \<Rightarrow> paths" where
  "paths_of w = (case fst (resolve w) of Inr p \<Rightarrow> p | Inl _ \<Rightarrow> \<lparr>p_node_folder = [], p_repo_root = []\<rparr>)"

definition bin_of :: "'db world \<Rightarrow> path" where
  "bin_of w = (case fst (firecracker_bin (paths_of w) w) of Inr b \<Rightarrow> b | Inl _ \<Rightarrow> [])"

text \<open>The specification of a VM as a function of the tables, the node's settings and its row.\<close>

definition spec_in ::
  "tables \<Rightarrow> 'db world \<Rightarrow> vm_row \<Rightarrow> string \<Rightarrow> string option \<Rightarrow> string option \<Rightarrow> string \<Rightarrow> vm_spec" where
  "spec_in T w row cidr vol key origin =
     \<lparr>vs_vm_id = vm_id row, vs_vm_name = vm_name row, vs_node_id = vm_node row, vs_vpc_id = vm_vpc row,
      vs_ip = vm_ip row, vs_cidr = cidr, vs_data_volume_path = vol,
      vs_assets = \<lparr>as_kernel = kernel_path (paths_of w), as_ssh_key = ssh_key_path (paths_of w)\<rparr>,
      vs_vms_dir = w_cwd w @ [''vms''], vs_firecracker_bin = bin_of w, vs_vg = vg_of w (vm_node row),
      vs_node_host = (case find (\<lambda>r. nd_id r = vm_node row) (t_nodes T) of
         None \<Rightarrow> Some ''127.0.0.1'' | Some r \<Rightarrow> nd_host r),
      vs_peer_hosts = map (\<lambda>r. the (nd_host r))
         (filter (\<lambda>r. nd_id r \<noteq> vm_node row \<and> nd_host r \<notin> LOOPBACK) (t_nodes T)),
      vs_dns = (case w_env w ''NYC_VM_DNS'' of None \<Rightarrow> ''1.1.1.1'' | Some d \<Rightarrow> d), vs_ssh_pubkey = key,
      vs_vcpu_count = (case vm_vcpu row of None \<Rightarrow> 1 | Some n \<Rightarrow> n),
      vs_mem_mib = (case vm_mem row of None \<Rightarrow> 512 | Some n \<Rightarrow> n), vs_rootfs_origin = origin,
      vs_public_ip = map_option pubip_spec_of (find (attached (vm_id row)) (t_pubips T))\<rparr>"

definition one_address :: "tables \<Rightarrow> string \<Rightarrow> bool" where
  "one_address T i \<longleftrightarrow> (\<forall>p \<in> set (t_pubips T). \<forall>q \<in> set (t_pubips T). attached i p \<and> attached i q \<longrightarrow> p = q)"

lemma resolve_paths: "resolve w = (Inr (paths_of w), w)" "vms_dir (paths_of w) = w_cwd w @ [''vms'']"
  by (simp_all add: paths_of_def resolve_def find_repo_root_def bnd_run vms_dir_def)

lemma bin_run: "firecracker_bin (paths_of w) w = (Inr (bin_of w), w)"
  by (simp add: bin_of_def firecracker_bin_def)

text \<open>Worlds with the same settings and files, and worlds whose hosts are in the same state, whatever the
  database and the outside sources are.\<close>

definition same_base :: "'db world \<Rightarrow> 'db world \<Rightarrow> bool" where
  "same_base w v \<longleftrightarrow> same_conf w v \<and> w_fs v = w_fs w \<and> w_tmp v = w_tmp w \<and> w_pkg_root v = w_pkg_root w"

definition same_host :: "'db world \<Rightarrow> 'db world \<Rightarrow> bool" where
  "same_host w v \<longleftrightarrow> same_base w v \<and> w_fake v = w_fake w"

lemma same_base_basic:
  assumes "same_base w v"
  shows "fs_at q v = fs_at q w" "on_fake v = on_fake w" "w_cwd v = w_cwd w"
    "vg_of v n = vg_of w n" "settings_ok v = settings_ok w" "fst (pubip v) = fst (pubip w)" "w_tmp v = w_tmp w"
proof -
  show "fs_at q v = fs_at q w" "on_fake v = on_fake w" "w_cwd v = w_cwd w" "w_tmp v = w_tmp w"
    using assms by (simp_all add: same_base_def fs_at_def on_fake_def backend_def same_conf_def)
  have c: "same_conf v w" using assms by (simp add: same_base_def same_conf_def)
  show "vg_of v n = vg_of w n" "settings_ok v = settings_ok w" "fst (pubip v) = fst (pubip w)"
    by (rule vg_of_same [OF c] settings_ok_same [OF c] reader_same [OF reader_pubip c])+
qed

lemma same_base_paths:
  assumes "same_base w v"
  shows "paths_of v = paths_of w" "bin_of v = bin_of w"
proof -
  note b = same_base_basic [OF assms]
  have "present q v = present q w" "is_dir q v = is_dir q w" for q by (simp_all add: present_def is_dir_def b)
  then have "path_exists q v = path_exists q w" for q by (simp add: path_exists_def b split: option.splits fnode.splits)
  then have "is_root_dir v q = is_root_dir w q" for q by (simp add: is_root_dir_def is_dir_def b)
  then have r: "is_root_dir v = is_root_dir w" by blast
  have "w_pkg_root v = w_pkg_root w" using assms by (simp add: same_base_def)
  then show p: "paths_of v = paths_of w"
    by (simp add: paths_of_def resolve_def bnd_run find_repo_root_def b r split: option.split)
  have "w_env v = w_env w" using assms by (simp add: same_base_def same_conf_def)
  then show "bin_of v = bin_of w" by (simp add: bin_of_def firecracker_bin_def p)
qed

lemma same_base_spec:
  assumes "same_base w v"
  shows "spec_in T v row cidr vol key og = spec_in T w row cidr vol key og"
proof -
  have "w_env v = w_env w" using assms by (simp add: same_base_def same_conf_def)
  then show ?thesis by (simp add: spec_in_def same_base_paths [OF assms] same_base_basic [OF assms])
qed

lemma same_hostD: "same_host w v \<Longrightarrow> same_base w v" "same_host w v \<Longrightarrow> w_fake v = w_fake w"
  by (simp_all add: same_host_def)

lemmas same_host_basic = same_base_basic [OF same_hostD(1)] same_hostD(2)
lemmas same_host_spec = same_base_spec [OF same_hostD(1)]

text \<open>Readiness for a VM depends on the network and the files, not on the volumes.\<close>

lemma same_base_ready:
  assumes "same_base w v" "f_ipt (w_fake v) = f_ipt (w_fake w)" "f_fdb (w_fake v) = f_fdb (w_fake w)"
  shows "vm_ready spec v = vm_ready spec w"
  by (simp add: vm_ready_def vm_fresh_def dirs_ok_def tmp_new_def pub_bridge_ok_def same_base_basic [OF assms(1)]
        ipt_ready_def overlay_ready_def fdb_wf_def fdb_of_def assms(2,3))

lemma same_host_ready: "same_host w v \<Longrightarrow> vm_ready spec v = vm_ready spec w"
  by (simp add: same_base_ready same_host_def)

lemma same_host_up:
  assumes "same_host w w'" "same_host v v'"
  shows "vm_is_up spec w' v' = vm_is_up spec w v" "vm_around spec w' v' = vm_around spec w v"
proof -
  note w = same_host_basic [OF assms(1)] and v = same_host_basic [OF assms(2)]
  have b: "pub_bridge_of w' = pub_bridge_of w" by (simp add: pub_bridge_of_def w)
  have "on_fake v \<Longrightarrow> fst (status_run root v') = fst (status_run root v)" for root
    using v by (simp add: status_fake_iff)
  then show "vm_is_up spec w' v' = vm_is_up spec w v" unfolding vm_is_up_def Let_def by (auto simp: v w b)
  show "vm_around spec w' v' = vm_around spec w v" unfolding vm_around_def Let_def by (simp add: v w)
qed

lemma same_host_updates [simp]:
  "same_host w (w\<lparr>w_nuuid := a, w_tick := b, w_db := d\<rparr>)" "same_host w (w\<lparr>w_db := d\<rparr>)" "same_host w w"
  by (simp_all add: same_host_def same_base_def same_conf_def)

lemma same_base_updates [simp]: "same_base w (w\<lparr>w_fake := s, w_nuuid := a, w_tick := b, w_db := d\<rparr>)"
  by (simp add: same_base_def same_conf_def)

context dadar
begin

lemma node_host_run:
  assumes "distinct (map nd_id (t_nodes (abs (w_db w))))"
  shows "node_host C n w = (Inr (case find (\<lambda>r. nd_id r = n) (t_nodes (abs (w_db w))) of
    None \<Rightarrow> Some ''127.0.0.1'' | Some r \<Rightarrow> nd_host r), w)"
proof -
  have "d_get (c_nodes C) (\<lambda>r. nd_id r = n) (w_db w) = find (\<lambda>r. nd_id r = n) (t_nodes (abs (w_db w)))"
    using assms by (intro nodes.get_find) (auto simp: distinct_map dest: inj_onD)
  then show ?thesis by (simp add: node_host_def bnd_run get_run)
qed

lemma spec_of_run:
  assumes "settings_ok w" "distinct (map nd_id (t_nodes (abs (w_db w))))" "one_address (abs (w_db w)) (vm_id row)"
  shows "spec_of C row cidr vol key origin w = (Inr (spec_in (abs (w_db w)) w row cidr vol key origin), w)"
proof -
  have "d_get (c_pubips C) (attached (vm_id row)) (w_db w) = find (attached (vm_id row)) (t_pubips (abs (w_db w)))"
    using assms(3) by (intro pubips.get_find) (auto simp: one_address_def)
  then have pip: "d_get (c_pubips C) (\<lambda>r. pi_vm r = Some (vm_id row) \<and> pi_status r = ''attached'') (w_db w)
      = find (attached (vm_id row)) (t_pubips (abs (w_db w)))"
    by (simp add: attached_def [abs_def])
  show ?thesis
    by (simp add: spec_of_def bnd_run resolve_paths get_run pip bin_run volume_vg_run [OF assms(1)] node_host_run [OF assms(2)]
          peer_hosts_def get_all_run nodes.all environ_def spec_in_def)
qed

text \<open>Bringing a VM up from its row: the VM runs and its row says so.\<close>

lemma bring_up_run:
  fixes row cidr vol key origin w
  defines "spec \<equiv> spec_in (abs (w_db w)) w row cidr vol key origin"
  assumes "settings_ok w" "distinct (map nd_id (t_nodes (abs (w_db w))))" "one_address (abs (w_db w)) (vm_id row)"
    and "vm_ready spec w"
  shows "\<exists>u d. bring_up C row cidr vol key origin w = (Inr (row\<lparr>vm_status := ''running''\<rparr>), u\<lparr>w_db := d\<rparr>) \<and>
    vm_is_up spec w u \<and> vm_frame spec w u \<and>
    abs d = t_vms_update (map (\<lambda>r. if vm_id r = vm_id row then r\<lparr>vm_status := ''running''\<rparr> else r)) (abs (w_db w))"
proof -
  obtain u where u: "vm_up spec w = (Inr (for_vm (vs_vms_dir spec) (vs_vm_id spec)), u)" "vm_is_up spec w u" "vm_frame spec w u"
    using vm_up_fake [OF assms(5)] by blast
  then have db: "w_db u = w_db w" by (auto simp: vm_frame_def)
  show ?thesis
    by (intro exI [of _ u] exI [of _ "d_update (c_vms C) (\<lambda>r. vm_id r = vm_id row) (\<lambda>r. r\<lparr>vm_status := ''running''\<rparr>) (w_db w)"])
       (simp add: bring_up_def bnd_run andThen_run spec_of_run [OF assms(2-4)] update_rows_def vms.update u db flip: spec_def)
qed

end

section \<open>Creating a VM\<close>

text \<open>The row \<open>POST /vms\<close> inserts, and a request that has all it needs, but for the host.\<close>

definition created_row :: "vm_in \<Rightarrow> string \<Rightarrow> string \<Rightarrow> 'db world \<Rightarrow> vm_row" where
  "created_row body n ip w =
     \<lparr>vm_id = w_uuid w (w_nuuid w), vm_node = n, vm_name = mi_name body, vm_vpc = mi_vpc body, vm_volume = mi_volume body,
      vm_ip = ip, vm_ssh = Some (path_str (ssh_key_path (paths_of w)) @ ''.pub''), vm_vcpu = None, vm_mem = None,
      vm_status = ''pending'', vm_created = w_time w (w_tick w)\<rparr>"

definition request_ok :: "tables \<Rightarrow> string \<Rightarrow> vm_in \<Rightarrow> vpc_row \<Rightarrow> string option \<Rightarrow> string \<Rightarrow> string \<Rightarrow> bool" where
  "request_ok T me body p vol ip i \<longleftrightarrow>
     truthy_str (mi_node body) \<in> {None, Some me} \<and> p \<in> set (t_vpcs T) \<and> vp_id p = mi_vpc body \<and>
     (case truthy_str (mi_volume body) of
        None \<Rightarrow> vol = None | Some k \<Rightarrow> \<exists>x \<in> set (t_volumes T). vo_id x = k \<and> vol = Some (vo_path x)) \<and>
     pick_ip (vp_cidr p) (vm_ip ` {r \<in> set (t_vms T). vm_vpc r = mi_vpc body}) = Inr ip \<and>
     (\<forall>x \<in> set (t_vms T). vm_id x \<noteq> i)"

text \<open>The world in which the new VM is brought up: one UUID and one reading of the clock later.\<close>

definition after_insert :: "'db \<Rightarrow> 'db world \<Rightarrow> 'db world" where
  "after_insert d w = w\<lparr>w_nuuid := Suc (w_nuuid w), w_tick := Suc (w_tick w), w_db := d\<rparr>"

context dadar
begin

lemma volume_run:
  assumes "distinct (map vo_id (t_volumes (abs (w_db w))))"
    and "case k of None \<Rightarrow> vol = None | Some v \<Rightarrow> \<exists>x \<in> set (t_volumes (abs (w_db w))). vo_id x = v \<and> vol = Some (vo_path x)"
  shows "(case k of None \<Rightarrow> ret None | Some v \<Rightarrow> bnd (volume_path C v) (\<lambda>p. ret (Some p))) w = (Inr vol, w)"
proof (cases k)
  case None
  with assms(2) show ?thesis by simp
next
  case (Some v)
  then obtain x where x: "x \<in> set (t_volumes (abs (w_db w)))" "vo_id x = v" "vol = Some (vo_path x)" using assms(2) by auto
  then show ?thesis
    using Some volumes.get_unique [of vo_id "w_db w" x] assms(1) by (simp add: volume_path_def bnd_run get_run)
qed

lemma used_run: "used_ips C v w = (Inr (vm_ip ` {r \<in> set (t_vms (abs (w_db w))). vm_vpc r = v}), w)"
  by (simp add: used_ips_def bnd_run get_all_run vms.all)

lemma create_vm_inserts:
  assumes inv: "db_inv (abs (w_db w))" and ok: "request_ok (abs (w_db w)) me body p vol ip (w_uuid w (w_nuuid w))"
  shows "\<exists>d. create_vm C me body w =
       locally (bring_up C (created_row body me ip w) (vp_cidr p) vol None GOLD_DEFAULT) (after_insert d w) \<and>
     abs d = t_vms_update (\<lambda>rs. rs @ [vm_defaults (created_row body me ip w)]) (abs (w_db w))"
proof -
  let ?row = "created_row body me ip w"
  have dist: "distinct (map vp_id (t_vpcs (abs (w_db w))))" "distinct (map vo_id (t_volumes (abs (w_db w))))"
    using inv by (simp_all add: inv_defs)
  have vpc: "vpc_or_400 C (mi_vpc body) w = (Inr p, w)"
    using vpcs.get_unique [of vp_id "w_db w" p] dist(1) ok by (simp add: vpc_or_400_def bnd_run get_run request_ok_def)
  note used = used_run [of "mi_vpc body" w]
  have ip: "pick_ip (vp_cidr p) (vm_ip ` {r \<in> set (t_vms (abs (w_db w))). vm_vpc r = mi_vpc body}) = Inr ip"
    using ok by (simp add: request_ok_def)
  have row: "row_of body me ip w = (Inr ?row, w\<lparr>w_nuuid := Suc (w_nuuid w), w_tick := Suc (w_tick w)\<rparr>)"
    by (simp add: row_of_def bnd_run resolve_paths uuid4_def now_def created_row_def)
  have "\<forall>x \<in> set (t_vms (abs (w_db w))). \<not> key_clash vm_id ?row x"
    using ok by (auto simp: request_ok_def key_clash_def created_row_def)
  then obtain d where d: "d_insert (c_vms C) ?row (w_db w) = Inr d"
    "abs d = t_vms_update (\<lambda>rs. rs @ [vm_defaults ?row]) (abs (w_db w))"
    using vms.insert_free by blast
  have vol: "(case truthy_str (mi_volume body) of None \<Rightarrow> ret None
      | Some v \<Rightarrow> bnd (volume_path C v) (\<lambda>p. ret (Some p))) w = (Inr vol, w)"
    using ok by (intro volume_run [OF dist(2)]) (simp add: request_ok_def)
  have "create_vm_local C body me w = bring_up C ?row (vp_cidr p) vol None GOLD_DEFAULT (after_insert d w)"
    by (simp add: create_vm_local_def bnd_run vpc vol used ip row andThen_run insert_row_def d(1) after_insert_def)
  moreover have "create_vm C me body w = locally (create_vm_local C body me) w"
    using ok by (auto simp: create_vm_def request_ok_def Let_def split: option.splits)
  ultimately show ?thesis using d(2) by (auto simp: locally_def bnd_run)
qed

text \<open>Whatever the backend does, a bring-up that raises leaves the database alone, and one that returns
  marks its row.\<close>

lemma bring_up_db:
  assumes "bring_up C row cidr vol key origin w = (r, v)"
  shows "case r of
      Inl _ \<Rightarrow> w_db v = w_db w
    | Inr x \<Rightarrow> x = row\<lparr>vm_status := ''running''\<rparr> \<and> abs (w_db v) =
        t_vms_update (map (\<lambda>r. if vm_id r = vm_id row then r\<lparr>vm_status := ''running''\<rparr> else r)) (abs (w_db w))"
proof -
  have q: "quiet (spec_of C row cidr vol key origin)"
    unfolding spec_of_def node_host_def peer_hosts_def by (intro quiet_rules quiet_get)
  obtain a u where u: "spec_of C row cidr vol key origin w = (a, u)" by fastforce
  then have db: "w_db u = w_db w" using keepsD [OF q] by (simp add: dbv_def)
  show ?thesis
  proof (cases a)
    case (Inl e)
    then show ?thesis using assms u db by (auto simp: bring_up_def bnd_run)
  next
    case (Inr spec)
    obtain b x where x: "vm_up spec u = (b, x)" by fastforce
    then have "w_db x = w_db w" using keepsD [OF quiet_vm(1) x] db by (simp add: dbv_def)
    then show ?thesis
      using assms u x Inr by (cases b) (auto simp: bring_up_def bnd_run andThen_run update_rows_def vms.update)
  qed
qed

lemma create_vm_db:
  assumes inv: "db_inv (abs (w_db w))" and ok: "request_ok (abs (w_db w)) me body p vol ip (vm_id (created_row body me ip w))"
    and run: "create_vm C me body w = (r, v)"
  shows "abs (w_db v) = t_vms_update (\<lambda>rs. rs @ [vm_defaults (created_row body me ip w)
    \<lparr>vm_status := (case r of Inl _ \<Rightarrow> ''pending'' | Inr _ \<Rightarrow> ''running'')\<rparr>]) (abs (w_db w))"
proof -
  let ?row = "created_row body me ip w"
  obtain d where d: "create_vm C me body w = locally (bring_up C ?row (vp_cidr p) vol None GOLD_DEFAULT) (after_insert d w)"
    "abs d = t_vms_update (\<lambda>rs. rs @ [vm_defaults ?row]) (abs (w_db w))"
    using create_vm_inserts [OF inv, of me body p vol ip] ok by (auto simp: created_row_def)
  obtain b u where u: "bring_up C ?row (vp_cidr p) vol None GOLD_DEFAULT (after_insert d w) = (b, u)" by fastforce
  have db: "w_db (after_insert d w) = d" by (simp add: after_insert_def)
  have "map (\<lambda>r. if vm_id r = vm_id ?row then r\<lparr>vm_status := ''running''\<rparr> else r) (t_vms (abs (w_db w))) = t_vms (abs (w_db w))"
    using ok by (intro map_idI) (auto simp: request_ok_def)
  moreover have "(vm_defaults ?row)\<lparr>vm_status := ''pending''\<rparr> = vm_defaults ?row"
    by (simp add: vm_defaults_def created_row_def)
  ultimately show ?thesis
    using bring_up_db [OF u] run d u by (cases b) (auto simp: locally_def bnd_run db)
qed

text \<open>On a host that is ready for it the VM runs, and its row, the only one added, says so.\<close>

lemma create_vm_run:
  fixes body me ip w p vol
  defines "row \<equiv> created_row body me ip w"
  defines "spec \<equiv> spec_in (abs (w_db w)) w row (vp_cidr p) vol None GOLD_DEFAULT"
  assumes inv: "db_inv (abs (w_db w))" and ok: "request_ok (abs (w_db w)) me body p vol ip (vm_id row)"
    and node: "settings_ok w" "distinct (map nd_id (t_nodes (abs (w_db w))))"
    and free: "\<forall>a \<in> set (t_pubips (abs (w_db w))). pi_vm a \<noteq> Some (vm_id row)" and ready: "vm_ready spec w"
  shows "\<exists>v. create_vm C me body w = (Inr (Local (row\<lparr>vm_status := ''running''\<rparr>)), v) \<and>
    abs (w_db v) = t_vms_update (\<lambda>rs. rs @ [vm_defaults row\<lparr>vm_status := ''running''\<rparr>]) (abs (w_db w)) \<and>
    vm_is_up spec w v \<and> vm_around spec w v \<and> same_conf w v"
proof -
  have "vm_id row = w_uuid w (w_nuuid w)" by (simp add: row_def created_row_def)
  with ok obtain d where d: "create_vm C me body w = locally (bring_up C row (vp_cidr p) vol None GOLD_DEFAULT) (after_insert d w)"
    "abs d = t_vms_update (\<lambda>rs. rs @ [vm_defaults row]) (abs (w_db w))"
    using create_vm_inserts [OF inv, of me body p vol ip] by (auto simp: row_def)
  let ?w = "after_insert d w"
  have host: "same_host w ?w" and db: "w_db ?w = d" by (simp_all add: after_insert_def)
  have spec: "spec_in (abs d) ?w row (vp_cidr p) vol None GOLD_DEFAULT = spec"
    by (simp add: same_host_spec [OF host] d(2) spec_def) (simp add: spec_in_def)
  have "one_address (abs (w_db ?w)) (vm_id row)" using free by (auto simp: one_address_def attached_def db d(2))
  moreover have "settings_ok ?w" "distinct (map nd_id (t_nodes (abs (w_db ?w))))" "vm_ready spec ?w"
    using node ready by (simp_all add: same_host_basic [OF host] same_host_ready [OF host] db d(2))
  ultimately obtain u e where u: "bring_up C row (vp_cidr p) vol None GOLD_DEFAULT ?w = (Inr (row\<lparr>vm_status := ''running''\<rparr>), u\<lparr>w_db := e\<rparr>)"
    "vm_is_up spec ?w u" "vm_frame spec ?w u"
    "abs e = t_vms_update (map (\<lambda>r. if vm_id r = vm_id row then r\<lparr>vm_status := ''running''\<rparr> else r)) (abs d)"
    using bring_up_run [of ?w row "vp_cidr p" vol None GOLD_DEFAULT] unfolding spec db by blast
  let ?v = "u\<lparr>w_db := e\<rparr>"
  have "vm_is_up spec w ?v" "vm_around spec w ?v"
    using u(2,3) same_host_up [OF host, of u u spec] same_host_up [of w w u ?v spec] by (simp_all add: vm_frame_def)
  moreover have "map (\<lambda>r. if vm_id r = vm_id row then r\<lparr>vm_status := ''running''\<rparr> else r) (t_vms (abs (w_db w))) = t_vms (abs (w_db w))"
    using ok by (intro map_idI) (auto simp: request_ok_def)
  then have "abs e = t_vms_update (\<lambda>rs. rs @ [vm_defaults row\<lparr>vm_status := ''running''\<rparr>]) (abs (w_db w))"
    by (simp add: u(4) d(2))
  moreover have "same_conf w ?v" using u(3) by (auto simp: vm_frame_def same_conf_def after_insert_def)
  ultimately show ?thesis using d(1) u(1) by (intro exI [of _ ?v]) (simp add: locally_def bnd_run)
qed

text \<open>Asking for a VM of this node.\<close>

lemma get_vm_run:
  assumes "distinct (map vm_id (t_vms (abs (w_db w))))" "r \<in> set (t_vms (abs (w_db w)))" "vm_node r = me" "on_fake w"
    and "fst (status_run (for_vm (w_cwd w @ [''vms'']) (vm_id r)) w) = Inr st"
  shows "get_vm C me (vm_id r) w = (Inr (Local (r, st)), w)"
proof -
  have "status_run (for_vm (w_cwd w @ [''vms'']) (vm_id r)) w = (Inr st, w)"
    using assms(4,5) by (simp add: status_fake_iff)
  then show ?thesis
    using vms.get_unique [of vm_id "w_db w" r] assms(1-3)
    by (simp add: get_vm_def bnd_run get_run or_404_run locally_def with_status_def resolve_paths)
qed

lemma get_vm_absent:
  assumes "\<forall>r \<in> set (t_vms (abs (w_db w))). vm_id r \<noteq> i"
  shows "get_vm C me i w = (Inl (HTTPException 404 ''vm not found''), w)"
proof -
  have "d_get (c_vms C) (\<lambda>r. vm_id r = i) (w_db w) = None" using assms by (simp only: vms.get_None)
  then show ?thesis by (simp add: get_vm_def bnd_run get_run or_404_run)
qed

lemma set_status_run:
  assumes "distinct (map vm_id (t_vms (abs (w_db w))))" "r \<in> set (t_vms (abs (w_db w)))"
  shows "\<exists>d. set_status C (vm_id r) st w = (Inr (r\<lparr>vm_status := st\<rparr>), w\<lparr>w_db := d\<rparr>) \<and>
    abs d = t_vms_update (map (\<lambda>x. if vm_id x = vm_id r then x\<lparr>vm_status := st\<rparr> else x)) (abs (w_db w))"
proof -
  let ?f = "\<lambda>x. if vm_id x = vm_id r then x\<lparr>vm_status := st\<rparr> else x"
  let ?d = "d_update (c_vms C) (\<lambda>x. vm_id x = vm_id r) (\<lambda>x. x\<lparr>vm_status := st\<rparr>) (w_db w)"
  have d: "abs ?d = t_vms_update (map ?f) (abs (w_db w))" by (rule vms.update)
  have "distinct (map vm_id (t_vms (abs ?d)))" "r\<lparr>vm_status := st\<rparr> \<in> set (t_vms (abs ?d))"
    using assms by (force simp: d map_cond simp del: map_map)+
  from vms.get_unique [OF this] have "d_get (c_vms C) (\<lambda>x. vm_id x = vm_id r) ?d = Some (r\<lparr>vm_status := st\<rparr>)" by simp
  with d show ?thesis by (intro exI [of _ ?d]) (simp add: set_status_def andThen_run bnd_run update_rows_def get_run)
qed

end

text \<open>What stopping and starting change on the host: the process and its pid file.\<close>

definition proc_only :: "path \<Rightarrow> 'db world \<Rightarrow> 'db world \<Rightarrow> bool" where
  "proc_only root w v \<longleftrightarrow> same_conf w v \<and> on_fake v \<and> pid_fine root v \<and>
     (\<forall>q. q \<noteq> vp_pid_file root \<longrightarrow> fs_at q v = fs_at q w) \<and> lv_map (w_fake v) = lv_map (w_fake w) \<and>
     f_netns (w_fake v) = f_netns (w_fake w) \<and> f_links (w_fake v) = f_links (w_fake w)"

lemma proc_only_trans: "proc_only root u v \<Longrightarrow> proc_only root v w \<Longrightarrow> proc_only root u w"
  by (simp add: proc_only_def same_conf_def)

lemma proc_only_db [simp]: "proc_only root w (v\<lparr>w_db := d\<rparr>) = proc_only root w v"
  by (simp add: proc_only_def same_conf_def pid_fine_def fs_at_def)

lemma status_db [simp]: "on_fake w \<Longrightarrow> fst (status_run root (w\<lparr>w_db := d\<rparr>)) = fst (status_run root w)"
  by (simp add: status_fake_iff)

lemma halted_only: "on_fake w \<Longrightarrow> proc_only root w (halted root k w)"
  by (simp add: proc_only_def pid_fine_def)
     (simp add: halted_def same_conf_def fs_drop_def set_fake_def sock_set_def)

lemma started_only: "on_fake w \<Longrightarrow> proc_only root w (started root w)"
  by (simp add: proc_only_def pid_fine_def parse_int_zero)
     (simp add: started_def same_conf_def fs_put_def set_fake_def sock_set_def)

context dadar
begin

lemma owner_run:
  assumes "distinct (map vm_id (t_vms (abs (w_db w))))" "r \<in> set (t_vms (abs (w_db w)))"
  shows "owner_or_404 C (vm_id r) w = (Inr (vm_node r), w)"
  using vms.get_unique [of vm_id "w_db w" r] assms by (simp add: owner_or_404_def bnd_run get_run or_404_run)

lemma stop_vm_run:
  assumes "distinct (map vm_id (t_vms (abs (w_db w))))" "r \<in> set (t_vms (abs (w_db w)))"
    and "on_fake w" "pid_fine (for_vm (w_cwd w @ [''vms'']) (vm_id r)) w"
  shows "\<exists>v. stop_vm C (vm_node r) (vm_id r) w = (Inr (Local (r\<lparr>vm_status := ''stopped''\<rparr>)), v) \<and>
    abs (w_db v) = t_vms_update (map (\<lambda>x. if vm_id x = vm_id r then x\<lparr>vm_status := ''stopped''\<rparr> else x)) (abs (w_db w)) \<and>
    fst (status_run (for_vm (w_cwd w @ [''vms'']) (vm_id r)) v) = Inr ''stopped'' \<and>
    proc_only (for_vm (w_cwd w @ [''vms'']) (vm_id r)) w v"
proof -
  let ?root = "for_vm (w_cwd w @ [''vms'']) (vm_id r)"
  obtain k where k: "kill_run ?root w = (Inr (), halted ?root k w)" using kill_fake [OF assms(3,4)] by blast
  let ?u = "halted ?root k w"
  have db: "w_db ?u = w_db w" by (simp add: halted_def set_fake_def fs_drop_def)
  obtain d where d: "set_status C (vm_id r) ''stopped'' ?u = (Inr (r\<lparr>vm_status := ''stopped''\<rparr>), ?u\<lparr>w_db := d\<rparr>)"
    "abs d = t_vms_update (map (\<lambda>x. if vm_id x = vm_id r then x\<lparr>vm_status := ''stopped''\<rparr> else x)) (abs (w_db w))"
    using set_status_run [of ?u r "''stopped''"] assms(1,2) unfolding db by blast
  show ?thesis
    using halted_stopped [OF assms(3), of ?root k] halted_only [OF assms(3), of ?root k] assms(3)
    by (intro exI [of _ "?u\<lparr>w_db := d\<rparr>"])
       (simp add: stop_vm_def on_owner_def bnd_run owner_run assms(1,2) locally_def stop_local_def resolve_paths
          vm_stop_def andThen_run k d)
qed

lemma start_vm_run:
  assumes "distinct (map vm_id (t_vms (abs (w_db w))))" "r \<in> set (t_vms (abs (w_db w)))"
    and "on_fake w" "pid_fine (for_vm (w_cwd w @ [''vms'']) (vm_id r)) w" "is_dir (for_vm (w_cwd w @ [''vms'']) (vm_id r)) w"
  shows "\<exists>v. start_vm C (vm_node r) (vm_id r) w = (Inr (Local (r\<lparr>vm_status := ''running''\<rparr>)), v) \<and>
    abs (w_db v) = t_vms_update (map (\<lambda>x. if vm_id x = vm_id r then x\<lparr>vm_status := ''running''\<rparr> else x)) (abs (w_db w)) \<and>
    fst (status_run (for_vm (w_cwd w @ [''vms'']) (vm_id r)) v) = Inr ''running'' \<and>
    proc_only (for_vm (w_cwd w @ [''vms'']) (vm_id r)) w v"
proof -
  let ?root = "for_vm (w_cwd w @ [''vms'']) (vm_id r)"
  let ?u = "started ?root w"
  have "fs_at (vp_pid_file ?root) w \<noteq> Some Dir" using assms(4) by (auto simp: pid_fine_def)
  note start_fake [OF assms(3,5) this]
  then have k: "vm_start (w_cwd w @ [''vms'']) (vm_id r) ns bin w = (Inr (), ?u)" for ns bin by (simp add: vm_start_def Let_def)
  have db: "w_db ?u = w_db w" by (simp add: started_def set_fake_def fs_put_def)
  obtain d where d: "set_status C (vm_id r) ''running'' ?u = (Inr (r\<lparr>vm_status := ''running''\<rparr>), ?u\<lparr>w_db := d\<rparr>)"
    "abs d = t_vms_update (map (\<lambda>x. if vm_id x = vm_id r then x\<lparr>vm_status := ''running''\<rparr> else x)) (abs (w_db w))"
    using set_status_run [of ?u r "''running''"] assms(1,2) unfolding db by blast
  show ?thesis
    using started_running [OF assms(3), of ?root] started_only [OF assms(3), of ?root] assms(3)
    by (intro exI [of _ "?u\<lparr>w_db := d\<rparr>"])
       (simp add: start_vm_def on_owner_def bnd_run owner_run assms(1,2) locally_def start_local_def resolve_paths
          bin_run andThen_run k d)
qed

end

section \<open>From request to request\<close>

text \<open>A VM nobody has heard of, as one with a fresh UUID is.\<close>

definition unknown_vm :: "tables \<Rightarrow> string \<Rightarrow> bool" where
  "unknown_vm T i \<longleftrightarrow> (\<forall>r \<in> set (t_vms T). vm_id r \<noteq> i) \<and> (\<forall>a \<in> set (t_pubips T). pi_vm a \<noteq> Some i) \<and>
     (\<forall>x \<in> set (t_domains T). do_vm x \<noteq> i) \<and> (\<forall>x \<in> set (t_proxies T). px_vm x \<noteq> i)"

text \<open>A state in which exactly one VM has been added to the tables and to the host of another.\<close>

definition hosted :: "('db \<Rightarrow> tables) \<Rightarrow> 'db world \<Rightarrow> vm_row \<Rightarrow> 'db world \<Rightarrow> bool" where
  "hosted view w r v \<longleftrightarrow>
     (let root = for_vm (w_cwd w @ [''vms'']) (vm_id r); key = (vg_of w (vm_node r), rootfs_name (vm_id r)) in
      view (w_db v) = t_vms_update (\<lambda>rs. rs @ [r]) (view (w_db w)) \<and> same_conf w v \<and> on_fake v \<and>
      fs_at root v = Some Dir \<and> pid_fine root v \<and>
      (\<forall>q. \<not> prefix root q \<and> \<not> prefix q root \<longrightarrow> fs_at q v = fs_at q w) \<and>
      (\<forall>k. k \<noteq> key \<longrightarrow> lv_map (w_fake v) k = lv_map (w_fake w) k) \<and>
      f_netns (w_fake v) = insert (Some (ns_name (vm_id r))) (f_netns (w_fake w)))"

lemma hosted_proc:
  assumes "hosted view w r u" "proc_only (for_vm (w_cwd w @ [''vms'']) (vm_id r)) u v"
    and "view (w_db v) = t_vms_update (\<lambda>rs. rs @ [r\<lparr>vm_status := st\<rparr>]) (view (w_db w))"
  shows "hosted view w (r\<lparr>vm_status := st\<rparr>) v"
proof -
  have "q \<noteq> vp_pid_file root" if "\<not> prefix root q" for q root using that by (auto simp: vp_pid_file_def)
  moreover have "root \<noteq> vp_pid_file root" for root by (simp add: vp_pid_file_def)
  moreover have "same_conf w v" using assms(1,2) by (simp add: hosted_def Let_def proc_only_def same_conf_def)
  ultimately show ?thesis
    using assms by (simp add: hosted_def Let_def proc_only_def)
qed

context dadar
begin

lemma hosted_facts:
  assumes "hosted abs w r v" "db_inv (abs (w_db w))" "\<forall>x \<in> set (t_vms (abs (w_db w))). vm_id x \<noteq> vm_id r"
  shows "distinct (map vm_id (t_vms (abs (w_db v))))" "r \<in> set (t_vms (abs (w_db v)))" "w_cwd v = w_cwd w" "on_fake v"
    "pid_fine (for_vm (w_cwd w @ [''vms'']) (vm_id r)) v" "fs_at (for_vm (w_cwd w @ [''vms'']) (vm_id r)) v = Some Dir"
  using assms by (auto simp: hosted_def Let_def inv_defs same_conf_def)

lemma hosted_map:
  assumes "hosted abs w r v" "\<forall>x \<in> set (t_vms (abs (w_db w))). vm_id x \<noteq> vm_id r"
  shows "t_vms_update (map (\<lambda>x. if vm_id x = vm_id r then x\<lparr>vm_status := st\<rparr> else x)) (abs (w_db v)) =
    t_vms_update (\<lambda>rs. rs @ [r\<lparr>vm_status := st\<rparr>]) (abs (w_db w))"
proof -
  have "map (\<lambda>x. if vm_id x = vm_id r then x\<lparr>vm_status := st\<rparr> else x) (t_vms (abs (w_db w))) = t_vms (abs (w_db w))"
    using assms(2) by (intro map_idI) auto
  then show ?thesis using assms(1) by (simp add: hosted_def Let_def)
qed

lemma hosted_stop:
  assumes h: "hosted abs w r u" and i: "db_inv (abs (w_db w))" "\<forall>x \<in> set (t_vms (abs (w_db w))). vm_id x \<noteq> vm_id r"
  shows "\<exists>v. stop_vm C (vm_node r) (vm_id r) u = (Inr (Local (r\<lparr>vm_status := ''stopped''\<rparr>)), v) \<and>
    hosted abs w (r\<lparr>vm_status := ''stopped''\<rparr>) v \<and>
    get_vm C (vm_node r) (vm_id r) v = (Inr (Local (r\<lparr>vm_status := ''stopped''\<rparr>, ''stopped'')), v)"
proof -
  note f = hosted_facts [OF h i]
  obtain v where v: "stop_vm C (vm_node r) (vm_id r) u = (Inr (Local (r\<lparr>vm_status := ''stopped''\<rparr>)), v)"
    "abs (w_db v) = t_vms_update (\<lambda>rs. rs @ [r\<lparr>vm_status := ''stopped''\<rparr>]) (abs (w_db w))"
    "fst (status_run (for_vm (w_cwd w @ [''vms'']) (vm_id r)) v) = Inr ''stopped''"
    "proc_only (for_vm (w_cwd w @ [''vms'']) (vm_id r)) u v"
    using stop_vm_run [OF f(1,2,4), unfolded f(3), OF f(5), unfolded hosted_map [OF h i(2)]] by blast
  have h': "hosted abs w (r\<lparr>vm_status := ''stopped''\<rparr>) v" by (rule hosted_proc [OF h v(4,2)])
  have "\<forall>x \<in> set (t_vms (abs (w_db w))). vm_id x \<noteq> vm_id (r\<lparr>vm_status := ''stopped''\<rparr>)" using i(2) by simp
  note f' = hosted_facts [OF h' i(1) this]
  from get_vm_run [OF f'(1,2) _ f'(4), of "vm_node r" "''stopped''"] v(3) f'(3)
  show ?thesis using v(1) h' by auto
qed

lemma hosted_start:
  assumes h: "hosted abs w r u" and i: "db_inv (abs (w_db w))" "\<forall>x \<in> set (t_vms (abs (w_db w))). vm_id x \<noteq> vm_id r"
  shows "\<exists>v. start_vm C (vm_node r) (vm_id r) u = (Inr (Local (r\<lparr>vm_status := ''running''\<rparr>)), v) \<and>
    hosted abs w (r\<lparr>vm_status := ''running''\<rparr>) v \<and>
    get_vm C (vm_node r) (vm_id r) v = (Inr (Local (r\<lparr>vm_status := ''running''\<rparr>, ''running'')), v)"
proof -
  note f = hosted_facts [OF h i]
  have "is_dir (for_vm (w_cwd w @ [''vms'']) (vm_id r)) u" using f(6) by (simp add: is_dir_def)
  then obtain v where v: "start_vm C (vm_node r) (vm_id r) u = (Inr (Local (r\<lparr>vm_status := ''running''\<rparr>)), v)"
    "abs (w_db v) = t_vms_update (\<lambda>rs. rs @ [r\<lparr>vm_status := ''running''\<rparr>]) (abs (w_db w))"
    "fst (status_run (for_vm (w_cwd w @ [''vms'']) (vm_id r)) v) = Inr ''running''"
    "proc_only (for_vm (w_cwd w @ [''vms'']) (vm_id r)) u v"
    using start_vm_run [OF f(1,2,4), unfolded f(3), OF f(5), unfolded hosted_map [OF h i(2)]] by blast
  have h': "hosted abs w (r\<lparr>vm_status := ''running''\<rparr>) v" by (rule hosted_proc [OF h v(4,2)])
  have "\<forall>x \<in> set (t_vms (abs (w_db w))). vm_id x \<noteq> vm_id (r\<lparr>vm_status := ''running''\<rparr>)" using i(2) by simp
  note f' = hosted_facts [OF h' i(1) this]
  from get_vm_run [OF f'(1,2) _ f'(4), of "vm_node r" "''running''"] v(3) f'(3)
  show ?thesis using v(1) h' by auto
qed

lemma created_hosted:
  fixes body me ip w p vol
  defines "row \<equiv> created_row body me ip w"
  defines "spec \<equiv> spec_in (abs (w_db w)) w row (vp_cidr p) vol None GOLD_DEFAULT"
    and "r \<equiv> vm_defaults row\<lparr>vm_status := ''running''\<rparr>"
  assumes inv: "db_inv (abs (w_db w))" and node: "distinct (map nd_id (t_nodes (abs (w_db w))))" "settings_ok w"
    and unknown: "unknown_vm (abs (w_db w)) (vm_id row)"
    and ok: "request_ok (abs (w_db w)) me body p vol ip (vm_id row)" and ready: "vm_ready spec w"
  shows "\<exists>v. create_vm C me body w = (Inr (Local (row\<lparr>vm_status := ''running''\<rparr>)), v) \<and>
    vm_is_up spec w v \<and> vm_around spec w v \<and> hosted abs w r v \<and>
    get_vm C me (vm_id row) v = (Inr (Local (r, ''running'')), v)"
proof -
  obtain v where v: "create_vm C me body w = (Inr (Local (row\<lparr>vm_status := ''running''\<rparr>)), v)"
    "abs (w_db v) = t_vms_update (\<lambda>rs. rs @ [r]) (abs (w_db w))" "vm_is_up spec w v" "vm_around spec w v" "same_conf w v"
    using create_vm_run [OF inv ok [unfolded row_def] node(2,1) _ ready [unfolded spec_def row_def]] unknown
    by (auto simp: unknown_vm_def row_def spec_def r_def)
  have s: "vs_vms_dir spec = w_cwd w @ [''vms'']"
    "vs_vg spec = vg_of w (vm_node r)" "vs_vm_id spec = vm_id r"
    by (simp_all add: spec_def spec_in_def r_def)
  have "on_fake v" "fs_at (for_vm (w_cwd w @ [''vms'']) (vm_id r)) v = Some Dir"
    "pid_fine (for_vm (w_cwd w @ [''vms'']) (vm_id r)) v"
    "fst (status_run (for_vm (w_cwd w @ [''vms'']) (vm_id r)) v) = Inr ''running''"
    using v(3) by (simp_all add: vm_is_up_def Let_def s pid_fine_def parse_int_zero)
  moreover have "\<forall>k. k \<noteq> (vg_of w (vm_node r), rootfs_name (vm_id r)) \<longrightarrow> lv_map (w_fake v) k = lv_map (w_fake w) k"
    using v(3) by (simp add: vm_is_up_def Let_def s)
  moreover have "f_netns (w_fake v) = insert (Some (ns_name (vm_id r))) (f_netns (w_fake w))"
    using v(4) by (simp add: vm_around_def Let_def s)
  moreover have "\<forall>q. \<not> prefix (for_vm (w_cwd w @ [''vms'']) (vm_id r)) q \<and> \<not> prefix q (for_vm (w_cwd w @ [''vms'']) (vm_id r))
      \<longrightarrow> fs_at q v = fs_at q w" using v(4) by (simp add: vm_around_def Let_def s)
  ultimately have h: "hosted abs w r v" using v(2,5) unfolding hosted_def Let_def by blast
  have i: "\<forall>x \<in> set (t_vms (abs (w_db w))). vm_id x \<noteq> vm_id r" using unknown by (simp add: unknown_vm_def r_def)
  note f = hosted_facts [OF h inv i]
  have "get_vm C me (vm_id row) v = (Inr (Local (r, ''running'')), v)"
    using get_vm_run [OF f(1,2) _ f(4), of me "''running''"] f(3)
      \<open>fst (status_run (for_vm (w_cwd w @ [''vms'']) (vm_id r)) v) = Inr ''running''\<close>
    by (simp add: r_def row_def created_row_def)
  with v h show ?thesis by blast
qed

text \<open>Deleting it restores the tables and the host.\<close>

lemma tables_restored:
  assumes "unknown_vm T (vm_id r)" "pip = None \<or> (\<exists>a. pip = Some a \<and> a \<in> set (t_pubips T) \<and> attached (vm_id r) a)"
  shows "t_vms_update (filter (\<lambda>x. vm_id x \<noteq> vm_id r)) (without_deps (vm_id r) pip (t_vms_update (\<lambda>rs. rs @ [r]) T)) = T"
proof -
  have "pip = None" using assms by (auto simp: unknown_vm_def attached_def)
  moreover have "filter (\<lambda>x. vm_id x \<noteq> vm_id r) (t_vms T) = t_vms T" "filter (\<lambda>x. do_vm x \<noteq> vm_id r) (t_domains T) = t_domains T"
    "filter (\<lambda>x. px_vm x \<noteq> vm_id r) (t_proxies T) = t_proxies T"
    using assms(1) by (simp_all add: unknown_vm_def filter_id_conv)
  ultimately show ?thesis by (cases T) (simp add: without_deps_def)
qed

lemma hosted_delete:
  assumes h: "hosted abs w r u" and i: "db_inv (abs (w_db w))" "unknown_vm (abs (w_db w)) (vm_id r)"
    and n: "settings_ok w" "noslash (vg_of w (vm_node r))" "noslash (vm_id r)"
    and free: "lv_map (w_fake w) (vg_of w (vm_node r), rootfs_name (vm_id r)) = None"
      "Some (ns_name (vm_id r)) \<notin> f_netns (w_fake w)" "\<forall>q. prefix (for_vm (w_cwd w @ [''vms'']) (vm_id r)) q \<longrightarrow> fs_at q w = None"
  shows "\<exists>v. delete_vm C (vm_node r) (vm_id r) u = (Inr (), v) \<and> abs (w_db v) = abs (w_db w) \<and>
    lv_map (w_fake v) = lv_map (w_fake w) \<and> f_netns (w_fake v) = f_netns (w_fake w) \<and>
    (\<forall>q. \<not> strict_prefix q (for_vm (w_cwd w @ [''vms'']) (vm_id r)) \<longrightarrow> fs_at q v = fs_at q w)"
proof -
  let ?root = "for_vm (w_cwd w @ [''vms'']) (vm_id r)"
  have "\<forall>x \<in> set (t_vms (abs (w_db w))). vm_id x \<noteq> vm_id r" using i(2) by (simp add: unknown_vm_def)
  note f = hosted_facts [OF h i(1) this]
  have c: "same_conf w u" using h by (simp add: hosted_def Let_def)
  have vg: "vg_of u n = vg_of w n" "settings_ok u" for n
    using vg_of_same [OF c] settings_ok_same [OF c] n(1) by auto
  have "noslash (vg_of u (vm_node r))" "fs_at (for_vm (w_cwd u @ [''vms'']) (vm_id r)) u = Some Dir"
    "pid_fine (for_vm (w_cwd u @ [''vms'']) (vm_id r)) u" using n(2) f(3,5,6) vg by simp_all
  from delete_vm_local_run [OF f(4) vg(2) this(1) n(3) this(2,3)] obtain v where
    v: "delete_vm_local C (vm_id r) (vm_node r) u = (Inr (), v)" "vm_is_gone (w_cwd w @ [''vms'']) (vm_id r) (vg_of w (vm_node r)) u v"
    "abs (w_db v) = t_vms_update (filter (\<lambda>x. vm_id x \<noteq> vm_id r))
      (without_deps (vm_id r) (d_get (c_pubips C) (attached (vm_id r)) (w_db u)) (abs (w_db u)))"
    unfolding f(3) vg by blast
  have "d_get (c_pubips C) (attached (vm_id r)) (w_db u) = None"
  proof (cases "d_get (c_pubips C) (attached (vm_id r)) (w_db u)")
    case (Some a)
    from pubips.get_Some [OF this] show ?thesis using i(2) h by (auto simp: hosted_def Let_def unknown_vm_def attached_def)
  qed simp
  then have "abs (w_db v) = abs (w_db w)"
    using tables_restored [OF i(2), of None] h by (simp add: v(3) hosted_def Let_def)
  moreover have "lv_map (w_fake v) = lv_map (w_fake w)"
    using v(2) h free(1) by (auto simp: vm_is_gone_def hosted_def Let_def fun_eq_iff)
  moreover have "f_netns (w_fake v) = f_netns (w_fake w)"
    using v(2) h free(2) by (auto simp: vm_is_gone_def hosted_def Let_def)
  moreover have "fs_at q v = fs_at q w" if "\<not> strict_prefix q ?root" for q
    using v(2) h free(3) that by (auto simp: vm_is_gone_def hosted_def Let_def strict_prefix_def)
  moreover have "delete_vm C (vm_node r) (vm_id r) u = (Inr (), v)"
    using vms.get_unique [OF f(1,2)] v(1) by (simp add: delete_vm_def bnd_run get_run or_404_run)
  ultimately show ?thesis by blast
qed

end

end
