(* ===== verification/RequestProps.thy ===== *)
theory RequestProps
  imports VmRequests
begin

text \<open>
  What the requests about a VM do, from the router down to the simulated host: creating one, asking for it,
  stopping, starting and deleting it, and what a creation that fails on the way leaves behind.
\<close>

section \<open>Properties\<close>

text \<open>A node with one VPC of four addresses, and a request for a VM in it.\<close>

definition new_node :: "tables world" where
  "new_node = world0 (no_rows\<lparr>t_vpcs := [\<lparr>vp_id = ''v1'', vp_name = ''prod'', vp_cidr = net_str net30, vp_created = 0\<rparr>]\<rparr>)"

definition new_vm :: vm_in where
  "new_vm = \<lparr>mi_name = ''web'', mi_vpc = ''v1'', mi_volume = None, mi_node = None\<rparr>"

abbreviation new_row :: vm_row where
  "new_row \<equiv> created_row new_vm ''n1'' (ip_str 167837698) new_node"

lemma new_node_sel:
  "w_cwd new_node = [''srv'', ''node'']" "vg_of new_node ''n1'' = ''nyc-n1''" "t_nodes (w_db new_node) = []"
  "t_pubips (w_db new_node) = []" "vp_cidr (hd (t_vpcs (w_db new_node))) = net_str net30"
  by (simp_all add: new_node_def world0_vg no_rows_def) (simp add: world0_def)

lemma new_row_sel: "vm_id new_row = ''id-0''" "vm_node new_row = ''n1''"
  by (simp_all add: created_row_def new_node_def world0_def dec_0)

lemma new_node_request:
  "db_inv (w_db new_node)" "distinct (map nd_id (t_nodes (w_db new_node)))" "settings_ok new_node"
  "unknown_vm (w_db new_node) (vm_id new_row)"
  "request_ok (w_db new_node) ''n1'' new_vm (hd (t_vpcs (w_db new_node))) None (ip_str 167837698) (vm_id new_row)"
proof -
  have "pick_ip (net_str net30) {} = Inr (ip_str 167837698)"
    using pick_ip_find [OF net30_facts(1)] by (simp add: net30_facts(2))
  then show "request_ok (w_db new_node) ''n1'' new_vm (hd (t_vpcs (w_db new_node))) None (ip_str 167837698) (vm_id new_row)"
    by (simp add: request_ok_def new_node_def new_vm_def truthy_str_def no_rows_def)
  show "db_inv (w_db new_node)" by (simp add: inv_defs new_node_def no_rows_def)
  show "settings_ok new_node" by (simp add: new_node_def world0_vg)
qed (simp_all add: new_node_def no_rows_def unknown_vm_def)

lemma new_node_ready:
  "vm_ready (spec_in (w_db new_node) new_node new_row (vp_cidr (hd (t_vpcs (w_db new_node)))) None None GOLD_DEFAULT) new_node"
proof -
  let ?spec = "spec_in (w_db new_node) new_node new_row (vp_cidr (hd (t_vpcs (w_db new_node)))) None None GOLD_DEFAULT"
  have s: "vs_vms_dir ?spec = [''srv'', ''node'', ''vms'']" "vs_vm_id ?spec = ''id-0''" "vs_vg ?spec = ''nyc-n1''"
    "vs_rootfs_origin ?spec = ''gold-default''" "vs_peer_hosts ?spec = []" "vs_public_ip ?spec = None" "vs_cidr ?spec = net_str net30"
    by (simp_all add: spec_in_def new_row_sel GOLD_DEFAULT_def new_node_sel)
  have "vm_fresh [''srv'', ''node'', ''vms'', ''id-0''] new_node"
    by (auto simp: vm_fresh_def dirs_ok_def fs_at_world0 prefix_def new_node_def)
  moreover have "case gateway_cidr (net_str net30) of Inr _ \<Rightarrow> True | Inl _ \<Rightarrow> False"
    by (simp add: gateway_cidr_def net30_facts(1) split_net_str)
  moreover have "tmp_new new_node" by (auto simp: tmp_new_def fs_at_world0 prefix_def new_node_def)
  moreover have "on_fake new_node" "w_tmp new_node = [''tmp'', ''t0'']" "w_fake new_node = reset_state" by (simp_all add: new_node_def)
  ultimately show ?thesis
    by (simp add: vm_ready_def s for_vm_def noslash_def ipt_ready_reset overlay_ready_def pub_bridge_ok_def)
qed



text \<open>C5: the requests about a VM undo each other. Created, stopped, started and deleted, a VM is reported as
  stopped, then as running, and at the end as not found; the database is then exactly as before the first
  request, and so are the node's logical volumes, its namespaces and its files outside the directories above
  the VM's own.\<close>

theorem vm_requests_cycle:
  assumes "dadar C view" "db_inv (view (w_db w))" "distinct (map nd_id (t_nodes (view (w_db w))))" "settings_ok w"
    and "unknown_vm (view (w_db w)) (vm_id (created_row body me ip w))"
    and "request_ok (view (w_db w)) me body p vol ip (vm_id (created_row body me ip w))"
    and "vm_ready (spec_in (view (w_db w)) w (created_row body me ip w) (vp_cidr p) vol None GOLD_DEFAULT) w"
    and "lv_map (w_fake w) (vg_of w me, rootfs_name (vm_id (created_row body me ip w))) = None"
    and "Some (ns_name (vm_id (created_row body me ip w))) \<notin> f_netns (w_fake w)"
  shows "let i = vm_id (created_row body me ip w) in
    \<exists>a b c d r. fst (create_vm C me body w) = Inr (Local r) \<and> snd (create_vm C me body w) = a \<and>
      stop_vm C me i a = (Inr (Local (vm_defaults r\<lparr>vm_status := ''stopped''\<rparr>)), b) \<and>
      get_vm C me i b = (Inr (Local (vm_defaults r\<lparr>vm_status := ''stopped''\<rparr>, ''stopped'')), b) \<and>
      start_vm C me i b = (Inr (Local (vm_defaults r\<lparr>vm_status := ''running''\<rparr>)), c) \<and>
      get_vm C me i c = (Inr (Local (vm_defaults r\<lparr>vm_status := ''running''\<rparr>, ''running'')), c) \<and>
      delete_vm C me i c = (Inr (), d) \<and> get_vm C me i d = (Inl (HTTPException 404 ''vm not found''), d) \<and>
      view (w_db d) = view (w_db w) \<and> lv_map (w_fake d) = lv_map (w_fake w) \<and> f_netns (w_fake d) = f_netns (w_fake w) \<and>
      (\<forall>q. \<not> strict_prefix q (for_vm (w_cwd w @ [''vms'']) i) \<longrightarrow> fs_at q d = fs_at q w)"
proof -
  let ?row = "created_row body me ip w" and ?root = "for_vm (w_cwd w @ [''vms'']) (vm_id (created_row body me ip w))"
  let ?R = "\<lambda>st. vm_defaults ?row\<lparr>vm_status := st\<rparr>"
  have id: "vm_id (?R st) = vm_id ?row" "vm_node (?R st) = me" "\<And>s. (?R st)\<lparr>vm_status := s\<rparr> = ?R s" for st
    by (simp_all add: created_row_def)
  have un: "\<forall>x \<in> set (t_vms (view (w_db w))). vm_id x \<noteq> vm_id (?R st)" "unknown_vm (view (w_db w)) (vm_id (?R st))" for st
    using assms(5) by (simp_all add: unknown_vm_def)
  obtain a where a: "create_vm C me body w = (Inr (Local (?row\<lparr>vm_status := ''running''\<rparr>)), a)" "hosted view w (?R ''running'') a"
    using dadar.created_hosted [OF assms(1-7)] by blast
  obtain b where b: "stop_vm C me (vm_id ?row) a = (Inr (Local (?R ''stopped'')), b)" "hosted view w (?R ''stopped'') b"
    "get_vm C me (vm_id ?row) b = (Inr (Local (?R ''stopped'', ''stopped'')), b)"
    using dadar.hosted_stop [OF assms(1) a(2) assms(2) un(1)] unfolding id by blast
  obtain c where c: "start_vm C me (vm_id ?row) b = (Inr (Local (?R ''running'')), c)" "hosted view w (?R ''running'') c"
    "get_vm C me (vm_id ?row) c = (Inr (Local (?R ''running'', ''running'')), c)"
    using dadar.hosted_start [OF assms(1) b(2) assms(2) un(1)] unfolding id by blast
  have n: "noslash (vg_of w me)" "noslash (vm_id ?row)" "\<forall>q. prefix ?root q \<longrightarrow> fs_at q w = None"
    using assms(7) by (simp_all add: vm_ready_def vm_fresh_def Let_def spec_in_def) (simp add: created_row_def)
  obtain d where d: "delete_vm C me (vm_id ?row) c = (Inr (), d)" "view (w_db d) = view (w_db w)"
    "lv_map (w_fake d) = lv_map (w_fake w)" "f_netns (w_fake d) = f_netns (w_fake w)"
    "\<forall>q. \<not> strict_prefix q ?root \<longrightarrow> fs_at q d = fs_at q w"
    using dadar.hosted_delete [OF assms(1) c(2) assms(2) un(2) assms(4), unfolded id, OF n(1,2) assms(8,9) n(3)] by blast
  have "get_vm C me (vm_id ?row) d = (Inl (HTTPException 404 ''vm not found''), d)"
    using dadar.get_vm_absent [OF assms(1)] un(1) by (simp add: d(2))
  then show ?thesis
    unfolding Let_def using a(1) b(1,3) c(1,3) d
    by (intro exI [of _ a] exI [of _ b] exI [of _ c] exI [of _ d] exI [of _ "?row\<lparr>vm_status := ''running''\<rparr>"])
       (simp add: vm_defaults_def)
qed

theorem vm_requests_cycle_witness:
  "\<exists>d. get_vm list_client ''n1'' ''id-0'' d = (Inl (HTTPException 404 ''vm not found''), d) \<and> w_db d = w_db new_node \<and>
    lv_map (w_fake d) = lv_map reset_state"
proof -
  have "lv_map (w_fake new_node) k = None" "Some (ns_name i) \<notin> f_netns (w_fake new_node)" for k i
    by (simp_all add: lv_map_def reset_state_def new_node_def)
  moreover have "w_fake new_node = reset_state" by (simp add: new_node_def)
  ultimately show ?thesis
    using vm_requests_cycle [OF lists.dadar_axioms new_node_request new_node_ready]
    unfolding Let_def new_row_sel by metis
qed

text \<open>C9: a creation whose checks pass changes the database by exactly one row on any backend: marked running if
  the VM came up, and left pending when anything raised on the way, so that its address counts as used and is
  not given out again.\<close>

theorem create_vm_one_row:
  assumes "dadar C view" "db_inv (view (w_db w))"
    and "request_ok (view (w_db w)) me body p vol ip (vm_id (created_row body me ip w))"
  shows "case create_vm C me body w of (r, v) \<Rightarrow>
    view (w_db v) = t_vms_update (\<lambda>rs. rs @ [vm_defaults (created_row body me ip w)
      \<lparr>vm_status := (case r of Inl _ \<Rightarrow> ''pending'' | Inr _ \<Rightarrow> ''running'')\<rparr>]) (view (w_db w)) \<and>
    (case used_ips C (mi_vpc body) v of
       (Inr used, _) \<Rightarrow> pick_ip (vp_cidr p) used \<noteq> Inr ip | (Inl _, _) \<Rightarrow> False)"
proof (cases "create_vm C me body w")
  case (Pair r v)
  note db = dadar.create_vm_db [OF assms Pair]
  have "used_ips C (mi_vpc body) v = (Inr (vm_ip ` {r \<in> set (t_vms (view (w_db v))). vm_vpc r = mi_vpc body}), v)"
    using dadar.used_run [OF assms(1)] by blast
  moreover have "ip \<in> vm_ip ` {r \<in> set (t_vms (view (w_db v))). vm_vpc r = mi_vpc body}"
    by (rule image_eqI [where x = "vm_defaults (created_row body me ip w)
      \<lparr>vm_status := (case r of Inl _ \<Rightarrow> ''pending'' | Inr _ \<Rightarrow> ''running'')\<rparr>"]) (simp_all add: db created_row_def)
  ultimately show ?thesis using Pair db ipam.alloc_free by fastforce
qed

text \<open>A host whose node folder cannot be written to.\<close>

definition broken_node :: "tables world" where
  "broken_node = new_node\<lparr>w_fs := [([''srv''], File [])]\<rparr>"

lemma mkdir_p_blocked: "fs_at [x] w = Some (File t) \<Longrightarrow> mkdir_p (x # xs) w = (Inl (OSError (path_str [x])), w)"
  by (simp add: mkdir_p_def prefixes1_def upt_conv_Cons andThen_run mkdir_one_def bnd_run del: upt_Suc)

lemma broken_node_facts:
  "w_db broken_node = w_db new_node" "settings_ok broken_node" "fs_at [''srv''] broken_node = Some (File [])"
  "w_cwd broken_node = [''srv'', ''node'']" "vm_id (created_row b n ip broken_node) = ''id-0''"
proof -
  have "settings_ok new_node" by (rule new_node_request(3))
  then show "settings_ok broken_node" by (simp add: broken_node_def)
qed (simp_all add: broken_node_def new_node_def fs_at_def created_row_def world0_def dec_0)

lemma broken_node_fails: "\<exists>e v. create_vm list_client ''n1'' new_vm broken_node = (Inl e, v)"
proof -
  let ?row = "created_row new_vm ''n1'' (ip_str 167837698) broken_node" and ?p = "hd (t_vpcs (w_db new_node))"
  have "request_ok (w_db broken_node) ''n1'' new_vm ?p None (ip_str 167837698) (w_uuid broken_node (w_nuuid broken_node))"
    using new_node_request(5) [unfolded new_row_sel] broken_node_facts(5) by (simp add: broken_node_facts(1) created_row_def)
  then obtain d where d: "create_vm list_client ''n1'' new_vm broken_node =
      locally (bring_up list_client ?row (vp_cidr ?p) None None GOLD_DEFAULT) (after_insert d broken_node)"
    "d = t_vms_update (\<lambda>rs. rs @ [vm_defaults ?row]) (w_db broken_node)"
    using lists.create_vm_inserts new_node_request(1) broken_node_facts(1) by metis
  let ?w = "after_insert d broken_node"
  have host: "same_host broken_node ?w" and db: "w_db ?w = d" by (simp_all add: after_insert_def)
  note b = same_host_basic [OF host]
  have "t_nodes d = []" "t_pubips d = []" by (simp_all add: d(2) broken_node_facts(1) new_node_sel)
  then have "settings_ok ?w" "distinct (map nd_id (t_nodes (w_db ?w)))" "one_address (w_db ?w) (vm_id ?row)"
    by (simp_all add: b broken_node_facts db one_address_def)
  note spec = lists.spec_of_run [OF this]
  have "vs_vms_dir (spec_in T ?w ?row c v k g) = [''srv'', ''node'', ''vms'']" for T c v k g
    by (simp add: spec_in_def b broken_node_facts)
  moreover have "mkdir_p (for_vm [''srv'', ''node'', ''vms''] i) ?w = (Inl (OSError (path_str [''srv''])), ?w)" for i
    using mkdir_p_blocked [of "''srv''" ?w "[]" "[''node'', ''vms'', i]"] by (simp add: for_vm_def b broken_node_facts)
  ultimately have "vm_up (spec_in T ?w ?row c v k g) ?w = (Inl (OSError (path_str [''srv''])), ?w)" for T c v k g
    by (simp add: vm_up_def bnd_run env_setup_def Let_def andThen_run)
  then show ?thesis by (simp add: d(1) locally_def bnd_run bring_up_def spec)
qed

theorem create_vm_one_row_witness:
  "map vm_status (t_vms (w_db (snd (create_vm list_client ''n1'' new_vm broken_node)))) = [''pending'']"
proof -
  obtain e v where f: "create_vm list_client ''n1'' new_vm broken_node = (Inl e, v)" using broken_node_fails by blast
  have "db_inv (w_db broken_node)" "request_ok (w_db broken_node) ''n1'' new_vm (hd (t_vpcs (w_db new_node))) None
      (ip_str 167837698) (vm_id (created_row new_vm ''n1'' (ip_str 167837698) broken_node))"
    using new_node_request(1,5) by (simp_all add: broken_node_facts new_row_sel)
  from create_vm_one_row [OF lists.dadar_axioms this] show ?thesis
    by (simp add: f broken_node_facts(1)) (simp add: new_node_def no_rows_def)
qed

end
