(* ===== verification/SpawnRequests.thy ===== *)
theory SpawnRequests
  imports VmRequests VolumeProps
begin

text \<open>
  Spawning a VM in the default VPC, with the data volume made for it, and spawning the reverse proxy, with the
  public address that is in the tables before the VM boots: the state each leaves, and the volume that stays
  behind when the VPC is full.
\<close>

section \<open>The default VPC and the data volume\<close>

definition pool_of :: "'db world \<Rightarrow> string" where
  "pool_of w = (case fst (lvm w) of Inr c \<Rightarrow> lc_thinpool c | Inl _ \<Rightarrow> [])"

lemma lvm_run: "settings_ok w \<Longrightarrow> \<exists>c. lvm w = (Inr c, w) \<and> lc_thinpool c = pool_of w"
  using reads_only [OF keeps_lvm, of w] by (cases "lvm w") (auto simp: settings_ok_def pool_of_def)

text \<open>The row of the data volume a spawn makes, and the volume itself.\<close>

definition data_row :: "spawn_in \<Rightarrow> string \<Rightarrow> 'db world \<Rightarrow> volume_row" where
  "data_row body n w =
     \<lparr>vo_id = w_uuid w (w_nuuid w), vo_node = n, vo_name = wi_name body @ ''-data'', vo_size = wi_size body,
      vo_path = device_path (vg_of w n) (data_name (w_uuid w (w_nuuid w))), vo_status = ''ready'', vo_created = w_time w (w_tick w)\<rparr>"

definition data_lv :: "spawn_in \<Rightarrow> 'db world \<Rightarrow> lvrec" where
  "data_lv body w = \<lparr>lv_size = wi_size body, lv_pool = Some (pool_of w), lv_origin = None, lv_attr = ''Vwi-a-tz--''\<rparr>"

definition after_volume :: "spawn_in \<Rightarrow> string \<Rightarrow> 'db world \<Rightarrow> 'db \<Rightarrow> 'db world \<Rightarrow> bool" where
  "after_volume body n w d v \<longleftrightarrow> same_base w v \<and> w_db v = d \<and>
     w_uuid v = w_uuid w \<and> w_nuuid v = Suc (w_nuuid w) \<and> w_time v = w_time w \<and> w_tick v = Suc (w_tick w) \<and>
     f_ipt (w_fake v) = f_ipt (w_fake w) \<and> f_fdb (w_fake v) = f_fdb (w_fake w) \<and>
     lv_map (w_fake v) = (lv_map (w_fake w))((vg_of w n, data_name (w_uuid w (w_nuuid w))) \<mapsto> data_lv body w)"

definition volume_names_ok :: "string \<Rightarrow> 'db world \<Rightarrow> bool" where
  "volume_names_ok n w \<longleftrightarrow> noslash (vg_of w n) \<and> noslash (pool_of w) \<and> noslash (w_uuid w (w_nuuid w))"

lemma vol_create_fake:
  assumes "on_fake w" "noslash vg" "noslash pool" "noslash i"
  shows "\<exists>s. vol_create vg pool (data_name i) n w = (Inr (device_path vg (data_name i)), w\<lparr>w_fake := s\<rparr>) \<and>
    lv_map s = (lv_map (w_fake w))((vg, data_name i) \<mapsto>
      \<lparr>lv_size = n, lv_pool = Some pool, lv_origin = None, lv_attr = ''Vwi-a-tz--''\<rparr>) \<and>
    f_ipt s = f_ipt (w_fake w) \<and> f_fdb s = f_fdb (w_fake w)"
proof -
  let ?w1 = "set_fake (lv_put (vg, data_name i)
     \<lparr>lv_size = n, lv_pool = Some pool, lv_origin = None, lv_attr = ''Vwi-a-tz--''\<rparr>) w"
  obtain f where f: "format_ext4 (device_path vg (data_name i)) ?w1 = (Inr (), set_fake (f_files_update (\<lambda>_. f)) ?w1)"
    using format_ext4_fake [of ?w1] assms(1) by auto
  have lm: "lv_map (t\<lparr>f_files := x\<rparr>) = lv_map t" for t x by (simp add: lv_map_def)
  have other: "f_ipt (lv_put k r t) = f_ipt t" "f_fdb (lv_put k r t) = f_fdb t" for k r t by (simp_all add: lv_put_def)
  show ?thesis
    using lv_create_thin_fake [OF assms(1-3) role_name_ok(1) [OF assms(4)], of n] f
    by (intro exI [of _ "w_fake (set_fake (f_files_update (\<lambda>_. f)) ?w1)"])
       (simp add: vol_create_def bnd_run andThen_run lm other, simp add: set_fake_def)
qed

context dadar
begin

lemma default_vpc_run:
  assumes "distinct (map vp_name (t_vpcs (abs (w_db w))))" "p \<in> set (t_vpcs (abs (w_db w)))" "vp_name p = DEFAULT_VPC_NAME"
  shows "ensure_default_vpc C w = (Inr p, w)"
  using vpcs.get_unique [OF assms(1,2)] assms(3) by (simp add: ensure_default_vpc_def bnd_run get_run)

lemma auto_volume_run:
  assumes "on_fake w" "settings_ok w" "volume_names_ok n w" "truthy_str (wi_data_image body) = None"
    and "\<forall>x \<in> set (t_volumes (abs (w_db w))). vo_id x \<noteq> w_uuid w (w_nuuid w)"
  shows "\<exists>d v. auto_volume C body n w = (Inr (data_row body n w), v) \<and> after_volume body n w d v \<and>
    abs d = t_volumes_update (\<lambda>rs. rs @ [data_row body n w]) (abs (w_db w))"
proof -
  let ?i = "w_uuid w (w_nuuid w)" and ?w1 = "w\<lparr>w_nuuid := Suc (w_nuuid w)\<rparr>"
  have host: "same_base w ?w1" by (simp add: same_base_def same_conf_def)
  note b = same_base_basic [OF host]
  have "same_conf w ?w1" by (simp add: same_conf_def)
  then have pool: "pool_of ?w1 = pool_of w" by (simp add: pool_of_def reader_same [OF reader_lvm])
  obtain c where c: "lvm ?w1 = (Inr c, ?w1)" "lc_thinpool c = pool_of w"
    using lvm_run [of ?w1] assms(2) b pool by auto
  obtain s where s: "vol_create (vg_of w n) (pool_of w) (data_name ?i) (wi_size body) ?w1
      = (Inr (device_path (vg_of w n) (data_name ?i)), ?w1\<lparr>w_fake := s\<rparr>)"
    "lv_map s = (lv_map (w_fake w))((vg_of w n, data_name ?i) \<mapsto> data_lv body w)"
    "f_ipt s = f_ipt (w_fake w)" "f_fdb s = f_fdb (w_fake w)"
    using vol_create_fake [of ?w1 "vg_of w n" "pool_of w" ?i "wi_size body"] assms(1,3) b
    by (auto simp: volume_names_ok_def data_lv_def)
  let ?r = "data_row body n w"
  have "\<forall>x \<in> set (t_volumes (abs (w_db w))). \<not> key_clash vo_id ?r x"
    using assms(5) by (simp add: key_clash_def data_row_def)
  then obtain d where d: "d_insert (c_volumes C) ?r (w_db w) = Inr d" "abs d = t_volumes_update (\<lambda>rs. rs @ [?r]) (abs (w_db w))"
    using volumes.insert_free [of "w_db w" ?r] by blast
  let ?v = "?w1\<lparr>w_fake := s, w_tick := Suc (w_tick w), w_db := d\<rparr>"
  have "auto_volume C body n w = (Inr ?r, ?v)"
    using volume_vg_run [of ?w1 n] assms(2,4) c s(1) d(1)
    by (simp add: auto_volume_def bnd_run uuid4_def b provision_data_def now_def andThen_run insert_row_def Let_def data_row_def)
  moreover have "after_volume body n w d ?v"
    using s(2-4) by (simp add: after_volume_def same_base_def same_conf_def)
  ultimately show ?thesis using d(2) by blast
qed

end

section \<open>Spawning\<close>

definition spawned_row :: "spawn_in \<Rightarrow> string \<Rightarrow> vpc_row \<Rightarrow> string \<Rightarrow> 'db world \<Rightarrow> vm_row" where
  "spawned_row body n p ip w =
     \<lparr>vm_id = w_uuid w (Suc (w_nuuid w)), vm_node = n, vm_name = wi_name body, vm_vpc = vp_id p,
      vm_volume = Some (w_uuid w (w_nuuid w)), vm_ip = ip, vm_ssh = None, vm_vcpu = Some (wi_vcpu body),
      vm_mem = Some (wi_mem body), vm_status = ''pending'', vm_created = w_time w (Suc (w_tick w))\<rparr>"

text \<open>A spawn without images on a node that can make volumes, in a default VPC that exists.\<close>

definition spawn_ok :: "tables \<Rightarrow> string \<Rightarrow> spawn_in \<Rightarrow> vpc_row \<Rightarrow> 'db world \<Rightarrow> bool" where
  "spawn_ok T n body p w \<longleftrightarrow> db_inv T \<and> p \<in> set (t_vpcs T) \<and> vp_name p = DEFAULT_VPC_NAME \<and>
     truthy_str (wi_root_image body) = None \<and> truthy_str (wi_data_image body) = None \<and>
     on_fake w \<and> settings_ok w \<and> volume_names_ok n w \<and> (\<forall>x \<in> set (t_volumes T). vo_id x \<noteq> w_uuid w (w_nuuid w))"

definition vpc_ips :: "tables \<Rightarrow> vpc_row \<Rightarrow> string set" where
  "vpc_ips T p = vm_ip ` {r \<in> set (t_vms T). vm_vpc r = vp_id p}"

context dadar
begin

text \<open>The volume comes first, and its row; then the address is looked for.\<close>

lemma spawn_local_volume:
  assumes "spawn_ok (abs (w_db w)) n body p w"
  shows "\<exists>d v. after_volume body n w d v \<and> abs d = t_volumes_update (\<lambda>rs. rs @ [data_row body n w]) (abs (w_db w)) \<and>
    spawn_local C body n hook w = (case pick_ip (vp_cidr p) (vpc_ips (abs (w_db w)) p) of
      Inl e \<Rightarrow> (Inl e, v)
    | Inr ip \<Rightarrow> bnd (spawn_row body n (vp_id p) ip (vo_id (data_row body n w))) (\<lambda>row.
        andThen (insert_row (c_vms C) row)
       (andThen (hook (vm_id row))
                (bring_up C row (vp_cidr p) (Some (vo_path (data_row body n w))) (Some (wi_ssh_key body)) GOLD_DEFAULT))) v)"
proof -
  have vpc: "ensure_default_vpc C w = (Inr p, w)"
    using assms by (intro default_vpc_run) (simp_all add: spawn_ok_def inv_defs)
  obtain d v where v: "auto_volume C body n w = (Inr (data_row body n w), v)" "after_volume body n w d v"
    "abs d = t_volumes_update (\<lambda>rs. rs @ [data_row body n w]) (abs (w_db w))"
    using auto_volume_run [of w n body] assms by (auto simp: spawn_ok_def)
  then have "used_ips C (vp_id p) v = (Inr (vpc_ips (abs (w_db w)) p), v)"
    by (simp add: used_run after_volume_def vpc_ips_def)
  then have "spawn_local C body n hook w = (case pick_ip (vp_cidr p) (vpc_ips (abs (w_db w)) p) of
      Inl e \<Rightarrow> (Inl e, v)
    | Inr ip \<Rightarrow> bnd (spawn_row body n (vp_id p) ip (vo_id (data_row body n w))) (\<lambda>row.
        andThen (insert_row (c_vms C) row)
       (andThen (hook (vm_id row))
                (bring_up C row (vp_cidr p) (Some (vo_path (data_row body n w))) (Some (wi_ssh_key body)) GOLD_DEFAULT))) v)"
    using assms vpc v(1) by (simp add: spawn_local_def bnd_run resolve_root_image_def spawn_ok_def split: sum.split)
  with v show ?thesis by blast
qed

text \<open>With an address, the row and the hook's row go in and the VM comes up.\<close>

lemma spawn_local_run:
  fixes body n p ip w
  defines "row \<equiv> spawned_row body n p ip w" and "T \<equiv> abs (w_db w)"
  assumes ok: "spawn_ok T n body p w" and ip: "pick_ip (vp_cidr p) (vpc_ips T p) = Inr ip"
    and new: "\<forall>x \<in> set (t_vms T). vm_id x \<noteq> vm_id row" and nodes: "distinct (map nd_id (t_nodes T))"
    and hook: "\<And>u. t_pubips (abs (w_db u)) = t_pubips T \<Longrightarrow>
      \<exists>d. hook (vm_id row) u = (Inr (), u\<lparr>w_db := d\<rparr>) \<and> abs d = t_pubips_update H (abs (w_db u))"
    and one: "one_address (t_pubips_update H T) (vm_id row)"
    and ready: "vm_ready (spec_in (t_pubips_update H T) w row (vp_cidr p) (Some (vo_path (data_row body n w)))
      (Some (wi_ssh_key body)) GOLD_DEFAULT) w"
  shows "\<exists>d u v. after_volume body n w d u \<and> spawn_local C body n hook w = (Inr (row\<lparr>vm_status := ''running''\<rparr>), v) \<and>
    abs (w_db v) = T\<lparr>t_volumes := t_volumes T @ [data_row body n w], t_pubips := H (t_pubips T),
      t_vms := t_vms T @ [vm_defaults row\<lparr>vm_status := ''running''\<rparr>]\<rparr> \<and>
    vm_is_up (spec_in (t_pubips_update H T) w row (vp_cidr p) (Some (vo_path (data_row body n w)))
      (Some (wi_ssh_key body)) GOLD_DEFAULT) u v \<and>
    w_uuid v = w_uuid w \<and> w_nuuid v = Suc (Suc (w_nuuid w)) \<and> same_conf w v"
proof -
  let ?vol = "data_row body n w" and ?key = "Some (wi_ssh_key body)"
  let ?spec = "spec_in (t_pubips_update H T) w row (vp_cidr p) (Some (vo_path ?vol)) ?key GOLD_DEFAULT"
  obtain d u where u: "after_volume body n w d u" "abs d = t_volumes_update (\<lambda>rs. rs @ [?vol]) T"
    "spawn_local C body n hook w = bnd (spawn_row body n (vp_id p) ip (vo_id ?vol)) (\<lambda>row.
        andThen (insert_row (c_vms C) row)
       (andThen (hook (vm_id row)) (bring_up C row (vp_cidr p) (Some (vo_path ?vol)) ?key GOLD_DEFAULT))) u"
    using spawn_local_volume [of w n body p hook] ok ip by (auto simp: T_def)
  let ?u1 = "u\<lparr>w_nuuid := Suc (w_nuuid u), w_tick := Suc (w_tick u)\<rparr>"
  have row: "spawn_row body n (vp_id p) ip (vo_id ?vol) u = (Inr row, ?u1)"
    using u(1) by (simp add: spawn_row_def bnd_run uuid4_def now_def after_volume_def row_def spawned_row_def data_row_def)
  have db: "w_db u = d" using u(1) by (simp add: after_volume_def)
  have "\<forall>x \<in> set (t_vms (abs d)). \<not> key_clash vm_id row x" using new by (simp add: u(2) key_clash_def)
  then obtain e where e: "d_insert (c_vms C) row d = Inr e" "abs e = t_vms_update (\<lambda>rs. rs @ [vm_defaults row]) (abs d)"
    using vms.insert_free by blast
  obtain f where f: "hook (vm_id row) (?u1\<lparr>w_db := e\<rparr>) = (Inr (), ?u1\<lparr>w_db := f\<rparr>)" "abs f = t_pubips_update H (abs e)"
    using hook [of "?u1\<lparr>w_db := e\<rparr>"] by (auto simp: e(2) u(2))
  let ?u2 = "?u1\<lparr>w_db := f\<rparr>"
  have base: "same_base w ?u2" and host: "same_host u ?u2"
    using u(1) by (simp_all add: after_volume_def same_base_def same_host_def same_conf_def)
  have spec: "spec_in (abs f) ?u2 row (vp_cidr p) (Some (vo_path ?vol)) ?key GOLD_DEFAULT = ?spec"
    by (simp add: same_base_spec [OF base] f(2) e(2) u(2)) (simp add: spec_in_def)
  have "vm_ready ?spec ?u2"
    using ready same_base_ready [OF base, of ?spec] u(1) by (simp add: after_volume_def)
  moreover have "settings_ok ?u2" using ok same_base_basic(5) [OF base] by (simp add: spawn_ok_def)
  moreover have "distinct (map nd_id (t_nodes (abs f)))" "one_address (abs f) (vm_id row)"
    using nodes one by (simp_all add: f(2) e(2) u(2) one_address_def)
  ultimately obtain x g where x: "bring_up C row (vp_cidr p) (Some (vo_path ?vol)) ?key GOLD_DEFAULT ?u2
      = (Inr (row\<lparr>vm_status := ''running''\<rparr>), x\<lparr>w_db := g\<rparr>)" "vm_is_up ?spec ?u2 x" "vm_frame ?spec ?u2 x"
    "abs g = t_vms_update (map (\<lambda>r. if vm_id r = vm_id row then r\<lparr>vm_status := ''running''\<rparr> else r)) (abs f)"
    using bring_up_run [of ?u2 row "vp_cidr p" "Some (vo_path ?vol)" ?key GOLD_DEFAULT] spec by auto
  have "map (\<lambda>r. if vm_id r = vm_id row then r\<lparr>vm_status := ''running''\<rparr> else r) (t_vms T) = t_vms T"
    using new by (intro map_idI) auto
  then have "abs g = T\<lparr>t_volumes := t_volumes T @ [?vol], t_pubips := H (t_pubips T),
      t_vms := t_vms T @ [vm_defaults row\<lparr>vm_status := ''running''\<rparr>]\<rparr>"
    by (simp add: x(4) f(2) e(2) u(2))
  moreover have "spawn_local C body n hook w = (Inr (row\<lparr>vm_status := ''running''\<rparr>), x\<lparr>w_db := g\<rparr>)"
    by (simp add: u(3) bnd_run row andThen_run insert_row_def db e(1) f(1) x(1))
  moreover have "vm_is_up ?spec u (x\<lparr>w_db := g\<rparr>)"
    using x(2) same_host_up(1) [OF host, of x x ?spec] same_host_up(1) [of u u x "x\<lparr>w_db := g\<rparr>" ?spec] by simp
  moreover have "w_uuid x = w_uuid w \<and> w_nuuid x = Suc (Suc (w_nuuid w)) \<and> same_conf w x"
    using x(3) u(1) by (auto simp: vm_frame_def after_volume_def same_base_def same_conf_def)
  ultimately show ?thesis using u(1) by (intro exI [of _ d] exI [of _ u] exI [of _ "x\<lparr>w_db := g\<rparr>"]) (simp add: same_conf_def)
qed

end

section \<open>The reverse proxy\<close>

text \<open>The world in which the proxy's VM is spawned, and the rows of the proxy.\<close>

definition next_id :: "'db world \<Rightarrow> 'db world" where
  "next_id w = w\<lparr>w_nuuid := Suc (w_nuuid w), w_tick := Suc (w_tick w)\<rparr>"

definition proxy_address :: "string \<Rightarrow> string \<times> string \<times> string \<times> string \<Rightarrow> 'db world \<Rightarrow> pubip_row" where
  "proxy_address n offer w = (case offer of (address, gw, mac, pre) \<Rightarrow>
     \<lparr>pi_id = w_uuid w (w_nuuid w), pi_node = n, pi_vm = Some (w_uuid w (w_nuuid w + 2)), pi_address = address,
      pi_gateway = Some gw, pi_mac = mac, pi_prefix = pre, pi_status = ''attached'', pi_created = w_time w (w_tick w)\<rparr>)"

definition proxy_row_of :: "string \<Rightarrow> vpc_row \<Rightarrow> 'db world \<Rightarrow> proxy_row" where
  "proxy_row_of n p w =
     \<lparr>px_id = w_uuid w (w_nuuid w + 3), px_vpc = vp_id p, px_vm = w_uuid w (w_nuuid w + 2), px_node = n,
      px_pubip = Some (w_uuid w (w_nuuid w)), px_status = ''pending'', px_created = w_time w (w_tick w)\<rparr>"

definition proxy_tasks :: "string \<Rightarrow> string \<Rightarrow> string \<Rightarrow> 'db world \<Rightarrow> task_row list" where
  "proxy_tasks n ip address w =
     [task_row_of (w_uuid w (w_nuuid w + 4)) (w_uuid w (w_nuuid w + 2)) n ''reverse_proxy_setup''
        (Some (dumps_flat (JObj [(''vm_ip'', JStr ip), (''public_ip'', JStr address)]))) (w_time w (w_tick w)),
      task_row_of (w_uuid w (w_nuuid w + 5)) (w_uuid w (w_nuuid w + 2)) n ''proxy_reload'' None (w_time w (w_tick w))]"

text \<open>Random UUIDs: each new, and a safe name.\<close>

definition fresh_ids :: "tables \<Rightarrow> 'db world \<Rightarrow> bool" where
  "fresh_ids T w \<longleftrightarrow> inj (w_uuid w) \<and> (\<forall>k \<ge> w_nuuid w. w_uuid w k \<noteq> [] \<and> noslash (w_uuid w k) \<and> unknown_vm T (w_uuid w k) \<and>
     (\<forall>x \<in> set (t_volumes T). vo_id x \<noteq> w_uuid w k) \<and> (\<forall>x \<in> set (t_pubips T). pi_id x \<noteq> w_uuid w k) \<and>
     (\<forall>x \<in> set (t_proxies T). px_id x \<noteq> w_uuid w k) \<and> (\<forall>x \<in> set (t_tasks T). ta_id x \<noteq> w_uuid w k))"

lemma fresh_idsD:
  assumes "fresh_ids T w" "w_nuuid w \<le> k"
  shows "noslash (w_uuid w k)" "unknown_vm T (w_uuid w k)" "\<forall>x \<in> set (t_volumes T). vo_id x \<noteq> w_uuid w k"
    "\<forall>x \<in> set (t_pubips T). pi_id x \<noteq> w_uuid w k" "\<forall>x \<in> set (t_proxies T). px_id x \<noteq> w_uuid w k"
    "\<forall>x \<in> set (t_tasks T). ta_id x \<noteq> w_uuid w k" "w_uuid w k \<noteq> []"
  using assms by (simp_all add: fresh_ids_def)

lemma find_snoc: "P y \<Longrightarrow> \<forall>z \<in> set ys. \<not> P z \<Longrightarrow> find P (ys @ [y]) = Some y"
  by (induction ys) auto

lemma pubip_run: "fst (pubip w) = Inr cfg \<Longrightarrow> pubip w = (Inr cfg, w)"
  using reads_only [OF keeps_pubip, of w] by (simp add: prod_eq_iff)

context dadar
begin

lemma create_proxy_local_run:
  fixes body n p ip w offer
  defines "T \<equiv> abs (w_db w)" and "b \<equiv> proxy_spawn body" and "pip \<equiv> proxy_address n offer w"
  defines "row \<equiv> spawned_row b n p ip (next_id w)"
  defines "spec \<equiv> spec_in (t_pubips_update (\<lambda>rs. rs @ [pip]) T) w row (vp_cidr p) (Some (vo_path (data_row b n (next_id w))))
      (Some []) GOLD_DEFAULT"
  assumes ok: "spawn_ok T n b p (next_id w)" and ip: "pick_ip (vp_cidr p) (vpc_ips T p) = Inr ip"
    and cfg: "fst (pubip w) = Inr cfg" "acquire cfg (pi_address ` {r \<in> set (t_pubips T). pi_node r = n}) = Inr offer"
    and ids: "fresh_ids T w" and nodes: "distinct (map nd_id (t_nodes T))"
    and none: "\<forall>x \<in> set (t_proxies T). px_vpc x \<noteq> vp_id p" and ready: "vm_ready spec w"
  shows "\<exists>d u v. after_volume b n (next_id w) d u \<and>
    create_proxy_local C body p n w = (Inr \<lparr>po_vm = row\<lparr>vm_status := ''running''\<rparr>, po_pubip = pip,
      po_proxy = proxy_row_of n p w, po_task = w_uuid w (w_nuuid w + 4)\<rparr>, v) \<and>
    abs (w_db v) = T\<lparr>t_volumes := t_volumes T @ [data_row b n (next_id w)], t_pubips := t_pubips T @ [pip],
      t_vms := t_vms T @ [vm_defaults row\<lparr>vm_status := ''running''\<rparr>], t_proxies := t_proxies T @ [proxy_row_of n p w],
      t_tasks := t_tasks T @ proxy_tasks n ip (fst offer) w\<rparr> \<and>
    vm_is_up spec u v"
proof -
  let ?w1 = "next_id w"
  obtain address gw mac pre where o: "offer = (address, gw, mac, pre)" by (cases offer)
  have id: "vm_id row = w_uuid w (w_nuuid w + 2)" "pi_vm pip = Some (vm_id row)" "pi_id pip = w_uuid w (w_nuuid w)"
    "pi_status pip = ''attached''" "vm_ip row = ip"
    by (simp_all add: row_def spawned_row_def next_id_def pip_def proxy_address_def o)
  note fresh = fresh_idsD [OF ids]
  have unk: "unknown_vm T (vm_id row)" using fresh(2) by (simp add: id)
  have one: "one_address (t_pubips_update (\<lambda>rs. rs @ [pip]) T) (vm_id row)"
    using unk by (auto simp: one_address_def unknown_vm_def attached_def)
  have base: "same_base w ?w1" by (simp add: next_id_def same_base_def same_conf_def)
  let ?hook = "\<lambda>vm. insert_row (c_pubips C) (pip\<lparr>pi_vm := Some vm\<rparr>)"
  have hook: "\<exists>d. ?hook (vm_id row) u = (Inr (), u\<lparr>w_db := d\<rparr>) \<and> abs d = t_pubips_update (\<lambda>rs. rs @ [pip]) (abs (w_db u))"
    if "t_pubips (abs (w_db u)) = t_pubips T" for u
  proof -
    have same: "pip\<lparr>pi_vm := Some (vm_id row)\<rparr> = pip" using id(2) by (cases pip) simp
    show ?thesis unfolding same using fresh(4) that by (intro pubips.insert_run) (simp add: key_clash_def id)
  qed
  have T1: "abs (w_db ?w1) = T" by (simp add: next_id_def T_def)
  have spec: "spec_in (t_pubips_update (\<lambda>rs. rs @ [pip]) T) ?w1 row (vp_cidr p) (Some (vo_path (data_row b n ?w1)))
      (Some (wi_ssh_key b)) GOLD_DEFAULT = spec"
    by (simp add: same_base_spec [OF base] spec_def) (simp add: b_def proxy_spawn_def)
  have new: "\<forall>x \<in> set (t_vms T). vm_id x \<noteq> vm_id row" using unk by (simp add: unknown_vm_def)
  have "vm_ready spec ?w1" using ready same_base_ready [OF base, of spec] by (simp add: next_id_def)
  note run = spawn_local_run [where w = ?w1 and body = b and n = n and p = p and ip = ip and hook = ?hook
      and H = "\<lambda>rs. rs @ [pip]", unfolded T1, folded row_def, unfolded spec, OF ok ip new nodes hook one this]
  obtain d u v where v: "after_volume b n ?w1 d u" "spawn_local C b n ?hook ?w1 = (Inr (row\<lparr>vm_status := ''running''\<rparr>), v)"
    "abs (w_db v) = T\<lparr>t_volumes := t_volumes T @ [data_row b n ?w1], t_pubips := t_pubips T @ [pip],
      t_vms := t_vms T @ [vm_defaults row\<lparr>vm_status := ''running''\<rparr>]\<rparr>" "vm_is_up spec u v"
    "w_uuid v = w_uuid ?w1" "w_nuuid v = Suc (Suc (w_nuuid ?w1))"
    using run by blast
  have uu: "w_uuid v = w_uuid w" "w_nuuid v = w_nuuid w + 3" using v(5,6) by (simp_all add: next_id_def)
  let ?v1 = "v\<lparr>w_nuuid := Suc (w_nuuid v)\<rparr>" and ?px = "proxy_row_of n p w"
  have "\<forall>x \<in> set (t_proxies (abs (w_db ?v1))). \<not> proxy_clash ?px x"
    using none fresh(5) by (simp add: v(3) proxy_clash_def proxy_row_of_def)
  then obtain d1 where d1: "insert_row (c_proxies C) ?px ?v1 = (Inr (), ?v1\<lparr>w_db := d1\<rparr>)"
    "abs d1 = t_proxies_update (\<lambda>rs. rs @ [?px]) (abs (w_db v))"
    using proxies.insert_run [of ?v1 ?px] by auto
  let ?v2 = "v\<lparr>w_nuuid := w_nuuid v + 3, w_db := d1\<rparr>"
  define t1 t2 where "t1 = proxy_tasks n ip address w ! 0" and "t2 = proxy_tasks n ip address w ! 1"
  have tid: "ta_id t1 = w_uuid w (w_nuuid w + 4)" "ta_id t2 = w_uuid w (w_nuuid w + 5)" "proxy_tasks n ip address w = [t1, t2]"
    by (simp_all add: t1_def t2_def proxy_tasks_def task_row_of_def)
  have tasks0: "t_tasks (abs d1) = t_tasks T" by (simp add: d1(2) v(3))
  have "\<forall>x \<in> set (t_tasks (abs (w_db ?v2))). \<not> key_clash ta_id t1 x"
    using fresh(6) by (simp add: key_clash_def tid tasks0)
  then obtain d2 where d2: "insert_row (c_tasks C) t1 ?v2 = (Inr (), ?v2\<lparr>w_db := d2\<rparr>)"
    "abs d2 = t_tasks_update (\<lambda>rs. rs @ [t1]) (abs d1)"
    using tasks.insert_run [of ?v2 t1] by auto
  have "ta_id t1 \<noteq> ta_id t2" using ids by (simp add: tid fresh_ids_def inj_eq)
  then have "\<forall>x \<in> set (t_tasks (abs (w_db (?v2\<lparr>w_db := d2\<rparr>)))). \<not> key_clash ta_id t2 x"
    using fresh(6) [of "w_nuuid w + 5"] by (simp add: d2(2) tasks0 key_clash_def tid(2))
  then obtain d3 where d3: "insert_row (c_tasks C) t2 (?v2\<lparr>w_db := d2\<rparr>) = (Inr (), ?v2\<lparr>w_db := d3\<rparr>)"
    "abs d3 = t_tasks_update (\<lambda>rs. rs @ [t2]) (abs d2)"
    using tasks.insert_run [of "?v2\<lparr>w_db := d2\<rparr>" t2] by auto
  have "create_proxy_local C body p n w = (Inr \<lparr>po_vm = row\<lparr>vm_status := ''running''\<rparr>, po_pubip = pip,
      po_proxy = ?px, po_task = ta_id t1\<rparr>, ?v2\<lparr>w_db := d3\<rparr>)"
  proof -
    have addr: "node_addresses C n w = (Inr (pi_address ` {r \<in> set (t_pubips T). pi_node r = n}), w)"
      by (simp add: node_addresses_def bnd_run get_all_run pubips.all T_def)
    have t12: "proxy_task_row (vm_id row) n ''reverse_proxy_setup''
        (Some (dumps_flat (JObj [(''vm_ip'', JStr ip), (''public_ip'', JStr address)]))) (w_time w (w_tick w)) (?v1\<lparr>w_db := d1\<rparr>)
        = (Inr t1, ?v1\<lparr>w_db := d1, w_nuuid := Suc (w_nuuid ?v1)\<rparr>)"
      "proxy_task_row (vm_id row) n ''proxy_reload'' None (w_time w (w_tick w)) (v\<lparr>w_db := d1, w_nuuid := Suc (Suc (w_nuuid v))\<rparr>)
        = (Inr t2, ?v2)"
      by (simp_all add: proxy_task_row_def bnd_run uuid4_def t1_def t2_def proxy_tasks_def task_row_of_def uu id eval_nat_numeral)
    have hk: "(\<lambda>vm. insert_row (c_pubips C) \<lparr>pi_id = w_uuid w (w_nuuid w), pi_node = n, pi_vm = Some vm, pi_address = address,
        pi_gateway = Some gw, pi_mac = mac, pi_prefix = pre, pi_status = ''attached'', pi_created = w_time w (w_tick w)\<rparr>) = ?hook"
      by (simp add: pip_def proxy_address_def o)
    have nx: "w\<lparr>w_tick := Suc (w_tick w), w_nuuid := Suc (w_nuuid w)\<rparr> = ?w1" by (simp add: next_id_def)
    have row_id: "vm_id (row\<lparr>vm_status := ''running''\<rparr>) = vm_id row" "vm_ip (row\<lparr>vm_status := ''running''\<rparr>) = ip"
      by (simp_all add: id)
    have px: "\<lparr>px_id = w_uuid v (w_nuuid v), px_vpc = vp_id p, px_vm = vm_id row, px_node = n, px_pubip = Some (w_uuid w (w_nuuid w)),
        px_status = ''pending'', px_created = w_time w (w_tick w)\<rparr> = ?px"
      by (simp add: proxy_row_of_def uu id)
    have same: "\<lparr>pi_id = w_uuid w (w_nuuid w), pi_node = n, pi_vm = Some (vm_id row), pi_address = address,
        pi_gateway = Some gw, pi_mac = mac, pi_prefix = pre, pi_status = ''attached'', pi_created = w_time w (w_tick w)\<rparr> = pip"
      by (simp add: pip_def proxy_address_def o id(1))
    show ?thesis
      unfolding create_proxy_local_def
      by (simp add: bnd_run pubip_run [OF cfg(1)] addr cfg(2) o now_def uuid4_def nx hk v(2) b_def [symmetric] row_id px
          andThen_run Let_def d1(1) t12 d2(1) d3(1) [simplified] same tid(1)
          del: dumps_flat.simps)
  qed
  moreover have "abs d3 = T\<lparr>t_volumes := t_volumes T @ [data_row b n ?w1], t_pubips := t_pubips T @ [pip],
      t_vms := t_vms T @ [vm_defaults row\<lparr>vm_status := ''running''\<rparr>], t_proxies := t_proxies T @ [?px],
      t_tasks := t_tasks T @ proxy_tasks n ip (fst offer) w\<rparr>"
    by (simp add: d3(2) d2(2) d1(2) v(3) tid(3) o)
  moreover have "vm_is_up spec u (?v2\<lparr>w_db := d3\<rparr>)"
    using v(4) same_host_up(1) [of u u v "?v2\<lparr>w_db := d3\<rparr>" spec]
    by (simp add: same_host_def same_base_def same_conf_def)
  ultimately show ?thesis using v(1) tid(1) by (intro exI [of _ d] exI [of _ u] exI [of _ "?v2\<lparr>w_db := d3\<rparr>"]) simp
qed

text \<open>The request reaches that code when no proxy is there yet and the pool has an address in no row.\<close>

lemma create_proxy_here:
  assumes "db_inv (abs (w_db w))" "p \<in> set (t_vpcs (abs (w_db w)))" "vp_name p = DEFAULT_VPC_NAME"
    and "\<forall>x \<in> set (t_proxies (abs (w_db w))). px_vpc x \<noteq> vp_id p"
    and "fst (pubip w) = Inr cfg" "\<not> pe_address ` set (pc_ips cfg) \<subseteq> pi_address ` set (t_pubips (abs (w_db w)))"
  shows "create_proxy C me body w = locally (create_proxy_local C body p me) w"
proof -
  have "ensure_default_vpc C w = (Inr p, w)" using assms(1-3) by (intro default_vpc_run) (simp_all add: inv_defs)
  moreover have "d_get (c_proxies C) (\<lambda>r. px_vpc r = vp_id p) (w_db w) = None" using assms(4) by (simp add: proxies.get_None)
  moreover have "filter (\<lambda>e. pe_address e \<notin> pi_address ` set (t_pubips (abs (w_db w)))) (pc_ips cfg) \<noteq> []"
    using assms(6) by (auto simp: filter_empty_conv)
  then have "node_with_free_ip C me w = (Inr me, w)"
    by (simp add: node_with_free_ip_def bnd_run pubip_run [OF assms(5)] get_all_run pubips.all Let_def)
  ultimately show ?thesis by (simp add: create_proxy_def bnd_run get_run)
qed

lemma get_proxy_run:
  assumes "distinct (map vp_name (t_vpcs (abs (w_db w))))" "p \<in> set (t_vpcs (abs (w_db w)))" "vp_name p = DEFAULT_VPC_NAME"
    and "t_proxies (abs (w_db w)) = xs @ [x]" "\<forall>y \<in> set xs. px_vpc y \<noteq> vp_id p" "px_vpc x = vp_id p"
    and "t_pubips (abs (w_db w)) = as @ [a]" "\<forall>y \<in> set as. pi_id y \<noteq> pi_id a" "px_pubip x = Some (pi_id a)" "pi_id a \<noteq> []"
  shows "get_proxy C w = (Inr (x, Some a, length (t_domains (abs (w_db w)))), w)"
proof -
  have "ensure_default_vpc C w = (Inr p, w)" using assms(1-3) by (rule default_vpc_run)
  moreover have "d_get (c_proxies C) (\<lambda>r. px_vpc r = vp_id p) (w_db w) = Some x"
    "d_get (c_pubips C) (\<lambda>r. pi_id r = pi_id a) (w_db w) = Some a"
    using assms(4-8) by (auto intro!: trans [OF proxies.get_find] trans [OF pubips.get_find] find_snoc)
  moreover have "truthy_str (px_pubip x) = Some (pi_id a)" using assms(9,10) by (simp add: truthy_str_def)
  ultimately show ?thesis by (simp add: get_proxy_def bnd_run get_run get_all_run domains.all)
qed

end

end
