(* ===== verification/SpawnProps.thy ===== *)
theory SpawnProps
  imports SpawnRequests RequestProps ExecutorProps
begin

text \<open>
  What \<open>POST /proxy\<close> leaves in the tables and on the host, and what a spawn into a full VPC leaves behind.
\<close>

section \<open>Properties\<close>


text \<open>A node with the default VPC of one usable address and one public address.\<close>

definition proxy_node :: "tables world" where
  "proxy_node = (world0 (no_rows\<lparr>t_vpcs := [\<lparr>vp_id = ''v1'', vp_name = DEFAULT_VPC_NAME, vp_cidr = net_str net30, vp_created = 0\<rparr>]\<rparr>))
     \<lparr>w_toml := [''public_ips'' \<mapsto> TList [TStr ''203.0.113.5'']]\<rparr>"

definition small_proxy :: proxy_in where
  "small_proxy = \<lparr>xi_name = None, xi_vcpu = 1, xi_mem = 512\<rparr>"

abbreviation offered :: "string \<times> string \<times> string \<times> string" where
  "offered \<equiv> (''203.0.113.5'', [], [], ''32'')"

lemma proxy_node_sel:
  "w_db proxy_node = no_rows\<lparr>t_vpcs := [\<lparr>vp_id = ''v1'', vp_name = DEFAULT_VPC_NAME, vp_cidr = net_str net30, vp_created = 0\<rparr>]\<rparr>"
  "w_uuid proxy_node k = ''id-'' @ dec k" "w_nuuid proxy_node = 0" "w_cwd proxy_node = [''srv'', ''node'']" "w_fake proxy_node = reset_state"
  "w_tmp proxy_node = [''tmp'', ''t0'']" "on_fake proxy_node" "fs_at q proxy_node = fs_at q (world0 ())"
  by (simp_all add: proxy_node_def) (simp_all add: world0_def fs_at_def on_fake_def backend_def lower_fake)

lemma proxy_node_settings:
  "settings_ok proxy_node" "vg_of proxy_node ''n1'' = ''nyc-n1''" "pool_of proxy_node = ''pool''"
  "fst (pubip proxy_node) = Inr \<lparr>pc_iface = ''eth0'', pc_ips = [\<lparr>pe_address = ''203.0.113.5'', pe_mac = [], pe_prefix = ''32''\<rparr>],
    pc_gateway = None, pc_bridge = ''pub0''\<rparr>"
  by (simp_all add: settings_ok_def vg_of_def volume_vg_def lvm_def str_setting_def int_setting_def setting_def pool_of_def
      truthy_str_def proxy_node_def world0_def bnd_run vg_for_def pubip_def toml_ip_def map_prog_def)

lemma proxy_node_ids: "fresh_ids (w_db proxy_node) proxy_node" "w_nuuid (next_id proxy_node) = 1" "w_uuid (next_id proxy_node) = w_uuid proxy_node"
  by (auto simp: fresh_ids_def proxy_node_sel no_rows_def noslash_def unknown_vm_def inj_def next_id_def)

lemma next_id_base: "same_base w (next_id w)" and next_id_sel [simp]: "w_db (next_id w) = w_db w" "w_fake (next_id w) = w_fake w"
  by (simp_all add: next_id_def same_base_def same_conf_def)

lemma proxy_node_spawn:
  "spawn_ok (w_db proxy_node) ''n1'' (proxy_spawn small_proxy) (hd (t_vpcs (w_db proxy_node))) (next_id proxy_node)"
  "pick_ip (vp_cidr (hd (t_vpcs (w_db proxy_node)))) (vpc_ips (w_db proxy_node) (hd (t_vpcs (w_db proxy_node)))) = Inr (ip_str 167837698)"
proof -
  note b = same_base_basic [OF next_id_base [of proxy_node]]
  have "same_conf (next_id proxy_node) proxy_node" using next_id_base [of proxy_node] by (simp add: same_base_def same_conf_def)
  then have "pool_of (next_id proxy_node) = pool_of proxy_node" by (simp add: pool_of_def reader_same [OF reader_lvm])
  then show "spawn_ok (w_db proxy_node) ''n1'' (proxy_spawn small_proxy) (hd (t_vpcs (w_db proxy_node))) (next_id proxy_node)"
    by (simp add: spawn_ok_def b proxy_node_settings proxy_node_ids volume_names_ok_def)
       (simp add: proxy_node_sel no_rows_def inv_defs proxy_spawn_def noslash_def truthy_str_def)
  show "pick_ip (vp_cidr (hd (t_vpcs (w_db proxy_node)))) (vpc_ips (w_db proxy_node) (hd (t_vpcs (w_db proxy_node)))) = Inr (ip_str 167837698)"
    using pick_ip_find [OF net30_facts(1)] by (simp add: net30_facts(2) proxy_node_sel no_rows_def vpc_ips_def)
qed

lemma proxy_node_ready:
  "vm_ready (spec_in (t_pubips_update (\<lambda>rs. rs @ [proxy_address ''n1'' offered proxy_node]) (w_db proxy_node)) proxy_node
    (spawned_row (proxy_spawn small_proxy) ''n1'' (hd (t_vpcs (w_db proxy_node))) (ip_str 167837698) (next_id proxy_node))
    (vp_cidr (hd (t_vpcs (w_db proxy_node)))) vol key GOLD_DEFAULT) proxy_node" (is "vm_ready ?spec _")
proof -
  have s: "vs_vms_dir ?spec = [''srv'', ''node'', ''vms'']" "vs_vm_id ?spec = ''id-'' @ dec 2" "vs_vg ?spec = ''nyc-n1''"
    "vs_rootfs_origin ?spec = ''gold-default''" "vs_peer_hosts ?spec = []" "vs_cidr ?spec = net_str net30"
    by (simp_all add: spec_in_def spawned_row_def GOLD_DEFAULT_def proxy_node_settings proxy_node_ids)
       (simp_all add: proxy_node_sel no_rows_def numeral_2_eq_2)
  have "vm_fresh [''srv'', ''node'', ''vms'', ''id-'' @ dec 2] proxy_node"
    by (auto simp: vm_fresh_def dirs_ok_def proxy_node_sel fs_at_world0 prefix_def)
  moreover have "case gateway_cidr (net_str net30) of Inr _ \<Rightarrow> True | Inl _ \<Rightarrow> False"
    by (simp add: gateway_cidr_def net30_facts(1) split_net_str)
  moreover have "tmp_new proxy_node" by (auto simp: tmp_new_def proxy_node_sel fs_at_world0 prefix_def)
  moreover have "pub_bridge_ok ?spec proxy_node" by (simp add: pub_bridge_ok_def proxy_node_settings iface_def is_digit_def)
  ultimately show ?thesis
    by (simp add: vm_ready_def s for_vm_def noslash_def proxy_node_sel(5-7) ipt_ready_reset overlay_ready_def Let_def)
qed


text \<open>C12: \<open>POST /vms/spawn\<close> makes the data volume before it looks for an address: when every host address of
  the default VPC is in use, the request fails with the \<open>RuntimeError\<close> that says so, no VM is added, and a volume that
  no VM refers to stays behind, both its row and its logical volume; the reconciler never removes it, because
  its row is there.\<close>

theorem spawn_full_leaks_volume:
  assumes "dadar C view" "spawn_ok (view (w_db w)) me body p w" "truthy_str pin = Some me" "w_uuid w (w_nuuid w) \<noteq> []"
    and "gateway (vp_cidr p) = Inr g" "set (vm_hosts (vp_cidr p)) \<subseteq> vpc_ips (view (w_db w)) p"
  shows "let vol = data_row body me w; name = data_name (vo_id vol) in
    \<exists>v. spawn_vm C me body pin w = (Inl (RuntimeError (''VPC '' @ vp_cidr p @ '' is full'')), v) \<and>
      view (w_db v) = t_volumes_update (\<lambda>rs. rs @ [vol]) (view (w_db w)) \<and>
      (\<forall>r \<in> set (t_vms (view (w_db v))). vm_volume r \<noteq> Some (vo_id vol)) \<and>
      lv_map (w_fake v) = (lv_map (w_fake w))((vg_of w me, name) \<mapsto> data_lv body w) \<and>
      \<not> swept (view (w_db v)) me name"
proof -
  let ?vol = "data_row body me w" and ?T = "view (w_db w)"
  have id: "vo_id ?vol = w_uuid w (w_nuuid w)" "vo_node ?vol = me" by (simp_all add: data_row_def)
  have full: "pick_ip (vp_cidr p) (vpc_ips ?T p) = Inl (RuntimeError (''VPC '' @ vp_cidr p @ '' is full''))"
  proof -
    have "find (\<lambda>a. a \<notin> vpc_ips ?T p) (vm_hosts (vp_cidr p)) = None" using assms(6) by (auto simp: find_None_iff)
    then show ?thesis by (simp add: pick_ip_find [OF assms(5)])
  qed
  obtain d v where v: "after_volume body me w d v" "view d = t_volumes_update (\<lambda>rs. rs @ [?vol]) ?T"
    "spawn_local C body me (\<lambda>_. ret ()) w = (Inl (RuntimeError (''VPC '' @ vp_cidr p @ '' is full'')), v)"
    using dadar.spawn_local_volume [OF assms(1,2), of "\<lambda>_. ret ()"] by (auto simp: full)
  then have run: "spawn_vm C me body pin w = (Inl (RuntimeError (''VPC '' @ vp_cidr p @ '' is full'')), v)"
    by (simp add: spawn_vm_def bnd_run assms(3) locally_def)
  have unref: "vm_volume r \<noteq> Some (vo_id ?vol)" if r: "r \<in> set (t_vms ?T)" for r
  proof
    assume "vm_volume r = Some (vo_id ?vol)"
    then have "truthy_str (vm_volume r) = Some (vo_id ?vol)" using assms(4) by (simp add: truthy_str_def id)
    then have "vo_id ?vol \<in> vo_id ` set (t_volumes ?T)" using assms(2) r by (auto simp: spawn_ok_def inv_defs)
    then show False using assms(2) by (auto simp: spawn_ok_def id)
  qed
  have "data_name (vo_id ?vol) \<in> wanted_data (view d) me"
    unfolding wanted_data_def by (rule image_eqI [where x = ?vol]) (simp_all add: v(2) id)
  then have "\<not> swept (view d) me (data_name (vo_id ?vol))"
    by (simp add: swept_def is_snap_def data_name_def DATA_def SNAP_def GOLD_def)
  with v run unref show ?thesis unfolding Let_def
    by (intro exI [of _ v]) (simp add: after_volume_def id)
qed

text \<open>The node above with a VM on the only address.\<close>

definition full_node :: "tables world" where
  "full_node = proxy_node\<lparr>w_db := (w_db proxy_node)\<lparr>t_vms := [\<lparr>vm_id = ''a1'', vm_node = ''n1'', vm_name = ''web'',
     vm_vpc = ''v1'', vm_volume = None, vm_ip = ip_str 167837698, vm_ssh = None, vm_vcpu = None, vm_mem = None,
     vm_status = ''running'', vm_created = 0\<rparr>]\<rparr>\<rparr>"

theorem spawn_full_leaks_volume_witness:
  "\<exists>v. spawn_vm list_client ''n1'' (proxy_spawn small_proxy) (Some ''n1'') full_node =
      (Inl (RuntimeError (''VPC '' @ net_str net30 @ '' is full'')), v) \<and>
    map vo_id (t_volumes (w_db v)) = [''id-0''] \<and> lv_map (w_fake v) (''nyc-n1'', ''data-id-0'') \<noteq> None"
proof -
  let ?p = "hd (t_vpcs (w_db proxy_node))"
  have p: "?p = \<lparr>vp_id = ''v1'', vp_name = DEFAULT_VPC_NAME, vp_cidr = net_str net30, vp_created = 0\<rparr>"
    by (simp add: proxy_node_sel)
  have base: "same_base proxy_node full_node" by (simp add: full_node_def same_base_def same_conf_def)
  note b = same_base_basic [OF base]
  have c: "same_conf full_node proxy_node" by (simp add: full_node_def same_conf_def)
  have sel: "w_uuid full_node (w_nuuid full_node) = ''id-0''" "w_fake full_node = reset_state"
    by (simp_all add: full_node_def proxy_node_sel dec_0)
  have ok: "spawn_ok (w_db full_node) ''n1'' (proxy_spawn small_proxy) ?p full_node"
    using proxy_node_settings reader_same [OF reader_lvm c]
    by (simp add: spawn_ok_def volume_names_ok_def b sel noslash_def pool_of_def)
       (simp add: proxy_node_sel full_node_def no_rows_def inv_defs proxy_spawn_def truthy_str_def net30_facts)
  have full: "set (vm_hosts (vp_cidr ?p)) \<subseteq> vpc_ips (w_db full_node) ?p"
    by (auto simp: p net30_facts vpc_ips_def full_node_def image_iff)
  have vol: "vo_id (data_row (proxy_spawn small_proxy) ''n1'' full_node) = ''id-0''" "t_volumes (w_db full_node) = []"
    "vg_of full_node ''n1'' = ''nyc-n1''" "vp_cidr ?p = net_str net30" "truthy_str (Some ''n1'') = Some ''n1''" "data_name ''id-0'' = ''data-id-0''"
    by (simp_all add: data_row_def sel b proxy_node_settings p truthy_str_def data_name_def DATA_def)
       (simp add: full_node_def proxy_node_sel no_rows_def)
  have id: "w_uuid full_node (w_nuuid full_node) \<noteq> []" by (simp add: sel)
  have gw: "gateway (vp_cidr ?p) = Inr (ip_str 167837697)" by (simp add: vol(4) net30_facts)
  obtain v where v: "spawn_vm list_client ''n1'' (proxy_spawn small_proxy) (Some ''n1'') full_node =
      (Inl (RuntimeError (''VPC '' @ net_str net30 @ '' is full'')), v)"
    "w_db v = t_volumes_update (\<lambda>rs. rs @ [data_row (proxy_spawn small_proxy) ''n1'' full_node]) (w_db full_node)"
    "lv_map (w_fake v) = (lv_map (w_fake full_node))((''nyc-n1'', ''data-id-0'') \<mapsto> data_lv (proxy_spawn small_proxy) full_node)"
    using spawn_full_leaks_volume [OF lists.dadar_axioms ok vol(5) id gw full] unfolding Let_def vol(1,3,4,6) by (elim exE conjE)
  have "map vo_id (t_volumes (w_db v)) = [''id-0'']" "lv_map (w_fake v) (''nyc-n1'', ''data-id-0'') \<noteq> None"
    unfolding v(2,3) by (simp_all add: vol(1,2))
  with v(1) show ?thesis by (intro exI [of _ v]) simp
qed

end
