(* ===== verification/AttachProps.thy ===== *)
theory AttachProps
  imports SpawnProps
begin

text \<open>
  Attaching a public address rebuilds the VM: what the requests leave on the host and in the tables, and what is
  lost on the way.
\<close>

section \<open>Rebuilding a VM\<close>

text \<open>The host without the VM's directory, as the rebuild finds it after the teardown.\<close>

definition host_without :: "string \<Rightarrow> 'db world \<Rightarrow> 'db world" where
  "host_without i w = w\<lparr>w_fs := without_dir (for_vm (w_cwd w @ [''vms'']) i) (w_fs w)\<rparr>"

definition volume_of :: "tables \<Rightarrow> vm_row \<Rightarrow> string option" where
  "volume_of T r = (case truthy_str (vm_volume r) of None \<Rightarrow> None
     | Some k \<Rightarrow> map_option vo_path (find (\<lambda>x. vo_id x = k) (t_volumes T)))"

definition rebuilt_spec :: "tables \<Rightarrow> 'db world \<Rightarrow> vm_row \<Rightarrow> vpc_row \<Rightarrow> vm_spec" where
  "rebuilt_spec T w r p = spec_in T (host_without (vm_id r) w) r (vp_cidr p) (volume_of T r) None GOLD_DEFAULT"

text \<open>A VM of this node that can be taken down and brought up again.\<close>

definition rebuildable :: "tables \<Rightarrow> 'db world \<Rightarrow> vm_row \<Rightarrow> vpc_row \<Rightarrow> bool" where
  "rebuildable T w r p \<longleftrightarrow> (let root = for_vm (w_cwd w @ [''vms'']) (vm_id r) in
     db_inv T \<and> distinct (map nd_id (t_nodes T)) \<and> r \<in> set (t_vms T) \<and> p \<in> set (t_vpcs T) \<and> vp_id p = vm_vpc r \<and>
     one_address T (vm_id r) \<and> on_fake w \<and> settings_ok w \<and> noslash (vg_of w (vm_node r)) \<and> noslash (vm_id r) \<and>
     fs_at root w = Some Dir \<and> pid_fine root w \<and> vm_ready (rebuilt_spec T w r p) (host_without (vm_id r) w))"

context dadar
begin

lemma recreate_vm_run:
  fixes w :: "'db world" and r p
  defines "T \<equiv> abs (w_db w)"
  assumes ok: "rebuildable T w r p"
  shows "\<exists>u v. recreate_vm C (vm_id r) w = (Inr (), v) \<and> vm_is_gone (w_cwd w @ [''vms'']) (vm_id r) (vg_of w (vm_node r)) w u \<and>
    same_base (host_without (vm_id r) w) u \<and> vm_is_up (rebuilt_spec T w r p) u v \<and>
    abs (w_db v) = t_vms_update (map (\<lambda>x. if vm_id x = vm_id r then x\<lparr>vm_status := ''running''\<rparr> else x)) T"
proof -
  let ?vms = "w_cwd w @ [''vms'']" and ?off = "host_without (vm_id r) w" and ?vg = "vg_of w (vm_node r)"
  have inv: "db_inv T" "r \<in> set (t_vms T)" "p \<in> set (t_vpcs T)" "vp_id p = vm_vpc r"
    and nodes: "distinct (map nd_id (t_nodes T))" "one_address T (vm_id r)" and ready: "vm_ready (rebuilt_spec T w r p) ?off"
    using ok by (simp_all add: rebuildable_def Let_def)
  have row: "d_get (c_vms C) (\<lambda>x. vm_id x = vm_id r) (w_db w) = Some r"
    using vms.get_unique [of vm_id "w_db w" r] inv by (simp add: T_def inv_defs)
  obtain ps where ps: "resolve w = (Inr ps, w)" "vms_dir ps = ?vms" using resolve_run by blast
  obtain u k s where u: "vm_down ?vms (vm_id r) ?vg w = (Inr (), u)" "vm_is_gone ?vms (vm_id r) ?vg w u"
    "u = w\<lparr>w_polls := k, w_fs := without_dir (for_vm ?vms (vm_id r)) (w_fs w), w_fake := s\<rparr>"
    using vm_down_state [of w ?vg "vm_id r" ?vms] ok by (auto simp: rebuildable_def Let_def)
  have db: "w_db u = w_db w" and base: "same_base ?off u"
    by (simp_all add: u(3) host_without_def same_base_def same_conf_def)
  have net: "f_ipt (w_fake u) = f_ipt (w_fake ?off)" "f_fdb (w_fake u) = f_fdb (w_fake ?off)"
    using u(2) by (simp_all add: vm_is_gone_def Let_def host_without_def)
  have vpc: "d_get (c_vpcs C) (\<lambda>x. vp_id x = vm_vpc r) (w_db u) = Some p"
    using vpcs.get_unique [of vp_id "w_db w" p] inv by (simp add: T_def inv_defs db)
  have vol: "(case truthy_str (vm_volume r) of None \<Rightarrow> ret None
      | Some k \<Rightarrow> bnd (get (c_volumes C) (\<lambda>r. vo_id r = k)) (\<lambda>x. ret (map_option vo_path x))) u = (Inr (volume_of T r), u)"
  proof -
    have "d_get (c_volumes C) (\<lambda>x. vo_id x = k) (w_db w) = find (\<lambda>x. vo_id x = k) (t_volumes T)" for k
      unfolding T_def using inv(1) by (intro volumes.get_find) (auto simp: T_def inv_defs distinct_map dest: inj_onD)
    then show ?thesis by (simp add: volume_of_def bnd_run get_run db split: option.split)
  qed
  have spec: "spec_in T u r (vp_cidr p) (volume_of T r) None GOLD_DEFAULT = rebuilt_spec T w r p"
    by (simp add: same_base_spec [OF base] rebuilt_spec_def)
  have "settings_ok u" using ok same_base_basic(5) [OF base] by (simp add: rebuildable_def Let_def host_without_def)
  moreover have "vm_ready (rebuilt_spec T w r p) u" using ready same_base_ready [OF base net] by simp
  ultimately obtain v d where v: "bring_up C r (vp_cidr p) (volume_of T r) None GOLD_DEFAULT u = (Inr (r\<lparr>vm_status := ''running''\<rparr>), v\<lparr>w_db := d\<rparr>)"
    "vm_is_up (rebuilt_spec T w r p) u v"
    "abs d = t_vms_update (map (\<lambda>x. if vm_id x = vm_id r then x\<lparr>vm_status := ''running''\<rparr> else x)) T"
    using bring_up_run [of u r "vp_cidr p" "volume_of T r" None GOLD_DEFAULT] nodes by (auto simp: db spec T_def [symmetric])
  have "volume_vg (vm_node r) w = (Inr ?vg, w)" using ok by (simp add: volume_vg_run rebuildable_def Let_def)
  then have "recreate_vm C (vm_id r) w = (Inr (), v\<lparr>w_db := d\<rparr>)"
    by (simp add: recreate_vm_def bnd_run get_run row ps andThen_run u(1) vpc vol v(1))
  moreover have "vm_is_up (rebuilt_spec T w r p) u (v\<lparr>w_db := d\<rparr>)"
    using v(2) same_host_up(1) [of u u v "v\<lparr>w_db := d\<rparr>"] by simp
  ultimately show ?thesis using u(2) base v(3) by (intro exI [of _ u] exI [of _ "v\<lparr>w_db := d\<rparr>"]) simp
qed

end

section \<open>Properties\<close>

definition new_address :: "string \<Rightarrow> string \<Rightarrow> string \<times> string \<times> string \<times> string \<Rightarrow> 'db world \<Rightarrow> pubip_row" where
  "new_address n i offer w = (proxy_address n offer w)\<lparr>pi_vm := Some i\<rparr>"

lemma rebuildable_next: "rebuildable T (next_id w\<lparr>w_db := d\<rparr>) r p = rebuildable T w r p"
proof -
  have base: "same_base w (next_id w\<lparr>w_db := d\<rparr>)" "same_base w (next_id w)" "same_base (host_without i w) (host_without i (next_id w\<lparr>w_db := d\<rparr>))" for i
    by (simp_all add: next_id_def same_base_def same_conf_def host_without_def)
  have "pid_fine root (next_id w\<lparr>w_db := d\<rparr>) = pid_fine root w" for root by (simp add: pid_fine_def same_base_basic(1) [OF base(1)])
  moreover have "f_ipt (w_fake (host_without i (next_id w\<lparr>w_db := d\<rparr>))) = f_ipt (w_fake (host_without i w))"
    "f_fdb (w_fake (host_without i (next_id w\<lparr>w_db := d\<rparr>))) = f_fdb (w_fake (host_without i w))" for i
    by (simp_all add: next_id_def host_without_def)
  ultimately show ?thesis
    by (simp add: rebuildable_def Let_def same_base_basic [OF base(1)] same_base_basic [OF base(2)] rebuilt_spec_def same_base_spec [OF base(3)]
        same_base_ready [OF base(3)])
qed

context dadar
begin

lemma attach_run:
  fixes w :: "'db world" and r p offer me
  defines "pip \<equiv> new_address me (vm_id r) offer w"
  defines "T \<equiv> t_pubips_update (\<lambda>as. as @ [pip]) (abs (w_db w))"
  assumes "vm_node r = me" "fst (pubip w) = Inr cfg"
    and "acquire cfg (pi_address ` {a \<in> set (t_pubips (abs (w_db w))). pi_node a = me}) = Inr offer"
    and "\<forall>a \<in> set (t_pubips (abs (w_db w))). pi_id a \<noteq> w_uuid w (w_nuuid w)" and ok: "rebuildable T w r p"
  shows "\<exists>w1 u v. attach_public_ip C me (vm_id r) w = (Inr (Local pip), v) \<and> w1 = next_id w\<lparr>w_db := w_db w1\<rparr> \<and>
    vm_is_gone (w_cwd w @ [''vms'']) (vm_id r) (vg_of w me) w1 u \<and> same_base (host_without (vm_id r) w1) u \<and>
    vm_is_up (rebuilt_spec T w r p) u v \<and>
    abs (w_db v) = t_vms_update (map (\<lambda>x. if vm_id x = vm_id r then x\<lparr>vm_status := ''running''\<rparr> else x)) T"
proof -
  obtain address gw mac pre where o: "offer = (address, gw, mac, pre)" by (cases offer)
  have "\<forall>x \<in> set (t_pubips (abs (w_db (next_id w)))). \<not> key_clash pi_id pip x"
    using assms(6) by (auto simp: key_clash_def pip_def new_address_def proxy_address_def o next_id_def)
  then obtain d where d: "insert_row (c_pubips C) pip (next_id w) = (Inr (), next_id w\<lparr>w_db := d\<rparr>)" "abs d = T"
    using pubips.insert_run [of "next_id w" pip] by (auto simp: T_def next_id_def)
  let ?w1 = "next_id w\<lparr>w_db := d\<rparr>"
  have base: "same_base w ?w1" "same_base w (next_id w)" "same_base (host_without i w) (host_without i ?w1)" for i
    by (simp_all add: next_id_def same_base_def same_conf_def host_without_def)
  have "rebuildable (abs (w_db ?w1)) ?w1 r p" using ok by (simp only: rebuildable_next) (simp add: d(2))
  from recreate_vm_run [OF this] obtain u v where v: "recreate_vm C (vm_id r) ?w1 = (Inr (), v)"
    "vm_is_gone (w_cwd w @ [''vms'']) (vm_id r) (vg_of w me) ?w1 u" "same_base (host_without (vm_id r) ?w1) u"
    "vm_is_up (rebuilt_spec T w r p) u v"
    "abs (w_db v) = t_vms_update (map (\<lambda>x. if vm_id x = vm_id r then x\<lparr>vm_status := ''running''\<rparr> else x)) T"
    using assms(3) by (auto simp: same_base_basic [OF base(1)] same_base_basic(4) [OF base(2)] rebuilt_spec_def same_base_spec [OF base(3)] d(2))
  have row: "d_get (c_vms C) (\<lambda>x. vm_id x = vm_id r) (w_db w) = Some r"
    using vms.get_unique [of vm_id "w_db w" r] ok by (simp add: T_def inv_defs rebuildable_def Let_def)
  have used: "node_addresses C me w = (Inr (pi_address ` {a \<in> set (t_pubips (abs (w_db w))). pi_node a = me}), w)"
    by (simp add: node_addresses_def bnd_run get_all_run pubips.all)
  have pip: "\<lparr>pi_id = w_uuid w (w_nuuid w), pi_node = me, pi_vm = Some (vm_id r), pi_address = address, pi_gateway = Some gw,
      pi_mac = mac, pi_prefix = pre, pi_status = ''attached'', pi_created = w_time w (w_tick w)\<rparr> = pip"
    by (simp add: pip_def new_address_def proxy_address_def o)
  have "w\<lparr>w_nuuid := Suc (w_nuuid w), w_tick := Suc (w_tick w)\<rparr> = next_id w" by (simp add: next_id_def)
  then have "attach_local C r me w = (Inr pip, v)"
    by (simp add: attach_local_def bnd_run pubip_run [OF assms(4)] used assms(5) o uuid4_def now_def pip Let_def andThen_run d(1) v(1))
  then have "attach_public_ip C me (vm_id r) w = (Inr (Local pip), v)"
    by (simp add: attach_public_ip_def vm_or_404_def bnd_run get_run or_404_run row assms(3) locally_def)
  with v(2-5) show ?thesis by (intro exI [of _ ?w1] exI [of _ u] exI [of _ v]) simp
qed

end


text \<open>A VM that runs on a clone of an image of its own, on a node with one public address.\<close>

definition image_vm :: vm_row where
  "image_vm = \<lparr>vm_id = ''a1'', vm_node = ''n1'', vm_name = ''web'', vm_vpc = ''v1'', vm_volume = None, vm_ip = ip_str 167837698,
     vm_ssh = None, vm_vcpu = Some 1, vm_mem = Some 512, vm_status = ''running'', vm_created = 0\<rparr>"

definition image_node :: "tables world" where
  "image_node = proxy_node
     \<lparr>w_db := (w_db proxy_node)\<lparr>t_vms := [image_vm]\<rparr>,
      w_fs := [([''srv'', ''node'', ''vms'', ''a1''], Dir), ([''srv'', ''node'', ''vms'', ''a1'', ''pid''], File ''0'')],
      w_fake := reset_state\<lparr>f_lvs := [((''nyc-n1'', ''rootfs-a1''),
        \<lparr>lv_size = 8192, lv_pool = Some ''pool'', lv_origin = Some ''gold-web'', lv_attr = []\<rparr>)]\<rparr>\<rparr>"

abbreviation image_address :: pubip_row where
  "image_address \<equiv> new_address ''n1'' ''a1'' offered image_node"

lemma image_node_conf:
  "same_conf image_node proxy_node" "on_fake image_node" "settings_ok image_node" "vg_of image_node ''n1'' = ''nyc-n1''"
  "fst (pubip image_node) = fst (pubip proxy_node)"
proof -
  show c: "same_conf image_node proxy_node" by (simp add: image_node_def same_conf_def)
  show "settings_ok image_node" "vg_of image_node ''n1'' = ''nyc-n1''" "fst (pubip image_node) = fst (pubip proxy_node)"
    using settings_ok_same [OF c] vg_of_same [OF c, of "''n1''"] reader_same [OF reader_pubip c]
    by (simp_all add: proxy_node_settings(1,2))
  show "on_fake image_node" using proxy_node_sel(7) by (simp add: image_node_def on_fake_def backend_def)
qed

lemma image_node_sel:
  "w_cwd image_node = [''srv'', ''node'']" "w_tmp image_node = [''tmp'', ''t0'']" "t_pubips (w_db image_node) = []"
  "t_vms (w_db image_node) = [image_vm]" "t_nodes (w_db image_node) = []" "t_volumes (w_db image_node) = []"
  "w_uuid image_node (w_nuuid image_node) = ''id-0''"
  "fs_at q (host_without ''a1'' image_node) = None"
  "fs_at q image_node = (if q = [''srv'', ''node'', ''vms'', ''a1''] then Some Dir
     else if q = [''srv'', ''node'', ''vms'', ''a1'', ''pid''] then Some (File ''0'') else None)"
  by (auto simp: image_node_def proxy_node_sel no_rows_def dec_0 host_without_def without_dir_def fs_at_def for_vm_def)

lemma image_node_rebuildable:
  "rebuildable (t_pubips_update (\<lambda>as. as @ [image_address]) (w_db image_node)) image_node image_vm (hd (t_vpcs (w_db proxy_node)))"
proof -
  let ?T = "t_pubips_update (\<lambda>as. as @ [image_address]) (w_db image_node)" and ?p = "hd (t_vpcs (w_db proxy_node))"
  let ?off = "host_without ''a1'' image_node"
  have p: "?p = \<lparr>vp_id = ''v1'', vp_name = DEFAULT_VPC_NAME, vp_cidr = net_str net30, vp_created = 0\<rparr>" by (simp add: proxy_node_sel)
  have vm: "vm_id image_vm = ''a1''" "vm_node image_vm = ''n1''" "vm_vpc image_vm = ''v1''" "vm_volume image_vm = None"
    "vm_ip image_vm = ip_str 167837698" by (simp_all add: image_vm_def)
  have off: "same_conf ?off image_node" "w_tmp ?off = [''tmp'', ''t0'']" "w_cwd ?off = [''srv'', ''node'']" "w_fake ?off = w_fake image_node"
    by (simp_all add: host_without_def same_conf_def image_node_sel)
  let ?spec = "rebuilt_spec ?T image_node image_vm ?p"
  have s: "vs_vms_dir ?spec = [''srv'', ''node'', ''vms'']" "vs_vm_id ?spec = ''a1''" "vs_vg ?spec = ''nyc-n1''"
    "vs_rootfs_origin ?spec = ''gold-default''" "vs_peer_hosts ?spec = []" "vs_cidr ?spec = net_str net30"
    using vg_of_same [OF off(1), of "''n1''"]
    by (simp_all add: rebuilt_spec_def spec_in_def vm GOLD_DEFAULT_def off(3) image_node_conf image_node_sel p)
  have "vm_fresh [''srv'', ''node'', ''vms'', ''a1''] ?off" by (auto simp: vm_fresh_def dirs_ok_def image_node_sel)
  moreover have "case gateway_cidr (net_str net30) of Inr _ \<Rightarrow> True | Inl _ \<Rightarrow> False"
    by (simp add: gateway_cidr_def net30_facts(1) split_net_str)
  moreover have "tmp_new ?off" by (auto simp: tmp_new_def image_node_sel off prefix_def)
  moreover have "pub_bridge_ok ?spec ?off"
    using reader_same [OF reader_pubip off(1)] by (simp add: pub_bridge_ok_def image_node_conf proxy_node_settings iface_def is_digit_def)
  moreover have "on_fake ?off" using image_node_conf(2) by (simp add: host_without_def on_fake_def backend_def)
  moreover have "ipt_ready (w_fake ?off)" unfolding off(4) using ipt_ready_reset by (simp add: image_node_def ipt_ready_def)
  ultimately have ready: "vm_ready ?spec ?off"
    by (simp add: vm_ready_def s for_vm_def noslash_def off(2) overlay_ready_def Let_def)
  have inv: "db_inv ?T"
    by (simp add: inv_defs image_node_sel vm image_node_def p) (simp add: proxy_node_sel no_rows_def net30_facts truthy_str_def vm)
  have one: "one_address ?T ''a1''" by (simp add: one_address_def image_node_sel)
  have "?p \<in> set (t_vpcs ?T)" by (simp add: image_node_def proxy_node_sel no_rows_def)
  then show ?thesis
    using ready inv one by (simp add: rebuildable_def Let_def vm image_node_conf image_node_sel p for_vm_def noslash_def
        pid_fine_def vp_pid_file_def parse_int_zero)
qed


end
