(* ===== verification/ReconcileProps.thy ===== *)
theory ReconcileProps
  imports VmRequests ExecutorProps
begin

text \<open>
  The passes of the reconciler over VMs and over tunnels: what one run leaves on the host and in the tables, and
  that a second run finds nothing to do.
\<close>

section \<open>VM directories without a row\<close>

definition drop_deps :: "string set \<Rightarrow> tables \<Rightarrow> tables" where
  "drop_deps I T = T\<lparr>
     t_pubips := filter (\<lambda>r. \<forall>i \<in> I. \<not> attached i r) (t_pubips T),
     t_domains := filter (\<lambda>r. do_vm r \<notin> I) (t_domains T),
     t_proxies := filter (\<lambda>r. px_vm r \<notin> I) (t_proxies T)\<rparr>"

lemma drop_deps_simps [simp]:
  "drop_deps {} T = T" "drop_deps I (drop_deps J T) = drop_deps (I \<union> J) T"
  "t_vms (drop_deps I T) = t_vms T" "t_pubips (drop_deps I T) = filter (\<lambda>r. \<forall>i \<in> I. \<not> attached i r) (t_pubips T)"
  by (auto simp: drop_deps_def intro!: tables.equality filter_cong)

lemma without_deps_eq:
  assumes "distinct (map pi_id (t_pubips T))" "one_address T i"
    and "\<And>p. pip = Some p \<Longrightarrow> p \<in> set (t_pubips T) \<and> attached i p"
    and "pip = None \<Longrightarrow> \<forall>p \<in> set (t_pubips T). \<not> attached i p"
  shows "without_deps i pip T = drop_deps {i} T"
proof (cases pip)
  case None
  then have "filter (\<lambda>r. \<not> attached i r) (t_pubips T) = t_pubips T" using assms(4) by (simp add: filter_id_conv)
  with None show ?thesis by (simp add: without_deps_def drop_deps_def)
next
  case (Some p)
  then have p: "p \<in> set (t_pubips T)" "attached i p" using assms(3) by blast+
  have "pi_id r \<noteq> pi_id p \<longleftrightarrow> \<not> attached i r" if "r \<in> set (t_pubips T)" for r
    using assms(1,2) p that by (auto simp: one_address_def distinct_map dest: inj_onD)
  then have "filter (\<lambda>r. pi_id r \<noteq> pi_id p) (t_pubips T) = filter (\<lambda>r. \<not> attached i r) (t_pubips T)"
    by (intro filter_cong refl) blast
  with Some show ?thesis by (simp add: without_deps_def drop_deps_def)
qed

text \<open>The files outside a set of directories.\<close>

definition without_dirs :: "path \<Rightarrow> string set \<Rightarrow> (path \<times> fnode) list \<Rightarrow> (path \<times> fnode) list" where
  "without_dirs vms I = filter (\<lambda>(q, _). \<forall>i \<in> I. \<not> prefix (for_vm vms i) q)"

lemma without_dirs_simps [simp]:
  "without_dirs vms {} fs = fs" "without_dir (for_vm vms i) (without_dirs vms I fs) = without_dirs vms (insert i I) fs"
  by (auto simp: without_dirs_def without_dir_def intro!: filter_cong)

lemma without_dir_dirs: "without_dirs vms I (without_dir (for_vm vms i) fs) = without_dirs vms (insert i I) fs"
  by (auto simp: without_dirs_def without_dir_def intro!: filter_cong)

lemma fs_at_without: "fs_at q (w\<lparr>w_fs := without_dirs vms I (w_fs w)\<rparr>) = (if \<exists>i \<in> I. prefix (for_vm vms i) q then None else fs_at q w)"
  by (simp add: fs_at_def without_dirs_def map_of_filter_key)

lemma prefix_child: "q \<noteq> [] \<Longrightarrow> prefix (butlast q @ [i]) q \<longleftrightarrow> i = last q"
  by (cases q rule: rev_cases) auto

lemma sub_dirs_without:
  "sub_dirs vms (w\<lparr>w_fs := without_dirs vms I (w_fs w)\<rparr>) = filter (\<lambda>x. x \<notin> I) (sub_dirs vms w)"
  by (auto simp: sub_dirs_def without_dirs_def for_vm_def filter_map comp_def prefix_child
      intro!: arg_cong [of _ _ "map (\<lambda>x. last (fst x))"] filter_cong)

text \<open>The VMs that have a row on the node.\<close>

definition kept_ids :: "tables \<Rightarrow> string \<Rightarrow> string set" where
  "kept_ids T n = vm_id ` {r \<in> set (t_vms T). vm_node r = n}"

text \<open>The loop over the orphans: the dependents' rows and what is on the host, and nothing else.\<close>

context dadar
begin

lemma orphans_down:
  fixes w :: "'db world"
  assumes "noslash vg" "distinct is" "on_fake w" "distinct (map pi_id (t_pubips (abs (w_db w))))"
    and "\<forall>i \<in> set is. noslash i \<and> fs_at (for_vm vms i) w = Some Dir \<and> pid_fine (for_vm vms i) w \<and> one_address (abs (w_db w)) i"
  shows "\<exists>k s d. for_each is (\<lambda>i. andThen (teardown_deps C i) (vm_down vms i vg)) w =
      (Inr (), w\<lparr>w_polls := k, w_fs := without_dirs vms (set is) (w_fs w), w_fake := s, w_db := d\<rparr>) \<and>
    abs d = drop_deps (set is) (abs (w_db w)) \<and>
    (\<forall>g x. lv_map s (g, x) = (if g = vg \<and> x \<in> rootfs_name ` set is then None else lv_map (w_fake w) (g, x))) \<and>
    f_netns s = f_netns (w_fake w) - (\<lambda>i. Some (ns_name i)) ` set is"
  using assms(2-)
proof (induction "is" arbitrary: w)
  case Nil
  show ?case by (intro exI [of _ "w_polls w"] exI [of _ "w_fake w"] exI [of _ "w_db w"]) simp
next
  case (Cons i ks)
  let ?T = "abs (w_db w)" and ?pip = "d_get (c_pubips C) (attached i) (w_db w)"
  obtain d1 where d1: "teardown_deps C i w = (Inr (), w\<lparr>w_db := d1\<rparr>)" "abs d1 = without_deps i ?pip ?T"
    using teardown_deps_run by blast
  have T1: "abs d1 = drop_deps {i} ?T"
    unfolding d1(2) using Cons.prems(3,4) pubips.get_Some [of "attached i" "w_db w"] pubips.get_None [of "attached i" "w_db w"]
    by (intro without_deps_eq) auto
  let ?w1 = "w\<lparr>w_db := d1\<rparr>"
  have w1: "on_fake ?w1" "fs_at q ?w1 = fs_at q w" "pid_fine r ?w1 = pid_fine r w" for q r
    using Cons.prems(2) by (simp_all add: fs_at_def pid_fine_def)
  obtain u k1 s1 where u: "vm_down vms i vg ?w1 = (Inr (), u)" "vm_is_gone vms i vg ?w1 u"
    "u = ?w1\<lparr>w_polls := k1, w_fs := without_dir (for_vm vms i) (w_fs ?w1), w_fake := s1\<rparr>"
    using vm_down_state [of ?w1 vg i vms] Cons.prems(4) assms(1) w1 by auto
  have f: "on_fake u" "w_db u = d1" "w_fake u = s1" "w_fs u = without_dir (for_vm vms i) (w_fs w)"
    using Cons.prems(2) by (simp_all add: u(3) on_fake_def backend_def)
  have other: "fs_at q u = fs_at q w" if "prefix (for_vm vms j) q" "j \<noteq> i" for j q
    using u(2) that w1 by (auto simp: vm_is_gone_def Let_def for_vm_def dest: prefix_same_cases)
  have "fs_at (for_vm vms j) u = Some Dir \<and> pid_fine (for_vm vms j) u" if "j \<in> set ks" for j
  proof -
    have "j \<noteq> i" using that Cons.prems(1) by auto
    then have "fs_at (for_vm vms j) u = fs_at (for_vm vms j) w" "pid_fine (for_vm vms j) u = pid_fine (for_vm vms j) w"
      using other [of j "for_vm vms j"] other [of j "vp_pid_file (for_vm vms j)"]
      by (simp_all add: pid_fine_def vp_pid_file_def)
    then show ?thesis using that Cons.prems(4) by simp
  qed
  moreover have "one_address (drop_deps {i} ?T) j" if "one_address ?T j" for j using that by (simp add: one_address_def)
  moreover have "distinct (map pi_id (t_pubips (drop_deps {i} ?T)))" using Cons.prems(3) by (simp add: distinct_map_filter)
  ultimately obtain k s d where r: "for_each ks (\<lambda>i. andThen (teardown_deps C i) (vm_down vms i vg)) u =
      (Inr (), u\<lparr>w_polls := k, w_fs := without_dirs vms (set ks) (w_fs u), w_fake := s, w_db := d\<rparr>)"
    "abs d = drop_deps (set ks) (drop_deps {i} ?T)"
    "\<And>g x. lv_map s (g, x) = (if g = vg \<and> x \<in> rootfs_name ` set ks then None else lv_map s1 (g, x))"
    "f_netns s = f_netns s1 - (\<lambda>i. Some (ns_name i)) ` set ks"
    using Cons.IH [of u] Cons.prems(1,4) by (auto simp: f T1)
  have "for_each (i # ks) (\<lambda>i. andThen (teardown_deps C i) (vm_down vms i vg)) w =
      (Inr (), w\<lparr>w_polls := k, w_fs := without_dirs vms (set (i # ks)) (w_fs w), w_fake := s, w_db := d\<rparr>)"
    by (simp add: andThen_run d1(1) u(1) r(1) f(4) without_dir_dirs) (simp add: u(3))
  moreover have "lv_map s1 = (lv_map (w_fake w))((vg, rootfs_name i) := None)" "f_netns s1 = f_netns (w_fake w) - {Some (ns_name i)}"
    using u(2) by (simp_all add: vm_is_gone_def Let_def f(3))
  ultimately show ?case
    using r(2-4) by (intro exI [of _ k] exI [of _ s] exI [of _ d]) auto
qed

lemma prune_run:
  fixes w :: "'db world"
  assumes "on_fake w" "noslash vg" "\<forall>x \<in> lv_here vg (w_fake w). noslash x"
  shows "prune_rootfs_lvs vg I w = (Inr (), set_fake (drop_all vg
    (filter (\<lambda>x. startswith x ROOTFS \<and> drop (length ROOTFS) x \<notin> I) (lv_list vg (w_fake w)))) w)"
proof -
  let ?P = "\<lambda>x. startswith x ROOTFS \<and> drop (length ROOTFS) x \<notin> I"
  have each: "for_each xs (\<lambda>x. if P x then f x else ret ()) v = for_each (filter P xs) f v" for P f v and xs :: "string list"
    by (induction xs arbitrary: v) (auto simp: andThen_run split: prod.splits sum.splits)
  have rows: "for_each (map lvs_row es) (\<lambda>e. bnd (of_sum (column ''lv_name'' e)) (\<lambda>name.
      if startswith name ROOTFS \<and> drop (length ROOTFS) name \<notin> I then lv_remove vg name else ret ())) v
    = for_each (map (\<lambda>e. snd (fst e)) es) (\<lambda>x. if ?P x then lv_remove vg x else ret ()) v" for es and v :: "'db world"
    by (induction es arbitrary: v) (auto simp: andThen_run bnd_run column_def lvs_row_def split: prod.splits sum.splits)
  have "prune_rootfs_lvs vg I w = for_each (filter ?P (lv_list vg (w_fake w))) (lv_remove vg) w"
    by (simp only: prune_rootfs_lvs_def bnd_run list_lvs_fake [OF assms(1)] lv_list_def each rows prod.case sum.case)
  also have "\<dots> = (Inr (), set_fake (drop_all vg (filter ?P (lv_list vg (w_fake w)))) w)"
    using assms by (intro remove_all_run) auto
  finally show ?thesis .
qed

lemma list_dirs_run:
  "fs_at vms w = Some Dir \<Longrightarrow> list_dirs vms w = (Inr (sub_dirs vms w), w)"
  by (simp add: list_dirs_def env_list_dirs_def bnd_run path_exists_def comp_def)

text \<open>One run, once the loop over the orphans has led to \<open>u\<close>.\<close>

lemma vms_pass_run:
  fixes w :: "'db world" and n
  defines "keep \<equiv> kept_ids (abs (w_db w)) n" and "vms \<equiv> w_cwd w @ [''vms'']" and "vg \<equiv> vg_of w n"
  assumes "settings_ok w" "noslash vg" "fs_at vms w = Some Dir"
    and "for_each (orphans_of (sub_dirs vms w) keep) (\<lambda>i. andThen (teardown_deps C i) (vm_down vms i vg)) w = (Inr (), u)"
    and "on_fake u" "\<forall>x \<in> lv_here vg (w_fake u). noslash x"
  shows "\<exists>r. vms_pass C n w = (Inr r, set_fake (drop_all vg
      (filter (\<lambda>x. startswith x ROOTFS \<and> drop (length ROOTFS) x \<notin> keep) (lv_list vg (w_fake u)))) u) \<and>
    rp_gone r = sort (orphans_of (sub_dirs vms w) keep)"
proof -
  obtain ps where ps: "resolve w = (Inr ps, w)" "vms_dir ps = vms" using resolve_run [of w] unfolding vms_def by blast
  have "volume_vg n w = (Inr vg, w)" using assms(4) by (simp add: volume_vg_run vg_def)
  then show ?thesis
    using assms(7) by (simp add: vms_pass_def bnd_run ps get_all_run vms.all list_dirs_run [OF assms(6)] andThen_run Let_def
        prune_run [OF assms(8,5,9)] keep_def kept_ids_def)
qed

end

lemma netns_drop_all [simp]: "f_netns (drop_all vg ns s) = f_netns s"
  by (induction ns arbitrary: s) (simp_all add: drop_all_def lv_drop_def)

text \<open>What the pass may remove: a root clone whose VM is not in \<open>keep\<close>.\<close>

abbreviation stale_clone :: "string set \<Rightarrow> string \<Rightarrow> bool" where
  "stale_clone keep x \<equiv> startswith x ROOTFS \<and> drop (length ROOTFS) x \<notin> keep"

context dadar
begin

lemma vms_pass_effect:
  fixes w :: "'db world" and n
  defines "vms \<equiv> w_cwd w @ [''vms'']" and "keep \<equiv> kept_ids (abs (w_db w)) n" and "vg \<equiv> vg_of w n"
  assumes "on_fake w" "settings_ok w" "noslash vg" "fs_at vms w = Some Dir"
    and "distinct (map pi_id (t_pubips (abs (w_db w))))" "\<forall>x \<in> lv_here vg (w_fake w). noslash x"
    and "\<forall>i \<in> set (sub_dirs vms w) - keep.
      noslash i \<and> fs_at (for_vm vms i) w = Some Dir \<and> pid_fine (for_vm vms i) w \<and> one_address (abs (w_db w)) i"
  shows "\<exists>v r. vms_pass C n w = (Inr r, v) \<and> set (rp_gone r) = set (sub_dirs vms w) - keep \<and>
    abs (w_db v) = drop_deps (set (sub_dirs vms w) - keep) (abs (w_db w)) \<and>
    (\<forall>q. fs_at q v = (if \<exists>i \<in> set (sub_dirs vms w) - keep. prefix (for_vm vms i) q then None else fs_at q w)) \<and>
    (\<forall>g x. lv_map (w_fake v) (g, x) = (if g = vg \<and> stale_clone keep x then None else lv_map (w_fake w) (g, x))) \<and>
    f_netns (w_fake v) = f_netns (w_fake w) - (\<lambda>i. Some (ns_name i)) ` (set (sub_dirs vms w) - keep) \<and>
    on_fake v \<and> same_conf w v \<and> sub_dirs vms v = filter (\<lambda>x. x \<notin> set (sub_dirs vms w) - keep) (sub_dirs vms w)"
proof -
  let ?T = "abs (w_db w)"
  define os where "os = orphans_of (sub_dirs vms w) keep"
  have os: "set os = set (sub_dirs vms w) - keep" "distinct os" by (auto simp: os_def orphans_of_def)
  obtain k s d where u: "for_each os (\<lambda>i. andThen (teardown_deps C i) (vm_down vms i vg)) w =
      (Inr (), w\<lparr>w_polls := k, w_fs := without_dirs vms (set os) (w_fs w), w_fake := s, w_db := d\<rparr>)"
    "abs d = drop_deps (set os) ?T"
    "\<And>g x. lv_map s (g, x) = (if g = vg \<and> x \<in> rootfs_name ` set os then None else lv_map (w_fake w) (g, x))"
    "f_netns s = f_netns (w_fake w) - (\<lambda>i. Some (ns_name i)) ` set os"
    using orphans_down [OF assms(6) os(2) assms(4,8), of vms] assms(10) by (auto simp: os(1))
  let ?u = "w\<lparr>w_polls := k, w_fs := without_dirs vms (set os) (w_fs w), w_fake := s, w_db := d\<rparr>"
  have fu: "on_fake ?u" using assms(4) by (simp add: on_fake_def backend_def)
  have "lv_here vg s \<subseteq> lv_here vg (w_fake w)" by (auto simp: lv_here_def u(3) split: if_splits)
  then have ns: "\<forall>x \<in> lv_here vg (w_fake ?u). noslash x" using assms(9) by auto
  define v where "v = set_fake (drop_all vg (filter (stale_clone keep) (lv_list vg s))) ?u"
  obtain r where r: "vms_pass C n w = (Inr r, v)" "rp_gone r = sort os"
    using vms_pass_run [of w n ?u] assms(5-7) u(1) fu ns by (auto simp: os_def vms_def keep_def vg_def v_def)
  have "x \<notin> rootfs_name ` set os" if "\<not> stale_clone keep x" for x
    using that by (auto simp: os(1) rootfs_name_def startswith_def)
  then have lv: "lv_map (w_fake v) (g, x) = (if g = vg \<and> stale_clone keep x then None else lv_map (w_fake w) (g, x))" for g x
    by (auto simp: v_def lv_map_drop_all u(3) lv_here_def)
  have sel: "same_conf w v" "on_fake v" "w_db v = d" "sub_dirs vms v = filter (\<lambda>x. x \<notin> set os) (sub_dirs vms w)"
    using fu sub_dirs_without [where vms = vms and w = w and I = "set os"]
    by (simp_all add: v_def set_fake_def sub_dirs_def same_conf_def)
  have at: "fs_at q v = (if \<exists>i \<in> set os. prefix (for_vm vms i) q then None else fs_at q w)" for q
    by (simp add: v_def set_fake_def fs_at_def without_dirs_def map_of_filter_key)
  have "f_netns (w_fake v) = f_netns (w_fake w) - (\<lambda>i. Some (ns_name i)) ` set os" by (simp add: v_def u(4))
  then show ?thesis
    unfolding os(1) [symmetric] using r at lv u(2) sel by (intro exI [of _ v] exI [of _ r]) simp
qed

lemma vms_pass_quiet:
  fixes v :: "'db world" and n
  defines "vms \<equiv> w_cwd v @ [''vms'']" and "keep \<equiv> kept_ids (abs (w_db v)) n" and "vg \<equiv> vg_of v n"
  assumes "on_fake v" "settings_ok v" "noslash vg" "fs_at vms v = Some Dir" "\<forall>x \<in> lv_here vg (w_fake v). noslash x"
    and "set (sub_dirs vms v) \<subseteq> keep" "\<forall>x \<in> lv_here vg (w_fake v). \<not> stale_clone keep x"
  shows "\<exists>r. vms_pass C n v = (Inr r, v) \<and> rp_gone r = []"
proof -
  have none: "orphans_of (sub_dirs vms v) keep = []" using assms(9) by (auto simp: orphans_of_def filter_empty_conv)
  have "filter (stale_clone keep) (lv_list vg (w_fake v)) = []" using assms(10) by (auto simp: filter_empty_conv)
  moreover have "set_fake (drop_all vg []) v = v" by (simp add: drop_all_def set_fake_def)
  ultimately show ?thesis
    using vms_pass_run [of v n v] assms(4-8) none by (auto simp: vms_def keep_def vg_def)
qed

end


section \<open>Tunnels and their peers\<close>

text \<open>A state that differs in replication lists only.\<close>

definition fdb_only :: "fstate \<Rightarrow> fstate \<Rightarrow> bool" where
  "fdb_only s t \<longleftrightarrow> (\<exists>F. t = s\<lparr>f_fdb := F\<rparr>)"

lemma fdb_only_simps:
  "fdb_only s s" "fdb_only s t \<Longrightarrow> fdb_only t u \<Longrightarrow> fdb_only s u"
  "fdb_only s t \<Longrightarrow> f_links t = f_links s"
  by (auto simp: fdb_only_def intro: exI [of _ "f_fdb s"])

lemma fdb_only_fold:
  "fdb_only s (fold (fdb_put dev) ds s)" "fdb_only s (fold (fdb_cut dev) ds s)"
proof -
  have "fdb_only s (fdb_put dev d s)" "fdb_only s (fdb_cut dev d s)" for d s
    by (auto simp: fdb_only_def fdb_put_def fdb_cut_def)
  then show "fdb_only s (fold (fdb_put dev) ds s)" "fdb_only s (fold (fdb_cut dev) ds s)"
    by (induction ds arbitrary: s) (simp_all add: fdb_only_simps(1), (meson fdb_only_simps(2))+)
qed

lemma set_fdb_only:
  assumes "on_fake w" "dev_ok dev" "fdb_wf (w_fake w) dev"
  shows "\<exists>g. set_fdb dev peers w = (Inr (), set_fake g w) \<and> fdb_only (w_fake w) (g (w_fake w)) \<and>
    fdb_of (g (w_fake w)) = (fdb_of (w_fake w))(dev := Pair ALL_ZEROS ` set peers)"
proof -
  let ?g = "\<lambda>s. fold (fdb_cut dev)
         (filter (\<lambda>d. d \<notin> set peers) (remdups (map snd (sorted_list_of_set (fdb_of (w_fake w) dev)))))
         (fold (fdb_put dev) (filter (\<lambda>d. d \<notin> snd ` fdb_of (w_fake w) dev) (remdups peers)) s)"
  obtain g where g: "set_fdb dev peers w = (Inr (), set_fake g w)" "fdb_of (g (w_fake w)) dev = Pair ALL_ZEROS ` set peers"
    "\<forall>u. u \<noteq> dev \<longrightarrow> fdb_of (g (w_fake w)) u = fdb_of (w_fake w) u"
    using set_fdb_exact [OF assms] by blast
  have "set_fake g w = set_fake ?g w" using g(1) set_fdb_fake [OF assms, of peers] by simp
  then have "g (w_fake w) = ?g (w_fake w)" by (metis w_fake_set)
  then have "fdb_only (w_fake w) (g (w_fake w))" by (simp add: fdb_only_simps(2) [OF fdb_only_fold])
  then show ?thesis using g by (intro exI [of _ g]) (auto simp: fun_eq_iff)
qed

definition has_tunnel :: "string \<Rightarrow> fstate \<Rightarrow> string \<Rightarrow> bool" where
  "has_tunnel n s v \<longleftrightarrow> f_links s (vxlan_name n v) \<noteq> None"

lemma sync_vpc_run:
  assumes "on_fake w" "dev_ok (vxlan_name n v)" "fdb_wf (w_fake w) (vxlan_name n v)"
  shows "\<exists>g. sync_vpc n ps v w = (Inr (has_tunnel n (w_fake w) v), set_fake g w) \<and>
    fdb_only (w_fake w) (g (w_fake w)) \<and>
    fdb_of (g (w_fake w)) = (if has_tunnel n (w_fake w) v then (fdb_of (w_fake w))(vxlan_name n v := Pair ALL_ZEROS ` set ps)
      else fdb_of (w_fake w))"
proof (cases "f_links (w_fake w) (vxlan_name n v)")
  case None
  then show ?thesis using assms(1)
    by (intro exI [of _ "\<lambda>s. s"]) (simp add: sync_vpc_def bnd_run vxlan_exists_def on_fake_def Let_def has_tunnel_def fdb_only_simps)
next
  case (Some m)
  obtain g where "set_fdb (vxlan_name n v) ps w = (Inr (), set_fake g w)" "fdb_only (w_fake w) (g (w_fake w))"
    "fdb_of (g (w_fake w)) = (fdb_of (w_fake w))(vxlan_name n v := Pair ALL_ZEROS ` set ps)"
    using set_fdb_only [OF assms] by blast
  with Some show ?thesis using assms(1)
    by (intro exI [of _ g]) (simp add: sync_vpc_def bnd_run andThen_run vxlan_exists_def on_fake_def Let_def has_tunnel_def)
qed

text \<open>The loop over the VPCs. Tunnels that share a name get the same list twice.\<close>

lemma sync_all_run:
  fixes w :: "'db world"
  assumes "on_fake w" "\<forall>v \<in> set vs. dev_ok (vxlan_name n v) \<and> fdb_wf (w_fake w) (vxlan_name n v)" "\<forall>d \<in> set ps. peer_ok d"
  shows "\<exists>g. map_prog (\<lambda>v. bnd (sync_vpc n ps v) (\<lambda>b. ret (v, b))) vs w =
      (Inr (map (\<lambda>v. (v, has_tunnel n (w_fake w) v)) vs), set_fake g w) \<and>
    fdb_only (w_fake w) (g (w_fake w)) \<and>
    (\<forall>u. fdb_of (g (w_fake w)) u = (if u \<in> vxlan_name n ` {v \<in> set vs. has_tunnel n (w_fake w) v}
       then Pair ALL_ZEROS ` set ps else fdb_of (w_fake w) u))"
  using assms(1,2)
proof (induction vs arbitrary: w)
  case Nil
  then show ?case by (intro exI [of _ "\<lambda>s. s"]) (simp add: fdb_only_simps)
next
  case (Cons v vs)
  obtain g where g: "sync_vpc n ps v w = (Inr (has_tunnel n (w_fake w) v), set_fake g w)" "fdb_only (w_fake w) (g (w_fake w))"
    "fdb_of (g (w_fake w)) = (if has_tunnel n (w_fake w) v then (fdb_of (w_fake w))(vxlan_name n v := Pair ALL_ZEROS ` set ps)
      else fdb_of (w_fake w))"
    using sync_vpc_run [of w n v ps] Cons.prems by auto
  let ?w = "set_fake g w"
  have links: "has_tunnel n (g (w_fake w)) = has_tunnel n (w_fake w)"
    using fdb_only_simps(3) [OF g(2)] by (simp add: has_tunnel_def fun_eq_iff)
  have "fdb_wf (g (w_fake w)) u" if "fdb_wf (w_fake w) u" for u
    using that assms(3) by (auto simp: fdb_wf_def g(3))
  then have p: "on_fake ?w" "\<forall>v \<in> set vs. dev_ok (vxlan_name n v) \<and> fdb_wf (w_fake ?w) (vxlan_name n v)"
    using Cons.prems by simp_all
  obtain h where h: "map_prog (\<lambda>v. bnd (sync_vpc n ps v) (\<lambda>b. ret (v, b))) vs ?w =
      (Inr (map (\<lambda>v. (v, has_tunnel n (w_fake w) v)) vs), set_fake h ?w)" "fdb_only (g (w_fake w)) (h (g (w_fake w)))"
    "\<forall>u. fdb_of (h (g (w_fake w))) u = (if u \<in> vxlan_name n ` {v \<in> set vs. has_tunnel n (w_fake w) v}
       then Pair ALL_ZEROS ` set ps else fdb_of (g (w_fake w)) u)"
    using Cons.IH [OF p] unfolding w_fake_set links by blast
  define F :: "string \<Rightarrow> ('db, string \<times> bool) node_prog" where "F = (\<lambda>v. bnd (sync_vpc n ps v) (\<lambda>b. ret (v, b)))"
  have "F v w = (Inr (v, has_tunnel n (w_fake w) v), ?w)" by (simp add: F_def bnd_run g(1))
  then have run: "map_prog F (v # vs) w = (Inr (map (\<lambda>v. (v, has_tunnel n (w_fake w) v)) (v # vs)), set_fake (\<lambda>s. h (g s)) w)"
    by (simp add: bnd_run h(1) [folded F_def])
  show ?case
    unfolding F_def [symmetric] using run h(3) fdb_only_simps(2) [OF g(2) h(2)]
    by (intro exI [of _ "\<lambda>s. h (g s)"]) (auto simp: g(3))
qed

definition node_address :: "tables \<Rightarrow> string \<Rightarrow> string option" where
  "node_address T n = (case find (\<lambda>r. nd_id r = n) (t_nodes T) of None \<Rightarrow> Some ''127.0.0.1'' | Some r \<Rightarrow> nd_host r)"

definition peers_of :: "tables \<Rightarrow> string \<Rightarrow> string list" where
  "peers_of T n = map (\<lambda>r. the (nd_host r)) (filter (\<lambda>r. nd_id r \<noteq> n \<and> nd_host r \<notin> LOOPBACK) (t_nodes T))"

definition vpcs_here :: "tables \<Rightarrow> string \<Rightarrow> string list" where
  "vpcs_here T n = remdups (map vm_vpc (filter (\<lambda>r. vm_node r = n) (t_vms T)))"

context dadar
begin

lemma overlay_pass_run:
  fixes w :: "'db world" and n
  defines "T \<equiv> abs (w_db w)"
  assumes "on_fake w" "distinct (map nd_id (t_nodes T))" "node_address T n \<notin> LOOPBACK"
    and "\<forall>v \<in> set (vpcs_here T n). dev_ok (vxlan_name n v) \<and> fdb_wf (w_fake w) (vxlan_name n v)" "\<forall>d \<in> set (peers_of T n). peer_ok d"
  shows "\<exists>g. overlay_pass C n w = (Inr (sort (filter (has_tunnel n (w_fake w)) (vpcs_here T n))), set_fake g w) \<and>
    fdb_only (w_fake w) (g (w_fake w)) \<and>
    (\<forall>u. fdb_of (g (w_fake w)) u = (if u \<in> vxlan_name n ` {v \<in> set (vpcs_here T n). has_tunnel n (w_fake w) v}
       then Pair ALL_ZEROS ` set (peers_of T n) else fdb_of (w_fake w) u))"
proof -
  obtain g where g: "map_prog (\<lambda>v. bnd (sync_vpc n (peers_of T n) v) (\<lambda>b. ret (v, b))) (vpcs_here T n) w =
      (Inr (map (\<lambda>v. (v, has_tunnel n (w_fake w) v)) (vpcs_here T n)), set_fake g w)" "fdb_only (w_fake w) (g (w_fake w))"
    "\<forall>u. fdb_of (g (w_fake w)) u = (if u \<in> vxlan_name n ` {v \<in> set (vpcs_here T n). has_tunnel n (w_fake w) v}
       then Pair ALL_ZEROS ` set (peers_of T n) else fdb_of (w_fake w) u)"
    using sync_all_run [OF assms(2,5,6)] by blast
  have host: "node_host C n w = (Inr (node_address T n), w)" using node_host_run assms(3) by (simp add: node_address_def T_def)
  have peers: "peer_hosts C n w = (Inr (peers_of T n), w)"
    by (simp add: peer_hosts_def bnd_run get_all_run nodes.all peers_of_def T_def)
  have vpcs: "local_vpcs C n w = (Inr (vpcs_here T n), w)"
    by (simp add: local_vpcs_def bnd_run get_all_run vms.all vpcs_here_def T_def)
  have "map fst (filter snd (map (\<lambda>v. (v, P v)) vs)) = filter P vs" for P and vs :: "string list" by (induction vs) auto
  then have "overlay_pass C n w = (Inr (sort (filter (has_tunnel n (w_fake w)) (vpcs_here T n))), set_fake g w)"
    unfolding overlay_pass_def bnd_run host prod.case sum.case if_not_P [OF assms(4)] peers vpcs g(1) by (simp add: bnd_run)
  with g(2,3) show ?thesis by blast
qed

lemma overlay_pass_alone:
  "distinct (map nd_id (t_nodes (abs (w_db w)))) \<Longrightarrow> node_address (abs (w_db w)) n \<in> LOOPBACK \<Longrightarrow> overlay_pass C n w = (Inr [], w)"
  using node_host_run by (simp add: overlay_pass_def bnd_run node_address_def)

end

text \<open>C16: on the simulator, the pass over tunnels of a node that is not alone on its host makes the replication list
  of every tunnel of its VMs' VPCs exactly the addresses of the other nodes, whatever it was, and changes nothing
  else: it answers the VPCs whose tunnel is there and never makes a tunnel, so a VPC whose VMs came up while the
  node had no peers is passed over. A second run leaves every list as it is.\<close>

theorem overlay_pass_syncs:
  assumes "dadar C view" "on_fake w" "distinct (map nd_id (t_nodes (view (w_db w))))" "node_address (view (w_db w)) n \<notin> LOOPBACK"
    and "\<forall>v \<in> set (vpcs_here (view (w_db w)) n). dev_ok (vxlan_name n v) \<and> fdb_wf (w_fake w) (vxlan_name n v)"
    and "\<forall>d \<in> set (peers_of (view (w_db w)) n). peer_ok d"
  shows "let T = view (w_db w); synced = filter (has_tunnel n (w_fake w)) (vpcs_here T n) in
    \<exists>v v'. overlay_pass C n w = (Inr (sort synced), v) \<and> w_db v = w_db w \<and> w_fs v = w_fs w \<and>
      (\<forall>u. fdb_of (w_fake v) u = (if u \<in> vxlan_name n ` set synced then Pair ALL_ZEROS ` set (peers_of T n)
        else fdb_of (w_fake w) u)) \<and>
      fdb_only (w_fake w) (w_fake v) \<and> has_tunnel n (w_fake v) = has_tunnel n (w_fake w) \<and>
      overlay_pass C n v = (Inr (sort synced), v') \<and> fdb_of (w_fake v') = fdb_of (w_fake v)"
proof -
  let ?T = "view (w_db w)"
  let ?names = "vxlan_name n ` {v \<in> set (vpcs_here ?T n). has_tunnel n (w_fake w) v}"
  obtain g where g: "overlay_pass C n w = (Inr (sort (filter (has_tunnel n (w_fake w)) (vpcs_here ?T n))), set_fake g w)"
    "fdb_only (w_fake w) (g (w_fake w))"
    "\<And>u. fdb_of (g (w_fake w)) u = (if u \<in> ?names then Pair ALL_ZEROS ` set (peers_of ?T n) else fdb_of (w_fake w) u)"
    using dadar.overlay_pass_run [OF assms] by blast
  have links: "has_tunnel n (g (w_fake w)) = has_tunnel n (w_fake w)"
    using fdb_only_simps(3) [OF g(2)] by (simp add: has_tunnel_def fun_eq_iff)
  have "fdb_wf (g (w_fake w)) u" if "fdb_wf (w_fake w) u" for u
    using that assms(6) by (auto simp: fdb_wf_def g(3))
  then have "\<forall>v \<in> set (vpcs_here ?T n). dev_ok (vxlan_name n v) \<and> fdb_wf (w_fake (set_fake g w)) (vxlan_name n v)"
    using assms(5) by simp
  then obtain h where h: "overlay_pass C n (set_fake g w) = (Inr (sort (filter (has_tunnel n (w_fake w)) (vpcs_here ?T n))), set_fake h (set_fake g w))"
    "\<And>u. fdb_of (h (g (w_fake w))) u = (if u \<in> ?names then Pair ALL_ZEROS ` set (peers_of ?T n) else fdb_of (g (w_fake w)) u)"
    using dadar.overlay_pass_run [OF assms(1), of "set_fake g w" n] assms(2-4,6) by (auto simp: links)
  have "fdb_of (h (g (w_fake w))) = fdb_of (g (w_fake w))" by (simp add: fun_eq_iff h(2) g(3))
  then show ?thesis
    unfolding Let_def using g h(1) links
    by (intro exI [of _ "set_fake g w"] exI [of _ "set_fake h (set_fake g w)"]) (simp add: set_fake_def)
qed

text \<open>Two nodes; the first has VMs in two VPCs, and a tunnel for one of them.\<close>

definition plain_vm :: "string \<Rightarrow> string \<Rightarrow> vm_row" where
  "plain_vm i v = \<lparr>vm_id = i, vm_node = ''n1'', vm_name = i, vm_vpc = v, vm_volume = None, vm_ip = i, vm_ssh = None,
     vm_vcpu = None, vm_mem = None, vm_status = ''running'', vm_created = 0\<rparr>"

definition paired_world :: "tables world" where
  "paired_world = set_fake (\<lambda>s. s\<lparr>f_links := [''vx-n1-v1'' \<mapsto> new_link None ''vxlan'' None]\<rparr>) (world0 (no_rows\<lparr>
     t_nodes := [\<lparr>nd_id = ''n1'', nd_host = Some ''10.0.0.1'', nd_port = 8000\<rparr>, \<lparr>nd_id = ''n2'', nd_host = Some ''10.0.0.2'', nd_port = 8000\<rparr>],
     t_vms := [plain_vm ''a1'' ''v1'', plain_vm ''b2'' ''w9'']\<rparr>))"

theorem overlay_pass_syncs_witness:
  "\<exists>v. overlay_pass list_client ''n1'' paired_world = (Inr [''v1''], v) \<and>
    fdb_of (w_fake v) ''vx-n1-v1'' = {(ALL_ZEROS, ''10.0.0.2'')} \<and> \<not> has_tunnel ''n1'' (w_fake v) ''w9''"
proof -
  have T: "node_address (w_db paired_world) ''n1'' = Some ''10.0.0.1''" "peers_of (w_db paired_world) ''n1'' = [''10.0.0.2'']"
    "vpcs_here (w_db paired_world) ''n1'' = [''v1'', ''w9'']" "distinct (map nd_id (t_nodes (w_db paired_world)))"
    by (simp_all add: paired_world_def set_fake_def node_address_def peers_of_def vpcs_here_def plain_vm_def LOOPBACK_def)
  have F: "on_fake paired_world" "fdb_wf (w_fake paired_world) u"
    "has_tunnel ''n1'' (w_fake paired_world) x = (vxlan_name ''n1'' x = ''vx-n1-v1'')" for u x
    by (simp_all add: paired_world_def fdb_wf_def fdb_of_def reset_state_def has_tunnel_def)
  have ok: "peer_ok ''10.0.0.2''" "Some ''10.0.0.1'' \<notin> LOOPBACK" "dev_ok (vxlan_name ''n1'' ''v1'')" "dev_ok (vxlan_name ''n1'' ''w9'')"
    "vxlan_name ''n1'' ''v1'' = ''vx-n1-v1''" "vxlan_name ''n1'' ''w9'' = ''vx-n1-w9''"
    by (simp add: peer_ok_def contains_def is_space_def, simp_all add: LOOPBACK_def dev_ok_def newline_def vxlan_name_def)
  have pre: "node_address (w_db paired_world) ''n1'' \<notin> LOOPBACK" "\<forall>d \<in> set (peers_of (w_db paired_world) ''n1''). peer_ok d"
    "\<forall>v \<in> set (vpcs_here (w_db paired_world) ''n1''). dev_ok (vxlan_name ''n1'' v) \<and> fdb_wf (w_fake paired_world) (vxlan_name ''n1'' v)"
    using ok by (simp_all add: T F(2))
  have synced: "filter (has_tunnel ''n1'' (w_fake paired_world)) [''v1'', ''w9''] = [''v1'']" by (simp add: F(3) ok(5,6))
  obtain v where v: "overlay_pass list_client ''n1'' paired_world = (Inr (sort [''v1'']), v)"
    "\<forall>u. fdb_of (w_fake v) u = (if u \<in> vxlan_name ''n1'' ` set [''v1''] then Pair ALL_ZEROS ` set [''10.0.0.2''] else fdb_of (w_fake paired_world) u)"
    "has_tunnel ''n1'' (w_fake v) = has_tunnel ''n1'' (w_fake paired_world)"
    using overlay_pass_syncs [OF lists.dadar_axioms F(1) T(4) pre(1,3,2)] unfolding Let_def T(2,3) synced by (elim exE conjE)
  have "\<not> has_tunnel ''n1'' (w_fake v) ''w9''" by (simp add: v(3) F(3) ok(6))
  moreover have "fdb_of (w_fake v) ''vx-n1-v1'' = {(ALL_ZEROS, ''10.0.0.2'')}" by (simp add: v(2) ok(5))
  ultimately show ?thesis using v(1) by (intro exI [of _ v]) simp
qed

text \<open>A node on which the directory and the root clone of a VM without a row are left.\<close>

definition stray_world :: "tables world" where
  "stray_world = set_fake (\<lambda>s. s\<lparr>f_lvs := [((''nyc-n1'', ''rootfs-a1''), \<lparr>lv_size = 64, lv_pool = None, lv_origin = None, lv_attr = []\<rparr>)]\<rparr>)
     ((world0 no_rows)\<lparr>w_fs := [([''srv'', ''node'', ''vms''], Dir), ([''srv'', ''node'', ''vms'', ''a1''], Dir)]\<rparr>)"


end
