(* ===== verification/ForwardProps.thy ===== *)
theory ForwardProps
  imports CascadeProps
begin

text \<open>
  Several nodes: a request served by a node other than the owner of what it concerns, and the listing of
  VMs, which asks every owner. Each request that can be forwarded is split into the program that
  finds the owner, the one that runs there and the message in between.
\<close>

section \<open>Owner, local part and message of a request\<close>

text \<open>The node that must serve a request, as the handler of the node \<open>me\<close> finds it; requests about rows of
  the shared database only are served where they arrive.\<close>

definition volume_or_404 :: "'db client \<Rightarrow> string \<Rightarrow> ('db, volume_row) node_prog" where
  "volume_or_404 C i = bnd (get (c_volumes C) (\<lambda>r. vo_id r = i)) (or_404 ''volume'')"

definition image_source :: "'db client \<Rightarrow> string \<Rightarrow> ('db, snapshot_row) node_prog" where
  "image_source C i =
     bnd (get (c_snapshots C) (\<lambda>r. sn_id r = i \<and> sn_role r = ''snapshot'')) (\<lambda>x. case x of
       None \<Rightarrow> raise (HTTPException 400 ''unknown from_snapshot'') | Some r \<Rightarrow> ret r)"

definition named_or :: "string \<Rightarrow> string option \<Rightarrow> string" where
  "named_or me x = (case truthy_str x of Some n \<Rightarrow> n | None \<Rightarrow> me)"

fun owner_of :: "'db client \<Rightarrow> string \<Rightarrow> request \<Rightarrow> ('db, string) node_prog" where
  "owner_of C me (CreateVolume b) = ret (named_or me (oi_node b))"
| "owner_of C me (ResizeVolume i b) = bnd (volume_or_404 C i) (\<lambda>r. ret (vo_node r))"
| "owner_of C me (DeleteVolume i) = bnd (volume_or_404 C i) (\<lambda>r. ret (vo_node r))"
| "owner_of C me (CreateVm b) = ret (named_or me (mi_node b))"
| "owner_of C me (SpawnVm b pin) = (case truthy_str pin of Some n \<Rightarrow> ret n | None \<Rightarrow> target_node C b)"
| "owner_of C me (GetVm i) = owner_or_404 C i"
| "owner_of C me (DeleteVm i) = owner_or_404 C i"
| "owner_of C me (StopVm i) = owner_or_404 C i"
| "owner_of C me (StartVm i) = owner_or_404 C i"
| "owner_of C me (RebootVm i) = owner_or_404 C i"
| "owner_of C me (CreateSnapshot b) = bnd (resolve_source C b) (\<lambda>s. ret (so_node s))"
| "owner_of C me (DeleteSnapshot i) = bnd (get_or_404 C i ''snapshot'') (\<lambda>r. ret (sn_node r))"
| "owner_of C me (CreateImage b) = bnd (image_source C (ii_from b)) (\<lambda>r. ret (sn_node r))"
| "owner_of C me (DeleteImage i) = bnd (get_or_404 C i ''golden'') (\<lambda>r. ret (sn_node r))"
| "owner_of C me (AttachIp i) = owner_or_404 C i"
| "owner_of C me (DetachIp i) = owner_or_404 C i"
| "owner_of C me rq = ret me"

text \<open>The part of a handler that works on the node itself: it sends no request to another node.\<close>

definition drop_snapshot :: "'db client \<Rightarrow> string \<Rightarrow> snapshot_row \<Rightarrow> ('db, unit) node_prog" where
  "drop_snapshot C i row =
     bnd (volume_vg (sn_node row)) (\<lambda>vg.
       andThen (snap_remove vg (sn_lv row))
      (bnd (delete_rows (c_snapshots C) (\<lambda>r. sn_id r = i)) (\<lambda>_. ret ())))"

fun here :: "'db client \<Rightarrow> string \<Rightarrow> request \<Rightarrow> ('db, unit) node_prog" where
  "here C me (CreateVolume b) = no_reply (create_volume_local C b me)"
| "here C me (ResizeVolume i b) = bnd (volume_or_404 C i) (\<lambda>r. no_reply (resize_local C r (ri_size b)))"
| "here C me (DeleteVolume i) = bnd (volume_or_404 C i) (delete_volume_local C)"
| "here C me (CreateVm b) = no_reply (create_vm_local C b me)"
| "here C me (SpawnVm b pin) = no_reply (spawn_local C b me (\<lambda>_. ret ()))"
| "here C me (GetVm i) = bnd (vm_or_404 C i) (\<lambda>r. no_reply (with_status r))"
| "here C me (DeleteVm i) = delete_vm_local C i me"
| "here C me (StopVm i) = no_reply (stop_local C i)"
| "here C me (StartVm i) = no_reply (start_local C i)"
| "here C me (RebootVm i) = no_reply (bnd (stop_local C i) (\<lambda>_. start_local C i))"
| "here C me (CreateSnapshot b) = bnd (resolve_source C b) (\<lambda>s. no_reply (create_snapshot_local C b s))"
| "here C me (DeleteSnapshot i) = bnd (get_or_404 C i ''snapshot'') (drop_snapshot C i)"
| "here C me (CreateImage b) = bnd (image_source C (ii_from b)) (\<lambda>r. no_reply (create_image_local C b r me))"
| "here C me (DeleteImage i) = bnd (get_or_404 C i ''golden'') (drop_snapshot C i)"
| "here C me (AttachIp i) = bnd (vm_or_404 C i) (\<lambda>r. no_reply (attach_local C r me))"
| "here C me (DetachIp i) = detach_local C i"
| "here C me rq = serve C me rq"

text \<open>The message that carries a request to the node \<open>n\<close>: method, path, body and headers; and the
  request the router there makes of it. A spawn arrives with the choice of its node made.\<close>

fun wire :: "string \<Rightarrow> request \<Rightarrow> string \<times> string \<times> json option \<times> (string \<times> string) list" where
  "wire n (CreateVolume b) = (''POST'', ''/volumes'', Some (volume_json b), [])"
| "wire n (ResizeVolume i b) = (''PATCH'', ''/volumes/'' @ i, Some (resize_json b), [])"
| "wire n (DeleteVolume i) = (''DELETE'', ''/volumes/'' @ i, None, [])"
| "wire n (CreateVm b) = (''POST'', ''/vms'', Some (vm_in_json b), [])"
| "wire n (SpawnVm b pin) = (''POST'', ''/vms/spawn'', Some (spawn_json b), [(''X-Nyc-Pin'', n)])"
| "wire n (GetVm i) = (''GET'', ''/vms/'' @ i, None, [])"
| "wire n (DeleteVm i) = (''DELETE'', ''/vms/'' @ i, None, [])"
| "wire n (StopVm i) = (''POST'', ''/vms/'' @ i @ ''/stop'', None, [])"
| "wire n (StartVm i) = (''POST'', ''/vms/'' @ i @ ''/start'', None, [])"
| "wire n (RebootVm i) = (''POST'', ''/vms/'' @ i @ ''/reboot'', None, [])"
| "wire n (CreateSnapshot b) = (''POST'', ''/snapshots'',
     Some (JObj [(''name'', JStr (si_name b)), (''volume_id'', j_opt (si_volume b)), (''vm_id'', j_opt (si_vm b))]), [])"
| "wire n (DeleteSnapshot i) = (''DELETE'', ''/snapshots/'' @ i, None, [])"
| "wire n (CreateImage b) =
     (''POST'', ''/images'', Some (JObj [(''name'', JStr (ii_name b)), (''from_snapshot'', JStr (ii_from b))]), [])"
| "wire n (DeleteImage i) = (''DELETE'', ''/images/'' @ i, None, [])"
| "wire n (AttachIp i) = (''POST'', ''/vms/'' @ i @ ''/public-ip'', None, [])"
| "wire n (DetachIp i) = (''DELETE'', ''/vms/'' @ i @ ''/public-ip'', None, [])"
| "wire n rq = ([], [], None, [])"

fun arrives :: "string \<Rightarrow> request \<Rightarrow> request" where
  "arrives n (SpawnVm b pin) = SpawnVm b (Some n)"
| "arrives n rq = rq"

definition url_of :: "node_row \<Rightarrow> string" where
  "url_of nd = ''http://'' @ (case nd_host nd of None \<Rightarrow> ''None'' | Some h \<Rightarrow> h) @ '':'' @ str_int (nd_port nd)"

definition message :: "node_row \<Rightarrow> string \<Rightarrow> request \<Rightarrow> http_req" where
  "message nd n rq = (case wire n rq of (m, path, body, headers) \<Rightarrow>
     \<lparr>rq_method = m, rq_url = url_of nd @ path, rq_json = body, rq_headers = headers\<rparr>)"

definition relay :: "'db client \<Rightarrow> string \<Rightarrow> request \<Rightarrow> ('db, unit) node_prog" where
  "relay C n rq = (case wire n rq of (m, path, body, headers) \<Rightarrow> no_reply (forward C n m path body headers))"

text \<open>What a node makes of the answer to a request it forwarded.\<close>

definition outcome :: "http_resp \<Rightarrow> exn + unit" where
  "outcome a = (if 400 \<le> rs_status a then Inl (HTTPException (int (rs_status a)) (rs_text a)) else Inr ())"

section \<open>Every handler is its owner, its local part and its message\<close>

definition routed :: "'db client \<Rightarrow> string \<Rightarrow> request \<Rightarrow> ('db, unit) node_prog" where
  "routed C me rq = bnd (owner_of C me rq) (\<lambda>n. if n = me then here C me rq else relay C n rq)"

lemma no_reply_run: "no_reply m w = (case m w of (Inl e, v) \<Rightarrow> (Inl e, v) | (Inr x, v) \<Rightarrow> (Inr (), v))"
  by (simp add: no_reply_def bnd_run split: prod.splits sum.splits)

lemmas parts = routed_def bnd_run andThen_run no_reply_run get_run or_404_run locally_def forwarded_def relay_def
  named_or_def volume_or_404_def vm_or_404_def owner_or_404_def image_source_def Let_def

lemmas part_splits = prod.splits sum.splits option.splits

lemma bnd_raise: "bnd (raise e) f = raise e"
  by (rule ext) (simp add: bnd_run)

lemma serve_volumes:
  "serve C me (CreateVolume b) w = routed C me (CreateVolume b) w"
  "serve C me (ResizeVolume i rb) w = routed C me (ResizeVolume i rb) w"
  "serve C me (DeleteVolume i) w = routed C me (DeleteVolume i) w"
  by (auto simp: parts create_volume_def resize_volume_def delete_volume_def split: part_splits)

lemma serve_vm_new:
  "serve C me (CreateVm b) w = routed C me (CreateVm b) w"
  "serve C me (SpawnVm sb pin) w = routed C me (SpawnVm sb pin) w"
  by (auto simp: parts create_vm_def spawn_vm_def split: part_splits)

lemma serve_vm:
  "serve C me (GetVm i) w = routed C me (GetVm i) w"
  "serve C me (DeleteVm i) w = routed C me (DeleteVm i) w"
  "serve C me (StopVm i) w = routed C me (StopVm i) w"
  "serve C me (StartVm i) w = routed C me (StartVm i) w"
  "serve C me (RebootVm i) w = routed C me (RebootVm i) w"
  "serve C me (AttachIp i) w = routed C me (AttachIp i) w"
  "serve C me (DetachIp i) w = routed C me (DetachIp i) w"
  by (auto simp: parts get_vm_def delete_vm_def stop_vm_def start_vm_def reboot_vm_def on_owner_def
      attach_public_ip_def detach_public_ip_def split: part_splits)

definition source_of :: "'db client \<Rightarrow> snapshot_in \<Rightarrow> 'db \<Rightarrow> exn + source" where
  "source_of C b d =
     (let vol = truthy_str (si_volume b); vm = truthy_str (si_vm b) in
      if (vol \<noteq> None) = (vm \<noteq> None) then Inl (HTTPException 400 ''give exactly one of volume_id or vm_id'')
      else case vol of
        Some v \<Rightarrow> (case d_get (c_volumes C) (\<lambda>r. vo_id r = v) d of
            None \<Rightarrow> Inl (HTTPException 400 ''unknown volume_id'')
          | Some r \<Rightarrow> Inr \<lparr>so_node = vo_node r, so_parent = vo_id r, so_lv = data_name (vo_id r), so_size = vo_size r, so_disk = ''data''\<rparr>)
      | None \<Rightarrow> (case d_get (c_vms C) (\<lambda>r. Some (vm_id r) = si_vm b) d of
            None \<Rightarrow> Inl (HTTPException 400 ''unknown vm_id'')
          | Some r \<Rightarrow> Inr \<lparr>so_node = vm_node r, so_parent = vm_id r, so_lv = rootfs_name (vm_id r), so_size = 0, so_disk = ''root''\<rparr>))"

lemma resolve_source_run: "resolve_source C b w = (source_of C b (w_db w), w)"
  by (auto simp: resolve_source_def source_of_def Let_def bnd_run get_run split: option.splits)

lemma serve_create_snapshot: "serve C me (CreateSnapshot b) w = routed C me (CreateSnapshot b) w"
  by (simp add: parts create_snapshot_def resolve_source_run split: part_splits)

lemma andThen_ret: "andThen m (ret ()) = no_reply m"
  by (simp add: andThen_def no_reply_def)

lemma get_or_404_run: "get_or_404 C i role w =
  (case d_get (c_snapshots C) (\<lambda>r. sn_id r = i \<and> sn_role r = role) (w_db w) of
     None \<Rightarrow> (Inl (HTTPException 404 (role @ '' not found'')), w) | Some r \<Rightarrow> (Inr r, w))"
  by (simp add: get_or_404_def bnd_run get_run or_404_run split: option.splits)

lemma delete_role_run: "delete_role C me i role pre w =
  (case d_get (c_snapshots C) (\<lambda>r. sn_id r = i \<and> sn_role r = role) (w_db w) of
     None \<Rightarrow> (Inl (HTTPException 404 (role @ '' not found'')), w)
   | Some r \<Rightarrow> if sn_node r = me then drop_snapshot C i r w
       else no_reply (forward C (sn_node r) ''DELETE'' (pre @ ''/'' @ i) None []) w)"
  unfolding delete_role_def drop_snapshot_def [symmetric] andThen_ret
  by (subst bnd_run) (simp add: get_or_404_run split: option.splits)

lemma serve_delete_snapshot: "serve C me (DeleteSnapshot i) w = routed C me (DeleteSnapshot i) w"
  and serve_delete_image: "serve C me (DeleteImage i) w = routed C me (DeleteImage i) w"
  by (simp_all add: routed_def bnd_run get_or_404_run relay_def delete_snapshot_def delete_image_def delete_role_run
      split: option.splits)

lemma image_source_run: "image_source C i w =
  (case d_get (c_snapshots C) (\<lambda>r. sn_id r = i \<and> sn_role r = ''snapshot'') (w_db w) of
     None \<Rightarrow> (Inl (HTTPException 400 ''unknown from_snapshot''), w) | Some r \<Rightarrow> (Inr r, w))"
  by (simp add: image_source_def bnd_run get_run split: option.splits)

lemma no_reply_locally: "no_reply (locally m) = no_reply m"
  by (rule ext) (simp add: no_reply_run locally_def bnd_run split: prod.splits sum.splits)

lemma no_reply_forwarded: "no_reply (forwarded C n m path body hs) = no_reply (forward C n m path body hs)"
  by (rule ext) (simp add: no_reply_run forwarded_def bnd_run split: prod.splits sum.splits)

lemma create_image_run: "no_reply (create_image C me b) w =
  (case image_source C (ii_from b) w of
     (Inl e, v) \<Rightarrow> (Inl e, v)
   | (Inr r, v) \<Rightarrow> if sn_node r = me then no_reply (create_image_local C b r (sn_node r)) w
       else relay C (sn_node r) (CreateImage b) w)"
  unfolding create_image_def no_reply_def bnd_assoc
  by (subst bnd_run)
     (simp add: get_run image_source_run relay_def no_reply_forwarded [unfolded no_reply_def]
        no_reply_locally [unfolded no_reply_def] bnd_raise no_reply_def split: option.splits)

lemma serve_create_image: "serve C me (CreateImage b) w = routed C me (CreateImage b) w"
  by (simp add: create_image_run routed_def bnd_run image_source_run split: option.splits)

lemmas serve_snapshots = serve_create_snapshot serve_delete_snapshot serve_delete_image serve_create_image

lemma serve_routed: "serve C me rq = routed C me rq"
  by (rule ext, cases rq) (simp_all only: serve_volumes serve_vm_new serve_vm serve_snapshots, simp_all add: parts)


section \<open>Finding the owner\<close>

text \<open>Programs that read, and at most draw from the source of random choice\<close>

definition drawing :: "('db, 'a) node_prog \<Rightarrow> bool" where
  "drawing m \<longleftrightarrow> (\<forall>w. \<exists>k. snd (m w) = w\<lparr>w_nrand := k\<rparr>)"

lemma nrand_self: "w = w\<lparr>w_nrand := w_nrand w\<rparr>"
  by simp

lemma drawing_read: "(\<And>w. snd (m w) = w) \<Longrightarrow> drawing m"
  unfolding drawing_def using nrand_self by metis

lemma drawing_ret: "drawing (ret y)" and drawing_raise: "drawing (raise e)" and drawing_get: "drawing (get t P)"
  and drawing_get_all: "drawing (get_all t P)" and drawing_or_404: "drawing (or_404 s x)"
  by (rule drawing_read, simp add: get_run get_all_run or_404_run split: option.split)+

lemma drawing_bnd:
  assumes "drawing m" "\<And>x. drawing (f x)"
  shows "drawing (bnd m f)"
  unfolding drawing_def
proof
  fix w
  obtain r k where "m w = (r, w\<lparr>w_nrand := k\<rparr>)" using assms(1) unfolding drawing_def by (metis prod.collapse)
  note m = this
  show "\<exists>k. snd (bnd m f w) = w\<lparr>w_nrand := k\<rparr>"
  proof (cases r)
    case (Inr x)
    obtain k' where "snd (f x (w\<lparr>w_nrand := k\<rparr>)) = (w\<lparr>w_nrand := k\<rparr>)\<lparr>w_nrand := k'\<rparr>"
      using assms(2) [of x] unfolding drawing_def by blast
    with m Inr show ?thesis by (auto simp: bnd_run)
  qed (use m in \<open>auto simp: bnd_run\<close>)
qed

lemma drawing_map_prog: "(\<And>x. drawing (f x)) \<Longrightarrow> drawing (map_prog f xs)"
  by (induction xs) (auto intro: drawing_ret drawing_bnd)

lemma drawing_choice: "drawing (choice xs)"
  by (auto simp: drawing_def choice_def intro: nrand_self)

lemma drawing_image: "drawing (image_or_400 C i)"
  unfolding image_or_400_def by (intro drawing_bnd drawing_get) (auto split: option.split intro: drawing_ret drawing_raise)

lemma drawing_target: "drawing (target_node C b)"
  by (auto simp: target_node_def random_node_def Let_def split: list.split
      intro!: drawing_bnd drawing_map_prog drawing_image drawing_ret drawing_raise drawing_get_all drawing_choice)

lemma drawing_owner: "drawing (owner_of C me rq)"
proof (cases rq)
  case (SpawnVm b pin)
  then show ?thesis by (auto intro: drawing_ret drawing_target split: option.split)
next
  case (CreateSnapshot b)
  have "drawing (resolve_source C b)" by (rule drawing_read) (simp add: resolve_source_run)
  with CreateSnapshot show ?thesis by (auto intro: drawing_bnd drawing_ret)
qed (auto simp: volume_or_404_def owner_or_404_def image_source_def get_or_404_def split: option.split
       intro!: drawing_bnd drawing_get drawing_or_404 drawing_ret drawing_raise)

lemma owner_draws: "owner_of C me rq w = (r, v) \<Longrightarrow> \<exists>k. v = w\<lparr>w_nrand := k\<rparr>"
  using drawing_owner [of C me rq] unfolding drawing_def by (metis snd_conv)

text \<open>The owner of a request finds itself when the request reaches it.\<close>

lemma volume_or_404_run: "volume_or_404 C i w =
  (case d_get (c_volumes C) (\<lambda>r. vo_id r = i) (w_db w) of
     None \<Rightarrow> (Inl (HTTPException 404 ''volume not found''), w) | Some r \<Rightarrow> (Inr r, w))"
  by (simp add: volume_or_404_def bnd_run get_run or_404_run split: option.splits)

lemma owner_or_404_run: "owner_or_404 C i w =
  (case d_get (c_vms C) (\<lambda>r. vm_id r = i) (w_db w) of
     None \<Rightarrow> (Inl (HTTPException 404 ''vm not found''), w) | Some r \<Rightarrow> (Inr (vm_node r), w))"
  by (simp add: owner_or_404_def bnd_run get_run or_404_run split: option.splits)

lemmas owner_runs = bnd_run volume_or_404_run owner_or_404_run get_or_404_run image_source_run resolve_source_run

lemma owner_agrees:
  assumes "owner_of C me rq w = (Inr n, v)" "n \<noteq> me" "n \<noteq> []" "w_db q = w_db w"
  shows "owner_of C n (arrives n rq) q = (Inr n, q)"
  using assms
  by (cases rq) (simp_all add: owner_runs truthy_str_def named_or_def split: option.splits sum.splits if_splits)

lemma owner_serves:
  assumes "owner_of C me rq w = (Inr n, v)" "n \<noteq> me" "n \<noteq> []" "w_db q = w_db w"
  shows "serve C n (arrives n rq) q = here C n (arrives n rq) q"
proof -
  note a = owner_agrees [OF assms]
  show ?thesis by (simp add: serve_routed routed_def bnd_run a)
qed

section \<open>Forwarding\<close>

lemma base_url_run: "base_url C n w =
  (case d_get (c_nodes C) (\<lambda>x. nd_id x = n) (w_db w) of
     None \<Rightarrow> (Inl (HTTPException 404 (''unknown node '' @ n)), w) | Some nd \<Rightarrow> (Inr (url_of nd), w))"
  by (simp add: base_url_def bnd_run get_run url_of_def split: option.splits)

lemma relay_run:
  assumes "d_get (c_nodes C) (\<lambda>x. nd_id x = n) (w_db w) = Some nd" "w_http w (message nd n rq) (w_db w) = (Inr a, d)"
  shows "relay C n rq w = (outcome a, w\<lparr>w_db := d\<rparr>)"
proof -
  obtain m path body hs where wi: "wire n rq = (m, path, body, hs)" by (cases "wire n rq")
  have "http (message nd n rq) w = (Inr a, w\<lparr>w_db := d\<rparr>)" using assms(2) by (simp add: http_def)
  then have "http \<lparr>rq_method = m, rq_url = url_of nd @ path, rq_json = body, rq_headers = hs\<rparr> w = (Inr a, w\<lparr>w_db := d\<rparr>)"
    by (simp add: message_def wi)
  then show ?thesis
    by (simp add: relay_def wi no_reply_run forward_def bnd_run base_url_run assms(1) outcome_def)
qed


text \<open>The node \<open>n2\<close> of a cluster whose node \<open>n1\<close> owns a VM, and a network that delivers to \<open>n1\<close>\<close>

definition reply_204 :: "exn + unit \<Rightarrow> http_resp" where
  "reply_204 r = (case r of
     Inr _ \<Rightarrow> \<lparr>rs_status = 204, rs_text = [], rs_json = JNull\<rparr>
   | Inl (HTTPException c m) \<Rightarrow> \<lparr>rs_status = nat c, rs_text = m, rs_json = JObj [(''detail'', JStr m)]\<rparr>
   | Inl _ \<Rightarrow> \<lparr>rs_status = 500, rs_text = ''Internal Server Error'', rs_json = JNull\<rparr>)"

definition node_n1 :: node_row where
  "node_n1 = \<lparr>nd_id = ''n1'', nd_host = Some ''192.168.1.1'', nd_port = 8000\<rparr>"

definition doomed_db :: tables where
  "doomed_db = (w_db doomed)\<lparr>t_nodes := [node_n1]\<rparr>"

definition second_node :: "tables world" where
  "second_node = (world0 doomed_db)\<lparr>w_http := (\<lambda>rq d.
     if rq = message node_n1 ''n1'' (DeleteVm ''a1'')
     then case serve list_client ''n1'' (DeleteVm ''a1'') (doomed\<lparr>w_db := d\<rparr>) of (r, u) \<Rightarrow> (Inr (reply_204 r), w_db u)
     else (Inl (OSError ''connection refused''), d))\<rparr>"


section \<open>Listing VMs\<close>

text \<open>What an owner's answer to \<open>GET /vms\<close> is worth: its entries by id, none when it answers with an error. An
  exception of the HTTP library that is no \<open>HTTPException\<close> is not caught.\<close>

primrec entries :: "json list \<Rightarrow> exn + (string \<times> vm_view) list" where
  "entries [] = Inr []"
| "entries (rv # rs) = (case remote_entry rv of
     Inl e \<Rightarrow> Inl e | Inr y \<Rightarrow> (case entries rs of Inl e \<Rightarrow> Inl e | Inr ys \<Rightarrow> Inr (y # ys)))"

definition told :: "exn + http_resp \<Rightarrow> exn + (string \<times> vm_view) list" where
  "told r = (case r of
     Inl (HTTPException _ _) \<Rightarrow> Inr []
   | Inl e \<Rightarrow> Inl e
   | Inr a \<Rightarrow> if 400 \<le> rs_status a \<or> rs_text a = [] then Inr []
       else case rs_json a of JList rvs \<Rightarrow> entries rvs | JObj [] \<Rightarrow> Inr [] | _ \<Rightarrow> Inl (TypeError ''remote''))"

definition owner_says :: "'db client \<Rightarrow> 'db world \<Rightarrow> string \<Rightarrow> exn + (string \<times> vm_view) list" where
  "owner_says C w n = (case d_get (c_nodes C) (\<lambda>x. nd_id x = n) (w_db w) of
     None \<Rightarrow> Inr []
   | Some nd \<Rightarrow> told (fst (w_http w \<lparr>rq_method = ''GET'', rq_url = url_of nd @ ''/vms'', rq_json = None,
                                    rq_headers = [(''X-Nyc-Local'', ''1'')]\<rparr> (w_db w))))"

definition live_status :: "'db world \<Rightarrow> string \<Rightarrow> string" where
  "live_status w i =
     (if \<exists>d. f_socks (w_fake w) (path_str (vp_api_sock (for_vm (w_cwd w @ [''vms'']) i))) = Some (d, True)
      then ''running'' else ''stopped'')"

text \<open>The entry the list shows for a VM.\<close>

definition shown :: "'db client \<Rightarrow> string \<Rightarrow> 'db world \<Rightarrow> vm_row \<Rightarrow> vm_view" where
  "shown C me w r =
     (if vm_node r = me then Local (r, live_status w (vm_id r))
      else case owner_says C w (vm_node r) of
        Inl _ \<Rightarrow> Local (r, ''unknown'')
      | Inr xs \<Rightarrow> (case map_of (rev xs) (vm_id r) of Some x \<Rightarrow> x | None \<Rightarrow> Local (r, ''unknown'')))"

text \<open>The nodes answer with their own VMs, as they do: \<open>list_vms\<close> with the header set lists no other.\<close>

definition own_entries :: "'db client \<Rightarrow> string \<Rightarrow> 'db world \<Rightarrow> vm_row list \<Rightarrow> bool" where
  "own_entries C me w rows \<longleftrightarrow> (\<forall>n xs i x. n \<noteq> me \<longrightarrow> owner_says C w n = Inr xs \<longrightarrow> (i, x) \<in> set xs \<longrightarrow>
     (\<exists>s \<in> set rows. vm_id s = i \<and> vm_node s = n))"

lemma with_status_run: "on_fake w \<Longrightarrow> with_status r w = (Inr (r, live_status w (vm_id r)), w)"
  by (simp add: with_status_def resolve_def find_repo_root_def bnd_run vms_dir_def status_fake_iff live_status_def)

lemma entries_run: "map_prog (\<lambda>rv. of_sum (remote_entry rv)) rvs w = (entries rvs, w)"
  by (induction rvs) (auto simp: bnd_run split: sum.splits)

lemma ask_owner_run:
  assumes "\<And>rq. rq_method rq = ''GET'' \<Longrightarrow> snd (w_http w rq (w_db w)) = w_db w"
  shows "ask_owner C n w = (owner_says C w n, w)"
proof (cases "d_get (c_nodes C) (\<lambda>x. nd_id x = n) (w_db w)")
  case None
  then show ?thesis
    by (simp add: ask_owner_def forward_def owner_says_def bnd_run except_run base_url_run)
next
  case (Some nd)
  let ?rq = "\<lparr>rq_method = ''GET'', rq_url = url_of nd @ ''/vms'', rq_json = None, rq_headers = [(''X-Nyc-Local'', ''1'')]\<rparr>"
  have "snd (w_http w ?rq (w_db w)) = w_db w" by (rule assms) simp
  then obtain r where r: "w_http w ?rq (w_db w) = (r, w_db w)" by (cases "w_http w ?rq (w_db w)") simp
  then have h: "http ?rq w = (r, w)" by (simp add: http_def)
  let ?t = "\<lambda>remote. case remote of JList rvs \<Rightarrow> map_prog (\<lambda>rv. of_sum (remote_entry rv)) rvs
    | JObj [] \<Rightarrow> ret [] | _ \<Rightarrow> raise (TypeError ''remote'')"
  have t: "?t j w = ((case j of JList rvs \<Rightarrow> entries rvs | JObj [] \<Rightarrow> Inr [] | _ \<Rightarrow> Inl (TypeError ''remote'')), w)" for j
    by (cases j) (simp_all add: entries_run split: list.split)
  have f: "forward C n ''GET'' ''/vms'' None [(''X-Nyc-Local'', ''1'')] w = ((case r of Inl e \<Rightarrow> Inl e
      | Inr a \<Rightarrow> if 400 \<le> rs_status a then Inl (HTTPException (int (rs_status a)) (rs_text a))
          else Inr (if rs_text a = [] then JObj [] else rs_json a)), w)"
    by (simp add: forward_def bnd_run base_url_run Some h split: sum.split)
  have o': "owner_says C w n = told r" by (simp add: owner_says_def Some r)
  show ?thesis
  proof (cases r)
    case (Inl e)
    then show ?thesis
      by (cases e) (simp_all add: ask_owner_def bnd_run except_run f o' told_def)
  next
    case (Inr a)
    then show ?thesis
      by (simp add: ask_owner_def bnd_run except_run f o' told_def t)
  qed
qed

lemma map_prog_all:
  "(\<And>x. x \<in> set xs \<Longrightarrow> f x w = (Inr (g x), w)) \<Longrightarrow> map_prog f xs w = (Inr (map g xs), w)"
  by (induction xs) (auto simp: bnd_run)

lemma map_prog_some:
  assumes "\<And>x. x \<in> set xs \<Longrightarrow> f x w = (g x, w)" "x \<in> set xs" "g x = Inl e"
  shows "\<exists>e'. map_prog f xs w = (Inl e', w) \<and> (\<exists>y \<in> set xs. g y = Inl e')"
  using assms
proof (induction xs)
  case (Cons a xs)
  show ?case
  proof (cases "g a")
    case (Inl b)
    with Cons.prems show ?thesis by (auto simp: bnd_run)
  next
    case (Inr b)
    then have "x \<in> set xs" using Cons.prems by auto
    with Cons Inr show ?thesis by (fastforce simp: bnd_run)
  qed
qed simp

lemma map_of_rev_concat:
  assumes "distinct ns" "n \<in> set ns" "\<And>m. m \<in> set ns \<Longrightarrow> m \<noteq> n \<Longrightarrow> i \<notin> fst ` set (f m)"
  shows "map_of (rev (concat (map f ns))) i = map_of (rev (f n)) i"
  using assms
proof (induction ns)
  case (Cons a ns)
  show ?case
  proof (cases "a = n")
    case True
    then have "map_of (rev (concat (map f ns))) i = None"
      using Cons.prems by (auto simp: map_of_eq_None_iff image_iff)
    with True show ?thesis by (simp add: map_add_def)
  next
    case False
    then have "map_of (rev (f a)) i = None" using Cons.prems(3) [of a] by (simp add: map_of_eq_None_iff)
    moreover have "map_of (rev (concat (map f ns))) i = map_of (rev (f n)) i" using Cons False by auto
    ultimately show ?thesis by (simp add: map_add_def split: option.split)
  qed
qed simp

lemma mine_run:
  "on_fake w \<Longrightarrow> map_prog (\<lambda>r. bnd (with_status r) (\<lambda>x. ret (vm_id r, Local x))) rs w
     = (Inr (map (\<lambda>r. (vm_id r, Local (r, live_status w (vm_id r)))) rs), w)"
  by (rule map_prog_all) (simp add: bnd_run with_status_run)

text \<open>The dictionary the answers are put in gives every VM what its owner says of it.\<close>

lemma by_id_shown:
  fixes rows :: "vm_row list" and w :: "'db world" and me :: string
  defines "others \<equiv> remdups (map vm_node (filter (\<lambda>r. vm_node r \<noteq> me) rows))"
    and "mine \<equiv> map (\<lambda>r. (vm_id r, Local (r, live_status w (vm_id r)))) (filter (\<lambda>r. vm_node r = me) rows)"
  assumes dist: "distinct (map vm_id rows)"
    and says: "\<And>n. n \<in> set others \<Longrightarrow> owner_says C w n = Inr (f n)"
    and own: "\<And>n i x. n \<in> set others \<Longrightarrow> (i, x) \<in> set (f n) \<Longrightarrow> \<exists>s \<in> set rows. vm_id s = i \<and> vm_node s = n"
    and r: "r \<in> set rows"
  shows "(case map_of (rev (mine @ concat (map f others))) (vm_id r) of Some v \<Rightarrow> v | None \<Rightarrow> Local (r, ''unknown'')) = shown C me w r"
proof -
  let ?i = "vm_id r" and ?theirs = "concat (map f others)"
  have same: "s = r" if "s \<in> set rows" "vm_id s = ?i" for s
    using dist r that by (auto simp: distinct_map inj_on_def)
  have split: "map_of (rev (mine @ ?theirs)) ?i =
      (case map_of (rev ?theirs) ?i of Some v \<Rightarrow> Some v | None \<Rightarrow> map_of (rev mine) ?i)"
    by (simp add: map_add_def split: option.split)
  show ?thesis
  proof (cases "vm_node r = me")
    case True
    have "map_of (rev ?theirs) ?i = None"
      using own same True by (fastforce simp: map_of_eq_None_iff others_def)
    moreover have "map_of (rev mine) ?i = Some (Local (r, live_status w ?i))"
    proof (rule map_of_is_SomeI)
      have "distinct (map fst mine)" using dist by (simp add: mine_def o_def distinct_map inj_on_def)
      then show "distinct (map fst (rev mine))" by (simp only: rev_map [symmetric] distinct_rev)
      show "(?i, Local (r, live_status w ?i)) \<in> set (rev mine)" using r True by (auto simp: mine_def)
    qed
    ultimately show ?thesis using True unfolding split by (simp add: shown_def)
  next
    case False
    then have n: "vm_node r \<in> set others" using r by (auto simp: others_def)
    have "map_of (rev ?theirs) ?i = map_of (rev (f (vm_node r))) ?i"
      using own same n by (intro map_of_rev_concat) (fastforce simp: others_def)+
    moreover have "map_of (rev mine) ?i = None"
      using same False by (auto simp: mine_def map_of_eq_None_iff)
    ultimately show ?thesis using False says [OF n] unfolding split by (simp add: shown_def split: option.split)
  qed
qed

lemma merge_run:
  assumes w: "on_fake w" "distinct (map vm_id rows)"
    and gets: "\<And>rq. rq_method rq = ''GET'' \<Longrightarrow> snd (w_http w rq (w_db w)) = w_db w"
    and entries: "own_entries C me w rows"
  shows "if \<forall>r \<in> set rows. vm_node r \<noteq> me \<longrightarrow> (\<exists>xs. owner_says C w (vm_node r) = Inr xs)
    then merge_remote_status C me rows w = (Inr (map (shown C me w) rows), w)
    else \<exists>e. merge_remote_status C me rows w = (Inl e, w) \<and>
      (\<exists>r \<in> set rows. vm_node r \<noteq> me \<and> owner_says C w (vm_node r) = Inl e)"
proof -
  let ?others = "remdups (map vm_node (filter (\<lambda>r. vm_node r \<noteq> me) rows))"
  have own: "\<exists>s \<in> set rows. vm_id s = i \<and> vm_node s = n"
    if "n \<noteq> me" "owner_says C w n = Inr xs" "(i, x) \<in> set xs" for n xs i x
    using entries that unfolding own_entries_def by blast
  have ask: "ask_owner C n w = (owner_says C w n, w)" for n by (rule ask_owner_run [OF gets])
  note run = merge_remote_status_def bnd_run mine_run [OF w(1)] Let_def
  show ?thesis
  proof (cases "\<forall>r \<in> set rows. vm_node r \<noteq> me \<longrightarrow> (\<exists>xs. owner_says C w (vm_node r) = Inr xs)")
    case True
    let ?f = "\<lambda>n. projr (owner_says C w n)"
    have says: "owner_says C w n = Inr (?f n)" if "n \<in> set ?others" for n using that True by auto
    then have "map_prog (ask_owner C) ?others w = (Inr (map ?f ?others), w)"
      by (intro map_prog_all) (simp add: ask)
    then have "merge_remote_status C me rows w = (Inr (map (\<lambda>r. case map_of (rev (map (\<lambda>r. (vm_id r,
        Local (r, live_status w (vm_id r)))) (filter (\<lambda>r. vm_node r = me) rows) @ concat (map ?f ?others))) (vm_id r) of
        Some v \<Rightarrow> v | None \<Rightarrow> Local (r, ''unknown'')) rows), w)"
      by (simp only: run) simp
    also have "\<dots> = (Inr (map (shown C me w) rows), w)"
    proof -
      have "(case map_of (rev (map (\<lambda>r. (vm_id r, Local (r, live_status w (vm_id r)))) (filter (\<lambda>r. vm_node r = me) rows)
          @ concat (map ?f ?others))) (vm_id r) of Some v \<Rightarrow> v | None \<Rightarrow> Local (r, ''unknown'')) = shown C me w r"
        if "r \<in> set rows" for r
      proof (rule by_id_shown [OF w(2)])
        show "owner_says C w n = Inr (?f n)" if "n \<in> set ?others" for n using that by (rule says)
        show "\<exists>s \<in> set rows. vm_id s = i \<and> vm_node s = n" if "n \<in> set ?others" "(i, x) \<in> set (?f n)" for n i x
          using own [OF _ says [OF that(1)] that(2)] that(1) by auto
      qed (rule that)
      then show ?thesis by (intro arg_cong [where f = "\<lambda>xs. (Inr xs, w)"] map_cong refl)
    qed
    finally show ?thesis using True by simp
  next
    case False
    then obtain n e where "n \<in> set ?others" "owner_says C w n = Inl e"
      by (auto simp: image_iff) (metis obj_sumE)
    then obtain e' where "map_prog (ask_owner C) ?others w = (Inl e', w)" "\<exists>y \<in> set ?others. owner_says C w y = Inl e'"
      using map_prog_some [of ?others "ask_owner C" w "owner_says C w" n e] ask by blast
    with False show ?thesis by (auto simp: run)
  qed
qed

text \<open>C7: \<open>GET /vms\<close> on a node of the simulator changes nothing and answers one entry for every VM of the cluster, in
  table order: the node's own with the status of their processes, every other with the last entry its owner's
  answer has for it, and the row as \<open>unknown\<close> when the owner is not registered, answers with an error or leaves it
  out. But it answers so only if every owner can be asked: a node that cannot be reached, or answers what is no list
  of VMs, makes the whole list fail, on every other node.\<close>

theorem list_vms_merges:
  assumes "dadar C view" "on_fake w" "distinct (map vm_id (t_vms (view (w_db w))))"
    and "\<And>rq. rq_method rq = ''GET'' \<Longrightarrow> snd (w_http w rq (w_db w)) = w_db w"
    and "own_entries C me w (t_vms (view (w_db w)))"
  shows "if \<forall>r \<in> set (t_vms (view (w_db w))). vm_node r \<noteq> me \<longrightarrow> (\<exists>xs. owner_says C w (vm_node r) = Inr xs)
    then list_vms C me None w = (Inr (map (shown C me w) (t_vms (view (w_db w)))), w)
    else \<exists>e. list_vms C me None w = (Inl e, w) \<and>
      (\<exists>r \<in> set (t_vms (view (w_db w))). vm_node r \<noteq> me \<and> owner_says C w (vm_node r) = Inl e)"
proof -
  have "list_vms C me None w = merge_remote_status C me (t_vms (view (w_db w))) w"
    by (simp add: list_vms_def bnd_run get_all_run truthy_str_def table.all [OF dadar.axioms(3) [OF assms(1)]])
  then show ?thesis
    using merge_run [OF assms(2-5)] by simp
qed

definition far_vm :: vm_row where
  "far_vm = \<lparr>vm_id = ''b2'', vm_node = ''n2'', vm_name = ''db'', vm_vpc = ''v1'', vm_volume = None, vm_ip = ''10.0.0.3'',
     vm_ssh = None, vm_vcpu = Some 1, vm_mem = Some 512, vm_status = ''running'', vm_created = 1\<rparr>"

definition near_vm :: vm_row where
  "near_vm = far_vm\<lparr>vm_id := ''a1'', vm_node := ''n1'', vm_ip := ''10.0.0.2''\<rparr>"

text \<open>A cluster of two nodes with a VM each, and what the second answers the first\<close>

definition two_nodes :: "exn + http_resp \<Rightarrow> tables world" where
  "two_nodes a = (world0 (no_rows\<lparr>t_vms := [far_vm, near_vm],
     t_nodes := [\<lparr>nd_id = ''n2'', nd_host = Some ''192.168.1.2'', nd_port = 8000\<rparr>]\<rparr>))\<lparr>w_http := (\<lambda>rq d. (a, d))\<rparr>"

definition far_json :: json where
  "far_json = JObj [(''id'', JStr ''b2''), (''live_status'', JStr ''running'')]"

lemma two_nodes_says: "owner_says list_client (two_nodes a) n = (if n = ''n2'' then told a else Inr [])"
  by (simp add: owner_says_def two_nodes_def list_client_def list_docs_def world0_def)

lemma two_nodes_sel: "t_vms (w_db (two_nodes a)) = [far_vm, near_vm]" "on_fake (two_nodes a)"
    "snd (w_http (two_nodes a) rq d) = d" "vm_id far_vm = ''b2''" "vm_node far_vm = ''n2''" "vm_id near_vm = ''a1''"
    "vm_node near_vm = ''n1''" "live_status (two_nodes a) i = ''stopped''"
  by (simp_all add: two_nodes_def far_vm_def near_vm_def on_fake_def backend_def world0_def lower_fake live_status_def
      reset_state_def)

lemma two_nodes_own:
  "(\<And>xs. told a = Inr xs \<Longrightarrow> fst ` set xs \<subseteq> {''b2''}) \<Longrightarrow>
   own_entries list_client ''n1'' (two_nodes a) (t_vms (w_db (two_nodes a)))"
  unfolding own_entries_def two_nodes_says
  by (intro allI impI bexI [of _ far_vm]) (fastforce simp: two_nodes_sel split: if_splits)+

theorem list_vms_merges_witness:
  "fst (list_vms list_client ''n1'' None (two_nodes (Inl (OSError ''connection refused''))))
     = Inl (OSError ''connection refused'') \<and>
   fst (list_vms list_client ''n1'' None (two_nodes (Inr \<lparr>rs_status = 200, rs_text = ''[...]'', rs_json = JList [far_json]\<rparr>)))
     = Inr [Remote far_json, Local (near_vm, ''stopped'')]"
proof -
  note m = list_vms_merges [OF lists.dadar_axioms two_nodes_sel(2) _ two_nodes_sel(3) two_nodes_own, simplified two_nodes_sel]
  have "told (Inl (OSError ''connection refused'')) = Inl (OSError ''connection refused'')" by (simp add: told_def)
  with m [of "Inl (OSError ''connection refused'')"]
  have down: "fst (list_vms list_client ''n1'' None (two_nodes (Inl (OSError ''connection refused''))))
      = Inl (OSError ''connection refused'')"
    by (auto simp: two_nodes_sel two_nodes_says)
  let ?a = "Inr \<lparr>rs_status = 200, rs_text = ''[...]'', rs_json = JList [far_json]\<rparr> :: exn + http_resp"
  have "told ?a = Inr [(''b2'', Remote far_json)]"
    by (simp add: told_def remote_entry_def j_field_def far_json_def)
  with m [of ?a] have "fst (list_vms list_client ''n1'' None (two_nodes ?a)) = Inr [Remote far_json, Local (near_vm, ''stopped'')]"
    by (simp add: two_nodes_sel two_nodes_says shown_def)
  with down show ?thesis by simp
qed

end
