(* ===== verification/HostLogic.thy ===== *)
theory HostLogic
  imports DbInvariant FakeProps
begin

text \<open>
  Reasoning about what the handlers and the background work do to database and host together. The
  locale \<open>calm\<close> is the interface between a predicate of a node's state and the client: what a
  predicate must survive (a change of anything but settings, rows and logical volumes; a harmless
  command; the removal of a root clone) so that every verb of the client preserves it. \<open>calm_node\<close>
  extends it to the handlers: it assumes the predicate of the node's own storage operations, and gives
  it of everything a node serves. \<open>tri\<close> follows the steps of one handler.
\<close>

section \<open>Commands that remove no volume\<close>

text \<open>The part of a node's state that the predicates speak of.\<close>

definition core ::
  "'db world \<Rightarrow> ((string \<Rightarrow> string option) \<times> (string \<Rightarrow> toml option) \<times> path) \<times> (nat \<Rightarrow> string) \<times>
     (http_req \<Rightarrow> 'db \<Rightarrow> (exn + http_resp) \<times> 'db) \<times> 'db \<times> ((string \<times> string) \<times> lvrec) list" where
  "core w = ((w_env w, w_toml w, w_cwd w), w_uuid w, w_http w, w_db w, f_lvs (w_fake w))"

lemma core_upd [simp]:
  "core (w\<lparr>w_log := l\<rparr>) = core w" "core (w\<lparr>w_fs := f\<rparr>) = core w" "core (w\<lparr>w_nuuid := n\<rparr>) = core w"
  "core (w\<lparr>w_tick := n\<rparr>) = core w" "core (w\<lparr>w_nrand := n\<rparr>) = core w" "core (w\<lparr>w_polls := n\<rparr>) = core w"
  "core (fs_put p k w) = core w" "core (w_fake_update (sock_set q e) w) = core w"
  by (simp_all add: core_def fs_put_def sock_set_def)

definition removes :: "string set" where
  "removes = {''lvremove'', ''vgremove''}"

text \<open>The head of a command, and of the command inside \<open>ip netns exec\<close>\<close>

definition harmless :: "string list \<Rightarrow> bool" where
  "harmless argv \<longleftrightarrow> argv \<noteq> [] \<and> hd argv \<notin> removes \<and>
     (is_netns_exec argv \<longrightarrow> drop 4 argv \<noteq> [] \<and> hd (drop 4 argv) \<notin> removes \<and> \<not> is_netns_exec (drop 4 argv))"

definition lvs_over :: "lv_key set \<Rightarrow> fstate \<Rightarrow> bool" where
  "lvs_over D s \<longleftrightarrow> D \<subseteq> dom (lv_map s)"

lemma pres_prod: "(\<And>a b. p = (a, b) \<Longrightarrow> pres P (f a b)) \<Longrightarrow> pres P (case p of (a, b) \<Rightarrow> f a b)"
  by (cases p) auto

lemmas over_rules = pres_prod sim_rules

lemma over_same: "f_lvs t = f_lvs s \<Longrightarrow> lvs_over D s \<Longrightarrow> lvs_over D t"
  by (simp add: lvs_over_def lv_map_def)

lemma over_update: "lvs_over D s \<Longrightarrow> lvs_over D (s\<lparr>f_lvs := AList.update k d (f_lvs s)\<rparr>)"
  by (auto simp: lvs_over_def lv_map_def update_conv')

lemma over_entry: "lvs_over D s \<Longrightarrow> lvs_over D (s\<lparr>f_lvs := AList.map_entry k g (f_lvs s)\<rparr>)"
  by (auto simp: lvs_over_def lv_map_def map_of_map_entry split: option.splits)

lemma over_ip: "pres (lvs_over D) (ip_cmd argv)"
proof -
  have "pres (lvs_over D) (netns_cmd a)" "pres (lvs_over D) (link_cmd a)" "pres (lvs_over D) (addr_cmd a)"
    "pres (lvs_over D) (route_cmd a)" "pres (lvs_over D) (tuntap_cmd a)" for a
    unfolding netns_cmd_def link_cmd_def addr_cmd_def route_cmd_def tuntap_cmd_def link_set_kw_def nothing_def Let_def
    by (intro over_rules;
        erule over_same [rotated];
        auto simp: link_add_def link_upd_def link_default_def link_del_def Let_def split: option.splits)+
  then have "pres (lvs_over D) (f argv)" if "ip_sub k = Some f" for k f
    using that by (auto simp: ip_sub_def split: if_splits)
  then show ?thesis unfolding ip_cmd_def nothing_def by (intro over_rules)
qed

lemma over_plain:
  "pres (lvs_over D) (brctl_cmd a)" "pres (lvs_over D) (mkfs_cmd a)" "pres (lvs_over D) (truncate_cmd a)"
  "pres (lvs_over D) (mount_cmd a)" "pres (lvs_over D) (umount_cmd a)" "pres (lvs_over D) (debugfs_cmd a)"
  "pres (lvs_over D) (sysctl_cmd a)" "pres (lvs_over D) (pvcreate_cmd a)" "pres (lvs_over D) (pvremove_cmd a)"
  "pres (lvs_over D) (pvs_cmd a)" "pres (lvs_over D) (vgcreate_cmd a)" "pres (lvs_over D) (vgs_cmd a)"
  "pres (lvs_over D) (lvs_cmd a)" "pres (lvs_over D) (firecracker_cmd a)" "pres (lvs_over D) (kill_cmd a)"
  "pres (lvs_over D) (vgchange_cmd a)" "pres (lvs_over D) (noop_cmd a)" "pres (lvs_over D) (bridge_cmd a)"
  "pres (lvs_over D) (losetup_cmd a)"
  unfolding brctl_cmd_def mkfs_cmd_def truncate_cmd_def mount_cmd_def umount_cmd_def debugfs_cmd_def sysctl_cmd_def
    pvcreate_cmd_def pvremove_cmd_def pvs_cmd_def vgcreate_cmd_def vgs_cmd_def lvs_cmd_def firecracker_cmd_def
    kill_cmd_def vgchange_cmd_def noop_cmd_def bridge_cmd_def losetup_cmd_def Let_def
  by (intro over_rules; erule over_same [rotated]; simp split: option.splits)+

lemma over_iptables: "pres (lvs_over D) (iptables_cmd a)"
proof -
  have "pres (lvs_over D) (ipt_on t m)" for t m
    by (auto simp: pres_def ipt_on_def zoom_run lvs_over_def lv_map_def split: prod.splits)
  then show ?thesis unfolding iptables_cmd_def by (intro over_rules)
qed

lemma over_lvcreate: "pres (lvs_over D) (lvcreate_cmd a)"
  unfolding lvcreate_cmd_def add_lv_def Let_def
  by (intro over_rules over_update) (auto simp: over_update split: option.split)

lemma over_lvextend: "pres (lvs_over D) (lvextend_cmd a)"
  unfolding lvextend_cmd_def by (intro over_rules over_entry)

lemma over_handler: "handlers h = Some f \<Longrightarrow> h \<notin> removes \<Longrightarrow> pres (lvs_over D) (f argv)"
  by (auto simp: handlers_def removes_def over_ip over_plain over_iptables over_lvcreate over_lvextend split: if_splits)

lemma over_direct:
  assumes "\<not> is_netns_exec argv" "argv \<noteq> []" "hd argv \<notin> removes"
  shows "pres (lvs_over D) (fake_run argv)"
  using assms
  by (subst fake_run.simps) (auto intro!: over_rules dest: over_handler split: list.split)

text \<open>A harmless command never removes a logical volume from the simulator.\<close>

lemma over_harmless: "harmless argv \<Longrightarrow> pres (lvs_over D) (fake_run argv)"
proof (cases "is_netns_exec argv")
  case True
  assume "harmless argv"
  then have "pres (lvs_over D) (fake_run (drop 4 argv))" using True by (intro over_direct) (auto simp: harmless_def)
  then show ?thesis using True by (subst fake_run.simps) (auto intro!: over_rules)
next
  case False
  assume "harmless argv"
  then show ?thesis using False by (intro over_direct) (auto simp: harmless_def)
qed

section \<open>Calm predicates\<close>

locale calm =
  fixes P :: "'db world \<Rightarrow> bool"
  assumes same: "P w \<Longrightarrow> core v = core w \<Longrightarrow> P v"
    and cmd: "harmless argv \<Longrightarrow> pres P (run argv inp)"
    and root_gone: "pres P (lv_remove vg (rootfs_name i))"

named_theorems calm_rules \<open>code that keeps a calm predicate\<close>

lemmas [calm_rules] = pres_ret pres_raise pres_gets pres_of_sum pres_bnd pres_andThen pres_except pres_if pres_option
  pres_for_each pres_map_prog pres_prod

lemmas harmless_simps = harmless_def removes_def is_netns_exec_def

context calm
begin

lemma calm_core:
  assumes "keeps core m"
  shows "pres P m"
  using assms same by (auto simp: pres_def keeps_def)

lemma calm_priv [calm_rules]: "harmless argv \<Longrightarrow> pres P (priv argv)"
  unfolding priv_def by (intro calm_rules cmd)

lemma calm_modify [calm_rules]: "(\<And>w. core (f w) = core w) \<Longrightarrow> pres P (modify f)"
  by (intro calm_core keeps_modify)

lemma calm_atoms [calm_rules]:
  "pres P uuid4" "pres P now" "pres P (choice xs)" "pres P (environ k)"
  "pres P (write_text p t)" "pres P (symlink_to p t)" "pres P (unlink p)" "pres P (unlink_missing_ok p)"
  "pres P (mkdir_p p)" "pres P (rmtree p)" "pres P (load_report k o')" "pres P (setting e k)"
  by (rule calm_core; intro keeps_rules; simp)+

lemma calm_settings [calm_rules]:
  "pres P (str_setting e k d)" "pres P (int_setting e k i)" "pres P lvm" "pres P pubip" "pres P resolve"
  "pres P (volume_vg n)" "pres P cluster_domain" "pres P (find_repo_root q)" "pres P (firecracker_bin ps)"
  by (rule calm_core, intro keeps_rules)+

lemma calm_popen [calm_rules]: "pres P (popen argv)" "pres P (poll_alive pid)"
  by (rule calm_core; simp add: keeps_def popen_def poll_alive_def)+

lemma calm_reads [calm_rules]: "pres P (get t F)" "pres P (get_all t G)"
  by (rule calm_core; simp add: keeps_def get_def get_all_def)+

lemma calm_probe [calm_rules]: "pres P m \<Longrightarrow> pres P (probe m)"
  unfolding probe_def by (auto intro!: calm_rules split: exn.splits)

lemma calm_finally [calm_rules]: "pres P m \<Longrightarrow> pres P c \<Longrightarrow> pres P (finally_do m c)"
  unfolding pres_def finally_do_def by (auto split: prod.splits sum.splits)

lemma calm_exn [calm_rules]:
  "(\<And>m. e = OSError m \<Longrightarrow> pres P (f m)) \<Longrightarrow> (\<And>m. e \<noteq> OSError m \<Longrightarrow> pres P g) \<Longrightarrow>
   pres P (case e of OSError m \<Rightarrow> f m | _ \<Rightarrow> g)"
  "(\<And>m. e = PrivopsError m \<Longrightarrow> pres P (f' m)) \<Longrightarrow> (\<And>m. e \<noteq> PrivopsError m \<Longrightarrow> pres P g') \<Longrightarrow>
   pres P (case e of PrivopsError m \<Rightarrow> f' m | _ \<Rightarrow> g')"
  "(\<And>m. e = RqliteError m \<Longrightarrow> pres P (f'' m)) \<Longrightarrow> (\<And>m. e \<noteq> RqliteError m \<Longrightarrow> pres P g'') \<Longrightarrow>
   pres P (case e of RqliteError m \<Rightarrow> f'' m | _ \<Rightarrow> g'')"
  "(\<And>c m. e = HTTPException c m \<Longrightarrow> pres P (h c m)) \<Longrightarrow> (\<And>c m. e \<noteq> HTTPException c m \<Longrightarrow> pres P k) \<Longrightarrow>
   pres P (case e of HTTPException c m \<Rightarrow> h c m | _ \<Rightarrow> k)"
  by (cases e; simp)+

lemma calm_fnode [calm_rules]:
  "(\<And>t. x = Some (File t) \<Longrightarrow> pres P (f t)) \<Longrightarrow> pres P g \<Longrightarrow>
   pres P (case x of Some (File t) \<Rightarrow> f t | _ \<Rightarrow> g)"
  by (auto split: option.splits fnode.splits)

section \<open>The client keeps calm predicates\<close>

lemma calm_query [calm_rules]: "harmless argv \<Longrightarrow> pres P (query kind argv)"
  unfolding query_def by (intro calm_rules cmd)

lemma calm_lvs [calm_rules]: "pres P (list_lvs vg)" "pres P (lv_names vg)" "pres P (lv_exists vg n)"
  unfolding list_lvs_def lv_names_def lv_exists_def by (intro calm_rules; simp add: harmless_simps)+

lemma calm_lv [calm_rules]:
  "pres P (lv_extend vg n k)" "pres P (lv_create_thin vg p n k)"
  "pres P (lv_snapshot vg og n ro)" "pres P (lv_clone vg og n)" "pres P (format_ext4 dev)"
  unfolding lv_extend_def lv_create_thin_def lv_snapshot_def lv_clone_def format_ext4_def
  by (intro calm_rules; simp add: harmless_simps)+

lemma calm_volume [calm_rules]:
  "pres P (vol_create vg p n k)" "pres P (vol_from_snapshot vg s n)" "pres P (snap_create vg s n)"
  "pres P (snap_golden vg s g)"
  unfolding vol_create_def vol_from_snapshot_def snap_create_def snap_golden_def by (intro calm_rules)+

lemma calm_links [calm_rules]:
  "pres P (netns_create n)" "pres P (netns_delete n)" "pres P (veth_create_pair a b)" "pres P (veth_place_in_ns a b)"
  "pres P (veth_up a)" "pres P (veth_delete a)" "pres P (bridge_exists b)" "pres P (bridge_attach b v)"
  "pres P (tap_create ns n)" "pres P (ns_bridge_create ns n)" "pres P (ns_bridge_attach ns l n)" "pres P (vxlan_exists n)"
  unfolding netns_create_def netns_delete_def veth_create_pair_def veth_place_in_ns_def veth_up_def veth_delete_def
    bridge_exists_def bridge_attach_def tap_create_def ns_bridge_create_def ns_bridge_attach_def vxlan_exists_def
  by (intro calm_rules; simp add: harmless_simps)+

lemma calm_net [calm_rules]:
  "pres P (bridge_ensure b h m)" "pres P (ensure_chain t c)" "pres P (ensure_rule t c a)"
  "pres P (vxlan_ensure n v l b)" "pres P (fdb_peers n)" "pres P (set_fdb n ps)"
  unfolding bridge_ensure_def ensure_chain_def chain_exists_def ensure_rule_def rule_exists_def vxlan_ensure_def
    fdb_peers_def set_fdb_def
  by (intro calm_rules cmd; simp add: harmless_simps)+

lemma calm_nat [calm_rules]: "pres P (nat_ensure c)"
  unfolding nat_ensure_def by (intro calm_rules; simp add: harmless_simps)

lemma calm_env [calm_rules]:
  "pres P (symlink t s)" "pres P (env_setup vms i a vg og)" "pres P (attach_run d p)" "pres P (env_teardown d vg)"
  "pres P (list_dirs vms)"
  unfolding symlink_def env_setup_def attach_run_def env_teardown_def list_dirs_def env_list_dirs_def Let_def
  by (intro calm_rules root_gone; simp)+

lemma calm_inject [calm_rules]: "pres P (inject_run root k dns data p)"
  unfolding inject_run_def with_tmp_def inject_lines_def inject_ssh_def inject_resolv_def inject_fstab_def
    inject_home_mount_def inject_pubip_def Let_def
  by (intro calm_rules; simp add: harmless_simps)

lemma calm_wait [calm_rules]: "pres P (wait_gone n pid)"
proof (induction n)
  case 0
  show ?case unfolding wait_gone.simps by (intro calm_rules)
next
  case (Suc n)
  then show ?case unfolding wait_gone.simps by (intro calm_rules)
qed

lemma calm_proc [calm_rules]:
  "pres P (config_build root cfg)" "pres P (create_run root i ns bin)" "pres P (boot_run root)" "pres P (sock_cleanup root)"
  "pres P (read_text p)" "pres P (read_pid root)" "pres P (open_append p)"
  unfolding config_build_def create_run_def create_real_def create_fake_def boot_run_def sock_cleanup_def read_text_def
    read_pid_def open_append_def
  by (intro calm_rules; simp add: harmless_simps)+

lemma calm_life [calm_rules]: "pres P (terminate pid)" "pres P (status_run root)" "pres P (guest_run ip key sc)"
  unfolding terminate_def status_run_def real_status_def fake_status_def guest_run_def guest_SSH_def
  by (intro calm_rules cmd; simp add: harmless_simps)+

lemma calm_kill [calm_rules]: "pres P (kill_run root)"
  unfolding kill_run_def by (intro calm_rules)

lemma calm_vm [calm_rules]:
  "pres P (vm_up spec)" "pres P (vm_down vms i vg)" "pres P (vm_stop vms i)" "pres P (vm_start vms i ns bin)"
  unfolding vm_up_def vm_network_def overlay_up_def wire_veth_def wire_tap_def wire_public_def vm_spawn_def
    vm_down_def network_down_def safe_def vm_stop_def vm_start_def Let_def
  by (intro calm_rules)+

text \<open>A root clone is the only volume the pruning of clones removes.\<close>

lemma calm_prune [calm_rules]: "pres P (prune_rootfs_lvs vg ex)"
proof -
  have "pres P (lv_remove vg name)" if "startswith name ROOTFS" for name
    using that root_gone [of vg "drop (length ROOTFS) name"] by (auto simp: startswith_iff rootfs_name_def)
  then show ?thesis unfolding prune_rootfs_lvs_def by (intro calm_rules) simp
qed

lemma calm_misc [calm_rules]:
  "pres P ttl_minutes" "pres P (sync_vpc n pl v)" "pres P (with_status row)"
  "pres P (push_setup ip key)" "pres P (push_reload ip key t)" "pres P (resolve_fqdn body)" "pres P (row_of b n ip)"
  "pres P (spawn_row sb n v ip vol)"
  unfolding ttl_minutes_def sync_vpc_def with_status_def push_setup_def push_reload_def resolve_fqdn_def row_of_def
    spawn_row_def Let_def
  by (intro calm_rules)+

end

section \<open>Calm predicates of a node\<close>

text \<open>A predicate that the other nodes' answers keep too.\<close>

locale calm_asks = calm P for P :: "'db world \<Rightarrow> bool" +
  fixes C :: "'db client"
  assumes asks: "pres P (http rq)"
begin

lemma calm_forward [calm_rules]: "pres P (forward C n meth path body hs)" "pres P (forwarded C n meth path body hs)"
  unfolding forward_def base_url_def forwarded_def by (intro calm_rules asks)+

lemma calm_small [calm_rules]: "pres P m \<Longrightarrow> pres P (locally m)" "pres P (or_404 s x)"
  unfolding locally_def or_404_def by (intro calm_rules; assumption)+

end

locale calm_node = calm_asks P C for P :: "'db world \<Rightarrow> bool" and C +
  fixes me :: string
  assumes inserts: "pres P (insert_row (c_vpcs C) vp)" "pres P (insert_row (c_vms C) vm)" "pres P (insert_row (c_pubips C) pi)"
      "pres P (insert_row (c_domains C) dm)" "pres P (insert_row (c_tasks C) tk)" "pres P (insert_row (c_proxies C) px)"
    and updates: "pres P (update_rows (c_vms C) Fv gv)" "pres P (update_rows (c_proxies C) Fp gp)" "pres P (update_rows (c_tasks C) Ft gt)"
    and deletes: "pres P (delete_rows (c_vpcs C) D1)" "pres P (delete_rows (c_vms C) D2)" "pres P (delete_rows (c_pubips C) D3)"
      "pres P (delete_rows (c_domains C) D4)" "pres P (delete_rows (c_proxies C) D5)"
    and makes: "pres P (create_volume_local C vb me)" "pres P (auto_volume C sb me)"
      "pres P (create_snapshot C me nb)" "pres P (create_image C me ib)"
    and resizes: "pres P (resize_volume C me i rb)"
    and drops: "pres P (delete_volume C me i)" "pres P (delete_snapshot C me i)" "pres P (delete_image C me i)"
    and sweeps: "pres P (volumes_pass C me)" "pres P (snapshots_pass C me)"
begin

lemmas [calm_rules] = inserts updates deletes asks makes resizes drops sweeps

lemma calm_lookups [calm_rules]:
  "pres P (vpc_or_400 C i)" "pres P (volume_path C k)" "pres P (used_ips C v)" "pres P (image_or_400 C j)"
  "pres P (node_addresses C n)" "pres P (same_node_or_409 img n)" "pres P (resolve_root_image C sb n)"
  "pres P (random_node C)" "pres P (target_node C sb)" "pres P (node_with_free_ip C n)"
  unfolding vpc_or_400_def volume_path_def used_ips_def image_or_400_def node_addresses_def same_node_or_409_def
    resolve_root_image_def random_node_def target_node_def node_with_free_ip_def Let_def
  by (intro calm_rules; auto intro!: calm_rules split: list.splits)+

lemma calm_validate [calm_rules]: "pres P (validate_cidr c)"
  by (rule calm_core) (simp add: keeps_def validate_cidr_def split: sum.splits exn.splits)

lemma calm_vpcs [calm_rules]:
  "pres P (list_vpcs C)" "pres P (create_vpc C b)" "pres P (get_vpc C i)" "pres P (delete_vpc C i)"
  unfolding list_vpcs_def create_vpc_def get_vpc_def delete_vpc_def Let_def by (intro calm_rules)+

lemma calm_gets [calm_rules]:
  "pres P (list_volumes C)" "pres P (get_volume C i)" "pres P (list_snapshots C)" "pres P (get_snapshot C i)"
  "pres P (list_images C)" "pres P (get_image C i)" "pres P (list_tasks C)" "pres P (get_task C i)"
  "pres P (list_domains C)" "pres P (list_public_ips C)"
  unfolding list_volumes_def get_volume_def list_snapshots_def get_snapshot_def get_or_404_def list_images_def
    get_image_def list_tasks_def get_task_def list_domains_def list_public_ips_def
  by (intro calm_rules)+

lemma calm_create_volume [calm_rules]: "pres P (create_volume C me b)"
  unfolding create_volume_def Let_def by (rule pres_if; intro calm_rules) (simp add: calm_small makes)

lemma calm_tasks [calm_rules]:
  "pres P (create_task C i tb)" "pres P (insert_task C v n ty ps)" "pres P (create_domain C db)" "pres P (delete_domain C i)"
  unfolding create_task_def insert_task_def create_domain_def delete_domain_def enqueue_reload_def Let_def
  by (intro calm_rules)+

lemma calm_default [calm_rules]: "pres P (ensure_default_vpc C)" "pres P (teardown_deps C i)"
  unfolding ensure_default_vpc_def teardown_deps_def deps_public_ip_def Let_def by (intro calm_rules)+

lemma calm_bring_up [calm_rules]: "pres P (bring_up C row c v k og)" "pres P (recreate_vm C i)"
  unfolding recreate_vm_def bring_up_def spec_of_def node_host_def peer_hosts_def by (intro calm_rules)+

lemma calm_new_vms [calm_rules]:
  "pres P (create_vm C me b)" "(\<And>i. pres P (hook i)) \<Longrightarrow> pres P (spawn_local C sb me hook)" "pres P (spawn_vm C me sb pin)"
  unfolding create_vm_def create_vm_local_def spawn_vm_def spawn_local_def Let_def by (intro calm_rules; assumption?)+

lemma calm_vm_ops [calm_rules]:
  "pres P (get_vm C me i)" "pres P (delete_vm C me i)" "pres P (stop_vm C me i)" "pres P (start_vm C me i)"
  "pres P (reboot_vm C me i)"
  unfolding get_vm_def delete_vm_def delete_vm_local_def stop_vm_def start_vm_def reboot_vm_def on_owner_def
    owner_or_404_def stop_local_def start_local_def set_status_def
  by (intro calm_rules)+

lemma calm_remote:
  "(\<And>xs. pres P (f xs)) \<Longrightarrow> pres P m \<Longrightarrow> pres P g \<Longrightarrow> pres P (case j of JList xs \<Rightarrow> f xs | JObj [] \<Rightarrow> m | _ \<Rightarrow> g)"
  by (auto split: json.splits list.splits)

lemma calm_lists [calm_rules]: "pres P (list_vms C me lo)"
  unfolding list_vms_def merge_remote_status_def ask_owner_def Let_def by (intro calm_rules calm_remote)

lemma calm_addresses [calm_rules]: "pres P (attach_public_ip C me i)" "pres P (detach_public_ip C me i)"
  unfolding attach_public_ip_def attach_local_def detach_public_ip_def detach_local_def vm_or_404_def Let_def
  by (intro calm_rules)+

lemma calm_proxies [calm_rules]: "pres P (get_proxy C)" "pres P (create_proxy C me b)"
  unfolding get_proxy_def create_proxy_def create_proxy_local_def proxy_task_row_def Let_def by (intro calm_rules)+

lemma calm_passes [calm_rules]: "pres P (ttl_pass C n)" "pres P (vms_pass C n)" "pres P (overlay_pass C n)"
  unfolding ttl_pass_def reap_def vms_pass_def overlay_pass_def local_vpcs_def node_host_def peer_hosts_def Let_def
  by (intro calm_rules)+

lemma calm_once [calm_rules]: "pres P (pass_once C me)" "pres P (reconcile_now C me)"
  unfolding reconcile_now_def pass_once_def by (intro calm_rules)+

lemma calm_tick [calm_rules]: "pres P (tick C n)"
proof -
  have "pres P (run_task C task n)" for task
    unfolding run_task_def dispatch_def run_setup_def run_reload_def vm_or_fail_def build_routes_def finish_def
    by (intro calm_rules)
  moreover have "pres P (claim C d)" for d unfolding claim_def by (intro calm_rules)
  ultimately have "pres P (tick_loop C n ds)" for ds
    by (induction ds) (simp_all add: calm_rules)
  then show ?thesis unfolding tick_def by (intro calm_rules)
qed

text \<open>Whatever a node serves keeps the predicate.\<close>

lemma calm_serve: "pres P (serve C me rq)"
  by (cases rq; simp only: serve.simps no_reply_def; intro calm_rules)

end

section \<open>Steps\<close>

text \<open>From \<open>A\<close>, a program ends with \<open>Q\<close> of its result, or raises and leaves the invariant \<open>J\<close>.\<close>

definition tri :: "('s \<Rightarrow> bool) \<Rightarrow> ('s \<Rightarrow> bool) \<Rightarrow> ('s, 'a) prog \<Rightarrow> ('a \<Rightarrow> 's \<Rightarrow> bool) \<Rightarrow> bool" where
  "tri J A m Q \<longleftrightarrow> (\<forall>w. A w \<longrightarrow> (case m w of (Inl e, v) \<Rightarrow> J v | (Inr x, v) \<Rightarrow> Q x v))"

lemma tri_Inl: "tri J A m Q \<Longrightarrow> A w \<Longrightarrow> m w = (Inl e, v) \<Longrightarrow> J v"
  unfolding tri_def by (drule spec, drule (1) mp) simp

lemma tri_Inr: "tri J A m Q \<Longrightarrow> A w \<Longrightarrow> m w = (Inr x, v) \<Longrightarrow> Q x v"
  unfolding tri_def by (drule spec, drule (1) mp) simp

lemma triI:
  "(\<And>w e v. A w \<Longrightarrow> m w = (Inl e, v) \<Longrightarrow> J v) \<Longrightarrow> (\<And>w x v. A w \<Longrightarrow> m w = (Inr x, v) \<Longrightarrow> Q x v) \<Longrightarrow> tri J A m Q"
  unfolding tri_def by (auto split: prod.split sum.split)

lemma tri_bnd:
  assumes "tri J A m B" "\<And>x. tri J (B x) (f x) Q"
  shows "tri J A (bnd m f) Q"
proof (rule triI)
  show "J v" if w: "A w" and run: "bnd m f w = (Inl e, v)" for w e v
  proof (cases "m w")
    case (Pair r u)
    show ?thesis
    proof (cases r)
      case (Inl x)
      then have "m w = (Inl e, v)" using run Pair by (simp add: bnd_run)
      then show ?thesis by (rule tri_Inl [OF assms(1) w])
    next
      case (Inr x)
      then have "B x u" "f x u = (Inl e, v)" using run Pair tri_Inr [OF assms(1) w] by (simp_all add: bnd_run)
      then show ?thesis by (rule tri_Inl [OF assms(2)])
    qed
  qed
  show "Q y v" if w: "A w" and run: "bnd m f w = (Inr y, v)" for w y v
  proof (cases "m w")
    case (Pair r u)
    then obtain x where r: "r = Inr x" "f x u = (Inr y, v)" using run by (cases r) (simp_all add: bnd_run)
    then have "B x u" using Pair tri_Inr [OF assms(1) w] by simp
    then show ?thesis using r(2) by (rule tri_Inr [OF assms(2)])
  qed
qed

lemma tri_andThen: "tri J A m (\<lambda>_. B) \<Longrightarrow> tri J B n Q \<Longrightarrow> tri J A (andThen m n) Q"
  unfolding andThen_def by (rule tri_bnd)

lemma tri_pres:
  assumes "pres A m" "\<And>w. A w \<Longrightarrow> J w"
  shows "tri J A m (\<lambda>_. A)"
  unfolding tri_def
proof (intro allI impI)
  fix w assume "A w"
  then have "A (snd (m w))" using assms(1) by (simp add: pres_def)
  with assms(2) show "case m w of (Inl e, v) \<Rightarrow> J v | (Inr x, v) \<Rightarrow> A v"
    by (cases "m w") (auto split: sum.split)
qed

lemma tri_keeps:
  assumes "pres J m" "\<And>w. A w \<Longrightarrow> J w"
  shows "tri J A m (\<lambda>_. J)"
proof (rule triI)
  have J: "J (snd (m w))" if "A w" for w using assms that by (simp add: pres_def)
  show "J v" if "A w" "m w = (Inl e, v)" for w e v using J [OF that(1)] that(2) by simp
  show "J v" if "A w" "m w = (Inr x, v)" for w x v using J [OF that(1)] that(2) by simp
qed

lemma tri_weaken:
  assumes "tri J A m Q" "\<And>w. A' w \<Longrightarrow> A w" "\<And>x w. Q x w \<Longrightarrow> Q' x w"
  shows "tri J A' m Q'"
proof (rule triI)
  show "J v" if "A' w" "m w = (Inl e, v)" for w e v by (rule tri_Inl [OF assms(1) assms(2) [OF that(1)] that(2)])
  show "Q' x v" if "A' w" "m w = (Inr x, v)" for w x v
    by (rule assms(3) [OF tri_Inr [OF assms(1) assms(2) [OF that(1)] that(2)]])
qed

lemma tri_ret: "(\<And>w. A w \<Longrightarrow> Q x w) \<Longrightarrow> tri J A (ret x) Q"
  by (simp add: tri_def)

lemma tri_raise: "(\<And>w. A w \<Longrightarrow> J w) \<Longrightarrow> tri J A (raise e) Q"
  by (simp add: tri_def)

lemma tri_pure:
  assumes "\<And>w. A w \<Longrightarrow> b" "b \<Longrightarrow> tri J A m Q"
  shows "tri J A m Q"
proof (rule triI)
  show "J v" if "A w" "m w = (Inl e, v)" for w e v by (rule tri_Inl [OF assms(2) [OF assms(1) [OF that(1)]] that])
  show "Q x v" if "A w" "m w = (Inr x, v)" for w x v by (rule tri_Inr [OF assms(2) [OF assms(1) [OF that(1)]] that])
qed

lemma pres_tri:
  assumes "tri J J m (\<lambda>_. J)"
  shows "pres J m"
  unfolding pres_def
proof (intro allI impI)
  fix w assume w: "J w"
  obtain r v where m: "m w = (r, v)" by fastforce
  then have "J v" by (cases r) (use tri_Inl [OF assms w] tri_Inr [OF assms w] in simp_all)
  then show "J (snd (m w))" using m by simp
qed

lemma tri_same:
  assumes "\<And>w. snd (m w) = w" "\<And>w. A w \<Longrightarrow> J w"
  shows "tri J A m (\<lambda>x w. A w \<and> fst (m w) = Inr x)"
proof (rule triI)
  show "J v" if "A w" "m w = (Inl e, v)" for w e v using assms(1) [of w] assms(2) [OF that(1)] that(2) by simp
  show "A v \<and> fst (m v) = Inr x" if "A w" "m w = (Inr x, v)" for w x v using assms(1) [of w] that by auto
qed

lemma tri_J: "tri J J m (\<lambda>_. J) \<Longrightarrow> (\<And>w. A w \<Longrightarrow> J w) \<Longrightarrow> tri J A m (\<lambda>_. J)"
  by (rule tri_weaken)

lemma tri_get: "tri J J (bnd (get t P) (or_404 s)) (\<lambda>r w. J w \<and> d_get t P (w_db w) = Some r)"
  by (rule triI; simp add: bnd_run get_def or_404_def split: option.splits)

lemma tri_still:
  assumes "keeps (\<lambda>w. w) m" "\<And>w. A w \<Longrightarrow> J w"
  shows "tri J A m (\<lambda>_. A)"
  by (rule tri_pres [OF _ assms(2)]) (use assms(1) in \<open>simp add: pres_def keeps_def\<close>)

end
