(* ===== verification/HostInvariant.thy ===== *)
theory HostInvariant
  imports HostLogic RouterProps
begin

text \<open>
  The agreement of the database with a node's storage: every row of a volume, snapshot or image of the
  node has its logical volume on the node's host. It is kept by whatever the node serves, errors
  included, because each handler makes the volume before its row and drops it only with its row, and
  because the reconciler and the removal of VMs remove no volume that has a row.
\<close>

section \<open>The agreement\<close>

definition rows_hosted :: "string \<Rightarrow> string \<Rightarrow> tables \<Rightarrow> fstate \<Rightarrow> bool" where
  "rows_hosted me vg t s \<longleftrightarrow>
     (\<forall>r \<in> set (t_volumes t). vo_node r = me \<longrightarrow> lv_map s (vg, data_name (vo_id r)) \<noteq> None) \<and>
     (\<forall>r \<in> set (t_snapshots t). sn_node r = me \<longrightarrow> lv_map s (vg, sn_lv r) \<noteq> None)"

text \<open>A snapshot's or image's volume is named after its id.\<close>

definition lvs_named :: "string \<Rightarrow> tables \<Rightarrow> bool" where
  "lvs_named me t \<longleftrightarrow>
     (\<forall>r \<in> set (t_snapshots t). sn_node r = me \<longrightarrow> sn_lv r = snap_name (sn_id r) \<or> sn_lv r = gold_name (sn_id r))"

text \<open>Other nodes make no row for a volume of this one.\<close>

definition peers_apart :: "('db \<Rightarrow> tables) \<Rightarrow> string \<Rightarrow> 'db world \<Rightarrow> bool" where
  "peers_apart view me w \<longleftrightarrow> (\<forall>rq d. let t = view d; t' = view (snd (w_http w rq d)) in
     {r \<in> set (t_volumes t'). vo_node r = me} \<subseteq> set (t_volumes t) \<and>
     {r \<in> set (t_snapshots t'). sn_node r = me} \<subseteq> set (t_snapshots t))"

definition node_sound :: "('db \<Rightarrow> tables) \<Rightarrow> string \<Rightarrow> 'db world \<Rightarrow> bool" where
  "node_sound view me w \<longleftrightarrow> on_fake w \<and> settings_ok w \<and> noslash (vg_of w me) \<and> (\<forall>k. noslash (w_uuid w k)) \<and>
     peers_apart view me w"

definition host_inv :: "('db \<Rightarrow> tables) \<Rightarrow> string \<Rightarrow> 'db world \<Rightarrow> bool" where
  "host_inv view me w \<longleftrightarrow> node_sound view me w \<and> lvs_named me (view (w_db w)) \<and>
     rows_hosted me (vg_of w me) (view (w_db w)) (w_fake w)"

lemmas agree_defs = rows_hosted_def lvs_named_def

lemma node_sound_core:
  assumes "core v = core w"
  shows "node_sound view me v = node_sound view me w" "vg_of v n = vg_of w n"
proof -
  have c: "w_env v = w_env w" "w_toml v = w_toml w" "w_cwd v = w_cwd w" "w_uuid v = w_uuid w" "w_http v = w_http w"
    using assms by (simp_all add: core_def)
  then have s: "same_conf v w" by (simp add: same_conf_def)
  show "vg_of v n = vg_of w n" by (rule vg_of_same [OF s])
  show "node_sound view me v = node_sound view me w"
    using c vg_of_same [OF s] settings_ok_same [OF s]
    by (simp add: node_sound_def peers_apart_def on_fake_def backend_def)
qed

lemma node_sound_upd [simp]:
  "node_sound view me (w\<lparr>w_fake := s\<rparr>) = node_sound view me w" "node_sound view me (w\<lparr>w_db := d\<rparr>) = node_sound view me w"
  by (simp_all add: node_sound_def peers_apart_def)

text \<open>Growing tables of logical volumes and shrinking tables of rows keep the agreement.\<close>

lemma rows_hosted_mono:
  assumes "rows_hosted me vg t s"
    and "{r \<in> set (t_volumes t'). vo_node r = me} \<subseteq> set (t_volumes t)"
    and "{r \<in> set (t_snapshots t'). sn_node r = me} \<subseteq> set (t_snapshots t)"
    and "\<And>r. r \<in> set (t_volumes t') \<Longrightarrow> vo_node r = me \<Longrightarrow> lv_map s (vg, data_name (vo_id r)) \<noteq> None \<Longrightarrow>
      lv_map s' (vg, data_name (vo_id r)) \<noteq> None"
    and "\<And>r. r \<in> set (t_snapshots t') \<Longrightarrow> sn_node r = me \<Longrightarrow> lv_map s (vg, sn_lv r) \<noteq> None \<Longrightarrow> lv_map s' (vg, sn_lv r) \<noteq> None"
  shows "rows_hosted me vg t' s'"
  using assms unfolding rows_hosted_def by blast

lemma lvs_named_mono:
  "lvs_named me t \<Longrightarrow> {r \<in> set (t_snapshots t'). sn_node r = me} \<subseteq> set (t_snapshots t) \<Longrightarrow> lvs_named me t'"
  unfolding lvs_named_def by blast

section \<open>Making and removing a volume\<close>

lemma split_on_one: "split_on c s = [x] \<Longrightarrow> s = x \<and> c \<notin> set s"
proof (cases "c \<in> set s")
  case True
  then obtain a t where "s = a @ c # t" "c \<notin> set a" by (meson split_list_first)
  moreover assume "split_on c s = [x]"
  ultimately show ?thesis by (simp add: split_on_append)
qed (simp add: split_on_free)

lemma split2_Inr:
  assumes "split2 s = Inr (a, b)"
  shows "s = a @ ''/'' @ b \<and> noslash a \<and> noslash b"
proof -
  have s: "split_on (CHR ''/'') s = [a, b]"
    using assms by (auto simp: split2_def split: list.splits)
  then have "CHR ''/'' \<in> set s" using split_on_free [of "CHR ''/''" s] by auto
  then obtain x t where x: "s = x @ CHR ''/'' # t" "CHR ''/'' \<notin> set x" by (meson split_list_first)
  then have "x = a" "split_on (CHR ''/'') t = [b]" using s by (simp_all add: split_on_append)
  with x split_on_one [OF this(2)] show ?thesis unfolding noslash_def by auto
qed

lemma split2_volume:
  assumes "split2 (vg @ ''/'' @ n) = Inr p"
  shows "p = (vg, n) \<and> noslash vg \<and> noslash n"
proof -
  obtain a b where p: "p = (a, b)" by fastforce
  then have eq: "vg @ CHR ''/'' # n = a @ CHR ''/'' # b" and free: "noslash a" "noslash b"
    using split2_Inr [of "vg @ ''/'' @ n" a b] assms by simp_all
  have "noslash vg"
  proof (rule ccontr)
    assume "\<not> noslash vg"
    then obtain x t where x: "vg = x @ CHR ''/'' # t" "CHR ''/'' \<notin> set x"
      unfolding noslash_def by (meson split_list_first)
    then have "split_on (CHR ''/'') (vg @ CHR ''/'' # n) = x # split_on (CHR ''/'') (t @ CHR ''/'' # n)"
      by (simp add: split_on_append)
    then have "split_on (CHR ''/'') (t @ CHR ''/'' # n) = [b]"
      using assms p by (auto simp: split2_def split: list.splits)
    then show False using split_on_one [of "CHR ''/''" "t @ CHR ''/'' # n" b] by auto
  qed
  then have "split_on (CHR ''/'') (vg @ CHR ''/'' # n) = vg # split_on (CHR ''/'') n"
    by (intro split_on_append) (simp add: noslash_def)
  then have "a = vg" using split_on_append [of "CHR ''/''" a b] eq free by (simp add: noslash_def)
  then show ?thesis using eq p free \<open>noslash vg\<close> by simp
qed

text \<open>A removal leaves every volume but the one named, and all of them when it fails.\<close>

lemma lvremove_run:
  "snd (fake_run [''lvremove'', ''-f'', vg @ ''/'' @ name] s) = s \<or>
   fst (fake_run [''lvremove'', ''-f'', vg @ ''/'' @ name] s) = Inr (Text []) \<and>
   lv_map (snd (fake_run [''lvremove'', ''-f'', vg @ ''/'' @ name] s)) = (lv_map s)((vg, name) := None)"
  using split2_volume [of vg name]
  by (cases "split2 (vg @ ''/'' @ name)")
     (auto simp: fake_run_head handlers_def lvremove_cmd_def bnd_run lv_map_def delete_conv')

lemma lv_remove_only:
  assumes "on_fake w"
  shows "\<exists>s. snd (lv_remove vg name w) = w\<lparr>w_fake := s\<rparr> \<and> (\<forall>k. k \<noteq> (vg, name) \<longrightarrow> lv_map s k = lv_map (w_fake w) k) \<and>
    (isl (fst (lv_remove vg name w)) \<longrightarrow> lv_map s = lv_map (w_fake w))"
proof (cases "name \<in> lv_here vg (w_fake w)")
  case False
  then show ?thesis
    by (intro exI [of _ "w_fake w"]) (simp add: lv_remove_def bnd_run lv_exists_fake assms(1))
next
  case True
  let ?argv = "[''lvremove'', ''-f'', vg @ ''/'' @ name]"
  have r: "lv_remove vg name w = priv ?argv w"
    using True by (simp add: lv_remove_def bnd_run lv_exists_fake assms(1))
  have s: "snd (priv ?argv w) = w\<lparr>w_fake := snd (fake_run ?argv (w_fake w))\<rparr>"
    "isl (fst (priv ?argv w)) = isl (fst (fake_run ?argv (w_fake w)))"
    by (simp_all add: priv_def andThen_run run_fake assms(1) split: prod.splits sum.splits)
  show ?thesis
    unfolding r s using lvremove_run [of vg name "w_fake w"]
    by (intro exI [of _ "snd (fake_run ?argv (w_fake w))"]) auto
qed

text \<open>A creation that succeeds has made the volume.\<close>

lemma priv_fake_Inr:
  assumes "on_fake w" "priv argv w = (Inr u, v)"
  shows "\<exists>x. fake_run argv (w_fake w) = (Inr x, w_fake v) \<and> v = w\<lparr>w_fake := w_fake v\<rparr>"
  using assms by (auto simp: priv_def andThen_run run_fake split: prod.splits sum.splits)

lemma thin_made:
  assumes "on_fake w" "lv_name_ok name" "lv_create_thin vg pool name n w = (Inr x, v)"
  shows "lv_map (w_fake v) (vg, name) \<noteq> None"
proof -
  let ?argv = "[''lvcreate'', ''-T'', vg @ ''/'' @ pool, ''-V'', str_int n @ ''m'', ''-n'', name]"
  have run: "priv ?argv w = (Inr (), v)"
    using assms(3) by (auto simp: lv_create_thin_def andThen_run split: prod.splits sum.splits)
  from priv_fake_Inr [OF assms(1) run] obtain y where y: "fake_run ?argv (w_fake w) = (Inr y, w_fake v)" "v = w\<lparr>w_fake := w_fake v\<rparr>"
    by blast
  have "\<exists>p. split2 (vg @ ''/'' @ pool) = Inr p"
    using y(1) lv_name_okD [OF assms(2)] slash_neq [of "''-n''" vg pool] slash_neq [of "''-s''" vg pool]
      slash_neq [of "''thin-pool''" vg pool]
    by (cases "split2 (vg @ ''/'' @ pool)") (auto simp: fake_run_head handlers_def lvcreate_cmd_def bnd_run arg_def)
  then have "noslash vg" "noslash pool" using split2_volume by blast+
  then have "w_fake v = lv_put (vg, name) \<lparr>lv_size = n, lv_pool = Some pool, lv_origin = None, lv_attr = ''Vwi-a-tz--''\<rparr> (w_fake w)"
    using y(1) fake_lvcreate_thin [OF _ _ assms(2)] by simp
  with y(2) show ?thesis by (metis fun_upd_same lv_map_put option.distinct(1))
qed

lemma snap_made:
  assumes "on_fake w" "lv_name_ok name" "lv_snapshot vg o' name ro w = (Inr x, v)"
  shows "lv_map (w_fake v) (vg, name) \<noteq> None"
proof -
  let ?argv = "[''lvcreate'', ''-s'', ''-kn'', ''-n'', name, vg @ ''/'' @ o'] @ (if ro then [''--permission'', ''r''] else [])"
  have run: "priv ?argv w = (Inr (), v)"
    using assms(3) by (auto simp: lv_snapshot_def andThen_run split: prod.splits sum.splits)
  from priv_fake_Inr [OF assms(1) run] obtain y where y: "fake_run ?argv (w_fake w) = (Inr y, w_fake v)" "v = w\<lparr>w_fake := w_fake v\<rparr>"
    by blast
  have "\<exists>p. split2 (vg @ ''/'' @ o') = Inr p"
    using y(1) lv_name_okD [OF assms(2)] slash_neq [of "''-n''" vg o'] slash_neq [of "''-s''" vg o']
      slash_neq [of "''thin-pool''" vg o'] find_slash [of name vg o']
    by (cases "split2 (vg @ ''/'' @ o')")
       (auto simp: fake_run_head handlers_def lvcreate_cmd_def bnd_run arg_def simp del: find.simps split: if_splits)
  then have "noslash vg" "noslash o'" using split2_volume by blast+
  then have "w_fake v = lv_put (vg, name) (thin_of (lv_map (w_fake w) (vg, o')) o' ro) (w_fake w)"
    using y(1) fake_lvcreate_snap [OF _ _ assms(2)] by (cases ro) simp_all
  with y(2) show ?thesis by (metis fun_upd_same lv_map_put option.distinct(1))
qed

lemma clone_made:
  assumes "on_fake w" "lv_name_ok name" "lv_clone vg o' name w = (Inr x, v)"
  shows "lv_map (w_fake v) (vg, name) \<noteq> None"
  using snap_made [of w name vg o' False x v] assms by (simp add: lv_snapshot_def lv_clone_def)

section \<open>The agreement is calm\<close>

text \<open>The agreement in the volume group \<open>vg\<close>, with more volumes that are there.\<close>

definition hosting :: "('db \<Rightarrow> tables) \<Rightarrow> string \<Rightarrow> string \<Rightarrow> string set \<Rightarrow> 'db world \<Rightarrow> bool" where
  "hosting view me vg N w \<longleftrightarrow> host_inv view me w \<and> vg_of w me = vg \<and> (\<forall>n \<in> N. lv_map (w_fake w) (vg, n) \<noteq> None)"

definition not_root :: "string set \<Rightarrow> bool" where
  "not_root N \<longleftrightarrow> (\<forall>n \<in> N. \<forall>i. n \<noteq> rootfs_name i)"

lemma not_root_simps [simp]: "not_root {}" "not_root {data_name i}" "not_root {snap_name i}" "not_root {gold_name i}"
  by (simp_all add: not_root_def)

text \<open>Every volume the agreement speaks of survives a change of the table that loses only root clones.\<close>

lemma hosting_fake:
  assumes "hosting view me vg N w" "not_root N"
    and "\<And>k. lv_map (w_fake w) k \<noteq> None \<Longrightarrow> (\<forall>i. snd k \<noteq> rootfs_name i) \<Longrightarrow> lv_map s k \<noteq> None"
  shows "hosting view me vg N (w\<lparr>w_fake := s\<rparr>)"
proof -
  have named: "\<forall>i. sn_lv r \<noteq> rootfs_name i" if "r \<in> set (t_snapshots (view (w_db w)))" "sn_node r = me" for r
    using assms(1) that by (auto simp: hosting_def host_inv_def lvs_named_def)
  have h: "rows_hosted me vg (view (w_db w)) (w_fake w)" using assms(1) by (auto simp: hosting_def host_inv_def)
  have "rows_hosted me vg (view (w_db w)) s"
    unfolding rows_hosted_def
  proof (intro conjI ballI impI)
    show "lv_map s (vg, data_name (vo_id r)) \<noteq> None" if "r \<in> set (t_volumes (view (w_db w)))" "vo_node r = me" for r
      by (rule assms(3)) (use h that in \<open>simp_all add: rows_hosted_def\<close>)
    show "lv_map s (vg, sn_lv r) \<noteq> None" if "r \<in> set (t_snapshots (view (w_db w)))" "sn_node r = me" for r
      by (rule assms(3)) (use h that named [OF that] in \<open>simp_all add: rows_hosted_def\<close>)
  qed
  moreover have "\<forall>n \<in> N. lv_map s (vg, n) \<noteq> None"
  proof
    fix n assume "n \<in> N"
    then show "lv_map s (vg, n) \<noteq> None"
      by (intro assms(3)) (use assms(1,2) in \<open>simp_all add: hosting_def not_root_def\<close>)
  qed
  ultimately show ?thesis
    using assms(1) by (simp add: hosting_def host_inv_def)
qed

lemma hosting_core: "core v = core w \<Longrightarrow> hosting view me vg N w \<Longrightarrow> hosting view me vg N v"
  using node_sound_core [of v w] by (auto simp: hosting_def host_inv_def core_def agree_defs lv_map_def)

lemma hosting_on_fake: "hosting view me vg N w \<Longrightarrow> on_fake w"
  by (simp add: hosting_def host_inv_def node_sound_def)

lemma calm_hosting: "not_root N \<Longrightarrow> calm (hosting view me vg N)"
proof
  show "hosting view me vg N v" if "hosting view me vg N w" "core v = core w" for v w
    using hosting_core that by blast
  assume N: "not_root N"
  show "pres (hosting view me vg N) (run argv inp)" if h: "harmless argv" for argv inp
    unfolding pres_def
  proof (intro allI impI)
    fix w :: "'a world" assume w: "hosting view me vg N w"
    have "snd (run argv inp w) = w\<lparr>w_fake := snd (fake_run argv (w_fake w))\<rparr>"
      by (simp add: run_fake [OF hosting_on_fake [OF w]] Let_def split: prod.splits)
    moreover have "dom (lv_map (w_fake w)) \<subseteq> dom (lv_map (snd (fake_run argv (w_fake w))))"
      using over_harmless [OF h, of "dom (lv_map (w_fake w))"] by (simp add: pres_def lvs_over_def)
    ultimately show "hosting view me vg N (snd (run argv inp w))"
      using hosting_fake [OF w N, of "snd (fake_run argv (w_fake w))"] by auto
  qed
  show "pres (hosting view me vg N) (lv_remove vg' (rootfs_name i))" for vg' i
    unfolding pres_def
  proof (intro allI impI)
    fix w :: "'a world" assume w: "hosting view me vg N w"
    from lv_remove_only [OF hosting_on_fake [OF w], of vg' "rootfs_name i"] obtain s where
      "snd (lv_remove vg' (rootfs_name i) w) = w\<lparr>w_fake := s\<rparr>" "\<forall>k. k \<noteq> (vg', rootfs_name i) \<longrightarrow> lv_map s k = lv_map (w_fake w) k"
      by blast
    with hosting_fake [OF w N, of s] show "hosting view me vg N (snd (lv_remove vg' (rootfs_name i) w))" by fastforce
  qed
qed

lemma pres_host_inv: "(\<And>vg. pres (hosting view me vg {}) m) \<Longrightarrow> pres (host_inv view me) m"
  by (auto simp: pres_def hosting_def)

lemma calm_host_inv: "calm (host_inv view me)"
proof
  show "host_inv view me v" if "host_inv view me w" "core v = core w" for v w
    using that hosting_core [of v w view me "vg_of w me" "{}"] by (simp add: hosting_def)
qed (rule pres_host_inv; rule calm.cmd calm.root_gone; simp add: calm_hosting)+

section \<open>The node's storage operations\<close>

lemma hosting_inv: "hosting view me vg N w \<Longrightarrow> host_inv view me w"
  by (simp add: hosting_def)

lemma hosting_conf: "hosting view me vg N w \<Longrightarrow> volume_vg me w = (Inr vg, w)"
  using volume_vg_run [of w me] by (auto simp: hosting_def host_inv_def node_sound_def)

lemma tri_vg:
  assumes "\<And>w. A w \<Longrightarrow> hosting view me vg N w"
  shows "tri (host_inv view me) A (volume_vg me) (\<lambda>x w. x = vg \<and> A w)"
proof (rule triI)
  show "host_inv view me v" if "A w" "volume_vg me w = (Inl e, v)" for w e v
    using hosting_conf [OF assms [OF that(1)]] that(2) by simp
  show "x = vg \<and> A v" if "A w" "volume_vg me w = (Inr x, v)" for w x v
    using hosting_conf [OF assms [OF that(1)]] that by simp
qed

lemma tri_uuid: "tri (host_inv view me) (hosting view me vg {}) uuid4 (\<lambda>i w. noslash i \<and> hosting view me vg {} w)"
proof (rule triI)
  fix w :: "'a world" and i v assume w: "hosting view me vg {} w" "uuid4 w = (Inr i, v)"
  then have "noslash i" "core v = core w" by (auto simp: uuid4_def hosting_def host_inv_def node_sound_def)
  then show "noslash i \<and> hosting view me vg {} v" using hosting_core w(1) by blast
qed (simp add: uuid4_def)

lemma pres_by_group:
  "(\<And>vg. tri (host_inv view me) (hosting view me vg {}) m (\<lambda>_. host_inv view me)) \<Longrightarrow> pres (host_inv view me) m"
proof (rule pres_tri, rule triI)
  fix w e v assume t: "\<And>vg. tri (host_inv view me) (hosting view me vg {}) m (\<lambda>_. host_inv view me)" and w: "host_inv view me w"
  then have h: "hosting view me (vg_of w me) {} w" by (simp add: hosting_def)
  show "host_inv view me v" if "m w = (Inl e, v)" by (rule tri_Inl [OF t h that])
  show "host_inv view me v" if "m w = (Inr e', v)" for e' by (rule tri_Inr [OF t h that])
qed

text \<open>Making a volume adds it to what is there.\<close>

lemma tri_made:
  assumes "pres (hosting view me vg {}) m"
    and "\<And>w x v. on_fake w \<Longrightarrow> m w = (Inr x, v) \<Longrightarrow> lv_map (w_fake v) (vg, name) \<noteq> None"
  shows "tri (host_inv view me) (hosting view me vg {}) m (\<lambda>_. hosting view me vg {name})"
proof (rule triI)
  have h: "hosting view me vg {} (snd (m w))" if "hosting view me vg {} w" for w using assms(1) that by (simp add: pres_def)
  show "host_inv view me v" if "hosting view me vg {} w" "m w = (Inl e, v)" for w e v
    using h [OF that(1)] that(2) by (simp add: hosting_inv)
  show "hosting view me vg {name} v" if "hosting view me vg {} w" "m w = (Inr x, v)" for w x v
    using h [OF that(1)] that(2) assms(2) [OF hosting_on_fake [OF that(1)] that(2)] by (simp add: hosting_def)
qed

lemma names_ok:
  assumes "noslash i"
  shows "lv_name_ok (data_name i)" "lv_name_ok (snap_name i)" "lv_name_ok (gold_name i)"
  using assms by (auto simp: lv_name_ok_def noslash_def name_defs)

text \<open>The host's side of a change of the database, and the database's side of one of the host.\<close>

lemma host_inv_db:
  assumes "host_inv view me w"
    and "\<And>r. r \<in> set (t_volumes (view d)) \<Longrightarrow> vo_node r = me \<Longrightarrow>
      \<exists>x \<in> set (t_volumes (view (w_db w))). vo_node x = me \<and> vo_id x = vo_id r"
    and "{r \<in> set (t_snapshots (view d)). sn_node r = me} \<subseteq> set (t_snapshots (view (w_db w)))"
  shows "host_inv view me (w\<lparr>w_db := d\<rparr>)"
proof -
  have old: "node_sound view me w" "lvs_named me (view (w_db w))" "rows_hosted me (vg_of w me) (view (w_db w)) (w_fake w)"
    using assms(1) by (simp_all add: host_inv_def)
  have "lv_map (w_fake w) (vg_of w me, data_name (vo_id r)) \<noteq> None"
    if r: "r \<in> set (t_volumes (view d))" "vo_node r = me" for r
  proof -
    obtain x where "x \<in> set (t_volumes (view (w_db w)))" "vo_node x = me" "vo_id x = vo_id r" using assms(2) [OF r] by blast
    then show ?thesis using old(3) unfolding rows_hosted_def by metis
  qed
  moreover have "lvs_named me (view d)" using lvs_named_mono [OF old(2) assms(3)] .
  moreover have "lv_map (w_fake w) (vg_of w me, sn_lv r) \<noteq> None"
    if "r \<in> set (t_snapshots (view d))" "sn_node r = me" for r
    using old(3) assms(3) that unfolding rows_hosted_def by blast
  ultimately show ?thesis using old(1) by (simp add: host_inv_def rows_hosted_def)
qed

lemma host_inv_fake:
  assumes "host_inv view me w"
    and "\<And>r. r \<in> set (t_volumes (view (w_db w))) \<Longrightarrow> vo_node r = me \<Longrightarrow>
      lv_map s (vg_of w me, data_name (vo_id r)) = lv_map (w_fake w) (vg_of w me, data_name (vo_id r))"
    and "\<And>r. r \<in> set (t_snapshots (view (w_db w))) \<Longrightarrow> sn_node r = me \<Longrightarrow>
      lv_map s (vg_of w me, sn_lv r) = lv_map (w_fake w) (vg_of w me, sn_lv r)"
  shows "host_inv view me (w\<lparr>w_fake := s\<rparr>)"
proof -
  have old: "node_sound view me w" "lvs_named me (view (w_db w))" "rows_hosted me (vg_of w me) (view (w_db w)) (w_fake w)"
    using assms(1) by (simp_all add: host_inv_def)
  have "rows_hosted me (vg_of w me) (view (w_db w)) s"
    using old(3) assms(2,3) unfolding rows_hosted_def by metis
  with old show ?thesis by (simp add: host_inv_def)
qed

text \<open>A volume no row names can go, and a volume can go with its row.\<close>

lemma free_gone:
  assumes "host_inv view me w"
    and "\<And>r. r \<in> set (t_volumes (view (w_db w))) \<Longrightarrow> vo_node r = me \<Longrightarrow> name \<noteq> data_name (vo_id r)"
    and "\<And>r. r \<in> set (t_snapshots (view (w_db w))) \<Longrightarrow> sn_node r = me \<Longrightarrow> name \<noteq> sn_lv r"
  shows "host_inv view me (snd (lv_remove vg name w)) \<and> w_db (snd (lv_remove vg name w)) = w_db w"
proof -
  have "on_fake w" using assms(1) by (simp add: host_inv_def node_sound_def)
  from lv_remove_only [OF this, of vg name] obtain s where
    s: "snd (lv_remove vg name w) = w\<lparr>w_fake := s\<rparr>" "\<forall>k. k \<noteq> (vg, name) \<longrightarrow> lv_map s k = lv_map (w_fake w) k" by blast
  have "host_inv view me (w\<lparr>w_fake := s\<rparr>)"
    by (rule host_inv_fake [OF assms(1)]) (use s(2) assms(2,3) in \<open>auto dest!: not_sym [of name]\<close>)
  with s(1) show ?thesis by simp
qed

definition unnamed :: "string \<Rightarrow> string \<Rightarrow> tables \<Rightarrow> bool" where
  "unnamed me name t \<longleftrightarrow> (\<forall>r \<in> set (t_volumes t). vo_node r = me \<longrightarrow> name \<noteq> data_name (vo_id r)) \<and>
     (\<forall>r \<in> set (t_snapshots t). sn_node r = me \<longrightarrow> name \<noteq> sn_lv r)"

lemma tri_gone:
  assumes J: "\<And>w. A w \<Longrightarrow> host_inv view me w"
    and D: "\<And>w n d. A w \<Longrightarrow> d_delete t P (w_db w) = (n, d) \<Longrightarrow>
      host_inv view me (w\<lparr>w_db := d\<rparr>) \<and> unnamed me name (view d)"
  shows "tri (host_inv view me) A (andThen (lv_remove vg name) (bnd (delete_rows t P) (\<lambda>_. ret ()))) (\<lambda>_. host_inv view me)"
proof -
  have "host_inv view me (snd (andThen (lv_remove vg name) (bnd (delete_rows t P) (\<lambda>_. ret ())) w))" if w: "A w" for w
  proof -
    obtain n d where d: "d_delete t P (w_db w) = (n, d)" by fastforce
    have fake: "on_fake w" using J [OF w] by (simp add: host_inv_def node_sound_def)
    obtain r u where u: "lv_remove vg name w = (r, u)" by fastforce
    with lv_remove_only [OF fake, of vg name] obtain s where
      s: "u = w\<lparr>w_fake := s\<rparr>" "\<forall>k. k \<noteq> (vg, name) \<longrightarrow> lv_map s k = lv_map (w_fake w) k" "isl r \<longrightarrow> lv_map s = lv_map (w_fake w)"
      by auto
    show ?thesis
    proof (cases r)
      case (Inl e)
      then have "host_inv view me (w\<lparr>w_fake := s\<rparr>)" using s(3) by (intro host_inv_fake [OF J [OF w]]) simp_all
      then show ?thesis using u s(1) Inl by (simp add: andThen_run)
    next
      case (Inr x)
      have "host_inv view me (w\<lparr>w_db := d, w_fake := s\<rparr>)"
        by (rule host_inv_fake) (use D [OF w d] s(2) in \<open>auto simp: unnamed_def\<close>)
      moreover have "w\<lparr>w_db := d, w_fake := s\<rparr> = w\<lparr>w_fake := s, w_db := d\<rparr>" by (cases w) simp
      ultimately show ?thesis using u s(1) Inr d by (simp add: andThen_run bnd_run delete_rows_def)
    qed
  qed
  then show ?thesis by (intro triI) (metis snd_conv)+
qed

text \<open>The client's volume operations, by what they make\<close>

lemma tri_vol_create:
  assumes "noslash i"
  shows "tri (host_inv view me) (hosting view me vg {}) (vol_create vg p (data_name i) n) (\<lambda>_. hosting view me vg {data_name i})"
  unfolding vol_create_def
proof (rule tri_bnd)
  show "tri (host_inv view me) (hosting view me vg {}) (lv_create_thin vg p (data_name i) n) (\<lambda>_. hosting view me vg {data_name i})"
    by (rule tri_made [OF calm.calm_lv(2) [OF calm_hosting] thin_made [OF _ names_ok(1) [OF assms]]]) simp_all
  show "tri (host_inv view me) (hosting view me vg {data_name i}) (andThen (format_ext4 dev) (ret dev))
      (\<lambda>_. hosting view me vg {data_name i})" for dev
    by (intro tri_andThen [OF tri_pres [OF calm.calm_lv(5) [OF calm_hosting]]] tri_ret) (auto intro: hosting_inv)
qed

lemma tri_vol_from_snapshot:
  assumes "noslash i"
  shows "tri (host_inv view me) (hosting view me vg {}) (vol_from_snapshot vg lv (data_name i)) (\<lambda>_. hosting view me vg {data_name i})"
  unfolding vol_from_snapshot_def
  by (rule tri_made [OF calm.calm_lv(4) [OF calm_hosting] clone_made [OF _ names_ok(1) [OF assms]]]) simp_all

lemma tri_snaps:
  assumes "noslash i"
  shows "tri (host_inv view me) (hosting view me vg {}) (snap_create vg lv i) (\<lambda>_. hosting view me vg {snap_name i})"
    "tri (host_inv view me) (hosting view me vg {}) (snap_golden vg j i) (\<lambda>_. hosting view me vg {gold_name i})"
  unfolding snap_create_def snap_golden_def
  by (rule tri_made [OF calm.calm_lv(3) [OF calm_hosting] snap_made [OF _ names_ok(2) [OF assms]]]
           tri_made [OF calm.calm_lv(3) [OF calm_hosting] snap_made [OF _ names_ok(3) [OF assms]]], simp_all)+

lemma pres_quiet: "pres P m \<Longrightarrow> quiet m \<Longrightarrow> pres (\<lambda>w. P w \<and> Q (w_db w)) m"
  by (simp add: pres_def keeps_def dbv_def)

section \<open>The handlers of a node\<close>

interpretation host: calm "host_inv view me" for view :: "'db \<Rightarrow> tables" and me
  by (rule calm_host_inv)

lemma host_db:
  assumes "host_inv view me w" "t_volumes (view d) = t_volumes (view (w_db w))" "t_snapshots (view d) = t_snapshots (view (w_db w))"
  shows "host_inv view me (w\<lparr>w_db := d\<rparr>)"
  by (rule host_inv_db [OF assms(1)]) (use assms(2,3) in auto)

lemma host_asks: "pres (host_inv view me) (http rq)"
  unfolding pres_def
proof (intro allI impI)
  fix w :: "'a world" assume w: "host_inv view me w"
  obtain r d where d: "w_http w rq (w_db w) = (r, d)" by fastforce
  then have sub: "{r \<in> set (t_volumes (view d)). vo_node r = me} \<subseteq> set (t_volumes (view (w_db w)))"
    "{r \<in> set (t_snapshots (view d)). sn_node r = me} \<subseteq> set (t_snapshots (view (w_db w)))"
    using w by (auto simp: host_inv_def node_sound_def peers_apart_def Let_def) (metis (mono_tags, lifting) mem_Collect_eq snd_conv subsetD)+
  have "host_inv view me (w\<lparr>w_db := d\<rparr>)" by (rule host_inv_db [OF w]) (use sub in blast)+
  then show "host_inv view me (snd (http rq w))" by (simp add: http_def d)
qed

interpretation host: calm_asks "host_inv view me" C for view :: "'db \<Rightarrow> tables" and me C
  by unfold_locales (rule host_asks)

context dadar
begin

lemma host_plain:
  "pres (host_inv abs me) (insert_row (c_vpcs C) vp)" "pres (host_inv abs me) (insert_row (c_vms C) vm)"
  "pres (host_inv abs me) (insert_row (c_pubips C) pi)" "pres (host_inv abs me) (insert_row (c_domains C) dm)"
  "pres (host_inv abs me) (insert_row (c_tasks C) tk)" "pres (host_inv abs me) (insert_row (c_proxies C) px)"
  "pres (host_inv abs me) (update_rows (c_vms C) Fv gv)" "pres (host_inv abs me) (update_rows (c_proxies C) Fp gp)"
  "pres (host_inv abs me) (update_rows (c_tasks C) Ft gt)"
  "pres (host_inv abs me) (delete_rows (c_vpcs C) D1)" "pres (host_inv abs me) (delete_rows (c_vms C) D2)"
  "pres (host_inv abs me) (delete_rows (c_pubips C) D3)" "pres (host_inv abs me) (delete_rows (c_domains C) D4)"
  "pres (host_inv abs me) (delete_rows (c_proxies C) D5)"
  unfolding pres_def insert_row_def update_rows_def delete_rows_def
  by (auto split: sum.splits prod.splits intro!: host_db
      dest: vpcs.insert_Inr vms.insert_Inr pubips.insert_Inr domains.insert_Inr tasks.insert_Inr proxies.insert_Inr
        vpcs.delete vms.delete pubips.delete domains.delete proxies.delete
      simp: vms.update proxies.update tasks.update)

lemma host_volume_row:
  "tri (host_inv abs me) (hosting abs me vg {data_name (vo_id row)}) (insert_row (c_volumes C) row) (\<lambda>_. host_inv abs me)"
proof (rule triI)
  fix w assume w: "hosting abs me vg {data_name (vo_id row)} w"
  then have h: "host_inv abs me w" by (rule hosting_inv)
  show "host_inv abs me v" if "insert_row (c_volumes C) row w = (Inl e, v)" for e v
    using that h by (auto simp: insert_row_def split: sum.splits)
  show "host_inv abs me v" if "insert_row (c_volumes C) row w = (Inr x, v)" for x v
    using that h w by (auto simp: insert_row_def hosting_def host_inv_def agree_defs dest!: volumes.insert_Inr split: sum.splits)
qed

lemma host_snapshot_row:
  assumes "sn_lv row = snap_name (sn_id row) \<or> sn_lv row = gold_name (sn_id row)"
  shows "tri (host_inv abs me) (hosting abs me vg {sn_lv row}) (insert_row (c_snapshots C) row) (\<lambda>_. host_inv abs me)"
proof (rule triI)
  fix w assume w: "hosting abs me vg {sn_lv row} w"
  then have h: "host_inv abs me w" by (rule hosting_inv)
  show "host_inv abs me v" if "insert_row (c_snapshots C) row w = (Inl e, v)" for e v
    using that h by (auto simp: insert_row_def split: sum.splits)
  show "host_inv abs me v" if "insert_row (c_snapshots C) row w = (Inr x, v)" for x v
    using that h w assms by (auto simp: insert_row_def hosting_def host_inv_def agree_defs dest!: snapshots.insert_Inr split: sum.splits)
qed

text \<open>An id, a volume named after it, a row: the shape of every handler that makes one.\<close>

lemma host_make_row:
  assumes "\<And>vg i. noslash i \<Longrightarrow> tri (host_inv abs me) (hosting abs me vg {}) (prov vg i) (\<lambda>_. hosting abs me vg {nm i})"
    and "\<And>vg i x t. tri (host_inv abs me) (hosting abs me vg {nm i}) (insert_row tbl (row i x t)) (\<lambda>_. host_inv abs me)"
    and N: "\<And>i. not_root {nm i}"
  shows "pres (host_inv abs me) (bnd uuid4 (\<lambda>i. bnd (volume_vg me) (\<lambda>vg. bnd (prov vg i) (\<lambda>x. bnd now (\<lambda>t.
    andThen (insert_row tbl (row i x t)) (ret (row i x t)))))))"
proof (rule pres_by_group)
  fix vg :: string
  show "tri (host_inv abs me) (hosting abs me vg {}) (bnd uuid4 (\<lambda>i. bnd (volume_vg me) (\<lambda>vg. bnd (prov vg i) (\<lambda>x. bnd now (\<lambda>t.
    andThen (insert_row tbl (row i x t)) (ret (row i x t))))))) (\<lambda>_. host_inv abs me)"
  proof (rule tri_bnd [OF tri_uuid], rule tri_bnd [OF tri_vg])
    fix i vg'
    show "tri (host_inv abs me) (\<lambda>w. vg' = vg \<and> noslash i \<and> hosting abs me vg {} w) (bnd (prov vg' i) (\<lambda>x. bnd now (\<lambda>t.
      andThen (insert_row tbl (row i x t)) (ret (row i x t))))) (\<lambda>_. host_inv abs me)"
    proof (rule tri_pure [where b = "vg' = vg \<and> noslash i"], blast)
      assume i: "vg' = vg \<and> noslash i"
      have "tri (host_inv abs me) (hosting abs me vg {}) (bnd (prov vg i) (\<lambda>x. bnd now (\<lambda>t.
        andThen (insert_row tbl (row i x t)) (ret (row i x t))))) (\<lambda>_. host_inv abs me)"
        using i by (intro tri_bnd [OF assms(1)] tri_bnd [OF tri_pres [OF calm.calm_atoms(2) [OF calm_hosting [OF N]]]]
          tri_andThen [OF assms(2)] tri_ret) (auto intro: hosting_inv)
      then show "tri (host_inv abs me) (\<lambda>w. vg' = vg \<and> noslash i \<and> hosting abs me vg {} w) (bnd (prov vg' i) (\<lambda>x. bnd now (\<lambda>t.
        andThen (insert_row tbl (row i x t)) (ret (row i x t))))) (\<lambda>_. host_inv abs me)"
        using i by (auto elim: tri_weaken)
    qed
  qed blast
qed

lemma tri_calm:
  assumes "\<And>P. calm P \<Longrightarrow> pres P m" "not_root N" "\<And>x. tri (host_inv abs me) (hosting abs me vg N) (f x) Q"
  shows "tri (host_inv abs me) (hosting abs me vg N) (bnd m f) Q"
  by (rule tri_bnd [OF tri_pres [OF assms(1) [OF calm_hosting [OF assms(2)]]] assms(3)]) (rule hosting_inv)

lemma tri_stop: "tri (host_inv abs me) (hosting abs me vg N) (raise e) Q"
  by (intro tri_raise) (rule hosting_inv)

lemma host_provision:
  assumes "noslash i"
  shows "tri (host_inv abs me) (hosting abs me vg {}) (provision C body vg (data_name i) n) (\<lambda>_. hosting abs me vg {data_name i})"
    "tri (host_inv abs me) (hosting abs me vg {}) (provision_data C sb vg (data_name i) n) (\<lambda>_. hosting abs me vg {data_name i})"
proof -
  have new: "tri (host_inv abs me) (hosting abs me vg {}) (bnd lvm (\<lambda>cfg. bnd (vol_create vg (lc_thinpool cfg) (data_name i) k) (\<lambda>dev. ret (dev, k))))
      (\<lambda>_. hosting abs me vg {data_name i})" for k
    by (intro tri_calm calm.calm_settings not_root_simps tri_bnd [OF tri_vol_create [OF assms]] tri_ret)
  have old: "tri (host_inv abs me) (hosting abs me vg {}) (bnd (vol_from_snapshot vg lv (data_name i)) (\<lambda>dev. ret (dev, k)))
      (\<lambda>_. hosting abs me vg {data_name i})" for lv k
    by (intro tri_bnd [OF tri_vol_from_snapshot [OF assms]] tri_ret)
  have img: "pres P (image_or_400 C j)" "pres P (same_node_or_409 r n)" if "calm P" for P j r
    unfolding image_or_400_def same_node_or_409_def by (intro calm_rules calm.calm_reads [OF that])+
  show "tri (host_inv abs me) (hosting abs me vg {}) (provision C body vg (data_name i) n) (\<lambda>_. hosting abs me vg {data_name i})"
    unfolding provision_def
    by (cases "truthy_str (oi_from body)")
       (auto intro!: new tri_calm [OF calm.calm_reads(1)] tri_stop old split: option.split)
  show "tri (host_inv abs me) (hosting abs me vg {}) (provision_data C sb vg (data_name i) n) (\<lambda>_. hosting abs me vg {data_name i})"
    unfolding provision_data_def andThen_def
    by (cases "truthy_str (wi_data_image sb)") (auto intro!: new old tri_calm [OF img(1)] tri_calm [OF img(2)])
qed

lemma host_makes:
  "pres (host_inv abs me) (create_volume_local C body me)" "pres (host_inv abs me) (auto_volume C sb me)"
  "so_node src = me \<Longrightarrow> pres (host_inv abs me) (create_snapshot_local C nb src)"
  "pres (host_inv abs me) (create_image_local C ib snap me)"
proof -
  have vol: "tri (host_inv abs me) (hosting abs me vg {data_name i}) (insert_row (c_volumes C) row) (\<lambda>_. host_inv abs me)"
    if "vo_id row = i" for vg i row using host_volume_row [of me vg row] that by simp
  have snp: "tri (host_inv abs me) (hosting abs me vg {nm i}) (insert_row (c_snapshots C) row) (\<lambda>_. host_inv abs me)"
    if "sn_id row = i" "sn_lv row = nm i" "nm i = snap_name i \<or> nm i = gold_name i" for vg nm i row
    using host_snapshot_row [of row me vg] that by simp
  show "pres (host_inv abs me) (create_volume_local C body me)" "pres (host_inv abs me) (auto_volume C sb me)"
    unfolding create_volume_local_def auto_volume_def Let_def split_def
    by (rule host_make_row [OF host_provision(1) vol] host_make_row [OF host_provision(2) vol]; simp)+
  show "pres (host_inv abs me) (create_snapshot_local C nb src)" if "so_node src = me"
    unfolding create_snapshot_local_def Let_def that
    by (rule host_make_row [where nm = snap_name, OF tri_snaps(1) snp [where nm = snap_name]]; simp)
  show "pres (host_inv abs me) (create_image_local C ib snap me)"
    unfolding create_image_local_def Let_def
    by (rule host_make_row [where nm = gold_name, OF tri_snaps(2) snp [where nm = gold_name]]; simp)
qed

lemma host_make_requests:
  "pres (host_inv abs me) (create_snapshot C me nb)" "pres (host_inv abs me) (create_image C me ib)"
  unfolding create_snapshot_def create_image_def resolve_source_def Let_def
  by (intro calm_rules host.calm_reads host.calm_forward host.calm_small host_makes; simp)+

lemma host_resize: "pres (host_inv abs me) (resize_volume C me i b)"
proof -
  have "pres (host_inv abs me) (update_rows (c_volumes C) P (\<lambda>r. r\<lparr>vo_size := n\<rparr>))" for P n
    unfolding pres_def update_rows_def by (auto simp: volumes.update intro!: host_inv_db split: if_splits) blast+
  then show ?thesis
    unfolding resize_volume_def resize_local_def
    by (intro calm_rules host.calm_reads host.calm_forward host.calm_small host.calm_settings host.calm_lv)
qed

lemma host_delete_volume: "pres (host_inv abs me) (delete_volume C me i)"
proof -
  have drop: "pres (host_inv abs me) (andThen (lv_remove vg (data_name j)) (bnd (delete_rows (c_volumes C) (\<lambda>r. vo_id r = j)) (\<lambda>_. ret ())))"
    for vg j
  proof (rule pres_tri, rule tri_gone)
    fix w n d assume w: "host_inv abs me w" "d_delete (c_volumes C) (\<lambda>r. vo_id r = j) (w_db w) = (n, d)"
    from volumes.delete [OF w(2)] have d: "t_volumes (abs d) = filter (\<lambda>r. vo_id r \<noteq> j) (t_volumes (abs (w_db w)))"
      "t_snapshots (abs d) = t_snapshots (abs (w_db w))" by simp_all
    have "host_inv abs me (w\<lparr>w_db := d\<rparr>)" by (rule host_inv_db [OF w(1)]) (auto simp: d)
    then show "host_inv abs me (w\<lparr>w_db := d\<rparr>) \<and> unnamed me (data_name j) (abs d)"
      using w(1) by (auto simp: unnamed_def d host_inv_def lvs_named_def)
  qed
  show ?thesis
    unfolding delete_volume_def delete_volume_local_def vol_delete_def
    by (intro pres_bnd pres_if pres_raise drop host.calm_reads host.calm_small host.calm_settings)
       (intro calm_rules host.calm_forward)
qed

lemma host_delete_role: "pres (host_inv abs me) (delete_role C me i role p)"
proof -
  let ?J = "host_inv abs me"
  let ?A = "\<lambda>row w. ?J w \<and> row \<in> set (t_snapshots (abs (w_db w))) \<and> sn_id row = i"
  have drop: "tri ?J (?A row) (andThen (lv_remove vg (sn_lv row)) (bnd (delete_rows (c_snapshots C) (\<lambda>r. sn_id r = i)) (\<lambda>_. ret ()))) (\<lambda>_. ?J)"
    if me: "sn_node row = me" for vg row
  proof (rule tri_gone)
    fix w n d assume w: "?A row w" "d_delete (c_snapshots C) (\<lambda>r. sn_id r = i) (w_db w) = (n, d)"
    from snapshots.delete [OF w(2)] have d: "t_snapshots (abs d) = filter (\<lambda>r. sn_id r \<noteq> i) (t_snapshots (abs (w_db w)))"
      "t_volumes (abs d) = t_volumes (abs (w_db w))" by simp_all
    have "?J (w\<lparr>w_db := d\<rparr>)" by (rule host_inv_db [OF conjunct1 [OF w(1)]]) (auto simp: d)
    moreover have named: "sn_lv r = snap_name (sn_id r) \<or> sn_lv r = gold_name (sn_id r)"
      if "r \<in> set (t_snapshots (abs (w_db w)))" "sn_node r = me" for r
      using w(1) that by (auto simp: host_inv_def lvs_named_def)
    have "sn_lv row = snap_name i \<or> sn_lv row = gold_name i" using named [of row] w(1) me by blast
    then have "unnamed me (sn_lv row) (abs d)" unfolding unnamed_def d using named by fastforce
    ultimately show "?J (w\<lparr>w_db := d\<rparr>) \<and> unnamed me (sn_lv row) (abs d)" by simp
  qed simp
  show ?thesis
    unfolding delete_role_def get_or_404_def snap_remove_def
  proof (rule pres_tri, rule tri_bnd [OF tri_get])
    fix row
    let ?B = "\<lambda>w. ?J w \<and> d_get (c_snapshots C) (\<lambda>r. sn_id r = i \<and> sn_role r = role) (w_db w) = Some row"
    have found: "?B w \<Longrightarrow> ?A row w" for w using snapshots.get_Some by fastforce
    have here: "tri ?J ?B (bnd (volume_vg (sn_node row)) (\<lambda>vg. andThen (lv_remove vg (sn_lv row))
      (bnd (delete_rows (c_snapshots C) (\<lambda>r. sn_id r = i)) (\<lambda>_. ret ())))) (\<lambda>_. ?J)" if "sn_node row = me"
      by (rule tri_bnd [OF tri_still], rule keeps_readers, simp, rule tri_weaken [OF drop [OF that] found])
    show "tri ?J ?B (if sn_node row \<noteq> me then andThen (forward C (sn_node row) ''DELETE'' (p @ ''/'' @ i) None []) (ret ())
      else bnd (volume_vg (sn_node row)) (\<lambda>vg. andThen (lv_remove vg (sn_lv row))
        (bnd (delete_rows (c_snapshots C) (\<lambda>r. sn_id r = i)) (\<lambda>_. ret ())))) (\<lambda>_. ?J)"
      using here by (auto intro!: tri_keeps calm_rules host.calm_forward)
  qed
qed

text \<open>The passes over the volumes and the snapshots\<close>

lemma calm_host_with: "calm (\<lambda>w. host_inv abs me w \<and> Q (w_db w))"
proof
  show "host_inv abs me v \<and> Q (w_db v)" if "host_inv abs me w \<and> Q (w_db w)" "core v = core w" for v w
    using that host.same by (auto simp: core_def)
  show "pres (\<lambda>w. host_inv abs me w \<and> Q (w_db w)) (run argv inp)" if "harmless argv" for argv inp
    by (intro pres_quiet host.cmd [OF that] quiet_base)
  show "pres (\<lambda>w. host_inv abs me w \<and> Q (w_db w)) (lv_remove vg (rootfs_name i))" for vg i
    by (intro pres_quiet host.root_gone quiet_lv)
qed

lemma host_sweep:
  assumes "\<And>names rows x d. x \<in> set (todo rows names) \<Longrightarrow> lvs_named me (abs d) \<Longrightarrow> rows = filter (\<lambda>r. nd r = me) (sel (abs d)) \<Longrightarrow>
      unnamed me x (abs d)"
    and "\<And>P d. d_all t P d = filter P (sel (abs d))"
  shows "pres (host_inv abs me) (bnd (volume_vg me) (\<lambda>vg. bnd (get_all t (\<lambda>r. nd r = me)) (\<lambda>rows. bnd (lv_names vg) (\<lambda>names.
    andThen (for_each (todo rows names) (lv_remove vg)) (ret (rep rows names))))))"
proof -
  let ?J = "host_inv abs me"
  let ?K = "\<lambda>rows w. ?J w \<and> rows = filter (\<lambda>r. nd r = me) (sel (abs (w_db w)))"
  have calm: "calm (?K rows)" for rows by (rule calm_host_with [where Q = "\<lambda>d. rows = filter (\<lambda>r. nd r = me) (sel (abs d))"])
  have rows: "tri ?J ?J (get_all t (\<lambda>r. nd r = me)) ?K" by (rule triI) (auto simp: get_all_def assms(2))
  have each: "pres (?K rows) (for_each (todo rows names) (lv_remove vg))" for rows names vg
  proof (rule pres_for_each)
    fix x assume x: "x \<in> set (todo rows names)"
    show "pres (?K rows) (lv_remove vg x)"
      unfolding pres_def
    proof (intro allI impI)
      fix w assume w: "?K rows w"
      then have "unnamed me x (abs (w_db w))" using assms(1) [OF x, of "w_db w"] by (simp add: host_inv_def)
      then show "?K rows (snd (lv_remove vg x w))"
        using free_gone [of abs me w x vg] w by (auto simp: unnamed_def)
    qed
  qed
  show ?thesis
    by (rule pres_tri, rule tri_bnd [OF tri_still [OF keeps_readers(2)]], assumption,
        rule tri_bnd [OF rows], rule tri_bnd [OF tri_pres [OF calm.calm_lvs(2) [OF calm]]], blast,
        rule tri_andThen [OF tri_pres [OF each]], blast, rule tri_ret, blast)
qed

lemma host_sweeps: "pres (host_inv abs me) (volumes_pass C me)" "pres (host_inv abs me) (snapshots_pass C me)"
  unfolding volumes_pass_def snapshots_pass_def Let_def vol_delete_def [abs_def] snap_remove_def [abs_def]
  by (rule host_sweep [OF _ volumes.all] host_sweep [OF _ snapshots.all];
      fastforce simp: orphans_of_def unnamed_def lvs_named_def startswith_iff name_defs)+

end

sublocale dadar < node_host: calm_node "host_inv abs me" C me for me
  by unfold_locales
     (simp_all add: host_plain host_makes host_make_requests host_resize host_delete_volume delete_snapshot_def delete_image_def
        host_delete_role host_sweeps)

context dadar
begin

lemma reach_host:
  assumes "node_reach C me w v" "host_inv abs me w"
  shows "host_inv abs me v"
  using assms(1)
proof induction
  case start
  then show ?case by (rule assms(2))
next
  case (own v rq r u)
  from node_host.calm_serve own(3) have "host_inv abs me (snd (serve C me rq v))" by (simp add: pres_def)
  with own(2) show ?case by simp
next
  case (other v hr r d)
  from host.asks [of abs me hr] other(3) have "host_inv abs me (snd (http hr v))" by (simp add: pres_def)
  with other(2) show ?case by (simp add: http_def)
qed

end

section \<open>Property\<close>

text \<open>C3: on the simulator, the database and a node's storage agree whatever the node serves. From a state where
  every volume, snapshot and image row of the node has its logical volume, where settings and ids are
  usable, and as long as the other nodes add no row for this node's storage, every state reached by
  serving requests, running reconciler passes and executor ticks, one after another, with failures at
  any point, has the volume of every such row.\<close>

theorem reachable_rows_hosted:
  assumes "dadar C view" "node_sound view me w" "lvs_named me (view (w_db w))"
    and "rows_hosted me (vg_of w me) (view (w_db w)) (w_fake w)"
    and "node_reach C me w v"
  shows "(\<forall>r \<in> set (t_volumes (view (w_db v))). vo_node r = me \<longrightarrow>
      lv_map (w_fake v) (vg_of v me, data_name (vo_id r)) \<noteq> None) \<and>
    (\<forall>r \<in> set (t_snapshots (view (w_db v))). sn_node r = me \<longrightarrow> lv_map (w_fake v) (vg_of v me, sn_lv r) \<noteq> None)"
proof -
  have "host_inv view me w" using assms(2-4) by (simp add: host_inv_def)
  then have "host_inv view me v" by (rule dadar.reach_host [OF assms(1,5)])
  then show ?thesis by (simp add: host_inv_def rows_hosted_def)
qed

text \<open>A node with one volume, and a pass of its reconciler.\<close>

definition hosted_node :: "tables world" where
  "hosted_node = set_fake (\<lambda>s. s\<lparr>f_lvs := [((''nyc-n1'', ''data-d1''), \<lparr>lv_size = 64, lv_pool = None, lv_origin = None, lv_attr = []\<rparr>)]\<rparr>)
     (world0 one_volume)"

lemma reachable_rows_hosted_witness:
  "\<exists>v. snd (serve list_client ''n1'' Reconcile hosted_node) = v \<and>
     (\<forall>r \<in> set (t_volumes (w_db v)). vo_node r = ''n1'' \<longrightarrow> lv_map (w_fake v) (vg_of v ''n1'', data_name (vo_id r)) \<noteq> None)"
proof -
  have sel: "w_db hosted_node = one_volume" "vg_of hosted_node ''n1'' = ''nyc-n1''"
    by (simp_all add: hosted_node_def set_fake_def world0_vg)
  have sound: "node_sound (\<lambda>d. d) ''n1'' hosted_node"
    by (simp add: node_sound_def peers_apart_def Let_def hosted_node_def set_fake_def world0_vg)
       (auto simp: world0_def noslash_def dec_free)
  have rows: "lvs_named ''n1'' one_volume" "rows_hosted ''n1'' ''nyc-n1'' one_volume (w_fake hosted_node)"
    by (simp_all add: lvs_named_def rows_hosted_def one_volume_def no_rows_def hosted_node_def set_fake_def lv_map_def name_defs)
  have "node_reach list_client ''n1'' hosted_node (snd (serve list_client ''n1'' Reconcile hosted_node))"
    by (rule node_reach.own [OF node_reach.start]) (rule surjective_pairing)
  from reachable_rows_hosted [OF lists.dadar_axioms sound, unfolded sel, OF rows this] show ?thesis by simp
qed

end
