(* ===== verification/Races.thy ===== *)
theory Races
  imports HostInvariant RequestProps ExecutorProps SpawnProps
begin

text \<open>
  Requests that overlap. FastAPI runs the handlers in a pool of threads, the reconciler's loop runs beside
  them, and every node of the cluster works on the same tables, so a handler can be interrupted between
  its steps. Here the two creations that read, act and record are cut where that matters, and
  what happens when something else runs at the cut is stated beside what holds without it.
\<close>

section \<open>A volume between its making and its row\<close>

text \<open>\<open>_create_local\<close> of the volumes up to \<open>_provision\<close>, and from there\<close>

definition volume_made :: "'db client \<Rightarrow> volume_in \<Rightarrow> string \<Rightarrow> ('db, string \<times> string \<times> int) node_prog" where
  "volume_made C body n =
     bnd uuid4 (\<lambda>i.
     bnd (volume_vg n) (\<lambda>vg.
     bnd (provision C body vg (data_name i) n) (\<lambda>x. ret (i, x))))"

definition volume_recorded :: "'db client \<Rightarrow> volume_in \<Rightarrow> string \<Rightarrow> string \<times> string \<times> int \<Rightarrow> ('db, volume_row) node_prog" where
  "volume_recorded C body n = (\<lambda>(i, dev, size_mb).
     bnd now (\<lambda>t.
     let row = \<lparr>vo_id = i, vo_node = n, vo_name = oi_name body, vo_size = size_mb, vo_path = dev,
                vo_status = ''ready'', vo_created = t\<rparr> in
     andThen (insert_row (c_volumes C) row) (ret row)))"

lemma bnd_ret: "bnd (ret x) f = f x"
  by (rule ext) (simp add: bnd_run)

lemma create_volume_steps: "create_volume_local C body n = bnd (volume_made C body n) (volume_recorded C body n)"
  unfolding create_volume_local_def volume_made_def volume_recorded_def
  by (simp add: bnd_assoc bnd_ret split_def)

text \<open>The same with a pass over the volumes at the cut.\<close>

definition create_volume_overlapped :: "'db client \<Rightarrow> volume_in \<Rightarrow> string \<Rightarrow> ('db, volume_row) node_prog" where
  "create_volume_overlapped C body n =
     bnd (volume_made C body n) (\<lambda>x. andThen (volumes_pass C n) (volume_recorded C body n x))"

lemma calm_volume_made: "calm P \<Longrightarrow> pres P (volume_made C body n)"
  unfolding volume_made_def provision_def
  by (intro calm_rules calm.calm_atoms calm.calm_settings calm.calm_reads calm.calm_volume)

context dadar
begin

lemma quiet_volume_made: "quiet (volume_made C body n)"
  unfolding volume_made_def provision_def by (intro quiet_rules)

text \<open>Recording takes the row in if its id is new, whatever became of the volume.\<close>

lemma volume_recorded_run:
  assumes "\<forall>x \<in> set (t_volumes (abs (w_db w))). vo_id x \<noteq> i"
  shows "\<exists>row v. volume_recorded C body n (i, dev, mb) w = (Inr row, v) \<and> vo_id row = i \<and> vo_node row = n \<and>
    vo_status row = ''ready'' \<and> row \<in> set (t_volumes (abs (w_db v))) \<and> w_fake v = w_fake w"
proof -
  let ?row = "\<lparr>vo_id = i, vo_node = n, vo_name = oi_name body, vo_size = mb, vo_path = dev, vo_status = ''ready'',
    vo_created = w_time w (w_tick w)\<rparr>"
  have "\<forall>x \<in> set (t_volumes (abs (w_db (w\<lparr>w_tick := Suc (w_tick w)\<rparr>)))). \<not> key_clash vo_id ?row x"
    using assms by (auto simp: key_clash_def)
  from volumes.insert_run [OF this] obtain d where d:
    "insert_row (c_volumes C) ?row (w\<lparr>w_tick := Suc (w_tick w)\<rparr>) = (Inr (), w\<lparr>w_tick := Suc (w_tick w), w_db := d\<rparr>)"
    "abs d = t_volumes_update (\<lambda>rs. rs @ [?row]) (abs (w_db w))" by auto
  then have "volume_recorded C body n (i, dev, mb) w = (Inr ?row, w\<lparr>w_tick := Suc (w_tick w), w_db := d\<rparr>)"
    by (simp add: volume_recorded_def bnd_run now_def Let_def andThen_run)
  with d(2) show ?thesis by (intro exI [of _ ?row] exI [of _ "w\<lparr>w_tick := Suc (w_tick w), w_db := d\<rparr>"]) simp
qed

lemma overlapped_run:
  assumes "host_inv abs n w" "volume_made C body n w = (Inr (i, dev, mb), u)"
    and "\<forall>x \<in> set (t_volumes (abs (w_db w))). vo_id x \<noteq> i" "\<forall>x \<in> lv_here (vg_of w n) (w_fake u). noslash x"
  shows "\<exists>row v. create_volume_overlapped C body n w = (Inr row, v) \<and> vo_id row = i \<and> vo_node row = n \<and>
    vo_status row = ''ready'' \<and> row \<in> set (t_volumes (abs (w_db v))) \<and> lv_map (w_fake v) (vg_of w n, data_name i) = None"
proof -
  have db: "w_db u = w_db w" using keepsD [OF quiet_volume_made assms(2)] by (simp add: dbv_def)
  have "hosting abs n (vg_of w n) {} w" using assms(1) by (simp add: hosting_def)
  then have "hosting abs n (vg_of w n) {} u"
    using calm_volume_made [OF calm_hosting, of "{}" abs n "vg_of w n" C body n] assms(2) by (simp add: pres_def) (metis snd_conv)
  then have u: "on_fake u" "settings_ok u" "noslash (vg_of u n)" and vg: "vg_of w n = vg_of u n"
    by (auto simp: hosting_def host_inv_def node_sound_def)
  let ?st = "stale is_data (wanted_data (abs (w_db u)) n) (vg_of u n) (w_fake u)"
  obtain rep where p: "volumes_pass C n u = (Inr rep, set_fake (drop_all (vg_of u n) ?st) u)"
    using volumes_pass_run [OF u assms(4) [unfolded vg]] by blast
  let ?w = "set_fake (drop_all (vg_of u n) ?st) u"
  have "\<forall>x \<in> set (t_volumes (abs (w_db ?w))). vo_id x \<noteq> i" using assms(3) by (simp add: set_fake_def db)
  from volume_recorded_run [OF this] obtain row v where r:
    "volume_recorded C body n (i, dev, mb) ?w = (Inr row, v)" "vo_id row = i" "vo_node row = n" "vo_status row = ''ready''"
    "row \<in> set (t_volumes (abs (w_db v)))" "w_fake v = w_fake ?w" by blast
  have "is_data (data_name i)" "data_name i \<notin> wanted_data (abs (w_db u)) n"
    using assms(3) by (auto simp: is_data_def startswith_iff data_name_def wanted_data_def db)
  then have "lv_map (w_fake ?w) (vg_of u n, data_name i) = None"
    by (auto simp: set_fake_def lv_map_drop_all set_stale lv_here_def)
  moreover have "create_volume_overlapped C body n w = (Inr row, v)"
    by (simp add: create_volume_overlapped_def bnd_run assms(2) andThen_run p r(1))
  ultimately show ?thesis using r by (intro exI [of _ row] exI [of _ v]) (simp add: vg)
qed

end

text \<open>C13: on a node whose storage agrees with its rows the creation of a volume answers a row that has its volume
  and keeps the agreement. With a pass of the reconciler between the making of the volume and the insertion of
  its row the pass removes the new volume, which has no row yet, and the request still answers a ready volume:
  its row stays and its logical volume is gone.\<close>

theorem pass_takes_new_volume:
  assumes "dadar C view" "host_inv view n w" "volume_made C body n w = (Inr (i, dev, mb), u)"
    and "\<forall>x \<in> set (t_volumes (view (w_db w))). vo_id x \<noteq> i" "\<forall>x \<in> lv_here (vg_of w n) (w_fake u). noslash x"
  shows "(\<exists>row v. create_volume_local C body n w = (Inr row, v) \<and> vo_id row = i \<and> vo_node row = n \<and>
       row \<in> set (t_volumes (view (w_db v))) \<and> host_inv view n v) \<and>
    (\<exists>row v. create_volume_overlapped C body n w = (Inr row, v) \<and> vo_id row = i \<and> vo_node row = n \<and> vo_status row = ''ready'' \<and>
       row \<in> set (t_volumes (view (w_db v))) \<and> lv_map (w_fake v) (vg_of w n, data_name i) = None)"
proof -
  have "w_db u = w_db w" using keepsD [OF dadar.quiet_volume_made [OF assms(1)] assms(3)] by (simp add: dbv_def)
  then obtain row v where r: "volume_recorded C body n (i, dev, mb) u = (Inr row, v)" "vo_id row = i" "vo_node row = n"
    "row \<in> set (t_volumes (view (w_db v)))"
    using dadar.volume_recorded_run [OF assms(1)] assms(4) by metis
  then have alone: "create_volume_local C body n w = (Inr row, v)" by (simp add: create_volume_steps bnd_run assms(3))
  moreover have "host_inv view n v"
    using dadar.host_makes(1) [OF assms(1), of n body] assms(2) alone by (metis pres_def snd_conv)
  ultimately show ?thesis using r(2-4) dadar.overlapped_run [OF assms] by blast
qed

text \<open>A fresh node, and a request for a volume of 64 MB.\<close>

definition new_volume :: volume_in where
  "new_volume = \<lparr>oi_name = ''data'', oi_size = 64, oi_node = None, oi_from = None\<rparr>"

lemma fresh_node_inv: "host_inv (\<lambda>d. d) ''n1'' (world0 no_rows)"
  by (simp add: host_inv_def node_sound_def peers_apart_def Let_def world0_vg agree_defs no_rows_def)
     (auto simp: world0_def noslash_def)

lemma fresh_node_made:
  "\<exists>dev u. volume_made list_client new_volume ''n1'' (world0 no_rows) = (Inr (''id-0'', dev, 64), u) \<and>
     (\<forall>x \<in> lv_here ''nyc-n1'' (w_fake u). noslash x)"
proof -
  let ?w = "world0 no_rows\<lparr>w_nuuid := 1\<rparr>"
  have conf: "same_conf ?w (world0 no_rows)" by (simp add: same_conf_def)
  have set: "settings_ok ?w" "vg_of ?w ''n1'' = ''nyc-n1''"
    using settings_ok_same [OF conf] vg_of_same [OF conf] by (simp_all add: world0_vg)
  have pool: "noslash (pool_of ?w)"
    by (simp add: pool_of_def lvm_def str_setting_def int_setting_def setting_def truthy_str_def world0_def bnd_run noslash_def)
  obtain c where c: "lvm ?w = (Inr c, ?w)" "lc_thinpool c = pool_of ?w" using lvm_run [OF set(1)] by blast
  have "on_fake ?w" "noslash ''nyc-n1''" "noslash ''id-0''" by (simp_all add: on_fake_def backend_def world0_def noslash_def lower_fake)
  from vol_create_fake [OF this(1,2) pool this(3), of 64] obtain s where
    s: "vol_create ''nyc-n1'' (pool_of ?w) (data_name ''id-0'') 64 ?w = (Inr (device_path ''nyc-n1'' (data_name ''id-0'')), ?w\<lparr>w_fake := s\<rparr>)"
      "lv_map s = (lv_map (w_fake ?w))((''nyc-n1'', data_name ''id-0'') \<mapsto>
        \<lparr>lv_size = 64, lv_pool = Some (pool_of ?w), lv_origin = None, lv_attr = ''Vwi-a-tz--''\<rparr>)" by blast
  have "uuid4 (world0 no_rows) = (Inr ''id-0'', ?w)" by (simp add: uuid4_def world0_def dec_0)
  then have "volume_made list_client new_volume ''n1'' (world0 no_rows) =
      (Inr (''id-0'', device_path ''nyc-n1'' (data_name ''id-0''), 64), ?w\<lparr>w_fake := s\<rparr>)"
    using volume_vg_run [OF set(1), of "''n1''"] set(2) c s(1)
    by (simp add: volume_made_def bnd_run provision_def new_volume_def truthy_str_def)
  moreover have "\<forall>x \<in> lv_here ''nyc-n1'' s. noslash x"
    using s(2) by (auto simp: lv_here_def reset_state_def lv_map_def noslash_def name_defs split: if_splits)
  ultimately show ?thesis by (intro exI) auto
qed

lemma pass_takes_new_volume_witness:
  "\<exists>row v. create_volume_overlapped list_client new_volume ''n1'' (world0 no_rows) = (Inr row, v) \<and>
     vo_id row = ''id-0'' \<and> vo_status row = ''ready'' \<and> row \<in> set (t_volumes (w_db v)) \<and>
     lv_map (w_fake v) (''nyc-n1'', data_name ''id-0'') = None"
proof -
  obtain dev u where u: "volume_made list_client new_volume ''n1'' (world0 no_rows) = (Inr (''id-0'', dev, 64), u)"
    "\<forall>x \<in> lv_here ''nyc-n1'' (w_fake u). noslash x" using fresh_node_made by blast
  have "\<forall>x \<in> set (t_volumes (w_db (world0 no_rows))). vo_id x \<noteq> ''id-0''" by (simp add: no_rows_def)
  from pass_takes_new_volume [OF lists.dadar_axioms fresh_node_inv u(1) this, unfolded world0_vg, OF u(2)]
  show ?thesis by blast
qed

section \<open>An address between its choice and its row\<close>

text \<open>\<open>_create_local\<close> of the VMs up to \<open>pick_ip\<close>, and from there\<close>

definition address_picked :: "'db client \<Rightarrow> vm_in \<Rightarrow> ('db, vpc_row \<times> string option \<times> string) node_prog" where
  "address_picked C body =
     bnd (vpc_or_400 C (mi_vpc body)) (\<lambda>vpc.
     bnd (case truthy_str (mi_volume body) of
            None \<Rightarrow> ret None
          | Some v \<Rightarrow> bnd (volume_path C v) (\<lambda>p. ret (Some p))) (\<lambda>vol_path.
     bnd (used_ips C (mi_vpc body)) (\<lambda>used.
     bnd (of_sum (pick_ip (vp_cidr vpc) used)) (\<lambda>ip. ret (vpc, vol_path, ip)))))"

definition vm_recorded :: "'db client \<Rightarrow> vm_in \<Rightarrow> string \<Rightarrow> vpc_row \<times> string option \<times> string \<Rightarrow> ('db, vm_row) node_prog" where
  "vm_recorded C body n = (\<lambda>(vpc, vol_path, ip).
     bnd (row_of body n ip) (\<lambda>row.
     andThen (insert_row (c_vms C) row)
             (bring_up C row (vp_cidr vpc) vol_path None GOLD_DEFAULT)))"

lemma create_vm_steps: "create_vm_local C body n = bnd (address_picked C body) (vm_recorded C body n)"
  unfolding create_vm_local_def address_picked_def vm_recorded_def
  by (simp add: bnd_assoc bnd_ret)

context dadar
begin

lemma address_picked_run:
  assumes "db_inv (abs (w_db w))" "request_ok (abs (w_db w)) me body p vol ip i"
  shows "address_picked C body w = (Inr (p, vol, ip), w)"
proof -
  have dist: "distinct (map vp_id (t_vpcs (abs (w_db w))))" "distinct (map vo_id (t_volumes (abs (w_db w))))"
    using assms(1) by (simp_all add: inv_defs)
  have vpc: "vpc_or_400 C (mi_vpc body) w = (Inr p, w)"
    using vpcs.get_unique [of vp_id "w_db w" p] dist(1) assms(2) by (simp add: vpc_or_400_def bnd_run get_run request_ok_def)
  have vol: "(case truthy_str (mi_volume body) of None \<Rightarrow> ret None
      | Some v \<Rightarrow> bnd (volume_path C v) (\<lambda>p. ret (Some p))) w = (Inr vol, w)"
    using assms(2) by (intro volume_run [OF dist(2)]) (simp add: request_ok_def)
  have "pick_ip (vp_cidr p) (vm_ip ` {r \<in> set (t_vms (abs (w_db w))). vm_vpc r = mi_vpc body}) = Inr ip"
    using assms(2) by (simp add: request_ok_def)
  then show ?thesis by (simp add: address_picked_def bnd_run vpc vol used_run [of "mi_vpc body" w])
qed

text \<open>Recording adds the row with the address it was given, whether or not the VM comes up.\<close>

lemma vm_recorded_row:
  assumes "\<forall>x \<in> set (t_vms (abs (w_db w))). vm_id x \<noteq> vm_id (created_row body me ip w)"
  shows "\<exists>f. t_vms (abs (w_db (snd (vm_recorded C body me (p, vol, ip) w)))) = map f (t_vms (abs (w_db w))) @ [f (vm_defaults (created_row body me ip w))] \<and>
      (\<forall>r. vm_id (f r) = vm_id r \<and> vm_vpc (f r) = vm_vpc r \<and> vm_ip (f r) = vm_ip r)"
proof -
  let ?row = "created_row body me ip w"
  have "\<forall>x \<in> set (t_vms (abs (w_db w))). \<not> key_clash vm_id ?row x"
    using assms by (auto simp: key_clash_def)
  then obtain d where d: "d_insert (c_vms C) ?row (w_db w) = Inr d"
    "abs d = t_vms_update (\<lambda>rs. rs @ [vm_defaults ?row]) (abs (w_db w))"
    using vms.insert_free by blast
  have "row_of body me ip w = (Inr ?row, w\<lparr>w_nuuid := Suc (w_nuuid w), w_tick := Suc (w_tick w)\<rparr>)"
    by (simp add: row_of_def bnd_run resolve_paths uuid4_def now_def created_row_def)
  then have run: "vm_recorded C body me (p, vol, ip) w = bring_up C ?row (vp_cidr p) vol None GOLD_DEFAULT (after_insert d w)"
    by (simp add: vm_recorded_def bnd_run andThen_run insert_row_def d(1) after_insert_def)
  obtain r v where v: "bring_up C ?row (vp_cidr p) vol None GOLD_DEFAULT (after_insert d w) = (r, v)" by fastforce
  let ?f = "\<lambda>x. if isl r then x else if vm_id x = vm_id ?row then x\<lparr>vm_status := ''running''\<rparr> else x"
  have "t_vms (abs (w_db v)) = map ?f (t_vms (abs d))"
    using bring_up_db [OF v] by (cases r) (simp_all add: after_insert_def)
  then have rows: "t_vms (abs (w_db (snd (vm_recorded C body me (p, vol, ip) w)))) =
      map ?f (t_vms (abs (w_db w))) @ [?f (vm_defaults ?row)]"
    by (simp add: run v d(2))
  have same: "vm_id (?f x) = vm_id x \<and> vm_vpc (?f x) = vm_vpc x \<and> vm_ip (?f x) = vm_ip x" for x by simp
  show ?thesis using rows same by blast
qed

end

text \<open>C14: addresses are chosen from rows read before. Two nodes that are asked for a VM in the same VPC at the same time
  can both succeed with the same address: when one of them has chosen its address and the other serves its
  whole request before the first inserts its row, both rows are there, of different VMs with the same VPC
  and the same address, and the database no longer satisfies its invariant.\<close>

theorem two_creations_one_address:
  assumes "dadar C view" "db_inv (view (w_db w))" "w_db x = w_db w"
    and "request_ok (view (w_db w)) n b p vol ip (vm_id (created_row b n ip w))"
    and "request_ok (view (w_db w)) m c p vol' ip' (vm_id (created_row c m ip' x))"
    and "vm_id (created_row b n ip w) \<noteq> vm_id (created_row c m ip' x)"
  shows "\<exists>picked. address_picked C b w = (Inr picked, w) \<and>
    (let y = snd (create_vm C m c x); v = snd (vm_recorded C b n picked (w\<lparr>w_db := w_db y\<rparr>)) in
     (\<exists>r \<in> set (t_vms (view (w_db v))). \<exists>s \<in> set (t_vms (view (w_db v))).
        vm_id r \<noteq> vm_id s \<and> vm_vpc r = vm_vpc s \<and> vm_ip r = vm_ip s) \<and> \<not> db_inv (view (w_db v)))"
proof -
  let ?y = "snd (create_vm C m c x)" and ?one = "created_row b n ip w" and ?two = "created_row c m ip' x"
  let ?w = "w\<lparr>w_db := w_db ?y\<rparr>"
  let ?T = "t_vms (view (w_db (snd (vm_recorded C b n (p, vol, ip) ?w))))"
  have vpc: "mi_vpc c = mi_vpc b" and ip: "ip' = ip" using assms(4,5) by (auto simp: request_ok_def)
  obtain g where y: "t_vms (view (w_db ?y)) = t_vms (view (w_db w)) @ [g]" "vm_id g = vm_id ?two" "vm_vpc g = mi_vpc b" "vm_ip g = ip"
    using dadar.create_vm_db [OF assms(1), of x m c p vol' ip' "fst (create_vm C m c x)" ?y] assms(2,3,5) vpc ip
    by (simp add: vm_defaults_def created_row_def)
  have one: "created_row b n ip ?w = ?one"
    using same_base_paths(1) [of w ?w] by (simp add: created_row_def same_base_def same_conf_def)
  have "\<forall>r \<in> set (t_vms (view (w_db ?w))). vm_id r \<noteq> vm_id (created_row b n ip ?w)"
    using assms(4,6) unfolding one by (auto simp: y request_ok_def)
  from dadar.vm_recorded_row [OF assms(1) this, of p vol] obtain f where
    f: "?T = map f (t_vms (view (w_db ?w))) @ [f (vm_defaults ?one)]"
      "\<forall>r. vm_id (f r) = vm_id r \<and> vm_vpc (f r) = vm_vpc r \<and> vm_ip (f r) = vm_ip r"
    unfolding one by blast
  then have rows: "f g \<in> set ?T" "f (vm_defaults ?one) \<in> set ?T" by (simp_all add: y(1))
  have clash: "vm_id (f g) \<noteq> vm_id (f (vm_defaults ?one))" "vm_vpc (f g) = vm_vpc (f (vm_defaults ?one))"
    "vm_ip (f g) = vm_ip (f (vm_defaults ?one))"
    using f(2) y assms(6) by (simp_all add: vm_defaults_def) (simp_all add: created_row_def)
  have "\<not> distinct (map (\<lambda>r. (vm_vpc r, vm_ip r)) ?T)"
  proof
    assume "distinct (map (\<lambda>r. (vm_vpc r, vm_ip r)) ?T)"
    then have "inj_on (\<lambda>r. (vm_vpc r, vm_ip r)) (set ?T)" by (simp add: distinct_map)
    from inj_onD [OF this _ rows] clash show False by simp
  qed
  then have "\<not> db_inv (view (w_db (snd (vm_recorded C b n (p, vol, ip) ?w))))" by (simp add: inv_defs)
  moreover have "address_picked C b w = (Inr (p, vol, ip), w)" by (rule dadar.address_picked_run [OF assms(1,2,4)])
  ultimately show ?thesis
    unfolding Let_def using rows clash by (intro exI [of _ "(p, vol, ip)"]) blast
qed

text \<open>Two nodes that share an empty VPC.\<close>

definition other_node :: "tables world" where
  "other_node = new_node\<lparr>w_nuuid := 1\<rparr>"

lemma two_creations_one_address_witness:
  "\<exists>picked v. address_picked list_client new_vm new_node = (Inr picked, new_node) \<and>
     v = snd (vm_recorded list_client new_vm ''n1'' picked (new_node\<lparr>w_db := w_db (snd (create_vm list_client ''n2'' new_vm other_node))\<rparr>)) \<and>
     \<not> db_inv (w_db v)"
proof -
  have sel: "w_db other_node = w_db new_node" by (simp add: other_node_def)
  have ids: "vm_id (created_row new_vm ''n2'' ip other_node) = ''id-1''" for ip
    by (simp add: created_row_def other_node_def new_node_def world0_def) code_simp
  have ok: "request_ok (w_db new_node) ''n2'' new_vm (hd (t_vpcs (w_db new_node))) None (ip_str 167837698)
      (vm_id (created_row new_vm ''n2'' (ip_str 167837698) other_node))"
    using new_node_request(5) by (simp add: request_ok_def new_vm_def truthy_str_def) (simp add: new_node_def no_rows_def)
  show ?thesis
    using two_creations_one_address [OF lists.dadar_axioms new_node_request(1) sel new_node_request(5) ok]
    unfolding Let_def new_row_sel ids by auto
qed

end
