(* ===== verification/Spec2Isabelle.thy ===== *)
theory Spec2Isabelle
  imports FakeProps VolumeProps NetworkProps LifeProps DbInvariant RouterProps ExecutorProps CascadeProps PreflightProps
    RequestProps SpawnProps AttachProps ReconcileProps ForwardProps HostInvariant Races
begin

text \<open>
  nyc turns bare-metal machines into a small cloud of Firecracker VMs. Every machine is a node: a
  process that serves an HTTP API, keeps its rows in a replicated database (dadar's ORM over rqlite),
  and runs two background loops. A request that concerns a VM, volume or snapshot is served by the node
  that owns it and forwarded to it from the others. Below the handlers is the client: programs that
  drive LVM, \<open>ip\<close>, \<open>iptables\<close>, \<open>bridge\<close>, \<open>debugfs\<close> and \<open>firecracker\<close> through one function,
  \<open>privops.run\<close>, which either calls \<open>sudo\<close> or an in-memory simulator of the host. Beside the node
  are the operator's scripts, which provision, check and take down a cluster over ssh.

  \<^bold>\<open>Foundations.\<close> \<open>Prelude\<close> has the exceptions and the state-and-exception programs in which all code
  is written (\<open>bnd\<close>, \<open>andThen\<close>, \<open>except\<close>, \<open>for_each\<close>), with the two ways of saying that a program
  leaves something alone (\<open>keeps\<close>, \<open>pres\<close>). \<open>PyStr\<close>: the operations of \<open>str\<close>; \<open>IpNet\<close>: the IPv4
  part of \<open>ipaddress\<close>; \<open>PyVal\<close>: decoded JSON and TOML values as the scripts handle them. \<open>World\<close>: the
  state of a node's process (environment, files, simulator, database, command log, clock, the other
  nodes' answers) and \<open>privops.py\<close>.

  \<^bold>\<open>The client\<close> (\<open>src/nyc/client\<close>, \<open>src/nyc/config.py\<close>).
  \<open>PrivopsFake\<close>: the simulator, one program per command, over the record \<open>fstate\<close> that is its \<open>STATE\<close>.
  \<open>Config\<close>: paths and settings. \<open>Allocate\<close>: VM addresses and the public pool.
  \<open>Volume\<close>, \<open>Network\<close>, \<open>VmDir\<close>, \<open>VmProc\<close>, \<open>Lifecycle\<close>: volumes and the node's substrate; namespaces,
  links, rules, tunnels; the VM's directory and injected files; its process; and the four sequences
  \<open>vm_up\<close>, \<open>vm_down\<close>, \<open>vm_stop\<close>, \<open>vm_start\<close> that compose them. \<open>VolumeFake\<close>, \<open>NetworkFake\<close>, \<open>Files\<close>,
  \<open>LifecycleFake\<close> and \<open>VmLife\<close> hold the lemmas that give each of these verbs its exact effect on the
  simulator.

  \<^bold>\<open>The node\<close> (\<open>src/nyc/routers\<close>, \<open>src/nyc/tables\<close>, \<open>src/nyc/reconciler\<close>).
  \<open>Tables\<close>: the rows and the store. The store is not part of the repository: \<open>'db client\<close> is a record of
  its operations, the locale \<open>dadar\<close> states what the code relies on (insert with defaults and uniqueness,
  get, all, update, delete), and the locale is interpreted on lists. \<open>Routers\<close>, \<open>VmRouters\<close>, \<open>NetRouters\<close>:
  every handler. \<open>Reconciler\<close> and \<open>Executor\<close>: the passes, the queue of tasks, the two loops.
  \<open>App\<close>: the routes (\<open>routers/__init__.py\<close>) as the constructors of \<open>request\<close>, served by \<open>serve\<close>, and the start-up
  and shutdown hooks of \<open>app.py\<close> over the record of a node's process.
  \<open>VmRequests\<close> and \<open>SpawnRequests\<close> hold the lemmas that take the handlers about VMs, from the rows they read to the
  specification they hand to \<open>vm_up\<close>, down to the simulated host. \<open>DbLogic\<close> has a small logic of triples
  (\<open>db_ok\<close>, \<open>db_safe\<close>) in which \<open>DbInvariant\<close> proves that every handler, pass and tick keeps the database's
  invariant. \<open>HostLogic\<close> does the same for database and host together: the locale \<open>calm\<close> says what a predicate
  must survive so that every verb of the client keeps it, \<open>calm_node\<close> what it must survive so that everything a
  node serves does.

  \<^bold>\<open>The scripts\<close> (\<open>src/scripts\<close>). \<open>Operator\<close>: the machine they run on; \<open>Inventory\<close>, \<open>Deploy\<close>,
  \<open>Preflight\<close>, \<open>Provision\<close>: the scripts of those names, and \<open>teardown.py\<close> with the last.

  \<^bold>\<open>What is shown.\<close>
  \<open>DbInvariant\<close>: the database invariant in every reachable state, with the addresses of VMs.
  \<open>HostInvariant\<close>: in every reachable state each row of a volume, snapshot or image has its logical volume.
  \<open>Races\<close>: two creations cut between what they read or make and what they record, and what overlapping work
  does at the cut: a pass of the reconciler removes a volume on its way to its row, and two nodes give out
  one address twice.
  \<open>FakeProps\<close>: the simulator's state is well formed after any commands.
  \<open>LifeProps\<close>: the four lifecycle programs refine an abstract machine in which each VM is absent, stopped or
  running, over any interleaved sequence of operations.
  \<open>RequestProps\<close>: a VM created, asked for, stopped, started and deleted through the API, with the exact rows and
  the exact host after each request, and what a creation that fails leaves. \<open>SpawnProps\<close>: the reverse proxy,
  from one request to its volume, VM, address and tasks; a spawn into a full VPC. \<open>AttachProps\<close>: an attached
  address rebuilds the VM from the default image. \<open>ReconcileProps\<close>: the passes over VMs and tunnels.
  \<open>ForwardProps\<close>: every handler split into the program that finds the owner, the part that runs there and the
  message between them, with forwarding as one hop to the owner; and the list of VMs put together from the
  owners' answers, which one unreachable owner makes fail.
  \<open>VmProps\<close>: up, down, stop and start are exact, their round trip restores the node, waiting ends, and
  a VM with a dead process cannot be taken down on a real host.
  \<open>VolumeProps\<close>, \<open>NetworkProps\<close>, \<open>Allocate\<close>: substrate, thin volumes, rules, tunnels, names, addresses.
  \<open>RouterProps\<close>, \<open>CascadeProps\<close>: what handlers answer and do, and the cascade of a deletion.
  \<open>ExecutorProps\<close>: the queue drains in order, the storage passes converge, one loop at a time.
  \<open>ScriptProps\<close>, \<open>PreflightProps\<close>: order of provisioning, bounded waits, the audit against the node's
  own code, exit codes, the hosts of the inventory, teardown.

  \<^bold>\<open>Bounds.\<close> Waiting for a killed process polls 30 times, as the code does (3 s by 0.1 s). The health
  wait is a function with a proof of termination: the clock advances 2 s a round towards a deadline of
  120 s. \<open>loop_body\<close> and the loops take the number of rounds as an argument, and the statements hold for
  every number; address search is bounded by the network's size. No other code loops without a bound.

  \<^bold>\<open>Not modelled.\<close> IPv6 and \<open>ipaddress\<close>'s lax spellings; a time to live or an interval with a fraction; real time
  (waits only move the clock); symbolic links are resolved one level; Python's order of set iteration
  (sets are walked in the order of the list they came from). Handlers run one after another, and a change
  of another node comes between two requests or in answer to one; overlapping is modelled at the two places
  that \<open>Races\<close> cuts and nowhere else. A database that cannot be reached is not modelled: reads, updates and
  deletions succeed, and an insertion fails only for a taken key. ssh, curl, pyinfra, the shell, the
  TOML and JSON parsers, SHA-256, the guest and the real host are functions of the world, of which
  nothing is assumed. The preflight's thread pool runs its probes in order; argparse's results are an
  argument. pyinfra's operations are values handed to it; what it and the shell do with them is outside. Shell scripts and templates are left out, and so is the framework
  that matches a path to a route and calls the hooks. What the map does not cover of the Python files is docstrings,
  imports, the routers' prefixes and the command line's parser.
\<close>

end
